(* ===== verification/Prelude.thy ===== *)
theory Prelude
  imports Main "HOL-Library.Word" "HOL-Library.List_Lexorder"
begin

text \<open>
  Shared vocabulary of the development: bytes and machine integers, Rust strings as
  lists of Unicode scalar values with their UTF-8 encoding, big-endian integers, the
  three-valued outcome of an asynchronous operation and the byte channel it runs on,
  and the generic list lemmas the components use.
\<close>

named_theorems io_simps
named_theorems const_simps

section \<open>Bytes, machine integers, strings\<close>

type_synonym byte = "8 word"
type_synonym bytes = "byte list"
type_synonym u16 = "16 word"
type_synonym u32 = "32 word"
type_synonym u64 = "64 word"

text \<open>
  A Rust \<open>char\<close> is a Unicode scalar value; a \<open>String\<close> is UTF-8 text, so it is
  modelled by the list of its scalar values, and \<open>str_len\<close> is \<open>String::len\<close>, the
  number of bytes of the UTF-8 form.
\<close>

type_synonym uchar = nat
type_synonym ustring = "uchar list"

definition ascii :: "string \<Rightarrow> ustring" where
  "ascii s = map of_char s"

definition utf8_char :: "uchar \<Rightarrow> bytes" where
  "utf8_char c =
     (if c < 128 then [of_nat c]
      else if c < 2048 then [of_nat (192 + c div 64), of_nat (128 + c mod 64)]
      else if c < 65536 then
        [of_nat (224 + c div 4096), of_nat (128 + c div 64 mod 64), of_nat (128 + c mod 64)]
      else [of_nat (240 + c div 262144), of_nat (128 + c div 4096 mod 64),
            of_nat (128 + c div 64 mod 64), of_nat (128 + c mod 64)])"

definition utf8 :: "ustring \<Rightarrow> bytes" where
  "utf8 s = concat (map utf8_char s)"

definition str_len :: "ustring \<Rightarrow> nat" where
  "str_len s = length (utf8 s)"

definition is_ascii :: "ustring \<Rightarrow> bool" where
  "is_ascii s \<longleftrightarrow> list_all (\<lambda>c. c < 128) s"

lemma utf8_Nil [simp]: "utf8 [] = []"
  by (simp add: utf8_def)

lemma utf8_Cons [simp]: "utf8 (c # s) = utf8_char c @ utf8 s"
  by (simp add: utf8_def)

lemma utf8_append [simp]: "utf8 (s @ t) = utf8 s @ utf8 t"
  by (simp add: utf8_def)

lemma str_len_Nil [simp]: "str_len [] = 0"
  by (simp add: str_len_def)

lemma str_len_Cons [simp]: "str_len (c # s) = length (utf8_char c) + str_len s"
  by (simp add: str_len_def)

lemma str_len_append [simp]: "str_len (s @ t) = str_len s + str_len t"
  by (simp add: str_len_def)

lemma utf8_char_ascii [simp]: "c < 128 \<Longrightarrow> utf8_char c = [of_nat c]"
  by (simp add: utf8_char_def)

lemma utf8_char_length: "Suc 0 \<le> length (utf8_char c)" "length (utf8_char c) \<le> 4"
  by (simp_all add: utf8_char_def)

lemma utf8_char_nonempty [simp]: "utf8_char c \<noteq> []"
  using utf8_char_length(1) [of c] by auto

lemma unat_small_byte: "n < 256 \<Longrightarrow> unat (of_nat n :: byte) = n"
  by (simp add: unat_of_nat)

lemma utf8_char_hi:
  assumes "\<not> c < 128"
  shows "\<exists>b \<in> set (utf8_char c). 128 \<le> unat b"
proof -
  have m: "c mod 64 < 64" by simp
  then have "128 + c mod 64 < 256" by simp
  then have "128 \<le> unat (of_nat (128 + c mod 64) :: byte)"
    by (simp only: unat_small_byte)
  moreover have "of_nat (128 + c mod 64) \<in> set (utf8_char c)"
    using assms by (simp add: utf8_char_def del: of_nat_add)
  ultimately show ?thesis by blast
qed

lemma is_ascii_simps [simp]:
  "is_ascii []" "is_ascii (c # s) \<longleftrightarrow> c < 128 \<and> is_ascii s"
  "is_ascii (s @ t) \<longleftrightarrow> is_ascii s \<and> is_ascii t"
  by (simp_all add: is_ascii_def)

lemma utf8_ascii: "is_ascii s \<Longrightarrow> utf8 s = map of_nat s"
  by (induction s) auto

lemma str_len_ascii [simp]: "is_ascii s \<Longrightarrow> str_len s = length s"
  by (simp add: str_len_def utf8_ascii)

lemma length_le_str_len: "length s \<le> str_len s"
proof (induction s)
  case (Cons c s)
  then show ?case using utf8_char_length(1) [of c] by (simp only: str_len_Cons length_Cons)
qed simp

text \<open>
  Byte indices into a string. \<open>char_floor n s\<close> is the longest prefix of whole
  characters whose UTF-8 form has at most \<open>n\<close> bytes: the text before
  \<open>s.floor_char_boundary(n)\<close>. \<open>slice_at n s\<close> splits at byte \<open>n\<close> and is
  \<open>None\<close> where Rust's slicing panics, that is where \<open>n\<close> falls inside a character or past
  the end.
\<close>

fun char_floor :: "nat \<Rightarrow> ustring \<Rightarrow> ustring" where
  "char_floor n [] = []"
| "char_floor n (c # s) =
     (if length (utf8_char c) \<le> n then c # char_floor (n - length (utf8_char c)) s else [])"

fun slice_at :: "nat \<Rightarrow> ustring \<Rightarrow> (ustring \<times> ustring) option" where
  "slice_at n s =
     (if n = 0 then Some ([], s)
      else case s of
        [] \<Rightarrow> None
      | c # t \<Rightarrow>
          (if length (utf8_char c) \<le> n
           then map_option (\<lambda>(a, b). (c # a, b)) (slice_at (n - length (utf8_char c)) t)
           else None))"

declare slice_at.simps [simp del]

lemma char_floor_len: "str_len (char_floor n s) \<le> n"
  by (induction n s rule: char_floor.induct) auto

lemma char_floor_prefix: "\<exists>t. s = char_floor n s @ t"
  by (induction n s rule: char_floor.induct) auto

lemma char_floor_all: "str_len s \<le> n \<Longrightarrow> char_floor n s = s"
  by (induction n s rule: char_floor.induct) auto

lemma slice_at_run [simp]:
  "slice_at 0 s = Some ([], s)"
  "slice_at (Suc n) [] = None"
  "slice_at (Suc n) (c # s) =
     (if length (utf8_char c) \<le> Suc n
      then map_option (\<lambda>(a, b). (c # a, b)) (slice_at (Suc n - length (utf8_char c)) s)
      else None)"
  by (simp_all add: slice_at.simps)

lemma slice_at_ascii:
  "is_ascii s \<Longrightarrow> n \<le> length s \<Longrightarrow> slice_at n s = Some (take n s, drop n s)"
proof (induction s arbitrary: n)
  case (Cons c s)
  then show ?case by (cases n) simp_all
qed simp

text \<open>ASCII case mapping and the character classes of \<open>core::char\<close>.\<close>

definition to_ascii_uppercase :: "uchar \<Rightarrow> uchar" where
  "to_ascii_uppercase c = (if 97 \<le> c \<and> c \<le> 122 then c - 32 else c)"

definition to_ascii_lowercase :: "uchar \<Rightarrow> uchar" where
  "to_ascii_lowercase c = (if 65 \<le> c \<and> c \<le> 90 then c + 32 else c)"

definition is_ascii_alphanumeric :: "uchar \<Rightarrow> bool" where
  "is_ascii_alphanumeric c \<longleftrightarrow>
     48 \<le> c \<and> c \<le> 57 \<or> 65 \<le> c \<and> c \<le> 90 \<or> 97 \<le> c \<and> c \<le> 122"

lemma to_ascii_uppercase_idem [simp]:
  "to_ascii_uppercase (to_ascii_uppercase c) = to_ascii_uppercase c"
  by (auto simp: to_ascii_uppercase_def)

text \<open>The Unicode \<open>White_Space\<close> property, which \<open>str::trim\<close> and \<open>char::is_whitespace\<close> use.\<close>

definition is_whitespace :: "uchar \<Rightarrow> bool" where
  "is_whitespace c \<longleftrightarrow>
     9 \<le> c \<and> c \<le> 13 \<or> c = 32 \<or> c = 133 \<or> c = 160 \<or> c = 5760
     \<or> 8192 \<le> c \<and> c \<le> 8202 \<or> c = 8232 \<or> c = 8233 \<or> c = 8239 \<or> c = 8287 \<or> c = 12288"

definition str_trim :: "ustring \<Rightarrow> ustring" where
  "str_trim s = rev (dropWhile is_whitespace (rev (dropWhile is_whitespace s)))"

lemma dropWhile_hd: "xs = [] \<or> \<not> P (hd xs) \<Longrightarrow> dropWhile P xs = xs"
  by (cases xs) auto

lemma str_trim_ends:
  "str_trim s = [] \<or> \<not> is_whitespace (hd (str_trim s)) \<and> \<not> is_whitespace (last (str_trim s))"
proof (cases "str_trim s = []")
  case False
  let ?d = "dropWhile is_whitespace s"
  let ?e = "dropWhile is_whitespace (rev ?d)"
  have t: "str_trim s = rev ?e" by (simp add: str_trim_def)
  from False t have e: "?e \<noteq> []" by simp
  obtain p where "rev ?d = p @ ?e" by (metis takeWhile_dropWhile_id)
  then have d: "?d = rev ?e @ rev p" by (metis rev_append rev_rev_ident)
  have "?d \<noteq> []" using e by force
  then have "\<not> is_whitespace (hd ?d)" by (metis hd_dropWhile)
  moreover have "hd ?d = hd (rev ?e)" using d e by (metis hd_append2 rev_is_Nil_conv)
  moreover have "\<not> is_whitespace (hd ?e)" using e by (rule hd_dropWhile)
  ultimately show ?thesis using e by (simp add: t last_rev)
qed simp

lemma str_trim_fix:
  "s = [] \<or> \<not> is_whitespace (hd s) \<and> \<not> is_whitespace (last s) \<Longrightarrow> str_trim s = s"
  by (cases "s = []") (auto simp: str_trim_def dropWhile_hd hd_rev)

lemma str_trim_idem [simp]: "str_trim (str_trim s) = str_trim s"
  by (rule str_trim_fix) (rule str_trim_ends)

section \<open>Big-endian integers\<close>

text \<open>\<open>be_bytes k n\<close> is \<open>to_be_bytes\<close> of a \<open>k\<close>-byte integer, \<open>be_val\<close> the converse.\<close>

fun be_bytes :: "nat \<Rightarrow> nat \<Rightarrow> bytes" where
  "be_bytes 0 n = []"
| "be_bytes (Suc k) n = be_bytes k (n div 256) @ [of_nat n]"

definition be_val :: "bytes \<Rightarrow> nat" where
  "be_val bs = foldl (\<lambda>a b. a * 256 + unat b) 0 bs"

lemma byte_lt: "unat (b :: byte) < 256"
  using unsigned_less [of b] by simp

lemma length_be_bytes [simp]: "length (be_bytes k n) = k"
  by (induction k arbitrary: n) auto

lemma be_val_snoc [simp]: "be_val (bs @ [b]) = be_val bs * 256 + unat b"
  by (simp add: be_val_def)

lemma be_val_be_bytes: "be_val (be_bytes k n) = n mod 256 ^ k"
proof (induction k arbitrary: n)
  case 0
  then show ?case by (simp add: be_val_def)
next
  case (Suc k)
  have "be_val (be_bytes (Suc k) n) = n div 256 mod 256 ^ k * 256 + n mod 256"
    by (simp add: Suc.IH unat_of_nat)
  also have "\<dots> = n mod (256 * 256 ^ k)"
    by (simp add: mod_mult2_eq)
  finally show ?case by simp
qed

lemma be_val_be_bytes_id [simp]: "n < 256 ^ k \<Longrightarrow> be_val (be_bytes k n) = n"
  by (simp add: be_val_be_bytes)

lemma be_bytes_inj: "be_bytes k m = be_bytes k n \<Longrightarrow> m < 256 ^ k \<Longrightarrow> n < 256 ^ k \<Longrightarrow> m = n"
  by (metis be_val_be_bytes_id)

lemma be_val_bound: "be_val bs < 256 ^ length bs"
proof (induction bs rule: rev_induct)
  case Nil
  then show ?case by (simp add: be_val_def)
next
  case (snoc b bs)
  with byte_lt [of b] show ?case by simp
qed

lemma be_bytes_be_val: "length bs = k \<Longrightarrow> be_bytes k (be_val bs) = bs"
proof (induction bs arbitrary: k rule: rev_induct)
  case (snoc b bs)
  then obtain j where "k = Suc j" "length bs = j" by (cases k) auto
  moreover have "(be_val bs * 256 + unat b) div 256 = be_val bs" using byte_lt [of b] by simp
  moreover have "(of_nat (be_val bs * 256 + unat b) :: byte) = b"
  proof -
    have z: "(256 :: byte) = 0" by simp
    have "(of_nat (be_val bs * 256 + unat b) :: byte) = of_nat (be_val bs) * 256 + b" by simp
    then show ?thesis unfolding z by simp
  qed
  ultimately show ?case using snoc.IH by simp
qed simp

text \<open>\<open>u64::saturating_add\<close> and \<open>u64::saturating_sub\<close>.\<close>

definition saturating_add :: "u64 \<Rightarrow> u64 \<Rightarrow> u64" where
  "saturating_add a b = (if unat a + unat b < 2 ^ 64 then a + b else - 1)"

definition saturating_sub :: "u64 \<Rightarrow> u64 \<Rightarrow> u64" where
  "saturating_sub a b = (if b \<le> a then a - b else 0)"

lemma u64_lt: "unat (a :: u64) < 2 ^ 64"
  using unsigned_less [of a] by simp

lemma unat_saturating_add: "unat (saturating_add a b) = min (unat a + unat b) (2 ^ 64 - 1)"
proof (cases "unat a + unat b < 2 ^ 64")
  case True
  then have "unat (a + b) = unat a + unat b" by (simp add: unat_plus_if_size word_size)
  with True show ?thesis by (simp add: saturating_add_def)
next
  case False
  then show ?thesis by (simp add: saturating_add_def unsigned_minus_1_eq_mask mask_eq_exp_minus_1)
qed

text \<open>Hexadecimal rendering of bytes, lower case as \<open>{:02x}\<close>, upper case as \<open>{:02X}\<close>.\<close>

definition hex_digit :: "nat \<Rightarrow> uchar" where
  "hex_digit d = (if d < 10 then 48 + d else 87 + d)"

definition hex_byte :: "byte \<Rightarrow> ustring" where
  "hex_byte b = [hex_digit (unat b div 16), hex_digit (unat b mod 16)]"

definition hex_upper :: "byte \<Rightarrow> ustring" where
  "hex_upper b = map to_ascii_uppercase (hex_byte b)"

definition hex :: "bytes \<Rightarrow> ustring" where
  "hex bs = concat (map hex_byte bs)"

lemma hex_digit_inj: "hex_digit d = hex_digit e \<Longrightarrow> d < 16 \<Longrightarrow> e < 16 \<Longrightarrow> d = e"
  by (auto simp: hex_digit_def split: if_splits)

lemma nibbles: "unat (b :: byte) div 16 < 16" "unat (b :: byte) mod 16 < 16"
  using byte_lt [of b] by auto

lemma hex_byte_inj [simp]: "hex_byte a = hex_byte b \<longleftrightarrow> a = b"
proof
  assume "hex_byte a = hex_byte b"
  then have "unat a div 16 = unat b div 16" "unat a mod 16 = unat b mod 16"
    by (auto simp: hex_byte_def intro: hex_digit_inj nibbles)
  then have "unat a = unat b" by (metis div_mult_mod_eq)
  then show "a = b" by (simp add: word_unat_eq_iff)
qed simp

lemma upper_hex_digit_inj:
  "to_ascii_uppercase (hex_digit d) = to_ascii_uppercase (hex_digit e) \<Longrightarrow> d < 16 \<Longrightarrow> e < 16 \<Longrightarrow> d = e"
  by (auto simp: hex_digit_def to_ascii_uppercase_def split: if_splits)

lemma hex_upper_inj [simp]: "hex_upper a = hex_upper b \<longleftrightarrow> a = b"
proof
  assume "hex_upper a = hex_upper b"
  then have "unat a div 16 = unat b div 16" "unat a mod 16 = unat b mod 16"
    by (auto simp: hex_upper_def hex_byte_def intro: upper_hex_digit_inj nibbles)
  then have "unat a = unat b" by (metis div_mult_mod_eq)
  then show "a = b" by (simp add: word_unat_eq_iff)
qed simp

lemma length_hex_byte [simp]: "length (hex_byte b) = 2" "length (hex_upper b) = 2"
  by (simp_all add: hex_byte_def hex_upper_def)

lemma length_hex [simp]: "length (hex bs) = 2 * length bs"
  by (induction bs) (simp_all add: hex_def)

lemma hex_Cons: "hex (x # a) = hex_byte x @ hex a"
  by (simp add: hex_def)

lemma hex_inj: "hex a = hex b \<Longrightarrow> a = b"
proof (induction a arbitrary: b)
  case Nil
  then show ?case by (cases b) (simp_all add: hex_def hex_byte_def)
next
  case (Cons x a)
  from Cons.prems obtain y c where b: "b = y # c"
    by (cases b) (simp_all add: hex_def hex_byte_def)
  with Cons.prems have "hex_byte x = hex_byte y \<and> hex a = hex c"
    by (simp add: hex_Cons append_eq_append_conv del: hex_byte_inj)
  with b Cons.IH show ?case by simp
qed

section \<open>Channels and asynchronous programs\<close>

text \<open>
  One end of a session's byte stream. \<open>rx\<close> holds the bytes the peer will deliver, in
  order, and \<open>rx_end\<close> says what follows them: end of stream, or silence. \<open>tx\<close> is what this
  end has written, \<open>fin\<close> whether it has finished its send stream, and \<open>wcap\<close> how
  many more bytes the transport takes before the connection fails.
\<close>

datatype rx_end = Eof | Silent

record chan =
  rx :: bytes
  rx_end :: rx_end
  tx :: bytes
  fin :: bool
  wcap :: nat

text \<open>
  An asynchronous function run to completion: it returns, it fails, or it waits for
  bytes that never come (which the callers that impose a deadline turn into a timeout).
\<close>

datatype ('e, 'a) outcome = Done 'a | Fail 'e | Stall

definition failed :: "('e, 'a) outcome \<Rightarrow> bool" where
  "failed r \<longleftrightarrow> (case r of Done _ \<Rightarrow> False | _ \<Rightarrow> True)"

lemma failed_iff: "failed r \<longleftrightarrow> (\<forall>a. r \<noteq> Done a)"
  by (cases r) (auto simp: failed_def)

type_synonym ('s, 'e, 'a) prog = "'s \<Rightarrow> ('e, 'a) outcome \<times> 's"

definition ret :: "'a \<Rightarrow> ('s, 'e, 'a) prog" where
  "ret a s = (Done a, s)"

definition throw :: "'e \<Rightarrow> ('s, 'e, 'a) prog" where
  "throw e s = (Fail e, s)"

definition bindp :: "('s, 'e, 'a) prog \<Rightarrow> ('a \<Rightarrow> ('s, 'e, 'b) prog) \<Rightarrow> ('s, 'e, 'b) prog" where
  "bindp m f s =
     (case m s of
        (Done a, s') \<Rightarrow> f a s'
      | (Fail e, s') \<Rightarrow> (Fail e, s')
      | (Stall, s') \<Rightarrow> (Stall, s'))"

definition lift_sum :: "'e + 'a \<Rightarrow> ('s, 'e, 'a) prog" where
  "lift_sum r = (case r of Inl e \<Rightarrow> throw e | Inr a \<Rightarrow> ret a)"

definition map_err :: "('e \<Rightarrow> 'f) \<Rightarrow> ('s, 'e, 'a) prog \<Rightarrow> ('s, 'f, 'a) prog" where
  "map_err g m s =
     (case m s of
        (Done a, s') \<Rightarrow> (Done a, s')
      | (Fail e, s') \<Rightarrow> (Fail (g e), s')
      | (Stall, s') \<Rightarrow> (Stall, s'))"

definition guardp :: "bool \<Rightarrow> 'e \<Rightarrow> ('s, 'e, unit) prog" where
  "guardp b e = (if b then ret () else throw e)"

lemma ret_run [io_simps]: "ret a s = (Done a, s)"
  by (simp add: ret_def)

lemma throw_run [io_simps]: "throw e s = (Fail e, s)"
  by (simp add: throw_def)

lemma guardp_run [io_simps]: "guardp b e s = (if b then (Done (), s) else (Fail e, s))"
  by (simp add: guardp_def io_simps)

lemma lift_sum_run [io_simps]:
  "lift_sum (Inl e) s = (Fail e, s)" "lift_sum (Inr a) s = (Done a, s)"
  by (simp_all add: lift_sum_def io_simps)

lemma bindp_Done [io_simps]: "m s = (Done a, s') \<Longrightarrow> bindp m f s = f a s'"
  by (simp add: bindp_def)

lemma bindp_Fail [io_simps]: "m s = (Fail e, s') \<Longrightarrow> bindp m f s = (Fail e, s')"
  by (simp add: bindp_def)

lemma bindp_Stall [io_simps]: "m s = (Stall, s') \<Longrightarrow> bindp m f s = (Stall, s')"
  by (simp add: bindp_def)

lemma bindp_DoneE:
  assumes "bindp m f s = (Done b, t)"
  obtains a s' where "m s = (Done a, s')" "f a s' = (Done b, t)"
  using assms by (auto simp: bindp_def split: prod.splits outcome.splits)

lemma map_err_Done [simp]: "map_err g m s = (Done a, t) \<longleftrightarrow> m s = (Done a, t)"
  by (auto simp: map_err_def split: prod.splits outcome.splits)

lemma map_err_snd [simp]: "snd (map_err g m s) = snd (m s)"
  by (auto simp: map_err_def split: prod.splits outcome.splits)

lemma guardp_Done [simp]: "guardp b e s = (Done u, t) \<longleftrightarrow> b \<and> t = s"
  by (auto simp: io_simps)

lemma lift_sum_Done [simp]: "lift_sum r s = (Done a, t) \<longleftrightarrow> r = Inr a \<and> t = s"
  by (cases r) (auto simp: io_simps)

lemma ret_Done [simp]: "ret a s = (Done b, t) \<longleftrightarrow> a = b \<and> t = s"
  by (auto simp: io_simps)

lemma throw_Done [simp]: "throw e s \<noteq> (Done b, t)"
  by (auto simp: io_simps)

text \<open>
  Weakest preconditions: \<open>runs m s Q\<close> says that the outcome of \<open>m\<close> from \<open>s\<close>, whatever it
  is, satisfies \<open>Q\<close>. The equations \<open>wp\<close> execute a program symbolically.
\<close>

definition runs :: "('s, 'e, 'a) prog \<Rightarrow> 's \<Rightarrow> (('e, 'a) outcome \<Rightarrow> 's \<Rightarrow> bool) \<Rightarrow> bool" where
  "runs m s Q \<longleftrightarrow> (case m s of (r, t) \<Rightarrow> Q r t)"

named_theorems wp

lemma runs_eq: "runs m s (\<lambda>r t. r = a \<and> t = b) \<longleftrightarrow> m s = (a, b)"
  by (auto simp: runs_def split: prod.splits)

lemma runs_conseq: "runs m s Q \<Longrightarrow> (\<And>r t. m s = (r, t) \<Longrightarrow> Q r t \<Longrightarrow> R r t) \<Longrightarrow> runs m s R"
  by (auto simp: runs_def split: prod.splits)

lemma runsD: "runs m s Q \<Longrightarrow> m s = (r, t) \<Longrightarrow> Q r t"
  by (simp add: runs_def)

lemma runs_ret [wp]: "runs (ret a) s Q \<longleftrightarrow> Q (Done a) s"
  by (simp add: runs_def io_simps)

lemma runs_throw [wp]: "runs (throw e) s Q \<longleftrightarrow> Q (Fail e) s"
  by (simp add: runs_def io_simps)

lemma runs_guardp [wp]: "runs (guardp b e) s Q \<longleftrightarrow> (if b then Q (Done ()) s else Q (Fail e) s)"
  by (simp add: runs_def io_simps)

lemma runs_lift_sum [wp]:
  "runs (lift_sum r) s Q \<longleftrightarrow> (case r of Inl e \<Rightarrow> Q (Fail e) s | Inr a \<Rightarrow> Q (Done a) s)"
  by (auto simp: runs_def io_simps lift_sum_def split: sum.splits)

lemma runs_bindp [wp]:
  "runs (bindp m f) s Q \<longleftrightarrow>
     runs m s (\<lambda>r t. case r of Done a \<Rightarrow> runs (f a) t Q | Fail e \<Rightarrow> Q (Fail e) t | Stall \<Rightarrow> Q Stall t)"
  by (auto simp: runs_def bindp_def split: prod.splits outcome.splits)

lemma runs_map_err [wp]:
  "runs (map_err g m) s Q \<longleftrightarrow>
     runs m s (\<lambda>r t. case r of Done a \<Rightarrow> Q (Done a) t | Fail e \<Rightarrow> Q (Fail (g e)) t | Stall \<Rightarrow> Q Stall t)"
  by (auto simp: runs_def map_err_def split: prod.splits outcome.splits)

text \<open>
  A channel whose owner also holds shared state, and a callback that may change that state.
\<close>

record 'w hchan = chan +
  world :: 'w

definition call_commit :: "('w \<Rightarrow> bool \<times> 'w) \<Rightarrow> ('w hchan, 'e, bool) prog" where
  "call_commit commit s = (case commit (world s) of (b, w) \<Rightarrow> (Done b, s\<lparr>world := w\<rparr>))"

lemma runs_commit [wp]:
  "runs (call_commit commit) s Q \<longleftrightarrow>
     Q (Done (fst (commit (world s)))) (s\<lparr>world := snd (commit (world s))\<rparr>)"
  by (auto simp: runs_def call_commit_def split: prod.splits)

text \<open>A frame condition: a program that only consumes input.\<close>

definition reads_only :: "('z chan_scheme, 'e, 'a) prog \<Rightarrow> bool" where
  "reads_only m \<longleftrightarrow> (\<forall>s. \<exists>r. snd (m s) = s\<lparr>rx := r\<rparr>)"

named_theorems reads

lemma reads_onlyD: "reads_only m \<Longrightarrow> m s = (r, t) \<Longrightarrow> \<exists>q. t = s\<lparr>rx := q\<rparr>"
  unfolding reads_only_def by (metis snd_conv)

lemma reads_same [simp]: "\<exists>q. (s :: 'z chan_scheme) = s\<lparr>rx := q\<rparr>"
  by (rule exI [of _ "rx s"]) simp

lemma reads_basic [reads]:
  "reads_only (ret a)" "reads_only (throw e)" "reads_only (lift_sum r)" "reads_only (guardp b e)"
  by (auto simp: reads_only_def ret_def throw_def lift_sum_def guardp_def split: sum.splits)

lemma reads_bindp [reads]:
  assumes "reads_only m" and "\<And>a. reads_only (f a)"
  shows "reads_only (bindp m f)"
  unfolding reads_only_def
proof
  fix s :: "'a chan_scheme"
  obtain r t where m: "m s = (r, t)" by (cases "m s")
  with assms(1) obtain q where t: "t = s\<lparr>rx := q\<rparr>" using reads_onlyD by blast
  show "\<exists>r. snd (bindp m f s) = s\<lparr>rx := r\<rparr>"
  proof (cases r)
    case (Done a)
    obtain r' u where f: "f a t = (r', u)" by (cases "f a t")
    with assms(2) [of a] obtain q' where "u = t\<lparr>rx := q'\<rparr>" using reads_onlyD by blast
    with m Done f t show ?thesis by (auto simp: bindp_def)
  qed (use m t in \<open>auto simp: bindp_def\<close>)
qed

lemma reads_map_err [reads]: "reads_only m \<Longrightarrow> reads_only (map_err g m)"
  by (simp add: reads_only_def)

section \<open>Lists and numbers\<close>

text \<open>Apply a fallible function to each element, stopping at the first error.\<close>

fun traverse :: "('a \<Rightarrow> 'e + 'b) \<Rightarrow> 'a list \<Rightarrow> 'e + 'b list" where
  "traverse f [] = Inr []"
| "traverse f (x # xs) =
     (case f x of
        Inl e \<Rightarrow> Inl e
      | Inr y \<Rightarrow> (case traverse f xs of Inl e \<Rightarrow> Inl e | Inr ys \<Rightarrow> Inr (y # ys)))"

lemma traverse_Inr: "(\<And>x. x \<in> set xs \<Longrightarrow> f x = Inr (g x)) \<Longrightarrow> traverse f xs = Inr (map g xs)"
  by (induction xs) auto

lemma traverse_InrD:
  "traverse f xs = Inr ys \<Longrightarrow>
     length ys = length xs \<and> (\<forall>i < length xs. f (xs ! i) = Inr (ys ! i))"
  by (induction xs arbitrary: ys) (auto split: sum.splits simp: less_Suc_eq_0_disj)

text \<open>Decimal rendering, as \<open>{}\<close> prints an unsigned integer.\<close>

fun dec :: "nat \<Rightarrow> ustring" where
  "dec n = (if n < 10 then [48 + n] else dec (n div 10) @ [48 + n mod 10])"

declare dec.simps [simp del]


lemma append_same_length:
  "length a = length c \<Longrightarrow> a @ b = c @ d \<longleftrightarrow> a = c \<and> b = d"
  by (rule append_eq_append_conv) simp

lemma find_Some_set: "find P xs = Some x \<Longrightarrow> x \<in> set xs \<and> P x"
  by (auto simp: find_Some_iff)

lemma distinct_map_replace:
  "distinct (map f (xs[i := y])) = distinct (map f xs)" if "i < length xs" "f (xs ! i) = f y"
  using that by (metis list_update_id map_update)

end
