(* ===== verification/Identity.thy ===== *)
theory Identity
  imports Prelude
begin

text \<open>
  Device names (\<open>duocb-core/src/identity.rs\<close>): the permanent random suffix, the rules for
  a user-chosen name, and the display form \<open>name_suffix\<close> an identity card carries with its
  parser.  The draws of the random generator are the parameter \<open>rng\<close> of
  \<open>generate_suffix\<close>.
\<close>

section \<open>Names and suffixes\<close>

definition UNAMBIGUOUS_ALPHANUM :: bytes where
  "UNAMBIGUOUS_ALPHANUM =
     map of_char ''23456789ABCDEFGHJKLMNPQRSTUVWXYZabcdefghijkmnpqrstuvwxyz''"

definition SUFFIX_LEN :: nat where [const_simps]: "SUFFIX_LEN = 8"
definition NAME_MAX_LEN :: nat where [const_simps]: "NAME_MAX_LEN = 24"
definition IDENTITY_SEPARATOR :: uchar where [const_simps]: "IDENTITY_SEPARATOR = 95"

text \<open>\<open>rng i\<close> is the \<open>i\<close>-th result of \<open>random_range(0..56)\<close>.\<close>

definition generate_suffix :: "(nat \<Rightarrow> nat) \<Rightarrow> ustring" where
  "generate_suffix rng = map (\<lambda>i. unat (UNAMBIGUOUS_ALPHANUM ! rng i)) [0..<SUFFIX_LEN]"

definition is_valid_suffix :: "ustring \<Rightarrow> bool" where
  "is_valid_suffix suffix \<longleftrightarrow>
     str_len suffix = SUFFIX_LEN \<and> list_all (\<lambda>b. List.member UNAMBIGUOUS_ALPHANUM b) (utf8 suffix)"

datatype name_error =
  NameEmpty
| NameTooLong
| NameBadChar uchar
| NoSuffix
| ManySeparators
| BadSuffix

definition name_char :: "uchar \<Rightarrow> bool" where
  "name_char c \<longleftrightarrow> is_ascii_alphanumeric c \<or> c = 45"

definition validate_name :: "ustring \<Rightarrow> name_error + unit" where
  "validate_name name =
     (if name = [] then Inl NameEmpty
      else if length name > NAME_MAX_LEN then Inl NameTooLong
      else case find (\<lambda>c. \<not> name_char c) name of
             Some bad \<Rightarrow> Inl (NameBadChar bad)
           | None \<Rightarrow> Inr ())"

definition display_identity :: "ustring \<Rightarrow> ustring \<Rightarrow> ustring" where
  "display_identity name suffix = name @ [IDENTITY_SEPARATOR] @ suffix"

text \<open>\<open>str::split_once\<close> at a character.\<close>

fun split_once :: "uchar \<Rightarrow> ustring \<Rightarrow> (ustring \<times> ustring) option" where
  "split_once d [] = None"
| "split_once d (c # s) =
     (if c = d then Some ([], s) else map_option (\<lambda>(a, b). (c # a, b)) (split_once d s))"

definition split_display_identity :: "ustring \<Rightarrow> name_error + (ustring \<times> ustring)" where
  "split_display_identity display =
     (case split_once IDENTITY_SEPARATOR display of
        None \<Rightarrow> Inl NoSuffix
      | Some (name, suffix) \<Rightarrow>
          (if List.member suffix IDENTITY_SEPARATOR then Inl ManySeparators
           else case validate_name name of
                  Inl e \<Rightarrow> Inl e
                | Inr _ \<Rightarrow>
                    (if \<not> is_valid_suffix suffix then Inl BadSuffix else Inr (name, suffix))))"

section \<open>Characterisations\<close>

lemma alphanum_values:
  "UNAMBIGUOUS_ALPHANUM =
     [50,51,52,53,54,55,56,57,65,66,67,68,69,70,71,72,74,75,76,77,78,80,81,82,83,84,85,86,87,88,
      89,90,97,98,99,100,101,102,103,104,105,106,107,109,110,112,113,114,115,116,117,118,119,
      120,121,122]"
  by (simp add: UNAMBIGUOUS_ALPHANUM_def)

lemma alphanum_length [simp]: "length UNAMBIGUOUS_ALPHANUM = 56"
  by (simp add: alphanum_values)

lemma alphanum_ascii: "b \<in> set UNAMBIGUOUS_ALPHANUM \<Longrightarrow> unat b < 128 \<and> unat b \<noteq> 95"
  by (auto simp: alphanum_values)

lemma validate_name_ok:
  "validate_name name = Inr u \<longleftrightarrow>
     name \<noteq> [] \<and> length name \<le> NAME_MAX_LEN \<and> list_all name_char name"
  by (auto simp: validate_name_def find_None_iff list_all_iff split: option.splits dest: find_Some_set)

lemma name_char_ascii: "name_char c \<Longrightarrow> c < 128 \<and> c \<noteq> 95"
  by (auto simp: name_char_def is_ascii_alphanumeric_def)

lemma split_once_Some:
  "split_once d s = Some (a, b) \<longleftrightarrow> s = a @ d # b \<and> d \<notin> set a"
proof (induction s arbitrary: a)
  case (Cons c s)
  show ?case
  proof (cases a)
    case (Cons x a')
    then show ?thesis using Cons.IH [of a'] by auto
  qed auto
qed simp

lemma split_once_None: "split_once d s = None \<longleftrightarrow> d \<notin> set s"
  by (induction s) auto

lemma valid_suffix_ascii:
  assumes "is_valid_suffix s"
  shows "is_ascii s" "length s = SUFFIX_LEN" "IDENTITY_SEPARATOR \<notin> set s"
proof -
  have *: "c < 128 \<and> c \<noteq> 95" if "c \<in> set s" for c
  proof -
    from assms that have b: "b \<in> set UNAMBIGUOUS_ALPHANUM" if "b \<in> set (utf8_char c)" for b
      using that by (auto simp: is_valid_suffix_def list_all_iff utf8_def)
    show ?thesis
    proof (cases "c < 128")
      case True
      with b have "of_nat c \<in> set UNAMBIGUOUS_ALPHANUM" by simp
      from alphanum_ascii [OF this] True show ?thesis by (simp add: unat_small_byte)
    next
      case False
      then obtain x where "x \<in> set (utf8_char c)" "128 \<le> unat x"
        using utf8_char_hi by blast
      with b [of x] alphanum_ascii [of x] show ?thesis by auto
    qed
  qed
  then show a: "is_ascii s" by (simp add: is_ascii_def list_all_iff)
  from assms a show "length s = SUFFIX_LEN" by (simp add: is_valid_suffix_def)
  from * show "IDENTITY_SEPARATOR \<notin> set s" by (auto simp: IDENTITY_SEPARATOR_def)
qed

lemma name_no_separator: "list_all name_char name \<Longrightarrow> IDENTITY_SEPARATOR \<notin> set name"
  using name_char_ascii by (auto simp: list_all_iff IDENTITY_SEPARATOR_def)

lemma generate_suffix_valid:
  assumes "\<forall>i < SUFFIX_LEN. rng i < 56"
  shows "is_valid_suffix (generate_suffix rng)"
proof -
  have m: "UNAMBIGUOUS_ALPHANUM ! rng i \<in> set UNAMBIGUOUS_ALPHANUM" if "i < SUFFIX_LEN" for i
    using assms that by (intro nth_mem) simp
  have a: "is_ascii (generate_suffix rng)"
    using m alphanum_ascii by (auto simp: is_ascii_def list_all_iff generate_suffix_def)
  have "utf8 (generate_suffix rng) = map (\<lambda>i. UNAMBIGUOUS_ALPHANUM ! rng i) [0..<SUFFIX_LEN]"
    unfolding utf8_ascii [OF a] by (simp add: generate_suffix_def)
  with m a show ?thesis by (simp add: is_valid_suffix_def list_all_iff generate_suffix_def)
qed

section \<open>The display form\<close>

text \<open>
  The display form of a device identity round-trips exactly:
  \<open>split_display_identity\<close> accepts a text and returns the pair \<open>(name, suffix)\<close> if and only if
  the name obeys the naming rules, the suffix is a well-formed installation suffix, and the text
  is \<open>display_identity name suffix\<close>. So no other text is accepted and no text is read in two ways.
\<close>

theorem split_display_iff:
  "split_display_identity d = Inr (name, suffix) \<longleftrightarrow>
     validate_name name = Inr () \<and> is_valid_suffix suffix \<and> d = display_identity name suffix"
proof
  assume "split_display_identity d = Inr (name, suffix)"
  then show "validate_name name = Inr () \<and> is_valid_suffix suffix \<and> d = display_identity name suffix"
    by (auto simp: split_display_identity_def display_identity_def split_once_Some
        split: option.splits sum.splits if_splits)
next
  assume h: "validate_name name = Inr () \<and> is_valid_suffix suffix \<and> d = display_identity name suffix"
  then have "split_once IDENTITY_SEPARATOR d = Some (name, suffix)"
    by (auto simp: split_once_Some display_identity_def validate_name_ok dest: name_no_separator)
  with h valid_suffix_ascii(3) [of suffix] show "split_display_identity d = Inr (name, suffix)"
    by (auto simp: split_display_identity_def)
qed

text \<open>An accepted display form is ASCII and at most 33 bytes long.\<close>

lemma split_display_bounds:
  assumes "split_display_identity d = Inr (name, suffix)"
  shows "is_ascii d" "str_len d \<le> NAME_MAX_LEN + 1 + SUFFIX_LEN" "name \<noteq> []"
proof -
  from assms have v: "validate_name name = Inr ()" and s: "is_valid_suffix suffix"
    and d: "d = display_identity name suffix"
    by (auto simp: split_display_identity_def display_identity_def split_once_Some
        split: option.splits sum.splits if_splits)
  from v have n: "name \<noteq> []" "length name \<le> NAME_MAX_LEN" "is_ascii name"
    by (auto simp: validate_name_ok is_ascii_def list_all_iff dest: name_char_ascii)
  from d n valid_suffix_ascii [OF s] show "is_ascii d" by (simp add: display_identity_def IDENTITY_SEPARATOR_def)
  then have "str_len d = length d" by simp
  with d n valid_suffix_ascii [OF s] show "str_len d \<le> NAME_MAX_LEN + 1 + SUFFIX_LEN"
    by (simp add: display_identity_def)
  from n show "name \<noteq> []" by simp
qed

end
