(* ===== verification/Pin.thy ===== *)
theory Pin
  imports Prelude
begin

text \<open>
  The card-setup PIN (\<open>duocb-core/src/pin.rs\<close>): generation with a check character, the
  normalisation and sanitising of typed input, display grouping, rotation buckets, and the salts
  of the two key derivations.  Random draws, the wall clock and Argon2id are parameters.
  \<open>mapped as u8\<close> in the source keeps the low eight bits of a character, and so does the model.
\<close>

section \<open>The alphabet and the check character\<close>

definition ALPHABET :: bytes where
  "ALPHABET = map of_char ''0123456789ABCDEFGHJKMNPQRSTVWXYZ''"

definition PIN_LEN :: nat where [const_simps]: "PIN_LEN = 8"
definition PIN_CHECK_LEN :: nat where [const_simps]: "PIN_CHECK_LEN = 1"
definition PIN_DATA_LEN :: nat where [const_simps]: "PIN_DATA_LEN = PIN_LEN - PIN_CHECK_LEN"
definition PIN_GROUP_LEN :: nat where [const_simps]: "PIN_GROUP_LEN = PIN_LEN div 2"
definition BUCKET_SECS :: u64 where [const_simps]: "BUCKET_SECS = 60"

text \<open>\<open>iter().position(|a| a == b).unwrap_or(0)\<close>.\<close>

fun position :: "byte \<Rightarrow> bytes \<Rightarrow> nat option" where
  "position b [] = None"
| "position b (a # as) = (if a = b then Some 0 else map_option Suc (position b as))"

definition alpha_idx :: "byte \<Rightarrow> nat" where
  "alpha_idx b = (case position b ALPHABET of Some i \<Rightarrow> i | None \<Rightarrow> 0)"

fun check_sum :: "nat \<Rightarrow> bytes \<Rightarrow> nat" where
  "check_sum i [] = 0"
| "check_sum i (b # bs) = alpha_idx b * (i + 1) + check_sum (i + 1) bs"

definition check_char :: "bytes \<Rightarrow> byte" where
  "check_char data = ALPHABET ! (check_sum 0 data mod length ALPHABET)"

text \<open>\<open>rng i\<close> is the \<open>i\<close>-th random byte drawn; characters are pushed until seven are there.\<close>

definition generate_pin :: "(nat \<Rightarrow> byte) \<Rightarrow> ustring" where
  "generate_pin rng =
     (let data = map (\<lambda>i. ALPHABET ! (unat (rng i) mod 32)) [0..<PIN_DATA_LEN]
      in map unat data @ [unat (check_char data)])"

section \<open>Reading typed input\<close>

text \<open>\<open>c as u8\<close>: the low eight bits.\<close>

definition as_u8 :: "uchar \<Rightarrow> byte" where
  "as_u8 c = of_nat c"

definition map_char :: "uchar \<Rightarrow> uchar" where
  "map_char ch =
     (let up = to_ascii_uppercase ch in
      if up = 73 \<or> up = 76 then 49 else if up = 79 then 48 else up)"

definition is_separator :: "uchar \<Rightarrow> bool" where
  "is_separator ch \<longleftrightarrow> ch = 32 \<or> ch = 45 \<or> ch = 9"

text \<open>The loop of \<open>normalize_pin\<close>, with the text pushed so far.\<close>

fun normalize_loop :: "ustring \<Rightarrow> ustring \<Rightarrow> ustring option" where
  "normalize_loop out [] = Some out"
| "normalize_loop out (ch # rest) =
     (if is_separator ch then normalize_loop out rest
      else if as_u8 (map_char ch) \<notin> set ALPHABET then None
      else if str_len (out @ [map_char ch]) > PIN_LEN then None
      else normalize_loop (out @ [map_char ch]) rest)"

definition normalize_pin :: "ustring \<Rightarrow> ustring option" where
  "normalize_pin input =
     (case normalize_loop [] input of
        None \<Rightarrow> None
      | Some out \<Rightarrow>
          (if str_len out \<noteq> PIN_LEN then None
           else if utf8 out ! PIN_DATA_LEN \<noteq> check_char (take PIN_DATA_LEN (utf8 out)) then None
           else Some out))"

text \<open>\<open>None\<close> is the panic of slicing a string inside a character.\<close>

definition format_pin :: "ustring \<Rightarrow> ustring option" where
  "format_pin canonical =
     (if str_len canonical \<noteq> PIN_LEN then Some (map to_ascii_uppercase canonical)
      else map_option (\<lambda>(a, b). a @ [45] @ b) (slice_at (PIN_LEN div 2) canonical))"

definition sanitize_pin_chars :: "ustring \<Rightarrow> ustring" where
  "sanitize_pin_chars input =
     filter (\<lambda>c. as_u8 c \<in> set ALPHABET) (map map_char input)"

definition pin_input_len :: "ustring \<Rightarrow> nat" where
  "pin_input_len input = length (sanitize_pin_chars input)"

definition split_pin_groups :: "ustring \<Rightarrow> ustring \<Rightarrow> ustring \<times> ustring" where
  "split_pin_groups first second =
     (if length first > PIN_GROUP_LEN \<and> second = []
      then (take PIN_GROUP_LEN first, take PIN_GROUP_LEN (drop PIN_GROUP_LEN first))
      else (take PIN_GROUP_LEN first, take PIN_GROUP_LEN second))"

section \<open>Buckets and key derivation\<close>

text \<open>\<open>now\<close> is the time since the epoch, \<open>None\<close> when the clock is before it.\<close>

definition current_bucket :: "u64 option \<Rightarrow> u64" where
  "current_bucket now = (case now of Some s \<Rightarrow> s | None \<Rightarrow> 0) div BUCKET_SECS"

definition KDF_SALT_DOMAIN :: bytes where
  "KDF_SALT_DOMAIN = map of_char ''duocb:pin-rendezvous:v1''"

definition AUTH_KDF_SALT :: bytes where
  "AUTH_KDF_SALT = map of_char ''duocb:pin-auth:v1''"

text \<open>Argon2id with the fixed work factors: a function of password and salt that can fail.\<close>

type_synonym argon2 = "nat \<Rightarrow> nat \<Rightarrow> nat \<Rightarrow> bytes \<Rightarrow> bytes \<Rightarrow> bytes option"

definition WORK_FACTORS :: "nat \<times> nat \<times> nat" where
  "WORK_FACTORS = (64 * 1024, 3, 1)"

definition argon2_key :: "argon2 \<Rightarrow> ustring \<Rightarrow> bytes \<Rightarrow> bytes option" where
  "argon2_key argon2id canonical_pin salt =
     (let (mem_kib, time, lanes) = WORK_FACTORS in argon2id mem_kib time lanes (utf8 canonical_pin) salt)"

definition rendezvous_salt :: "u64 \<Rightarrow> bytes" where
  "rendezvous_salt bucket = KDF_SALT_DOMAIN @ be_bytes 8 (unat bucket)"

definition derive_key_material :: "argon2 \<Rightarrow> ustring \<Rightarrow> u64 \<Rightarrow> bytes option" where
  "derive_key_material argon2id canonical_pin bucket =
     argon2_key argon2id canonical_pin (rendezvous_salt bucket)"

definition derive_auth_key_material :: "argon2 \<Rightarrow> ustring \<Rightarrow> bytes option" where
  "derive_auth_key_material argon2id canonical_pin = argon2_key argon2id canonical_pin AUTH_KDF_SALT"

section \<open>The alphabet\<close>

lemma alphabet_values:
  "ALPHABET = [48,49,50,51,52,53,54,55,56,57,65,66,67,68,69,70,71,72,74,75,77,78,80,81,82,83,84,
     86,87,88,89,90]"
  by (simp add: ALPHABET_def)

lemma alphabet_length [simp]: "length ALPHABET = 32"
  by (simp add: alphabet_values)

lemma alphabet_distinct: "distinct ALPHABET"
  by (simp add: alphabet_values)

lemma alphabet_fixed:
  assumes "b \<in> set ALPHABET"
  shows "unat b < 128" "map_char (unat b) = unat b" "to_ascii_uppercase (unat b) = unat b"
    "\<not> is_separator (unat b)" "map_char (to_ascii_lowercase (unat b)) = unat b"
    "\<not> is_separator (to_ascii_lowercase (unat b))"
proof -
  have "list_all (\<lambda>b. unat b < 128 \<and> map_char (unat b) = unat b
     \<and> to_ascii_uppercase (unat b) = unat b \<and> \<not> is_separator (unat b)
     \<and> map_char (to_ascii_lowercase (unat b)) = unat b
     \<and> \<not> is_separator (to_ascii_lowercase (unat b))) ALPHABET"
    by code_simp
  with assms show "unat b < 128" "map_char (unat b) = unat b" "to_ascii_uppercase (unat b) = unat b"
    "\<not> is_separator (unat b)" "map_char (to_ascii_lowercase (unat b)) = unat b"
    "\<not> is_separator (to_ascii_lowercase (unat b))"
    by (auto simp: list_all_iff)
qed

lemma as_u8_unat [simp]: "as_u8 (unat b) = b"
  by (simp add: as_u8_def)

lemma separator_not_kept: "is_separator c \<Longrightarrow> as_u8 (map_char c) \<notin> set ALPHABET"
  by (auto simp: is_separator_def as_u8_def map_char_def to_ascii_uppercase_def alphabet_values)

lemma map_char_idem [simp]: "map_char (map_char c) = map_char c"
  by (auto simp: map_char_def to_ascii_uppercase_def Let_def)

lemma map_char_ascii: "c < 128 \<Longrightarrow> map_char c < 128"
  by (auto simp: map_char_def to_ascii_uppercase_def Let_def)

lemma position_Some: "position b xs = Some i \<Longrightarrow> i < length xs \<and> xs ! i = b"
  by (induction xs arbitrary: i) (auto split: if_splits)

lemma position_in: "b \<in> set xs \<Longrightarrow> \<exists>i. position b xs = Some i"
  by (induction xs) auto

lemma alpha_idx_lt [simp]: "alpha_idx b < 32"
  using position_Some [of b ALPHABET] by (auto simp: alpha_idx_def split: option.splits)

lemma alpha_idx_nth: "b \<in> set ALPHABET \<Longrightarrow> ALPHABET ! alpha_idx b = b"
  using position_in [of b ALPHABET] position_Some [of b ALPHABET] by (auto simp: alpha_idx_def)

lemma check_char_in [simp]: "check_char data \<in> set ALPHABET"
  by (simp add: check_char_def)

lemma check_char_eq:
  "check_char a = check_char b \<longleftrightarrow> check_sum 0 a mod 32 = check_sum 0 b mod 32"
  by (simp add: check_char_def nth_eq_iff_index_eq [OF alphabet_distinct])

lemma check_sum_append: "check_sum i (a @ b) = check_sum i a + check_sum (i + length a) b"
  by (induction a arbitrary: i) auto

lemma check_sum_update:
  assumes "j < length a"
  shows "check_sum i (a[j := b]) + alpha_idx (a ! j) * (i + j + 1) =
         check_sum i a + alpha_idx b * (i + j + 1)"
  using assms
proof (induction a arbitrary: i j)
  case (Cons x a)
  then show ?case
  proof (cases j)
    case (Suc k)
    with Cons.prems have "k < length a" by simp
    from Cons.IH [OF this, of "Suc i"] Suc show ?thesis by (simp add: algebra_simps)
  qed simp
qed simp

section \<open>Normalisation\<close>

lemma normalize_loop_spec:
  "normalize_loop out s = Some r \<Longrightarrow>
     r = out @ map map_char (filter (\<lambda>c. \<not> is_separator c) s)
     \<and> list_all (\<lambda>c. as_u8 (map_char c) \<in> set ALPHABET) (filter (\<lambda>c. \<not> is_separator c) s)"
  by (induction out s rule: normalize_loop.induct) (auto split: if_splits)

lemma normalize_loop_run:
  "list_all (\<lambda>c. as_u8 (map_char c) \<in> set ALPHABET) (filter (\<lambda>c. \<not> is_separator c) s) \<Longrightarrow>
   str_len (out @ map map_char (filter (\<lambda>c. \<not> is_separator c) s)) \<le> PIN_LEN \<Longrightarrow>
   normalize_loop out s = Some (out @ map map_char (filter (\<lambda>c. \<not> is_separator c) s))"
proof (induction s arbitrary: out)
  case (Cons c s)
  then show ?case by (cases "is_separator c") simp_all
qed simp

text \<open>A canonical PIN: eight characters of the alphabet whose last is the check character.\<close>

definition canonical :: "ustring \<Rightarrow> bool" where
  "canonical p \<longleftrightarrow>
     length p = PIN_LEN \<and> list_all (\<lambda>c. c < 256 \<and> as_u8 c \<in> set ALPHABET) p
     \<and> as_u8 (p ! PIN_DATA_LEN) = check_char (take PIN_DATA_LEN (map as_u8 p))"

lemma canonical_bytes:
  assumes "canonical p"
  obtains bs where "p = map unat bs" "set bs \<subseteq> set ALPHABET" "length bs = PIN_LEN"
    "bs ! PIN_DATA_LEN = check_char (take PIN_DATA_LEN bs)"
proof
  show "p = map unat (map as_u8 p)"
    using assms by (auto simp: canonical_def list_all_iff as_u8_def unat_small_byte intro!: map_idI [symmetric])
  show "set (map as_u8 p) \<subseteq> set ALPHABET" "length (map as_u8 p) = PIN_LEN"
    using assms by (auto simp: canonical_def list_all_iff)
  show "map as_u8 p ! PIN_DATA_LEN = check_char (take PIN_DATA_LEN (map as_u8 p))"
    using assms by (simp add: canonical_def const_simps)
qed

lemma alphabet_text:
  assumes "set bs \<subseteq> set ALPHABET"
  shows "is_ascii (map unat bs)" "utf8 (map unat bs) = bs" "str_len (map unat bs) = length bs"
    "map map_char (map unat bs) = map unat bs"
    "filter (\<lambda>c. \<not> is_separator c) (map unat bs) = map unat bs"
proof -
  show a: "is_ascii (map unat bs)"
    using assms alphabet_fixed by (auto simp: is_ascii_def list_all_iff)
  then show "utf8 (map unat bs) = bs" by (simp add: utf8_ascii comp_def)
  from a show "str_len (map unat bs) = length bs" by simp
  show "map map_char (map unat bs) = map unat bs"
    using assms alphabet_fixed by (auto intro: map_cong)
  show "filter (\<lambda>c. \<not> is_separator c) (map unat bs) = map unat bs"
    using assms alphabet_fixed by (auto simp: filter_id_conv)
qed

lemma normalize_text:
  "set bs \<subseteq> set ALPHABET \<Longrightarrow> length bs = PIN_LEN \<Longrightarrow>
   normalize_pin (map unat bs) =
     (if bs ! PIN_DATA_LEN = check_char (take PIN_DATA_LEN bs) then Some (map unat bs) else None)"
proof -
  assume a: "set bs \<subseteq> set ALPHABET" "length bs = PIN_LEN"
  note t = alphabet_text [OF a(1)]
  have "list_all (\<lambda>c. as_u8 (map_char c) \<in> set ALPHABET) (map unat bs)"
    using a(1) alphabet_fixed by (auto simp: list_all_iff)
  with normalize_loop_run [of "map unat bs" "[]"]
  have "normalize_loop [] (map unat bs) = Some (map unat bs)"
    unfolding t(5) t(4) append_Nil t(3) a(2) by simp
  with t a(2) show ?thesis by (simp add: normalize_pin_def)
qed

lemma canonical_text:
  "set bs \<subseteq> set ALPHABET \<Longrightarrow> length bs = PIN_LEN \<Longrightarrow>
   canonical (map unat bs) \<longleftrightarrow> bs ! PIN_DATA_LEN = check_char (take PIN_DATA_LEN bs)"
  by (auto simp: canonical_def list_all_iff const_simps byte_lt comp_def)

lemma normalize_canonical: "canonical p \<Longrightarrow> normalize_pin p = Some p"
  by (erule canonical_bytes) (simp add: normalize_text)

lemma canonical_ascii: "canonical p \<Longrightarrow> is_ascii p"
  by (erule canonical_bytes) (simp add: alphabet_text(1))

lemma generate_pin_canonical: "canonical (generate_pin rng)"
proof -
  define data where "data = map (\<lambda>i. ALPHABET ! (unat (rng i) mod 32)) [0..<PIN_DATA_LEN]"
  have d: "set data \<subseteq> set ALPHABET" "length data = PIN_DATA_LEN" by (auto simp: data_def)
  have g: "generate_pin rng = map unat (data @ [check_char data])"
    by (simp add: generate_pin_def data_def Let_def)
  have "canonical (map unat (data @ [check_char data]))"
    using d by (subst canonical_text) (simp_all add: const_simps nth_append)
  then show ?thesis unfolding g .
qed

lemma mod_exchange:
  assumes "(b :: nat) + x = a + y"
  shows "b mod m = a mod m \<longleftrightarrow> y mod m = x mod m"
proof -
  have d: "i mod m = j mod m \<longleftrightarrow> int m dvd int i - int j" for i j :: nat
    by (simp flip: mod_eq_dvd_iff zmod_int)
  from assms have "int b - int a = int y - int x" by linarith
  then show ?thesis unfolding d by simp
qed

section \<open>What the PIN entry accepts\<close>

text \<open>
  A generated PIN survives every way a user types it back: the display form
  \<open>format_pin\<close> exists (no slicing panic), is the two groups of four joined by a dash, and both it
  and its lower-case form normalise back to the generated PIN.
\<close>

theorem generated_pin_roundtrip:
  "\<exists>f. format_pin (generate_pin rng) = Some f
     \<and> f = take 4 (generate_pin rng) @ [45] @ drop 4 (generate_pin rng)
     \<and> normalize_pin f = Some (generate_pin rng)
     \<and> normalize_pin (map to_ascii_lowercase f) = Some (generate_pin rng)"
proof -
  let ?p = "generate_pin rng"
  have c: "canonical ?p" by (rule generate_pin_canonical)
  from c obtain bs where bs: "?p = map unat bs" "set bs \<subseteq> set ALPHABET" "length bs = PIN_LEN"
    by (rule canonical_bytes)
  let ?f = "take 4 ?p @ [45] @ drop 4 ?p"
  have "is_ascii ?p" using c by (rule canonical_ascii)
  moreover have l: "length ?p = 8" using c by (simp add: canonical_def const_simps)
  ultimately have f: "format_pin ?p = Some ?f"
    by (simp add: format_pin_def const_simps slice_at_ascii)
  have sep: "is_separator 45" "is_separator (to_ascii_lowercase 45)"
    by (simp_all add: is_separator_def to_ascii_lowercase_def)
  have norm: "normalize_pin (map g ?f) = normalize_pin ?p"
    if g: "\<And>b. b \<in> set ALPHABET \<Longrightarrow> \<not> is_separator (g (unat b)) \<and> map_char (g (unat b)) = unat b"
      and g45: "is_separator (g 45)" for g
  proof -
    have gp: "\<not> is_separator (g c)" "map_char (g c) = c" if "c \<in> set ?p" for c
      using that bs g by auto
    have keep: "filter (\<lambda>c. \<not> is_separator c) (map g xs) = map g xs"
      if "set xs \<subseteq> set ?p" for xs
      using that gp(1) by (auto simp: filter_id_conv)
    have m: "map map_char (map g xs) = xs" if "set xs \<subseteq> set ?p" for xs
      using that gp(2) by (auto intro!: map_idI)
    have fl: "filter (\<lambda>c. \<not> is_separator c) (map g ?f) = map g ?p"
      using keep [of "take 4 ?p"] keep [of "drop 4 ?p"] g45
      by (simp add: set_take_subset set_drop_subset) (metis append_take_drop_id map_append)
    have len: "str_len ?p = PIN_LEN" using \<open>is_ascii ?p\<close> l by (simp add: const_simps)
    have "list_all (\<lambda>c. as_u8 (map_char c) \<in> set ALPHABET) (map g ?p)"
      using bs g by (auto simp: list_all_iff)
    then have "normalize_loop [] (map g ?f) = Some ?p"
      using normalize_loop_run [of "map g ?f" "[]"] m [of ?p] len unfolding fl by simp
    moreover have "normalize_loop [] ?p = Some ?p"
      using normalize_canonical [OF c]
      by (auto simp: normalize_pin_def split: option.splits if_splits)
    ultimately show ?thesis by (simp add: normalize_pin_def)
  qed
  have "normalize_pin (map id ?f) = Some ?p"
    by (subst norm) (simp_all add: sep alphabet_fixed normalize_canonical [OF c])
  moreover have "normalize_pin (map to_ascii_lowercase ?f) = Some ?p"
    by (subst norm) (simp_all add: sep alphabet_fixed normalize_canonical [OF c])
  ultimately show ?thesis using f by simp
qed

text \<open>
  On ASCII input \<open>normalize_pin\<close> is exact: the result is the input with spaces, tabs
  and dashes dropped and each other character mapped, and it is returned precisely when that text
  is canonical, that is eight characters of the alphabet ending in the right check character.
\<close>

theorem normalize_pin_exact:
  assumes "is_ascii input"
  shows "normalize_pin input = Some p \<longleftrightarrow>
     p = map map_char (filter (\<lambda>c. \<not> is_separator c) input) \<and> canonical p"
proof -
  let ?k = "filter (\<lambda>c. \<not> is_separator c) input"
  let ?m = "map map_char ?k"
  have a: "is_ascii ?m" using assms map_char_ascii by (auto simp: is_ascii_def list_all_iff)
  have u: "utf8 ?m = map as_u8 ?m" using a by (simp add: utf8_ascii as_u8_def)
  have lt: "c < 256" if "c \<in> set ?m" for c using a that by (auto simp: is_ascii_def list_all_iff)
  have chk: "canonical ?m \<longleftrightarrow> length ?m = PIN_LEN \<and> list_all (\<lambda>c. as_u8 (map_char c) \<in> set ALPHABET) ?k
      \<and> map as_u8 ?m ! PIN_DATA_LEN = check_char (take PIN_DATA_LEN (map as_u8 ?m))"
    using lt by (auto simp: canonical_def list_all_iff const_simps)
  show ?thesis
  proof
    assume n: "normalize_pin input = Some p"
    then obtain out where out: "normalize_loop [] input = Some out" and eq: "out = p"
      by (auto simp: normalize_pin_def split: option.splits if_splits)
    from normalize_loop_spec [OF out] eq
    have p: "p = ?m" "list_all (\<lambda>c. as_u8 (map_char c) \<in> set ALPHABET) ?k" by simp_all
    with n out eq a u chk show "p = ?m \<and> canonical p"
      by (auto simp: normalize_pin_def split: option.splits if_splits)
  next
    assume p: "p = ?m \<and> canonical p"
    then have c: "canonical ?m" by blast
    with chk have "list_all (\<lambda>c. as_u8 (map_char c) \<in> set ALPHABET) ?k" "length ?m = PIN_LEN"
      by (blast, blast)
    then have "normalize_loop [] input = Some ?m"
      using normalize_loop_run [of input "[]"] str_len_ascii [OF a] by simp
    with a u c chk have "normalize_pin input = Some ?m" by (simp add: normalize_pin_def)
    with p show "normalize_pin input = Some p" by blast
  qed
qed

lemma normalize_pin_exact_witness:
  "is_ascii [48, 48, 48, 48, 32, 48, 111, 111, 48] \<and>
   normalize_pin [48, 48, 48, 48, 32, 48, 111, 111, 48] = Some [48, 48, 48, 48, 48, 48, 48, 48]"
proof
  show a: "is_ascii [48, 48, 48, 48, 32, 48, 111, 111, 48]" by simp
  have "canonical [48, 48, 48, 48, 48, 48, 48, 48]" by code_simp
  then show "normalize_pin [48, 48, 48, 48, 32, 48, 111, 111, 48] = Some [48, 48, 48, 48, 48, 48, 48, 48]"
    by (subst normalize_pin_exact [OF a])
      (simp add: is_separator_def map_char_def to_ascii_uppercase_def)
qed

text \<open>
  The check character rejects a single mistyped character exactly when the position
  weight times the index difference is not a multiple of 32. At even weights some substitutions
  slip through, so the promise that a mistyped PIN is rejected on input is not kept for all of them.
\<close>

theorem pin_substitution:
  assumes "canonical p" and "i < PIN_DATA_LEN" and "b \<in> set ALPHABET"
  shows "normalize_pin (p[i := unat b]) =
     (if (i + 1) * alpha_idx b mod 32 = (i + 1) * alpha_idx (as_u8 (p ! i)) mod 32
      then Some (p[i := unat b]) else None)"
proof -
  from assms(1) obtain bs where bs: "p = map unat bs" "set bs \<subseteq> set ALPHABET" "length bs = PIN_LEN"
    "bs ! PIN_DATA_LEN = check_char (take PIN_DATA_LEN bs)" by (rule canonical_bytes)
  let ?n = "bs[i := b]"
  have i: "i < 7" "i < length (take PIN_DATA_LEN bs)" "i \<noteq> PIN_DATA_LEN"
    using assms(2) bs(3) by (simp_all add: const_simps)
  have n: "set ?n \<subseteq> set ALPHABET" "length ?n = PIN_LEN"
    using bs assms(3) set_update_subset_insert [of bs i b] by auto
  have t: "take PIN_DATA_LEN ?n = (take PIN_DATA_LEN bs)[i := b]" by (simp add: take_update_swap)
  have upd: "check_sum 0 ((take PIN_DATA_LEN bs)[i := b]) + alpha_idx (bs ! i) * (i + 1) =
      check_sum 0 (take PIN_DATA_LEN bs) + alpha_idx b * (i + 1)"
    using check_sum_update [OF i(2), of 0 b] assms(2) by simp
  have "bs ! PIN_DATA_LEN = check_char ((take PIN_DATA_LEN bs)[i := b]) \<longleftrightarrow>
      alpha_idx (bs ! i) * (i + 1) mod 32 = alpha_idx b * (i + 1) mod 32"
    unfolding bs(4) check_char_eq by (rule mod_exchange) (rule upd [symmetric])
  then show ?thesis
    using normalize_text [OF n] i bs(1,3) t by (auto simp: map_update mult.commute const_simps)
qed

lemma pin_substitution_witness:
  "normalize_pin [48, 71, 48, 48, 48, 48, 48, 48] = Some [48, 71, 48, 48, 48, 48, 48, 48]
   \<and> normalize_pin [49, 48, 48, 48, 48, 48, 48, 48] = None"
proof -
  have c: "canonical [48, 48, 48, 48, 48, 48, 48, 48]" by code_simp
  have a: "(71 :: byte) \<in> set ALPHABET" "(49 :: byte) \<in> set ALPHABET" by (simp_all add: alphabet_values)
  have idx: "alpha_idx 71 = 16" "alpha_idx 49 = 1" "alpha_idx (as_u8 48) = 0"
    by (simp_all add: alpha_idx_def alphabet_values as_u8_def)
  show ?thesis
    using pin_substitution [OF c, of 1 71] pin_substitution [OF c, of 0 49] a idx
    by (simp add: const_simps)
qed

text \<open>
  The cast \<open>mapped as u8\<close> lets characters outside the alphabet through: the text
  \<open>0 0 0 U+0130 0 0 0\<close> of seven characters is accepted as a PIN, it is kept by the sanitizer, and
  displaying it with \<open>format_pin\<close> slices inside a character, which panics.
\<close>

theorem non_ascii_pin_accepted:
  "normalize_pin [48, 48, 48, 304, 48, 48, 48] = Some [48, 48, 48, 304, 48, 48, 48]
   \<and> sanitize_pin_chars [48, 48, 48, 304, 48, 48, 48] = [48, 48, 48, 304, 48, 48, 48]
   \<and> \<not> canonical [48, 48, 48, 304, 48, 48, 48]
   \<and> format_pin [48, 48, 48, 304, 48, 48, 48] = None"
  by code_simp

lemma sanitize_char_kept: "as_u8 (map_char c) \<in> set ALPHABET \<Longrightarrow> \<not> is_separator c"
  using separator_not_kept by blast

lemma normalize_is_sanitize:
  assumes "normalize_pin s = Some p"
  shows "sanitize_pin_chars s = p" "sanitize_pin_chars p = p" "normalize_pin p = Some p"
proof -
  let ?k = "filter (\<lambda>c. \<not> is_separator c) s"
  from assms have out: "normalize_loop [] s = Some p"
    by (auto simp: normalize_pin_def split: option.splits if_splits)
  from normalize_loop_spec [OF this] have p: "p = map map_char ?k"
    and all: "list_all (\<lambda>c. as_u8 (map_char c) \<in> set ALPHABET) ?k" by simp_all
  have "filter (\<lambda>c. as_u8 c \<in> set ALPHABET) (map map_char s) = map map_char ?k"
    using all by (induction s) (auto simp: separator_not_kept)
  then show "sanitize_pin_chars s = p" by (simp add: sanitize_pin_chars_def p)
  have ns: "\<not> is_separator c" "as_u8 c \<in> set ALPHABET" "map_char c = c" if "c \<in> set p" for c
  proof -
    from that p obtain d where d: "d \<in> set ?k" "c = map_char d" by auto
    with all show "as_u8 c \<in> set ALPHABET" by (auto simp: list_all_iff)
    from d show m: "map_char c = c" by simp
    then show "\<not> is_separator c" using \<open>as_u8 c \<in> set ALPHABET\<close> sanitize_char_kept [of c] by simp
  qed
  have mp: "map map_char p = p" using ns(3) by (auto intro!: map_idI)
  have fp: "filter (\<lambda>c. \<not> is_separator c) p = p" using ns(1) by (auto simp: filter_id_conv)
  show "sanitize_pin_chars p = p"
    using ns(2) unfolding sanitize_pin_chars_def mp by (auto simp: filter_id_conv)
  have "str_len p = PIN_LEN" using assms
    by (auto simp: normalize_pin_def out split: if_splits)
  then have "normalize_loop [] p = Some p"
    using normalize_loop_run [of p "[]"] ns mp fp by (auto simp: list_all_iff)
  with assms out show "normalize_pin p = Some p" by (simp add: normalize_pin_def)
qed

text \<open>
  Pasting any text that \<open>normalize_pin\<close> accepts into the first of the two entry
  fields fills both fields so that their concatenation is the accepted PIN: sanitising, counting
  and splitting agree with normalisation, and neither field exceeds its group length.
\<close>

theorem pin_paste:
  assumes "normalize_pin s = Some p"
  shows "(case split_pin_groups (sanitize_pin_chars s) [] of (a, b) \<Rightarrow>
           normalize_pin (a @ b) = Some p \<and> length a \<le> PIN_GROUP_LEN \<and> length b \<le> PIN_GROUP_LEN
           \<and> pin_input_len s = length (a @ b))"
proof -
  note n = normalize_is_sanitize [OF assms]
  have l: "length p \<le> 8"
  proof -
    from assms have "str_len p = PIN_LEN"
      by (auto simp: normalize_pin_def split: option.splits if_splits)
    with length_le_str_len [of p] show ?thesis by (simp add: const_simps)
  qed
  show ?thesis
  proof (cases "length p > PIN_GROUP_LEN")
    case True
    with l n show ?thesis
      by (simp add: split_pin_groups_def pin_input_len_def const_simps take_add [symmetric])
  next
    case False
    with l n show ?thesis
      by (simp add: split_pin_groups_def pin_input_len_def const_simps)
  qed
qed

lemma pin_paste_witness:
  "normalize_pin [48, 48, 48, 48, 45, 48, 48, 48, 48] = Some [48, 48, 48, 48, 48, 48, 48, 48]
   \<and> (case split_pin_groups (sanitize_pin_chars [48, 48, 48, 48, 45, 48, 48, 48, 48]) [] of (a, b) \<Rightarrow>
           normalize_pin (a @ b) = Some [48, 48, 48, 48, 48, 48, 48, 48])"
proof -
  have n: "normalize_pin [48, 48, 48, 48, 45, 48, 48, 48, 48] = Some [48, 48, 48, 48, 48, 48, 48, 48]"
    by code_simp
  from n pin_paste [OF n] show ?thesis by (auto split: prod.splits)
qed

section \<open>Key derivation\<close>

lemma salts_distinct: "rendezvous_salt b \<noteq> AUTH_KDF_SALT"
proof -
  have "length (rendezvous_salt b) = 31" "length AUTH_KDF_SALT = 17"
    by (simp_all add: rendezvous_salt_def KDF_SALT_DOMAIN_def AUTH_KDF_SALT_def)
  then show ?thesis by auto
qed

lemma salt_inj: "rendezvous_salt a = rendezvous_salt b \<longleftrightarrow> a = b"
proof
  assume "rendezvous_salt a = rendezvous_salt b"
  then have "be_bytes 8 (unat a) = be_bytes 8 (unat b)" by (simp add: rendezvous_salt_def)
  moreover have "unat x < 256 ^ 8" for x :: u64 using unsigned_less [of x] by simp
  ultimately have "unat a = unat b" by (blast intro: be_bytes_inj)
  then show "a = b" by (simp add: word_unat_eq_iff)
qed simp

end
