(* ===== verification/Auth.thy ===== *)
theory Auth
  imports Identity
begin

text \<open>
  Application keys and identity cards (\<open>duocb-core/src/auth.rs\<close>): fingerprints and the pairing
  code, the persistent \<open>Identity\<close>, key-authentication signatures, and the signed
  \<open>IdentityCard\<close> with its validity window.

  The cryptography, bech32 and JSON come from third-party crates and are the fields of the record
  \<open>crypto\<close>. A public key is its 32 bytes; an event is a record of what the source reads of a
  nostr event.
\<close>

section \<open>Keys and third-party functions\<close>

datatype pubkey = PublicKey (to_bytes: bytes)

instantiation pubkey :: linorder
begin

definition less_eq_pubkey :: "pubkey \<Rightarrow> pubkey \<Rightarrow> bool" where
  "less_eq_pubkey a b \<longleftrightarrow> to_bytes a \<le> to_bytes b"

definition less_pubkey :: "pubkey \<Rightarrow> pubkey \<Rightarrow> bool" where
  "less_pubkey a b \<longleftrightarrow> to_bytes a < to_bytes b"

instance
proof
  fix a b c :: pubkey
  show "(a < b) = (a \<le> b \<and> \<not> b \<le> a)"
    by (auto simp: less_eq_pubkey_def less_pubkey_def)
  show "a \<le> a"
    by (simp add: less_eq_pubkey_def)
  show "a \<le> b \<Longrightarrow> b \<le> c \<Longrightarrow> a \<le> c"
    unfolding less_eq_pubkey_def by (rule order_trans)
  show "a \<le> b \<Longrightarrow> b \<le> a \<Longrightarrow> a = b"
    by (auto simp: less_eq_pubkey_def intro: pubkey.expand)
  show "a \<le> b \<or> b \<le> a"
    by (auto simp: less_eq_pubkey_def)
qed

end

type_synonym seckey = bytes

record event =
  ev_pubkey :: pubkey
  ev_kind :: u16
  ev_created_at :: u64
  ev_identifier :: "ustring option"
  ev_expiration :: "u64 option"
  ev_content :: ustring
  ev_sig :: bytes

record card_content =
  cc_version :: u32
  cc_name :: ustring
  cc_not_before :: u64
  cc_not_after :: u64

record crypto =
  sha256 :: "bytes \<Rightarrow> bytes"
  pub_of :: "seckey \<Rightarrow> pubkey"
  schnorr_sign :: "seckey \<Rightarrow> bytes \<Rightarrow> ustring"
  sig_parse :: "ustring \<Rightarrow> bytes option"
  xonly :: "pubkey \<Rightarrow> bytes option"
  schnorr_verify :: "bytes \<Rightarrow> bytes \<Rightarrow> bytes \<Rightarrow> bool"
  key_parse :: "ustring \<Rightarrow> pubkey option"
  key_hex :: "pubkey \<Rightarrow> ustring"
  key_bech32 :: "pubkey \<Rightarrow> ustring"
  sec_parse :: "ustring \<Rightarrow> seckey option"
  sec_bech32 :: "seckey \<Rightarrow> ustring"
  content_ser :: "card_content \<Rightarrow> ustring option"
  content_de :: "ustring \<Rightarrow> card_content option"
  ev_sign :: "seckey \<Rightarrow> event \<Rightarrow> event option"
  ev_verify :: "event \<Rightarrow> bool"
  ev_json :: "event \<Rightarrow> ustring"
  ev_from_json :: "ustring \<Rightarrow> event option"

definition MAX_TRUSTED_PEERS :: nat where [const_simps]: "MAX_TRUSTED_PEERS = 128"
definition MAX_CARD_SIZE :: nat where [const_simps]: "MAX_CARD_SIZE = 2 * 1024"
definition IDENTITY_CARD_KIND :: u16 where [const_simps]: "IDENTITY_CARD_KIND = 30382"
definition IDENTITY_CARD_DTAG :: ustring where
  "IDENTITY_CARD_DTAG = ascii ''duocb:identity-card:v4''"
definition IDENTITY_CARD_VERSION :: u32 where [const_simps]: "IDENTITY_CARD_VERSION = 4"
definition AUTH_SIGNATURE_DOMAIN :: bytes where
  "AUTH_SIGNATURE_DOMAIN = map of_char ''duocb:key-auth:v3'' @ [0]"
definition CARD_TTL_SECS :: u64 where [const_simps]: "CARD_TTL_SECS = 30 * 24 * 60 * 60"
definition CLOCK_SKEW_GRACE_SECS :: u64 where [const_simps]: "CLOCK_SKEW_GRACE_SECS = 5 * 60"
definition CARD_RENEW_BEFORE_SECS :: u64 where
  [const_simps]: "CARD_RENEW_BEFORE_SECS = 7 * 24 * 60 * 60"

section \<open>Fingerprints and the pairing code\<close>

definition FINGERPRINT_DOMAIN :: bytes where
  "FINGERPRINT_DOMAIN = map of_char ''duocb:key-fingerprint:v1'' @ [0]"
definition FINGERPRINT_BYTES :: nat where [const_simps]: "FINGERPRINT_BYTES = 10"

fun fp_groups :: "bytes \<Rightarrow> ustring list" where
  "fp_groups (a # b # rest) = (hex_upper a @ hex_upper b) # fp_groups rest"
| "fp_groups _ = []"

fun join_space :: "ustring list \<Rightarrow> ustring" where
  "join_space [] = []"
| "join_space [g] = g"
| "join_space (g # gs) = g @ [32] @ join_space gs"

definition key_fingerprint :: "'z crypto_scheme \<Rightarrow> pubkey \<Rightarrow> ustring" where
  "key_fingerprint C key =
     (let digest = sha256 C (FINGERPRINT_DOMAIN @ to_bytes key)
      in join_space (fp_groups (take FINGERPRINT_BYTES digest)))"

definition pairing_code :: "'z crypto_scheme \<Rightarrow> pubkey \<Rightarrow> pubkey \<Rightarrow> ustring option" where
  "pairing_code C a b =
     (if a = b then None
      else let (low, high) = (if to_bytes a \<le> to_bytes b then (a, b) else (b, a))
           in Some (key_fingerprint C low @ [32] @ key_fingerprint C high))"

section \<open>Identities and signatures\<close>

datatype auth_error =
  NotNsec
| InvalidSecretKey
| NameError name_error
| SerializingCard
| SigningCard
| BadSignatureText
| BadPublicKey
| ProofNotVerified
| CardSignature
| CardKind
| CardIdentifier
| CardPayload
| CardVersion
| CardWindowEmpty
| CardWindowTooLong
| CardEventTime
| CardExpirationTag
| CardTooBig
| CardNotJson

record identity =
  secret :: seckey

definition identity_public :: "'z crypto_scheme \<Rightarrow> identity \<Rightarrow> pubkey" where
  "identity_public C i = pub_of C (secret i)"

text \<open>\<open>fresh\<close> is the key the library's generator returns.\<close>

definition identity_generate :: "seckey \<Rightarrow> identity" where
  "identity_generate fresh = \<lparr>secret = fresh\<rparr>"

definition parse_nsec :: "'z crypto_scheme \<Rightarrow> ustring \<Rightarrow> auth_error + identity" where
  "parse_nsec C input =
     (let compact = filter (\<lambda>c. \<not> is_whitespace c) input in
      if take 5 compact \<noteq> ascii ''nsec1'' then Inl NotNsec
      else case sec_parse C compact of
             None \<Rightarrow> Inl InvalidSecretKey
           | Some k \<Rightarrow> Inr \<lparr>secret = k\<rparr>)"

definition to_nsec :: "'z crypto_scheme \<Rightarrow> identity \<Rightarrow> ustring" where
  "to_nsec C i = sec_bech32 C (secret i)"

definition to_npub :: "'z crypto_scheme \<Rightarrow> identity \<Rightarrow> ustring" where
  "to_npub C i = key_bech32 C (identity_public C i)"

text \<open>Two identities are equal when their public keys are (\<open>PartialEq for Identity\<close>).\<close>

definition identity_eq :: "'z crypto_scheme \<Rightarrow> identity \<Rightarrow> identity \<Rightarrow> bool" where
  "identity_eq C a b \<longleftrightarrow> identity_public C a = identity_public C b"

definition auth_digest :: "'z crypto_scheme \<Rightarrow> bytes \<Rightarrow> bytes" where
  "auth_digest C transcript = sha256 C (AUTH_SIGNATURE_DOMAIN @ transcript)"

definition sign_auth :: "'z crypto_scheme \<Rightarrow> identity \<Rightarrow> bytes \<Rightarrow> ustring" where
  "sign_auth C i transcript = schnorr_sign C (secret i) (auth_digest C transcript)"

definition verify_auth_signature ::
    "'z crypto_scheme \<Rightarrow> pubkey \<Rightarrow> bytes \<Rightarrow> ustring \<Rightarrow> auth_error + unit" where
  "verify_auth_signature C public_key transcript signature =
     (case sig_parse C signature of
        None \<Rightarrow> Inl BadSignatureText
      | Some sg \<Rightarrow>
          (case xonly C public_key of
             None \<Rightarrow> Inl BadPublicKey
           | Some x \<Rightarrow>
               (if schnorr_verify C sg (auth_digest C transcript) x then Inr ()
                else Inl ProofNotVerified)))"

section \<open>Identity cards\<close>

record identity_card =
  card_event :: event
  card_name :: ustring
  card_not_before :: u64
  card_not_after :: u64

definition card_encode :: "'z crypto_scheme \<Rightarrow> identity_card \<Rightarrow> ustring" where
  "card_encode C c = ev_json C (card_event c)"

definition from_event :: "'z crypto_scheme \<Rightarrow> event \<Rightarrow> auth_error + identity_card" where
  "from_event C ev =
     (if \<not> ev_verify C ev then Inl CardSignature
      else if ev_kind ev \<noteq> IDENTITY_CARD_KIND then Inl CardKind
      else if ev_identifier ev \<noteq> Some IDENTITY_CARD_DTAG then Inl CardIdentifier
      else case content_de C (ev_content ev) of
        None \<Rightarrow> Inl CardPayload
      | Some content \<Rightarrow>
          (if cc_version content \<noteq> IDENTITY_CARD_VERSION then Inl CardVersion
           else case split_display_identity (cc_name content) of
             Inl e \<Rightarrow> Inl (NameError e)
           | Inr _ \<Rightarrow>
               (if cc_not_after content \<le> cc_not_before content then Inl CardWindowEmpty
                else if cc_not_after content - cc_not_before content > CARD_TTL_SECS
                then Inl CardWindowTooLong
                else if ev_created_at ev \<noteq> cc_not_before content then Inl CardEventTime
                else if ev_expiration ev \<noteq> Some (cc_not_after content) then Inl CardExpirationTag
                else let crd = \<lparr>card_event = ev, card_name = cc_name content,
                      card_not_before = cc_not_before content,
                      card_not_after = cc_not_after content\<rparr>
                  in if str_len (card_encode C crd) > MAX_CARD_SIZE then Inl CardTooBig
                     else Inr crd)))"

definition card_parse :: "'z crypto_scheme \<Rightarrow> ustring \<Rightarrow> auth_error + identity_card" where
  "card_parse C input =
     (let trimmed = str_trim input in
      if str_len trimmed > MAX_CARD_SIZE then Inl CardTooBig
      else case ev_from_json C trimmed of
             None \<Rightarrow> Inl CardNotJson
           | Some ev \<Rightarrow> from_event C ev)"

text \<open>
  Minting. The event is built with the window's start as its time and its end as the expiration
  tag; signing fills in the key and the signature. The release profile has no overflow checks, so
  the end of the window wraps.
\<close>

definition card_valid_from ::
    "'z crypto_scheme \<Rightarrow> identity \<Rightarrow> ustring \<Rightarrow> ustring \<Rightarrow> u64 \<Rightarrow> auth_error + identity_card" where
  "card_valid_from C i name suffix not_before =
     (case validate_name name of Inl e \<Rightarrow> Inl (NameError e) | Inr _ \<Rightarrow>
      let full = display_identity name suffix in
      case split_display_identity full of Inl e \<Rightarrow> Inl (NameError e) | Inr _ \<Rightarrow>
      let not_after = not_before + CARD_TTL_SECS in
      case content_ser C \<lparr>cc_version = IDENTITY_CARD_VERSION, cc_name = full,
             cc_not_before = not_before, cc_not_after = not_after\<rparr> of
        None \<Rightarrow> Inl SerializingCard
      | Some content \<Rightarrow>
          (case ev_sign C (secret i)
             \<lparr>ev_pubkey = identity_public C i, ev_kind = IDENTITY_CARD_KIND,
              ev_created_at = not_before, ev_identifier = Some IDENTITY_CARD_DTAG,
              ev_expiration = Some not_after, ev_content = content, ev_sig = []\<rparr> of
             None \<Rightarrow> Inl SigningCard
           | Some ev \<Rightarrow> from_event C ev))"

definition card_mint ::
    "'z crypto_scheme \<Rightarrow> u64 \<Rightarrow> identity \<Rightarrow> ustring \<Rightarrow> ustring \<Rightarrow> auth_error + identity_card" where
  "card_mint C unix_now i name suffix = card_valid_from C i name suffix unix_now"

definition card_public_key :: "identity_card \<Rightarrow> pubkey" where
  "card_public_key c = ev_pubkey (card_event c)"

text \<open>\<open>None\<close> is the panic of \<open>expect\<close>.\<close>

definition card_short_name :: "identity_card \<Rightarrow> ustring option" where
  "card_short_name c = (case split_display_identity (card_name c) of Inl _ \<Rightarrow> None | Inr (n, _) \<Rightarrow> Some n)"

definition card_suffix :: "identity_card \<Rightarrow> ustring option" where
  "card_suffix c = (case split_display_identity (card_name c) of Inl _ \<Rightarrow> None | Inr (_, s) \<Rightarrow> Some s)"

definition card_npub :: "'z crypto_scheme \<Rightarrow> identity_card \<Rightarrow> ustring" where
  "card_npub C c = key_bech32 C (card_public_key c)"

definition card_fingerprint :: "'z crypto_scheme \<Rightarrow> identity_card \<Rightarrow> ustring" where
  "card_fingerprint C c = key_fingerprint C (card_public_key c)"

definition is_not_yet_valid_at :: "identity_card \<Rightarrow> u64 \<Rightarrow> bool" where
  "is_not_yet_valid_at c now \<longleftrightarrow> card_not_before c > saturating_add now CLOCK_SKEW_GRACE_SECS"

definition is_valid_at :: "identity_card \<Rightarrow> u64 \<Rightarrow> bool" where
  "is_valid_at c now \<longleftrightarrow> \<not> is_not_yet_valid_at c now \<and> now < card_not_after c"

definition card_is_expired :: "u64 \<Rightarrow> identity_card \<Rightarrow> bool" where
  "card_is_expired unix_now c \<longleftrightarrow> \<not> is_valid_at c unix_now"

definition remaining_secs_at :: "identity_card \<Rightarrow> u64 \<Rightarrow> u64" where
  "remaining_secs_at c now = (if is_valid_at c now then card_not_after c - now else 0)"

section \<open>Facts about cards\<close>

text \<open>What every verified card satisfies, whatever path built it.\<close>

definition card_wf :: "'z crypto_scheme \<Rightarrow> identity_card \<Rightarrow> bool" where
  "card_wf C c \<longleftrightarrow>
     ev_verify C (card_event c) \<and> ev_kind (card_event c) = IDENTITY_CARD_KIND
     \<and> ev_identifier (card_event c) = Some IDENTITY_CARD_DTAG
     \<and> content_de C (ev_content (card_event c)) =
         Some \<lparr>cc_version = IDENTITY_CARD_VERSION, cc_name = card_name c,
               cc_not_before = card_not_before c, cc_not_after = card_not_after c\<rparr>
     \<and> isl (split_display_identity (card_name c)) = False
     \<and> card_not_before c < card_not_after c
     \<and> card_not_after c - card_not_before c \<le> CARD_TTL_SECS
     \<and> ev_created_at (card_event c) = card_not_before c
     \<and> ev_expiration (card_event c) = Some (card_not_after c)
     \<and> str_len (card_encode C c) \<le> MAX_CARD_SIZE"

lemma from_event_Inr: "from_event C ev = Inr c \<longleftrightarrow> card_event c = ev \<and> card_wf C c"
proof
  assume "from_event C ev = Inr c"
  then show "card_event c = ev \<and> card_wf C c"
    by (auto simp: from_event_def card_wf_def Let_def split: if_splits option.splits sum.splits)
next
  assume "card_event c = ev \<and> card_wf C c"
  then show "from_event C ev = Inr c"
    by (cases c) (auto simp: from_event_def card_wf_def Let_def split: option.splits sum.splits)
qed

lemma card_wf_reparse:
  assumes "card_wf C c" "ev_from_json C (card_encode C c) = Some (card_event c)"
    "str_trim (card_encode C c) = card_encode C c"
  shows "card_parse C (card_encode C c) = Inr c"
proof -
  have "from_event C (card_event c) = Inr c" using assms(1) by (simp add: from_event_Inr)
  moreover have "str_len (card_encode C c) \<le> MAX_CARD_SIZE" using assms(1) by (simp add: card_wf_def)
  ultimately show ?thesis using assms(2,3) by (simp add: card_parse_def Let_def)
qed

lemma card_valid_from_wf: "card_valid_from C i name suffix t = Inr c \<Longrightarrow> card_wf C c"
  by (auto simp: card_valid_from_def Let_def from_event_Inr split: sum.splits option.splits)

lemma card_parse_wf: "card_parse C s = Inr c \<Longrightarrow> card_wf C c"
  by (auto simp: card_parse_def Let_def from_event_Inr split: if_splits option.splits)

lemmas card_wf_intros = card_valid_from_wf card_parse_wf

section \<open>The validity window\<close>

lemma not_yet_valid_unat:
  "is_not_yet_valid_at c now \<longleftrightarrow> unat now + 300 < unat (card_not_before c)"
proof -
  have "unat CLOCK_SKEW_GRACE_SECS = 300" by (simp add: const_simps)
  then have "unat (saturating_add now CLOCK_SKEW_GRACE_SECS) = min (unat now + 300) (2 ^ 64 - 1)"
    by (simp only: unat_saturating_add)
  then show ?thesis
    using u64_lt [of "card_not_before c"] by (auto simp: is_not_yet_valid_at_def word_less_nat_alt)
qed

lemma valid_at_unat:
  "is_valid_at c now \<longleftrightarrow>
     unat (card_not_before c) \<le> unat now + 300 \<and> unat now < unat (card_not_after c)"
  by (auto simp: is_valid_at_def not_yet_valid_unat word_less_nat_alt)

lemma card_wf_lifetime:
  assumes "card_wf C c"
  shows "unat (card_not_before c) < unat (card_not_after c)"
    "unat (card_not_after c) \<le> unat (card_not_before c) + 2592000"
proof -
  from assms show lt: "unat (card_not_before c) < unat (card_not_after c)"
    by (simp add: card_wf_def word_less_nat_alt)
  then have "unat (card_not_after c - card_not_before c) =
      unat (card_not_after c) - unat (card_not_before c)"
    by (simp add: unat_sub word_le_nat_alt)
  moreover have "unat CARD_TTL_SECS = 2592000" by (simp add: const_simps)
  ultimately have "unat (card_not_after c) - unat (card_not_before c) \<le> 2592000"
    using assms by (simp add: card_wf_def word_le_nat_alt)
  then show "unat (card_not_after c) \<le> unat (card_not_before c) + 2592000" by linarith
qed

lemma remaining_unat:
  "is_valid_at c now \<Longrightarrow> unat (remaining_secs_at c now) = unat (card_not_after c) - unat now"
  by (simp add: remaining_secs_at_def valid_at_unat unat_sub word_le_nat_alt)

text \<open>
  The trust window of a verified card is one interval of clock readings, bounded by its
  own signed fields: whichever path parsed the card, it is usable exactly from five minutes before
  its start to its end, any two usable moments lie less than thirty days and five minutes apart, and
  the remaining lifetime shown is positive exactly while the card is usable.
\<close>

theorem card_window:
  assumes "card_parse C text = Inr c"
  shows "(is_valid_at c now \<longleftrightarrow>
            unat (card_not_before c) \<le> unat now + 300 \<and> unat now < unat (card_not_after c))
    \<and> (is_valid_at c now \<and> is_valid_at c later \<longrightarrow> unat later < unat now + 2592000 + 300)
    \<and> (remaining_secs_at c now > 0 \<longleftrightarrow> is_valid_at c now)
    \<and> (is_not_yet_valid_at c now \<longrightarrow> \<not> is_valid_at c now \<and> unat now < unat (card_not_after c))"
proof (intro conjI)
  from assms have wf: "card_wf C c" by (rule card_parse_wf)
  note life = card_wf_lifetime [OF wf]
  show "is_valid_at c now \<longleftrightarrow>
      unat (card_not_before c) \<le> unat now + 300 \<and> unat now < unat (card_not_after c)"
    by (rule valid_at_unat)
  show "is_valid_at c now \<and> is_valid_at c later \<longrightarrow> unat later < unat now + 2592000 + 300"
    using life by (auto simp: valid_at_unat)
  show "remaining_secs_at c now > 0 \<longleftrightarrow> is_valid_at c now"
    using remaining_unat [of c now]
    by (cases "is_valid_at c now") (auto simp: word_less_nat_alt valid_at_unat remaining_secs_at_def)
  show "is_not_yet_valid_at c now \<longrightarrow> \<not> is_valid_at c now \<and> unat now < unat (card_not_after c)"
    using life by (auto simp: valid_at_unat not_yet_valid_unat)
qed

section \<open>The pairing code\<close>

lemma hex_upper_no_space: "32 \<notin> set (hex_upper b)"
  by (auto simp: hex_upper_def hex_byte_def hex_digit_def to_ascii_uppercase_def)

lemma fp_groups_length: "length (fp_groups bs) = length bs div 2"
  by (induction bs rule: fp_groups.induct) auto

lemma join_space_length:
  "list_all (\<lambda>g. length g = 4) gs \<Longrightarrow> length (join_space gs) = 5 * length gs - 1"
  by (induction gs rule: join_space.induct) auto

lemma fp_groups_4: "list_all (\<lambda>g. length g = 4) (fp_groups bs)"
  by (induction bs rule: fp_groups.induct) auto

lemma fingerprint_length:
  assumes "length (sha256 C (FINGERPRINT_DOMAIN @ to_bytes k)) = 32"
  shows "length (key_fingerprint C k) = 24"
  using assms
  by (simp add: key_fingerprint_def Let_def join_space_length fp_groups_4 fp_groups_length const_simps)

lemma pairing_code_sym: "pairing_code C a b = pairing_code C b a"
  by (auto simp: pairing_code_def Let_def pubkey.expand)

lemma pairing_code_halves:
  assumes "pairing_code C a b = Some t"
  shows "t = key_fingerprint C a @ [32] @ key_fingerprint C b
       \<or> t = key_fingerprint C b @ [32] @ key_fingerprint C a"
  using assms by (auto simp: pairing_code_def Let_def split: if_splits)

text \<open>
  Property C13. Comparing the pairing code defeats an interposer that cannot forge a fingerprint.
  Device A, which received key \<open>x\<close>, and device B, which received key \<open>y\<close>, show the same code only if
  the key A received has B's fingerprint and the key B received has A's, provided the two devices'
  own fingerprints differ. Conversely the two honest ends, in either order, show the same code.
\<close>

theorem pairing_code_authenticates:
  assumes digest: "\<forall>k. length (sha256 C (FINGERPRINT_DOMAIN @ to_bytes k)) = 32"
    and distinct_ends: "key_fingerprint C a \<noteq> key_fingerprint C b"
    and screen_a: "pairing_code C a x = Some t"
    and screen_b: "pairing_code C b y = Some t"
  shows "key_fingerprint C x = key_fingerprint C b \<and> key_fingerprint C y = key_fingerprint C a
     \<and> pairing_code C a b = pairing_code C b a \<and> pairing_code C a b \<noteq> None"
proof -
  have len: "length (key_fingerprint C k) = 24" for k using digest fingerprint_length by blast
  from pairing_code_halves [OF screen_a] pairing_code_halves [OF screen_b]
  have "key_fingerprint C x = key_fingerprint C b \<and> key_fingerprint C y = key_fingerprint C a"
    using distinct_ends by (auto simp: append_same_length len)
  moreover have "a \<noteq> b" using distinct_ends by auto
  then have "pairing_code C a b \<noteq> None" by (auto simp: pairing_code_def Let_def)
  ultimately show ?thesis using pairing_code_sym by blast
qed

end
