(* ===== verification/Protocol.thy ===== *)
theory Protocol
  imports Prelude
begin

text \<open>
  The wire protocol (\<open>duocb-core/src/protocol.rs\<close>): the authentication, PIN, card and clipboard
  messages, the length-prefixed JSON framing with its size caps and version check, and the
  streaming reader.  JSON itself is \<open>serde_json\<close>, a parameter: each message type has a
  \<open>codec\<close>, a serialiser and a parser that may each fail.
\<close>

section \<open>Constants and messages\<close>

definition DUOCB_PROTO_VERSION :: u16 where [const_simps]: "DUOCB_PROTO_VERSION = 4"
definition MAX_CONTROL_MESSAGE_SIZE :: nat where
  [const_simps]: "MAX_CONTROL_MESSAGE_SIZE = 16 * 1024"
definition MAX_CLIP_MESSAGE_SIZE :: nat where
  [const_simps]: "MAX_CLIP_MESSAGE_SIZE = 1024 * 1024"
definition MAX_REJECT_REASON_LENGTH :: nat where
  [const_simps]: "MAX_REJECT_REASON_LENGTH = 512"

definition truncate_reason :: "ustring \<Rightarrow> nat \<Rightarrow> ustring" where
  "truncate_reason reason max_len =
     (if str_len reason > max_len
      then (let max_content_len = max_len - 3 in char_floor max_content_len reason @ ascii ''...'')
      else reason)"

datatype auth_request =
  Key (areq_version: u16) (req_key: ustring) (req_nonce: ustring)
| Pin (areq_version: u16) (req_pakes: "ustring list")

definition auth_request_key :: "ustring \<Rightarrow> ustring \<Rightarrow> auth_request" where
  "auth_request_key public_key nonce = Key DUOCB_PROTO_VERSION public_key nonce"

definition auth_request_pin :: "ustring list \<Rightarrow> auth_request" where
  "auth_request_pin pakes = Pin DUOCB_PROTO_VERSION pakes"

record key_challenge =
  kc_version :: u16
  kc_public_key :: ustring
  kc_nonce :: ustring
  kc_proof :: ustring

definition key_challenge_new :: "ustring \<Rightarrow> ustring \<Rightarrow> ustring \<Rightarrow> key_challenge" where
  "key_challenge_new public_key nonce proof =
     \<lparr>kc_version = DUOCB_PROTO_VERSION, kc_public_key = public_key, kc_nonce = nonce, kc_proof = proof\<rparr>"

record key_proof =
  kp_version :: u16
  kp_proof :: ustring

definition key_proof_new :: "ustring \<Rightarrow> key_proof" where
  "key_proof_new proof = \<lparr>kp_version = DUOCB_PROTO_VERSION, kp_proof = proof\<rparr>"

record pin_challenge =
  pch_version :: u16
  pch_pakes :: "ustring list"

definition pin_challenge_new :: "ustring list \<Rightarrow> pin_challenge" where
  "pin_challenge_new pakes = \<lparr>pch_version = DUOCB_PROTO_VERSION, pch_pakes = pakes\<rparr>"

record pin_response =
  prs_version :: u16
  prs_confirms :: "ustring list"

definition pin_response_new :: "ustring list \<Rightarrow> pin_response" where
  "pin_response_new confirms = \<lparr>prs_version = DUOCB_PROTO_VERSION, prs_confirms = confirms\<rparr>"

record pin_confirm =
  pcf_version :: u16
  pcf_accepted :: bool
  pcf_reason :: "ustring option"
  pcf_slot :: "nat option"
  pcf_confirm :: "ustring option"

definition pin_confirm_accepted :: "nat \<Rightarrow> ustring \<Rightarrow> pin_confirm" where
  "pin_confirm_accepted slot confirm =
     \<lparr>pcf_version = DUOCB_PROTO_VERSION, pcf_accepted = True, pcf_reason = None,
      pcf_slot = Some slot, pcf_confirm = Some confirm\<rparr>"

definition pin_confirm_rejected :: "ustring \<Rightarrow> pin_confirm" where
  "pin_confirm_rejected reason =
     \<lparr>pcf_version = DUOCB_PROTO_VERSION, pcf_accepted = False,
      pcf_reason = Some (truncate_reason reason MAX_REJECT_REASON_LENGTH),
      pcf_slot = None, pcf_confirm = None\<rparr>"

record auth_response =
  ars_version :: u16
  ars_accepted :: bool
  ars_reason :: "ustring option"

definition auth_response_accepted :: auth_response where
  "auth_response_accepted =
     \<lparr>ars_version = DUOCB_PROTO_VERSION, ars_accepted = True, ars_reason = None\<rparr>"

definition auth_response_rejected :: "ustring \<Rightarrow> auth_response" where
  "auth_response_rejected reason =
     \<lparr>ars_version = DUOCB_PROTO_VERSION, ars_accepted = False,
      ars_reason = Some (truncate_reason reason MAX_REJECT_REASON_LENGTH)\<rparr>"

record card_offer =
  co_version :: u16
  co_card :: ustring

definition card_offer_new :: "ustring \<Rightarrow> card_offer" where
  "card_offer_new encoded = \<lparr>co_version = DUOCB_PROTO_VERSION, co_card = encoded\<rparr>"

datatype clip_body =
  Item ustring u64
| PullLatest
| Latest ustring u64

record clip_msg =
  cm_version :: u16
  cm_body :: clip_body

definition clip_of :: "clip_body \<Rightarrow> clip_msg" where
  "clip_of body = \<lparr>cm_version = DUOCB_PROTO_VERSION, cm_body = body\<rparr>"

definition clip_item :: "ustring \<Rightarrow> u64 \<Rightarrow> clip_msg" where
  "clip_item text sent_at_ms = clip_of (Item text sent_at_ms)"

definition clip_pull_latest :: clip_msg where
  "clip_pull_latest = clip_of PullLatest"

definition clip_latest :: "ustring \<Rightarrow> u64 \<Rightarrow> clip_msg" where
  "clip_latest text sent_at_ms = clip_of (Latest text sent_at_ms)"

section \<open>Framing\<close>

datatype wire_error =
  SerializeFailed
| TooLarge nat
| TooShort nat
| LengthTooLarge nat
| Incomplete nat nat
| TrailingBytes nat
| InvalidJson
| VersionMismatch u16
| ReadLengthFailed
| ReadBodyFailed
| WriteFailed

record 'm codec =
  ser :: "'m \<Rightarrow> bytes option"
  de :: "bytes \<Rightarrow> 'm option"

definition encode_length_prefixed :: "'m codec \<Rightarrow> nat \<Rightarrow> 'm \<Rightarrow> wire_error + bytes" where
  "encode_length_prefixed c max_len v =
     (case ser c v of
        None \<Rightarrow> Inl SerializeFailed
      | Some json \<Rightarrow>
          (if length json > max_len then Inl (TooLarge (length json))
           else Inr (be_bytes 4 (length json) @ json)))"

definition decode_length_prefixed ::
    "'m codec \<Rightarrow> nat \<Rightarrow> ('m \<Rightarrow> u16) \<Rightarrow> bytes \<Rightarrow> wire_error + 'm" where
  "decode_length_prefixed c max_len get_version data =
     (if length data < 4 then Inl (TooShort (length data))
      else let len = be_val (take 4 data) in
       if len > max_len then Inl (LengthTooLarge len)
       else if length data < 4 + len then Inl (Incomplete (4 + len) (length data))
       else if length data > 4 + len then Inl (TrailingBytes (length data - (4 + len)))
       else case de c (take len (drop 4 data)) of
              None \<Rightarrow> Inl InvalidJson
            | Some v \<Rightarrow>
                (if get_version v \<noteq> DUOCB_PROTO_VERSION then Inl (VersionMismatch (get_version v))
                 else Inr v))"

text \<open>One codec for each message type.\<close>

record codecs =
  areq_codec :: "auth_request codec"
  kchal_codec :: "key_challenge codec"
  kproof_codec :: "key_proof codec"
  pchal_codec :: "pin_challenge codec"
  presp_codec :: "pin_response codec"
  pconf_codec :: "pin_confirm codec"
  aresp_codec :: "auth_response codec"
  offer_codec :: "card_offer codec"
  clip_codec :: "clip_msg codec"

definition encode_auth_request :: "codecs \<Rightarrow> auth_request \<Rightarrow> wire_error + bytes" where
  "encode_auth_request J = encode_length_prefixed (areq_codec J) MAX_CONTROL_MESSAGE_SIZE"

definition decode_auth_request :: "codecs \<Rightarrow> bytes \<Rightarrow> wire_error + auth_request" where
  "decode_auth_request J = decode_length_prefixed (areq_codec J) MAX_CONTROL_MESSAGE_SIZE areq_version"

definition encode_key_challenge :: "codecs \<Rightarrow> key_challenge \<Rightarrow> wire_error + bytes" where
  "encode_key_challenge J = encode_length_prefixed (kchal_codec J) MAX_CONTROL_MESSAGE_SIZE"

definition decode_key_challenge :: "codecs \<Rightarrow> bytes \<Rightarrow> wire_error + key_challenge" where
  "decode_key_challenge J = decode_length_prefixed (kchal_codec J) MAX_CONTROL_MESSAGE_SIZE kc_version"

definition encode_key_proof :: "codecs \<Rightarrow> key_proof \<Rightarrow> wire_error + bytes" where
  "encode_key_proof J = encode_length_prefixed (kproof_codec J) MAX_CONTROL_MESSAGE_SIZE"

definition decode_key_proof :: "codecs \<Rightarrow> bytes \<Rightarrow> wire_error + key_proof" where
  "decode_key_proof J = decode_length_prefixed (kproof_codec J) MAX_CONTROL_MESSAGE_SIZE kp_version"

definition encode_pin_challenge :: "codecs \<Rightarrow> pin_challenge \<Rightarrow> wire_error + bytes" where
  "encode_pin_challenge J = encode_length_prefixed (pchal_codec J) MAX_CONTROL_MESSAGE_SIZE"

definition decode_pin_challenge :: "codecs \<Rightarrow> bytes \<Rightarrow> wire_error + pin_challenge" where
  "decode_pin_challenge J = decode_length_prefixed (pchal_codec J) MAX_CONTROL_MESSAGE_SIZE pch_version"

definition encode_pin_response :: "codecs \<Rightarrow> pin_response \<Rightarrow> wire_error + bytes" where
  "encode_pin_response J = encode_length_prefixed (presp_codec J) MAX_CONTROL_MESSAGE_SIZE"

definition decode_pin_response :: "codecs \<Rightarrow> bytes \<Rightarrow> wire_error + pin_response" where
  "decode_pin_response J = decode_length_prefixed (presp_codec J) MAX_CONTROL_MESSAGE_SIZE prs_version"

definition encode_pin_confirm :: "codecs \<Rightarrow> pin_confirm \<Rightarrow> wire_error + bytes" where
  "encode_pin_confirm J = encode_length_prefixed (pconf_codec J) MAX_CONTROL_MESSAGE_SIZE"

definition decode_pin_confirm :: "codecs \<Rightarrow> bytes \<Rightarrow> wire_error + pin_confirm" where
  "decode_pin_confirm J = decode_length_prefixed (pconf_codec J) MAX_CONTROL_MESSAGE_SIZE pcf_version"

definition encode_auth_response :: "codecs \<Rightarrow> auth_response \<Rightarrow> wire_error + bytes" where
  "encode_auth_response J = encode_length_prefixed (aresp_codec J) MAX_CONTROL_MESSAGE_SIZE"

definition decode_auth_response :: "codecs \<Rightarrow> bytes \<Rightarrow> wire_error + auth_response" where
  "decode_auth_response J = decode_length_prefixed (aresp_codec J) MAX_CONTROL_MESSAGE_SIZE ars_version"

definition encode_card_offer :: "codecs \<Rightarrow> card_offer \<Rightarrow> wire_error + bytes" where
  "encode_card_offer J = encode_length_prefixed (offer_codec J) MAX_CONTROL_MESSAGE_SIZE"

definition decode_card_offer :: "codecs \<Rightarrow> bytes \<Rightarrow> wire_error + card_offer" where
  "decode_card_offer J = decode_length_prefixed (offer_codec J) MAX_CONTROL_MESSAGE_SIZE co_version"

definition encode_clip_msg :: "codecs \<Rightarrow> clip_msg \<Rightarrow> wire_error + bytes" where
  "encode_clip_msg J = encode_length_prefixed (clip_codec J) MAX_CLIP_MESSAGE_SIZE"

definition decode_clip_msg :: "codecs \<Rightarrow> bytes \<Rightarrow> wire_error + clip_msg" where
  "decode_clip_msg J = decode_length_prefixed (clip_codec J) MAX_CLIP_MESSAGE_SIZE cm_version"

lemmas encode_defs =
  encode_auth_request_def encode_key_challenge_def encode_key_proof_def encode_pin_challenge_def
  encode_pin_response_def encode_pin_confirm_def encode_auth_response_def encode_card_offer_def
  encode_clip_msg_def

lemmas decode_defs =
  decode_auth_request_def decode_key_challenge_def decode_key_proof_def decode_pin_challenge_def
  decode_pin_response_def decode_pin_confirm_def decode_auth_response_def decode_card_offer_def
  decode_clip_msg_def

lemmas message_defs =
  auth_request_key_def auth_request_pin_def key_challenge_new_def key_proof_new_def
  pin_challenge_new_def pin_response_new_def pin_confirm_accepted_def pin_confirm_rejected_def
  auth_response_accepted_def auth_response_rejected_def card_offer_new_def clip_of_def
  clip_item_def clip_pull_latest_def clip_latest_def

section \<open>Streams\<close>

text \<open>
  \<open>read_exact\<close> takes \<open>n\<close> bytes. When the peer ends its stream early it fails, and when the
  peer falls silent it waits for ever; either way what had arrived is consumed. \<open>write_all\<close>
  fails on a finished stream, and when the connection dies after \<open>wcap\<close> more bytes.
\<close>

definition read_exact :: "nat \<Rightarrow> 'e \<Rightarrow> ('z chan_scheme, 'e, bytes) prog" where
  "read_exact n err s =
     (if n \<le> length (rx s) then (Done (take n (rx s)), s\<lparr>rx := drop n (rx s)\<rparr>)
      else ((case rx_end s of Eof \<Rightarrow> Fail err | Silent \<Rightarrow> Stall), s\<lparr>rx := []\<rparr>))"

definition write_all :: "bytes \<Rightarrow> ('z chan_scheme, wire_error, unit) prog" where
  "write_all bs s =
     (if fin s then (Fail WriteFailed, s)
      else if length bs \<le> wcap s
      then (Done (), s\<lparr>tx := tx s @ bs, wcap := wcap s - length bs\<rparr>)
      else (Fail WriteFailed, s\<lparr>tx := tx s @ take (wcap s) bs, wcap := 0\<rparr>))"

definition read_length_prefixed :: "nat \<Rightarrow> ('z chan_scheme, wire_error, bytes) prog" where
  "read_length_prefixed max_len =
     bindp (read_exact 4 ReadLengthFailed) (\<lambda>len_buf.
       let len = be_val len_buf in
       if len > max_len then throw (LengthTooLarge len)
       else bindp (read_exact len ReadBodyFailed) (\<lambda>body. ret (len_buf @ body)))"

section \<open>Facts about framing\<close>

lemma encode_Inr:
  "encode_length_prefixed c max_len v = Inr f \<longleftrightarrow>
     (\<exists>json. ser c v = Some json \<and> length json \<le> max_len \<and> f = be_bytes 4 (length json) @ json)"
  by (auto simp: encode_length_prefixed_def split: option.splits)

lemma decode_Inr:
  "decode_length_prefixed c max_len get_version data = Inr v \<longleftrightarrow>
     (\<exists>json. data = be_bytes 4 (length json) @ json \<and> length json \<le> max_len
        \<and> length json < 256 ^ 4 \<and> de c json = Some v \<and> get_version v = DUOCB_PROTO_VERSION)"
proof
  assume d: "decode_length_prefixed c max_len get_version data = Inr v"
  let ?len = "be_val (take 4 data)"
  let ?json = "drop 4 data"
  from d have l: "4 \<le> length data" "?len \<le> max_len" "length data = 4 + ?len"
    and v: "de c (take ?len ?json) = Some v" "get_version v = DUOCB_PROTO_VERSION"
    by (auto simp: decode_length_prefixed_def Let_def split: if_splits option.splits)
  have lt: "?len < 256 ^ 4" using be_val_bound [of "take 4 data"] l by simp
  have "be_bytes 4 ?len = take 4 data" using l(1) by (intro be_bytes_be_val) simp
  with l v lt show "\<exists>json. data = be_bytes 4 (length json) @ json \<and> length json \<le> max_len
      \<and> length json < 256 ^ 4 \<and> de c json = Some v \<and> get_version v = DUOCB_PROTO_VERSION"
    by (intro exI [of _ ?json]) simp
next
  assume "\<exists>json. data = be_bytes 4 (length json) @ json \<and> length json \<le> max_len
      \<and> length json < 256 ^ 4 \<and> de c json = Some v \<and> get_version v = DUOCB_PROTO_VERSION"
  then show "decode_length_prefixed c max_len get_version data = Inr v"
    by (auto simp: decode_length_prefixed_def Let_def)
qed

text \<open>A codec carries a message when it parses back from its serialised form, within the cap.\<close>

definition codec_at :: "'m codec \<Rightarrow> nat \<Rightarrow> 'm \<Rightarrow> bool" where
  "codec_at c max_len v \<longleftrightarrow>
     (case ser c v of None \<Rightarrow> False | Some json \<Rightarrow> length json \<le> max_len \<and> de c json = Some v)"

definition frame_of :: "'m codec \<Rightarrow> 'm \<Rightarrow> bytes" where
  "frame_of c v = (case ser c v of None \<Rightarrow> [] | Some json \<Rightarrow> be_bytes 4 (length json) @ json)"

lemma codec_at_encode:
  "codec_at c max_len v \<Longrightarrow> encode_length_prefixed c max_len v = Inr (frame_of c v)"
  by (auto simp: codec_at_def encode_length_prefixed_def frame_of_def split: option.splits)

lemma codec_at_frame:
  "codec_at c max_len v \<Longrightarrow>
     \<exists>json. ser c v = Some json \<and> length json \<le> max_len \<and> de c json = Some v
       \<and> frame_of c v = be_bytes 4 (length json) @ json"
  by (auto simp: codec_at_def frame_of_def split: option.splits)

lemma codec_at_decode:
  assumes "codec_at c max_len v" "max_len < 256 ^ 4" "get_version v = DUOCB_PROTO_VERSION"
  shows "decode_length_prefixed c max_len get_version (frame_of c v) = Inr v"
  using codec_at_frame [OF assms(1)] assms(2,3) by (auto simp: decode_Inr)

lemma frame_of_length: "codec_at c max_len v \<Longrightarrow> length (frame_of c v) \<le> max_len + 4"
  using codec_at_frame by fastforce

text \<open>Frames are self-delimiting: an accepted buffer at the front of a frame is that frame.\<close>

lemma frame_unique:
  assumes d: "decode_length_prefixed c' max_len' get_version f = Inr v"
    and at: "codec_at c max_len m" "max_len < 256 ^ 4" and eq: "f @ q = frame_of c m @ rest"
  shows "f = frame_of c m" "q = rest"
proof -
  from d obtain j where j: "f = be_bytes 4 (length j) @ j" "length j < 256 ^ 4"
    by (auto simp: decode_Inr)
  from codec_at_frame [OF at(1)] obtain k where k: "frame_of c m = be_bytes 4 (length k) @ k"
    "length k \<le> max_len" by auto
  from eq j k have "be_bytes 4 (length j) = be_bytes 4 (length k) \<and> j @ q = k @ rest"
    by (simp add: append_same_length)
  moreover from this j(2) k(2) at(2) have "length j = length k"
    by (meson be_bytes_inj le_less_trans)
  ultimately show "f = frame_of c m" "q = rest" using j k by auto
qed

lemma read_frame:
  assumes "codec_at c max_len v" "max_len < 256 ^ 4" "rx s = frame_of c v @ rest"
  shows "read_length_prefixed max_len s = (Done (frame_of c v), s\<lparr>rx := rest\<rparr>)"
  using codec_at_frame [OF assms(1)] assms(2,3)
  by (auto simp: read_length_prefixed_def read_exact_def bindp_def ret_def Let_def)

lemma read_exact_Done:
  "read_exact n e s = (Done bs, s') \<Longrightarrow> rx s = bs @ rx s' \<and> length bs = n"
  by (auto simp: read_exact_def split: if_splits rx_end.splits)

lemma read_length_prefixed_reads [reads]: "reads_only (read_length_prefixed max_len)"
proof -
  have e: "reads_only (read_exact n e)" for n and e
    by (auto simp: reads_only_def read_exact_def)
  show ?thesis
    unfolding read_length_prefixed_def Let_def
    by (auto intro!: reads e split: if_splits)
qed

lemma read_length_prefixed_Done:
  assumes "read_length_prefixed max_len s = (Done f, s')"
  shows "rx s = f @ rx s'" "s' = s\<lparr>rx := rx s'\<rparr>"
    "length f = 4 + be_val (take 4 f)" "be_val (take 4 f) \<le> max_len"
proof -
  from assms obtain lb s1 where 1: "read_exact 4 ReadLengthFailed s = (Done lb, s1)"
    and r: "(let len = be_val lb in if len > max_len then throw (LengthTooLarge len)
        else bindp (read_exact len ReadBodyFailed) (\<lambda>body. ret (lb @ body))) s1 = (Done f, s')"
    unfolding read_length_prefixed_def by (elim bindp_DoneE)
  from r have 2: "\<not> be_val lb > max_len"
    and 3: "bindp (read_exact (be_val lb) ReadBodyFailed) (\<lambda>body. ret (lb @ body)) s1 = (Done f, s')"
    by (simp_all add: Let_def split: if_splits)
  from 3 obtain body where 4: "read_exact (be_val lb) ReadBodyFailed s1 = (Done body, s')"
    and f: "f = lb @ body" by (elim bindp_DoneE) simp
  note a = read_exact_Done [OF 1] and b = read_exact_Done [OF 4]
  show "rx s = f @ rx s'" using a b f by simp
  show "length f = 4 + be_val (take 4 f)" "be_val (take 4 f) \<le> max_len" using a b f 2 by simp_all
  obtain q where "s' = s\<lparr>rx := q\<rparr>" using reads_onlyD [OF read_length_prefixed_reads assms] by blast
  then show "s' = s\<lparr>rx := rx s'\<rparr>" by simp
qed

lemma write_all_ok [io_simps]:
  "\<not> fin s \<Longrightarrow> length bs \<le> wcap s \<Longrightarrow>
     write_all bs s = (Done (), s\<lparr>tx := tx s @ bs, wcap := wcap s - length bs\<rparr>)"
  by (simp add: write_all_def)

lemma write_all_Done:
  "write_all bs s = (Done u, s') \<longleftrightarrow>
     \<not> fin s \<and> length bs \<le> wcap s \<and> s' = s\<lparr>tx := tx s @ bs, wcap := wcap s - length bs\<rparr>"
  by (auto simp: write_all_def)

lemma runs_write_all [wp]:
  "runs (write_all bs) s Q \<longleftrightarrow>
     (if fin s then Q (Fail WriteFailed) s
      else if length bs \<le> wcap s then Q (Done ()) (s\<lparr>tx := tx s @ bs, wcap := wcap s - length bs\<rparr>)
      else Q (Fail WriteFailed) (s\<lparr>tx := tx s @ take (wcap s) bs, wcap := 0\<rparr>))"
  by (simp add: runs_def write_all_def)

text \<open>A read returns a whole frame from the front of the input, or fails, or waits.\<close>

lemma runs_read:
  assumes "\<And>f q. rx s = f @ q \<Longrightarrow> Q (Done f) (s\<lparr>rx := q\<rparr>)"
    and "\<And>e q. Q (Fail e) (s\<lparr>rx := q\<rparr>)" and "\<And>q. Q Stall (s\<lparr>rx := q\<rparr>)"
  shows "runs (read_length_prefixed max_len) s Q"
proof -
  obtain r t where m: "read_length_prefixed max_len s = (r, t)"
    by (cases "read_length_prefixed max_len s")
  obtain q where t: "t = s\<lparr>rx := q\<rparr>" using reads_onlyD [OF read_length_prefixed_reads m] by blast
  have "Q r t"
  proof (cases r)
    case (Done f)
    with m read_length_prefixed_Done(1) [of max_len s f t] t have "rx s = f @ q" by simp
    with assms(1) Done t show ?thesis by simp
  qed (use assms t in auto)
  with m show ?thesis by (simp add: runs_def)
qed

lemma runs_read_frame:
  assumes "codec_at c max_len v" "max_len < 256 ^ 4" "rx s = frame_of c v @ rest"
  shows "runs (read_length_prefixed max_len) s Q = Q (Done (frame_of c v)) (s\<lparr>rx := rest\<rparr>)"
  using read_frame [OF assms] by (simp add: runs_def)

section \<open>Properties\<close>

text \<open>
  A buffer decodes to a message exactly when it is one whole frame: a four-byte
  big-endian length within the cap, exactly that many bytes, which the JSON parser accepts, and the
  protocol's version number. A short, long, oversized or foreign-version buffer is never accepted.
\<close>

theorem decode_exact:
  "decode_length_prefixed c max_len get_version data = Inr v \<longleftrightarrow>
     (\<exists>json. data = be_bytes 4 (length json) @ json \<and> length json \<le> max_len
        \<and> length json < 256 ^ 4 \<and> de c json = Some v \<and> get_version v = DUOCB_PROTO_VERSION)"
  by (rule decode_Inr)

text \<open>
  A rejection reason never exceeds its cap and is never cut inside a character: the
  result is the reason itself when it fits, and otherwise a prefix of it followed by three dots,
  so the text an \<open>AuthResponse\<close> or a \<open>PinConfirm\<close> carries has at most 512 bytes.
\<close>

theorem reject_reason_bounded:
  "\<exists>p q. reason = p @ q
     \<and> truncate_reason reason max_len = (if str_len reason \<le> max_len then reason else p @ ascii ''...'')
     \<and> str_len (truncate_reason reason max_len) \<le> max max_len 3
     \<and> ars_reason (auth_response_rejected reason) = pcf_reason (pin_confirm_rejected reason)
     \<and> (case ars_reason (auth_response_rejected reason) of
           Some r \<Rightarrow> str_len r \<le> MAX_REJECT_REASON_LENGTH | None \<Rightarrow> False)"
proof -
  have dots: "str_len (ascii ''...'') = 3" by (simp add: ascii_def)
  have b: "str_len (truncate_reason reason m) \<le> max m 3" for m
    using char_floor_len [of "m - 3" reason] dots by (auto simp: truncate_reason_def Let_def)
  obtain q where "reason = char_floor (max_len - 3) reason @ q"
    using char_floor_prefix [of reason "max_len - 3"] by blast
  moreover have "truncate_reason reason max_len = (if str_len reason \<le> max_len then reason
      else char_floor (max_len - 3) reason @ ascii ''...'')"
    by (simp add: truncate_reason_def Let_def)
  moreover have "str_len (truncate_reason reason 512) \<le> 512" using b [of 512] by simp
  ultimately show ?thesis
    using b [of max_len]
    by (intro exI [of _ "char_floor (max_len - 3) reason"] exI [of _ q])
      (simp add: message_defs const_simps)
qed

end
