(* ===== verification/Sample.thy ===== *)
theory Sample
  imports Auth Protocol
begin

text \<open>
  Concrete instances of the third-party parameters, on which the witnesses evaluate: a codec given
  by a table of messages, and a toy signature scheme whose signature is the key followed by the
  digest. They show that the hypotheses about the parameters can hold together.
\<close>

fun index_of :: "'a \<Rightarrow> 'a list \<Rightarrow> nat option" where
  "index_of x [] = None"
| "index_of x (y # ys) = (if x = y then Some 0 else map_option Suc (index_of x ys))"

definition table_codec :: "'m list \<Rightarrow> 'm codec" where
  "table_codec ms =
     \<lparr>ser = (\<lambda>m. map_option (\<lambda>i. [of_nat i]) (index_of m ms)),
      de = (\<lambda>b. case b of [i] \<Rightarrow> if unat i < length ms then Some (ms ! unat i) else None | _ \<Rightarrow> None)\<rparr>"

lemma index_of_in: "m \<in> set ms \<Longrightarrow> \<exists>i. index_of m ms = Some i \<and> i < length ms \<and> ms ! i = m"
  by (induction ms) auto

lemma table_codec_at:
  assumes "m \<in> set ms" "length ms \<le> 256" "0 < max_len"
  shows "codec_at (table_codec ms) max_len m"
proof -
  obtain i where i: "index_of m ms = Some i" "i < length ms" "ms ! i = m"
    using index_of_in [OF assms(1)] by blast
  with assms(2) have "unat (of_nat i :: byte) = i" by (intro unat_small_byte) simp
  with i assms(3) show ?thesis by (simp add: codec_at_def table_codec_def)
qed

definition toy_crypto :: "card_content list \<Rightarrow> event list \<Rightarrow> crypto" where
  "toy_crypto contents events =
     \<lparr>sha256 = (\<lambda>bs. take 32 (rev bs @ replicate 32 0)),
      pub_of = PublicKey,
      schnorr_sign = (\<lambda>k d. map unat (k @ d)),
      sig_parse = (\<lambda>s. Some (map of_nat s)),
      xonly = (\<lambda>k. Some (to_bytes k)),
      schnorr_verify = (\<lambda>sg d x. sg = x @ d),
      key_parse = (\<lambda>s. Some (PublicKey (map of_nat s))),
      key_hex = (\<lambda>k. map unat (to_bytes k)),
      key_bech32 = (\<lambda>k. ascii ''npub1'' @ map unat (to_bytes k)),
      sec_parse = (\<lambda>s. Some (map of_nat (drop 5 s))),
      sec_bech32 = (\<lambda>k. ascii ''nsec1'' @ map (\<lambda>b. 256 + unat b) k),
      content_ser = (\<lambda>c. map_option (\<lambda>i. [i]) (index_of c contents)),
      content_de = (\<lambda>s. case s of [i] \<Rightarrow> if i < length contents then Some (contents ! i) else None
                     | _ \<Rightarrow> None),
      ev_sign = (\<lambda>k e. Some (e\<lparr>ev_sig := k\<rparr>)),
      ev_verify = (\<lambda>e. ev_sig e = to_bytes (ev_pubkey e)),
      ev_json = (\<lambda>e. case index_of e events of Some i \<Rightarrow> [123, 1000 + i, 125] | None \<Rightarrow> [123, 125]),
      ev_from_json = (\<lambda>s. case s of [_, i, _] \<Rightarrow>
           if 1000 \<le> i \<and> i - 1000 < length events then Some (events ! (i - 1000)) else None | _ \<Rightarrow> None)\<rparr>"

lemma toy_sha256_length: "length (sha256 (toy_crypto cs es) bs) = 32"
  by (simp add: toy_crypto_def)

text \<open>A sample card: the key \<open>[k]\<close>, the name \<open>a_23456789\<close>, the window from \<open>t\<close>.\<close>

definition sample_name :: ustring where
  "sample_name = [97, 95, 50, 51, 52, 53, 54, 55, 56, 57]"

definition sample_content :: "u64 \<Rightarrow> card_content" where
  "sample_content t = \<lparr>cc_version = 4, cc_name = sample_name, cc_not_before = t,
     cc_not_after = t + CARD_TTL_SECS\<rparr>"

definition sample_event :: "byte \<Rightarrow> u64 \<Rightarrow> event" where
  "sample_event k t = \<lparr>ev_pubkey = PublicKey [k], ev_kind = IDENTITY_CARD_KIND, ev_created_at = t,
     ev_identifier = Some IDENTITY_CARD_DTAG, ev_expiration = Some (t + CARD_TTL_SECS),
     ev_content = [0], ev_sig = [k]\<rparr>"

definition sample_crypto :: crypto where
  "sample_crypto = toy_crypto [sample_content 1000] [sample_event 7 1000, sample_event 9 1000]"

definition sample_card :: "byte \<Rightarrow> identity_card" where
  "sample_card k = \<lparr>card_event = sample_event k 1000, card_name = sample_name,
     card_not_before = 1000, card_not_after = 1000 + CARD_TTL_SECS\<rparr>"

lemma sample_name_split:
  "split_display_identity sample_name = Inr ([97], [50, 51, 52, 53, 54, 55, 56, 57])"
proof -
  have "split_once IDENTITY_SEPARATOR sample_name = Some ([97], [50, 51, 52, 53, 54, 55, 56, 57])"
    by (simp add: sample_name_def const_simps)
  moreover have "validate_name [97] = Inr ()"
    by (simp add: validate_name_def name_char_def is_ascii_alphanumeric_def const_simps)
  moreover have "is_valid_suffix [50, 51, 52, 53, 54, 55, 56, 57]"
    by (simp add: is_valid_suffix_def alphanum_values const_simps)
  ultimately show ?thesis by (simp add: split_display_identity_def const_simps)
qed

lemma sample_events:
  "ev_json sample_crypto (sample_event 7 1000) = [123, 1000, 125]"
  "ev_json sample_crypto (sample_event 9 1000) = [123, 1001, 125]"
  by (simp_all add: sample_crypto_def toy_crypto_def sample_event_def)

lemma sample_card_wf:
  assumes "k = 7 \<or> k = 9"
  shows "card_wf sample_crypto (sample_card k)"
proof -
  have "ev_verify sample_crypto (sample_event k 1000)"
    by (simp add: sample_crypto_def toy_crypto_def sample_event_def)
  moreover have "content_de sample_crypto [0] = Some (sample_content 1000)"
    by (simp add: sample_crypto_def toy_crypto_def)
  moreover have "str_len (card_encode sample_crypto (sample_card k)) \<le> MAX_CARD_SIZE"
    using assms sample_events by (auto simp: card_encode_def sample_card_def const_simps utf8_char_def)
  ultimately show ?thesis
    by (simp add: card_wf_def sample_card_def sample_event_def sample_content_def sample_name_split
        IDENTITY_CARD_VERSION_def CARD_TTL_SECS_def)
qed

lemma sample_from_json:
  "ev_from_json sample_crypto [123, 1000, 125] = Some (sample_event 7 1000)"
  "ev_from_json sample_crypto [123, 1001, 125] = Some (sample_event 9 1000)"
  by (simp_all add: sample_crypto_def toy_crypto_def)

lemma sample_card_text:
  "card_parse sample_crypto [123, 1000, 125] = Inr (sample_card 7)"
  "card_parse sample_crypto [123, 1001, 125] = Inr (sample_card 9)"
  using card_wf_reparse [OF sample_card_wf [of 7]] card_wf_reparse [OF sample_card_wf [of 9]]
  by (simp_all add: card_encode_def sample_card_def sample_events sample_from_json str_trim_def
      is_whitespace_def)

lemma card_window_witness:
  "is_valid_at (sample_card 7) 2000 \<and> remaining_secs_at (sample_card 7) 2000 > 0
   \<and> \<not> is_valid_at (sample_card 7) 100"
  using card_window [OF sample_card_text(1), of 2000 2000] card_window [OF sample_card_text(1), of 100 100]
  by (simp add: sample_card_def const_simps)

lemma pairing_code_witness:
  "\<exists>t. pairing_code sample_crypto (PublicKey [7]) (PublicKey [9]) = Some t
     \<and> pairing_code sample_crypto (PublicKey [9]) (PublicKey [7]) = Some t
     \<and> key_fingerprint sample_crypto (PublicKey [7]) \<noteq> key_fingerprint sample_crypto (PublicKey [9])"
proof -
  have d: "\<forall>k. length (sha256 sample_crypto (FINGERPRINT_DOMAIN @ to_bytes k)) = 32"
    unfolding sample_crypto_def using toy_sha256_length by blast
  have ne: "key_fingerprint sample_crypto (PublicKey [7]) \<noteq> key_fingerprint sample_crypto (PublicKey [9])"
    by (simp add: key_fingerprint_def sample_crypto_def toy_crypto_def FINGERPRINT_DOMAIN_def
        FINGERPRINT_BYTES_def hex_upper_def hex_byte_def hex_digit_def to_ascii_uppercase_def)
  obtain t where t: "pairing_code sample_crypto (PublicKey [7]) (PublicKey [9]) = Some t"
    by (auto simp: pairing_code_def Let_def)
  then have u: "pairing_code sample_crypto (PublicKey [9]) (PublicKey [7]) = Some t"
    using pairing_code_sym by metis
  from pairing_code_authenticates [OF d ne t u] t u ne show ?thesis by blast
qed

end
