(* ===== verification/KeyAuth.thy ===== *)
theory KeyAuth
  imports Sample
begin

text \<open>
  Mutual authentication with the application keys (\<open>duocb-core/src/key_auth.rs\<close>): the signed
  transcript, the dialing half, the opening-frame reader and the listening half with its two
  policy callbacks. Both halves are programs on one end of the session's byte stream; \<open>admit\<close>
  reads the listener's state and \<open>commit\<close> may change it. Random nonces are arguments.
\<close>

section \<open>The transcript\<close>

definition random_nonce :: "(bytes \<Rightarrow> ustring) \<Rightarrow> bytes \<Rightarrow> ustring" where
  "random_nonce url_safe_b64 random32 = url_safe_b64 random32"

definition field :: "bytes \<Rightarrow> bytes" where
  "field v = be_bytes 4 (length v) @ v"

definition auth_transcript ::
    "ustring \<Rightarrow> pubkey \<Rightarrow> pubkey \<Rightarrow> ustring \<Rightarrow> ustring \<Rightarrow> ustring \<Rightarrow> ustring \<Rightarrow> bytes" where
  "auth_transcript role client_key server_key client_nonce server_nonce client_id server_id =
     be_bytes 2 (unat DUOCB_PROTO_VERSION) @ field (utf8 role) @ field (to_bytes client_key)
     @ field (to_bytes server_key) @ field (utf8 client_nonce) @ field (utf8 server_nonce)
     @ field (utf8 client_id) @ field (utf8 server_id)"

definition ROLE_LISTENER :: ustring where "ROLE_LISTENER = ascii ''listener''"
definition ROLE_DIALER :: ustring where "ROLE_DIALER = ascii ''dialer''"

section \<open>The two halves\<close>

datatype hs_error =
  Wire wire_error
| AuthFailed auth_error
| BadListenerKey
| WrongListenerKey
| Rejected ustring
| PinOnClipboardListener
| BadDialerKey
| NotAdmitted nat
| PairedElsewhere

definition wire :: "wire_error + 'a \<Rightarrow> ('s, hs_error, 'a) prog" where
  "wire r = map_err Wire (lift_sum r)"

definition write_frame :: "bytes \<Rightarrow> ('z chan_scheme, hs_error, unit) prog" where
  "write_frame frame = map_err Wire (write_all frame)"

definition read_control :: "('z chan_scheme, hs_error, bytes) prog" where
  "read_control = map_err Wire (read_length_prefixed MAX_CONTROL_MESSAGE_SIZE)"

definition unknown_reason :: ustring where "unknown_reason = ascii ''unknown reason''"

definition dialer_handshake ::
    "codecs \<Rightarrow> 'y crypto_scheme \<Rightarrow> identity \<Rightarrow> pubkey \<Rightarrow> ustring \<Rightarrow> ustring \<Rightarrow> ustring
     \<Rightarrow> ('z chan_scheme, hs_error, unit) prog" where
  "dialer_handshake J C i expected_peer dialer_id listener_id client_nonce =
     (let me = identity_public C i in
      bindp (wire (encode_auth_request J (auth_request_key (key_hex C me) client_nonce))) (\<lambda>request.
      bindp (write_frame request) (\<lambda>_.
      bindp read_control (\<lambda>challenge_bytes.
      bindp (wire (decode_key_challenge J challenge_bytes)) (\<lambda>challenge.
      case key_parse C (kc_public_key challenge) of
        None \<Rightarrow> throw BadListenerKey
      | Some server_key \<Rightarrow>
      bindp (guardp (server_key = expected_peer) WrongListenerKey) (\<lambda>_.
      bindp (map_err AuthFailed (lift_sum (verify_auth_signature C server_key
               (auth_transcript ROLE_LISTENER me server_key client_nonce (kc_nonce challenge)
                  dialer_id listener_id)
               (kc_proof challenge)))) (\<lambda>_.
      bindp (wire (encode_key_proof J (key_proof_new (sign_auth C i
               (auth_transcript ROLE_DIALER me server_key client_nonce (kc_nonce challenge)
                  dialer_id listener_id))))) (\<lambda>proof_frame.
      bindp (write_frame proof_frame) (\<lambda>_.
      bindp read_control (\<lambda>response_bytes.
      bindp (wire (decode_auth_response J response_bytes)) (\<lambda>response.
      guardp (ars_accepted response)
        (Rejected (case ars_reason response of Some r \<Rightarrow> r | None \<Rightarrow> unknown_reason)))))))))))))"

definition read_key_request :: "codecs \<Rightarrow> ('z chan_scheme, hs_error, ustring \<times> ustring) prog" where
  "read_key_request J =
     bindp read_control (\<lambda>request_bytes.
     bindp (wire (decode_auth_request J request_bytes)) (\<lambda>request.
     case request of
       Key version public_key nonce \<Rightarrow> ret (public_key, nonce)
     | Pin version pakes \<Rightarrow> throw PinOnClipboardListener))"

text \<open>
  The listener's callbacks act on the host's shared state, carried beside the channel:
  \<open>admit\<close> reads it and \<open>commit\<close> may change it.
\<close>

definition call_admit :: "('w \<Rightarrow> nat + unit) \<Rightarrow> ('w hchan, hs_error, unit) prog" where
  "call_admit admit s =
     (case admit (world s) of Inl e \<Rightarrow> (Fail (NotAdmitted e), s) | Inr _ \<Rightarrow> (Done (), s))"

definition listener_handshake ::
    "codecs \<Rightarrow> 'y crypto_scheme \<Rightarrow> identity \<Rightarrow> ustring \<Rightarrow> ustring \<Rightarrow> ustring \<Rightarrow> ustring \<Rightarrow> ustring
     \<Rightarrow> (pubkey \<Rightarrow> 'w \<Rightarrow> nat + unit) \<Rightarrow> (pubkey \<Rightarrow> 'w \<Rightarrow> bool \<times> 'w)
     \<Rightarrow> ('w hchan, hs_error, pubkey) prog" where
  "listener_handshake J C i client_public_key client_nonce dialer_id listener_id server_nonce
     admit commit =
     (let me = identity_public C i in
      case key_parse C client_public_key of
        None \<Rightarrow> throw BadDialerKey
      | Some client_key \<Rightarrow>
      bindp (call_admit (admit client_key)) (\<lambda>_.
      bindp (wire (encode_key_challenge J (key_challenge_new (key_hex C me) server_nonce
               (sign_auth C i (auth_transcript ROLE_LISTENER client_key me client_nonce server_nonce
                  dialer_id listener_id))))) (\<lambda>challenge.
      bindp (write_frame challenge) (\<lambda>_.
      bindp read_control (\<lambda>proof_bytes.
      bindp (wire (decode_key_proof J proof_bytes)) (\<lambda>proof.
      bindp (map_err AuthFailed (lift_sum (verify_auth_signature C client_key
               (auth_transcript ROLE_DIALER client_key me client_nonce server_nonce
                  dialer_id listener_id)
               (kp_proof proof)))) (\<lambda>_.
      bindp (call_commit (commit client_key)) (\<lambda>won.
      bindp (guardp won PairedElsewhere) (\<lambda>_.
      bindp (wire (encode_auth_response J auth_response_accepted)) (\<lambda>accepted.
      bindp (write_frame accepted) (\<lambda>_. ret client_key)))))))))))"

section \<open>Symbolic execution\<close>

lemma runs_admit [wp]:
  "runs (call_admit admit) s Q \<longleftrightarrow>
     (case admit (world s) of Inl e \<Rightarrow> Q (Fail (NotAdmitted e)) s | Inr _ \<Rightarrow> Q (Done ()) s)"
  by (auto simp: runs_def call_admit_def split: sum.splits)

lemma runs_wire [wp]:
  "runs (wire r) s Q \<longleftrightarrow> (case r of Inl e \<Rightarrow> Q (Fail (Wire e)) s | Inr a \<Rightarrow> Q (Done a) s)"
  by (cases r) (simp_all add: wire_def wp)

lemma runs_write_frame [wp]:
  "runs (write_frame bs) s Q \<longleftrightarrow>
     (if fin s then Q (Fail (Wire WriteFailed)) s
      else if length bs \<le> wcap s then Q (Done ()) (s\<lparr>tx := tx s @ bs, wcap := wcap s - length bs\<rparr>)
      else Q (Fail (Wire WriteFailed)) (s\<lparr>tx := tx s @ take (wcap s) bs, wcap := 0\<rparr>))"
  by (simp add: write_frame_def wp)

lemma runs_read_control:
  assumes "\<And>f q. rx s = f @ q \<Longrightarrow> Q (Done f) (s\<lparr>rx := q\<rparr>)"
    and "\<And>e q. Q (Fail e) (s\<lparr>rx := q\<rparr>)" and "\<And>q. Q Stall (s\<lparr>rx := q\<rparr>)"
  shows "runs read_control s Q"
  unfolding read_control_def wp by (rule runs_read) (auto intro: assms)

lemma runs_read_control_frame:
  assumes "codec_at c MAX_CONTROL_MESSAGE_SIZE v" "rx s = frame_of c v @ rest"
  shows "runs read_control s Q = Q (Done (frame_of c v)) (s\<lparr>rx := rest\<rparr>)"
proof -
  have "MAX_CONTROL_MESSAGE_SIZE < 256 ^ 4" by (simp add: const_simps)
  from runs_read_frame [OF assms(1) this assms(2)] show ?thesis
    by (simp add: read_control_def wp)
qed

section \<open>What a dialer gives away\<close>

text \<open>The challenge at the front of \<open>input\<close> shows the expected key and a valid proof of it.\<close>

definition challenge_proves ::
    "codecs \<Rightarrow> 'y crypto_scheme \<Rightarrow> pubkey \<Rightarrow> pubkey \<Rightarrow> ustring \<Rightarrow> ustring \<Rightarrow> ustring \<Rightarrow> bytes \<Rightarrow> bool" where
  "challenge_proves J C me peer dialer_id listener_id nonce input \<longleftrightarrow>
     (\<exists>f q ch. input = f @ q \<and> decode_key_challenge J f = Inr ch
        \<and> key_parse C (kc_public_key ch) = Some peer
        \<and> verify_auth_signature C peer
             (auth_transcript ROLE_LISTENER me peer nonce (kc_nonce ch) dialer_id listener_id)
             (kc_proof ch) = Inr ())"

definition request_frame :: "codecs \<Rightarrow> 'y crypto_scheme \<Rightarrow> identity \<Rightarrow> ustring \<Rightarrow> bytes" where
  "request_frame J C i nonce =
     (case encode_auth_request J (auth_request_key (key_hex C (identity_public C i)) nonce) of
        Inl _ \<Rightarrow> [] | Inr f \<Rightarrow> f)"

text \<open>\<open>t\<close> has sent, beyond \<open>s\<close>, at most a prefix of \<open>frame\<close>.\<close>

definition sent_upto :: "bytes \<Rightarrow> 'z chan_scheme \<Rightarrow> 'z chan_scheme \<Rightarrow> bool" where
  "sent_upto frame s t \<longleftrightarrow> (\<exists>k. tx t = tx s @ take k frame)"

lemma sent_upto_intros [intro]:
  "tx t = tx s \<Longrightarrow> sent_upto frame s t"
  "tx t = tx s @ frame \<Longrightarrow> sent_upto frame s t"
  "tx t = tx s @ take k frame \<Longrightarrow> sent_upto frame s t"
  unfolding sent_upto_def by (rule exI [of _ 0], simp) (rule exI [of _ "length frame"], simp, blast)

lemma dialer_runs:
  assumes np: "\<not> challenge_proves J C (identity_public C i) p d l n (rx s)"
  shows "runs (dialer_handshake J C i p d l n) s (\<lambda>r t.
     sent_upto (request_frame J C i n) s t \<and> r \<noteq> Done ())"
proof (cases "encode_auth_request J (auth_request_key (key_hex C (identity_public C i)) n)")
  case (Inl e)
  then show ?thesis by (auto simp: dialer_handshake_def Let_def wp)
next
  case (Inr req)
  then have rf: "request_frame J C i n = req" by (simp add: request_frame_def)
  let ?s = "s\<lparr>tx := tx s @ req, wcap := wcap s - length req\<rparr>"
  have refused: "(decode_key_challenge J f = Inr ch \<and> key_parse C (kc_public_key ch) = Some p) \<longrightarrow>
      (\<exists>e. verify_auth_signature C p (auth_transcript ROLE_LISTENER (identity_public C i) p n
         (kc_nonce ch) d l) (kc_proof ch) = Inl e)" if "rx s = f @ q" for f q ch
    using np that by (auto simp: challenge_proves_def) (metis old.unit.exhaust sum.exhaust)
  show ?thesis
    unfolding dialer_handshake_def Let_def
    apply (simp add: wp Inr rf)
    apply (intro conjI impI)
     apply blast
    apply (rule runs_read_control)
    subgoal for f q
    proof (cases "decode_key_challenge J f")
      case (Inr ch)
      assume f: "rx ?s = f @ q"
      show ?thesis
      proof (cases "key_parse C (kc_public_key ch) = Some p")
        case True
        with f refused [of f q ch] Inr obtain e where
          "verify_auth_signature C p (auth_transcript ROLE_LISTENER (identity_public C i) p n
             (kc_nonce ch) d l) (kc_proof ch) = Inl e" by auto
        with Inr True show ?thesis by (auto simp: wp)
      qed (use Inr in \<open>auto simp: wp split: option.splits\<close>)
    qed (auto simp: wp)
    by auto
qed

text \<open>
  Property C8. A dialer signs nothing for a stranger: unless the bytes it received begin with a
  challenge that names exactly the expected peer's key and carries a valid proof of that key over
  the transcript of this very connection, it sends at most its opening request and does not succeed.
\<close>

theorem dialer_guards_proof:
  "case dialer_handshake J C i expected dialer_id listener_id nonce s of (r, t) \<Rightarrow>
     challenge_proves J C (identity_public C i) expected dialer_id listener_id nonce (rx s)
     \<or> sent_upto (request_frame J C i nonce) s t \<and> failed r"
  using dialer_runs [of J C i expected dialer_id listener_id nonce s]
  by (cases "challenge_proves J C (identity_public C i) expected dialer_id listener_id nonce (rx s)")
    (auto simp: runs_def failed_iff split: prod.splits)

section \<open>What a listener gives away\<close>

definition proof_proves ::
    "codecs \<Rightarrow> 'y crypto_scheme \<Rightarrow> pubkey \<Rightarrow> pubkey \<Rightarrow> ustring \<Rightarrow> ustring \<Rightarrow> ustring \<Rightarrow> ustring \<Rightarrow> bytes \<Rightarrow> bool"
  where
  "proof_proves J C client me dialer_id listener_id client_nonce server_nonce input \<longleftrightarrow>
     (\<exists>f q pr. input = f @ q \<and> decode_key_proof J f = Inr pr
        \<and> verify_auth_signature C client
             (auth_transcript ROLE_DIALER client me client_nonce server_nonce dialer_id listener_id)
             (kp_proof pr) = Inr ())"

definition challenge_msg ::
    "'y crypto_scheme \<Rightarrow> identity \<Rightarrow> pubkey \<Rightarrow> ustring \<Rightarrow> ustring \<Rightarrow> ustring \<Rightarrow> ustring \<Rightarrow> key_challenge" where
  "challenge_msg C i client_key client_nonce server_nonce dialer_id listener_id =
     key_challenge_new (key_hex C (identity_public C i)) server_nonce
       (sign_auth C i (auth_transcript ROLE_LISTENER client_key (identity_public C i) client_nonce
          server_nonce dialer_id listener_id))"

definition challenge_frame ::
    "codecs \<Rightarrow> 'y crypto_scheme \<Rightarrow> identity \<Rightarrow> pubkey \<Rightarrow> ustring \<Rightarrow> ustring \<Rightarrow> ustring \<Rightarrow> ustring \<Rightarrow> bytes" where
  "challenge_frame J C i client_key client_nonce server_nonce dialer_id listener_id =
     (case encode_key_challenge J
        (challenge_msg C i client_key client_nonce server_nonce dialer_id listener_id) of
        Inl _ \<Rightarrow> [] | Inr f \<Rightarrow> f)"

lemma listener_not_admitted:
  assumes "\<forall>k. key_parse C cpk = Some k \<longrightarrow> admit k (world s) \<noteq> Inr ()"
  shows "runs (listener_handshake J C i cpk cn d l sn admit commit) s
     (\<lambda>r t. t = s \<and> (\<forall>k. r \<noteq> Done k))"
proof (cases "key_parse C cpk")
  case None
  then show ?thesis by (simp add: listener_handshake_def Let_def wp)
next
  case (Some k)
  with assms obtain e where "admit k (world s) = Inl e" by (cases "admit k (world s)") auto
  with Some show ?thesis by (simp add: listener_handshake_def Let_def wp)
qed

lemma listener_no_proof:
  assumes k: "key_parse C cpk = Some k"
    and np: "\<not> (proof_proves J C k (identity_public C i) d l cn sn (rx s) \<and> fst (commit k (world s)))"
  shows "runs (listener_handshake J C i cpk cn d l sn admit commit) s
     (\<lambda>r t. sent_upto (challenge_frame J C i k cn sn d l) s t \<and> (\<forall>k. r \<noteq> Done k))"
proof (cases "admit k (world s)")
  case (Inl e)
  with k show ?thesis by (auto simp: listener_handshake_def Let_def wp)
next
  case (Inr u)
  let ?m = "challenge_msg C i k cn sn d l"
  show ?thesis
  proof (cases "encode_key_challenge J ?m")
    case (Inl e)
    with k Inr show ?thesis
      by (auto simp: listener_handshake_def Let_def wp challenge_msg_def)
  next
    case enc: (Inr ch)
    then have cf: "challenge_frame J C i k cn sn d l = ch" by (simp add: challenge_frame_def)
    have refused: "decode_key_proof J f = Inr pr \<longrightarrow>
        (\<exists>e. verify_auth_signature C k (auth_transcript ROLE_DIALER k (identity_public C i) cn sn d l)
           (kp_proof pr) = Inl e) \<or> \<not> fst (commit k (world s))" if "rx s = f @ q" for f q pr
      using np that by (auto simp: proof_proves_def) (metis old.unit.exhaust sum.exhaust)
    show ?thesis
      unfolding listener_handshake_def Let_def
      apply (simp add: wp k Inr enc [unfolded challenge_msg_def] cf)
      apply (intro conjI impI)
       apply blast
      apply (rule runs_read_control)
      subgoal for f q
      proof (cases "decode_key_proof J f")
        case (Inr pr)
        assume "rx (s\<lparr>tx := tx s @ ch, wcap := wcap s - length ch\<rparr>) = f @ q"
        with refused [of f q pr] Inr show ?thesis
          by (auto simp: wp split: sum.splits)
      qed (auto simp: wp)
      by auto
  qed
qed

lemma listener_world:
  assumes k: "key_parse C cpk = Some k"
  shows "runs (listener_handshake J C i cpk cn d l sn admit commit) s
     (\<lambda>r t. (world t = world s \<or> world t = snd (commit k (world s))) \<and>
        (\<forall>k'. r = Done k' \<longrightarrow> k' = k \<and> world t = snd (commit k (world s))))"
proof (cases "admit k (world s)")
  case (Inr u)
  show ?thesis
    unfolding listener_handshake_def Let_def
    apply (simp add: wp k Inr split: sum.split)
    apply (intro conjI impI allI)
    apply (rule runs_read_control)
      apply (auto simp: wp split: sum.splits)
    done
qed (simp add: listener_handshake_def Let_def wp k)

text \<open>
  Property C4. The order of the listener's duties is the secure one. It writes not one byte and
  changes nothing unless the dialer's key parses and \<open>admit\<close> accepts it; and it sends more than
  its challenge, or succeeds, only if moreover the dialer's proof verifies over this connection's
  transcript and \<open>commit\<close> returned true.
\<close>

theorem listener_guards_order:
  "case listener_handshake J C i cpk cn d l sn admit commit s of (r, t) \<Rightarrow>
     t = s \<and> failed r
     \<or> (\<exists>k. key_parse C cpk = Some k \<and> admit k (world s) = Inr ()
          \<and> (sent_upto (challenge_frame J C i k cn sn d l) s t \<and> failed r
             \<or> proof_proves J C k (identity_public C i) d l cn sn (rx s)
               \<and> fst (commit k (world s))
               \<and> (failed r \<or> r = Done k \<and> world t = snd (commit k (world s)))))"
proof -
  obtain r t where run: "listener_handshake J C i cpk cn d l sn admit commit s = (r, t)"
    by (cases "listener_handshake J C i cpk cn d l sn admit commit s")
  show ?thesis
  proof (cases "\<exists>k. key_parse C cpk = Some k \<and> admit k (world s) = Inr ()")
    case True
    then obtain k where k: "key_parse C cpk = Some k" "admit k (world s) = Inr ()" by blast
    note w = runsD [OF listener_world [OF k(1)] run]
    show ?thesis
    proof (cases "proof_proves J C k (identity_public C i) d l cn sn (rx s) \<and> fst (commit k (world s))")
      case True
      with k w run show ?thesis by (cases r) (auto simp: failed_def)
    next
      case False
      from runsD [OF listener_no_proof [where commit = commit, OF k(1) False] run] k run
      show ?thesis by (auto simp: failed_iff)
    qed
  next
    case False
    then have "\<forall>k. key_parse C cpk = Some k \<longrightarrow> admit k (world s) \<noteq> Inr ()" by blast
    from runsD [OF listener_not_admitted [where admit = admit, OF this] run] run show ?thesis by (auto simp: failed_iff)
  qed
qed

section \<open>The transcript is unambiguous\<close>

lemma field_append_inj:
  assumes "field a @ x = field b @ y" "length a < 256 ^ 4" "length b < 256 ^ 4"
  shows "a = b" "x = y"
proof -
  from assms(1) have "be_bytes 4 (length a) = be_bytes 4 (length b) \<and> a @ x = b @ y"
    by (simp add: field_def append_same_length)
  with assms(2,3) be_bytes_inj have "length a = length b \<and> a @ x = b @ y" by blast
  then show "a = b" "x = y" by auto
qed

definition small :: "bytes \<Rightarrow> bool" where "small bs \<longleftrightarrow> length bs < 256 ^ 4"

lemma auth_transcript_inj:
  assumes "auth_transcript r1 c1 s1 n1 m1 d1 l1 = auth_transcript r2 c2 s2 n2 m2 d2 l2"
    and "list_all small [utf8 r1, to_bytes c1, to_bytes s1, utf8 n1, utf8 m1, utf8 d1, utf8 l1]"
    and "list_all small [utf8 r2, to_bytes c2, to_bytes s2, utf8 n2, utf8 m2, utf8 d2, utf8 l2]"
  shows "utf8 r1 = utf8 r2 \<and> c1 = c2 \<and> s1 = s2 \<and> utf8 n1 = utf8 n2 \<and> utf8 m1 = utf8 m2
    \<and> utf8 d1 = utf8 d2 \<and> utf8 l1 = utf8 l2"
proof -
  have f: "field a @ x = field b @ y \<Longrightarrow> small a \<Longrightarrow> small b \<Longrightarrow> a = b \<and> x = y" for a b x y
    unfolding small_def using field_append_inj by blast
  have z: "field a = field b \<Longrightarrow> small a \<Longrightarrow> small b \<Longrightarrow> a = b" for a b
    using f [of a "[]" b "[]"] by simp
  note sm = assms(2,3)
  from assms(1) have 1: "utf8 r1 = utf8 r2" and r1:
    "field (to_bytes c1) @ field (to_bytes s1) @ field (utf8 n1) @ field (utf8 m1) @ field (utf8 d1)
       @ field (utf8 l1) = field (to_bytes c2) @ field (to_bytes s2) @ field (utf8 n2)
       @ field (utf8 m2) @ field (utf8 d2) @ field (utf8 l2)"
    using sm f [of "utf8 r1" _ "utf8 r2"] by (auto simp: auth_transcript_def)
  from f [OF r1] sm have 2: "to_bytes c1 = to_bytes c2" and r2: "field (to_bytes s1) @ field (utf8 n1)
       @ field (utf8 m1) @ field (utf8 d1) @ field (utf8 l1) = field (to_bytes s2) @ field (utf8 n2)
       @ field (utf8 m2) @ field (utf8 d2) @ field (utf8 l2)" by simp_all
  from f [OF r2] sm have 3: "to_bytes s1 = to_bytes s2" and r3: "field (utf8 n1) @ field (utf8 m1)
       @ field (utf8 d1) @ field (utf8 l1) = field (utf8 n2) @ field (utf8 m2) @ field (utf8 d2)
       @ field (utf8 l2)" by simp_all
  from f [OF r3] sm have 4: "utf8 n1 = utf8 n2" and r4: "field (utf8 m1) @ field (utf8 d1)
       @ field (utf8 l1) = field (utf8 m2) @ field (utf8 d2) @ field (utf8 l2)" by simp_all
  from f [OF r4] sm have 5: "utf8 m1 = utf8 m2" and r5: "field (utf8 d1) @ field (utf8 l1) =
       field (utf8 d2) @ field (utf8 l2)" by simp_all
  from f [OF r5] sm have 6: "utf8 d1 = utf8 d2" and r6: "field (utf8 l1) = field (utf8 l2)"
    by simp_all
  from z [OF r6] sm have "utf8 l1 = utf8 l2" by simp
  with 1 2 3 4 5 6 show ?thesis by (auto intro: pubkey.expand)
qed

section \<open>Honest runs\<close>

text \<open>
  The laws of the third-party code at the messages and keys of one session between the dialer
  \<open>di\<close> and the listener \<open>li\<close>: the JSON codecs carry the four messages, keys parse back from
  their hexadecimal form, and a signature made with a key verifies under it.
\<close>

definition proof_msg ::
    "'y crypto_scheme \<Rightarrow> identity \<Rightarrow> pubkey \<Rightarrow> ustring \<Rightarrow> ustring \<Rightarrow> ustring \<Rightarrow> ustring \<Rightarrow> key_proof" where
  "proof_msg C i server_key client_nonce server_nonce dialer_id listener_id =
     key_proof_new (sign_auth C i (auth_transcript ROLE_DIALER (identity_public C i) server_key
       client_nonce server_nonce dialer_id listener_id))"

definition request_msg :: "'y crypto_scheme \<Rightarrow> identity \<Rightarrow> ustring \<Rightarrow> auth_request" where
  "request_msg C i nonce = auth_request_key (key_hex C (identity_public C i)) nonce"

definition session_laws ::
    "codecs \<Rightarrow> 'y crypto_scheme \<Rightarrow> identity \<Rightarrow> identity \<Rightarrow> ustring \<Rightarrow> ustring \<Rightarrow> ustring \<Rightarrow> ustring \<Rightarrow> bool" where
  "session_laws J C di li cn sn d l \<longleftrightarrow>
     (let dk = identity_public C di; lk = identity_public C li;
          lt = auth_transcript ROLE_LISTENER dk lk cn sn d l;
          dt = auth_transcript ROLE_DIALER dk lk cn sn d l in
      codec_at (areq_codec J) MAX_CONTROL_MESSAGE_SIZE (request_msg C di cn)
      \<and> codec_at (kchal_codec J) MAX_CONTROL_MESSAGE_SIZE (challenge_msg C li dk cn sn d l)
      \<and> codec_at (kproof_codec J) MAX_CONTROL_MESSAGE_SIZE (proof_msg C di lk cn sn d l)
      \<and> codec_at (aresp_codec J) MAX_CONTROL_MESSAGE_SIZE auth_response_accepted
      \<and> key_parse C (key_hex C dk) = Some dk \<and> key_parse C (key_hex C lk) = Some lk
      \<and> verify_auth_signature C lk lt (sign_auth C li lt) = Inr ()
      \<and> verify_auth_signature C dk dt (sign_auth C di dt) = Inr ())"

lemma max_control_small [simp]: "MAX_CONTROL_MESSAGE_SIZE < 4294967296"
  by (simp add: const_simps)

lemma control_codec:
  "codec_at (areq_codec J) MAX_CONTROL_MESSAGE_SIZE m1 \<Longrightarrow>
     encode_auth_request J m1 = Inr (frame_of (areq_codec J) m1)"
  "codec_at (kchal_codec J) MAX_CONTROL_MESSAGE_SIZE m2 \<Longrightarrow>
     encode_key_challenge J m2 = Inr (frame_of (kchal_codec J) m2)"
  "codec_at (kproof_codec J) MAX_CONTROL_MESSAGE_SIZE m3 \<Longrightarrow>
     encode_key_proof J m3 = Inr (frame_of (kproof_codec J) m3)"
  "codec_at (aresp_codec J) MAX_CONTROL_MESSAGE_SIZE m4 \<Longrightarrow>
     encode_auth_response J m4 = Inr (frame_of (aresp_codec J) m4)"
  "codec_at (areq_codec J) MAX_CONTROL_MESSAGE_SIZE m1 \<Longrightarrow> areq_version m1 = DUOCB_PROTO_VERSION \<Longrightarrow>
     decode_auth_request J (frame_of (areq_codec J) m1) = Inr m1"
  "codec_at (kchal_codec J) MAX_CONTROL_MESSAGE_SIZE m2 \<Longrightarrow> kc_version m2 = DUOCB_PROTO_VERSION \<Longrightarrow>
     decode_key_challenge J (frame_of (kchal_codec J) m2) = Inr m2"
  "codec_at (kproof_codec J) MAX_CONTROL_MESSAGE_SIZE m3 \<Longrightarrow> kp_version m3 = DUOCB_PROTO_VERSION \<Longrightarrow>
     decode_key_proof J (frame_of (kproof_codec J) m3) = Inr m3"
  "codec_at (aresp_codec J) MAX_CONTROL_MESSAGE_SIZE m4 \<Longrightarrow> ars_version m4 = DUOCB_PROTO_VERSION \<Longrightarrow>
     decode_auth_response J (frame_of (aresp_codec J) m4) = Inr m4"
  by (simp_all add: encode_defs decode_defs codec_at_encode codec_at_decode)

lemma message_fields [simp]:
  "kc_version (challenge_msg C i dk cn sn d l) = DUOCB_PROTO_VERSION"
  "kc_public_key (challenge_msg C i dk cn sn d l) = key_hex C (identity_public C i)"
  "kc_nonce (challenge_msg C i dk cn sn d l) = sn"
  "kc_proof (challenge_msg C i dk cn sn d l) =
     sign_auth C i (auth_transcript ROLE_LISTENER dk (identity_public C i) cn sn d l)"
  "kp_version (proof_msg C i lk cn sn d l) = DUOCB_PROTO_VERSION"
  "kp_proof (proof_msg C i lk cn sn d l) =
     sign_auth C i (auth_transcript ROLE_DIALER (identity_public C i) lk cn sn d l)"
  "areq_version (request_msg C i cn) = DUOCB_PROTO_VERSION"
  "ars_version auth_response_accepted = DUOCB_PROTO_VERSION"
  "ars_accepted auth_response_accepted"
  by (simp_all add: challenge_msg_def proof_msg_def request_msg_def message_defs)

lemma session_facts:
  assumes "session_laws J C di li cn sn d l"
  defines "dk \<equiv> identity_public C di" and "lk \<equiv> identity_public C li"
  shows "codec_at (areq_codec J) MAX_CONTROL_MESSAGE_SIZE (request_msg C di cn)"
    "codec_at (kchal_codec J) MAX_CONTROL_MESSAGE_SIZE (challenge_msg C li dk cn sn d l)"
    "codec_at (kproof_codec J) MAX_CONTROL_MESSAGE_SIZE (proof_msg C di lk cn sn d l)"
    "codec_at (aresp_codec J) MAX_CONTROL_MESSAGE_SIZE auth_response_accepted"
    "key_parse C (key_hex C dk) = Some dk" "key_parse C (key_hex C lk) = Some lk"
    "verify_auth_signature C lk (auth_transcript ROLE_LISTENER dk lk cn sn d l)
       (sign_auth C li (auth_transcript ROLE_LISTENER dk lk cn sn d l)) = Inr ()"
    "verify_auth_signature C dk (auth_transcript ROLE_DIALER dk lk cn sn d l)
       (sign_auth C di (auth_transcript ROLE_DIALER dk lk cn sn d l)) = Inr ()"
  using assms by (simp_all add: session_laws_def Let_def)

lemma dialer_honest:
  assumes laws: "session_laws J C di li cn sn d l"
    and rx: "rx s = frame_of (kchal_codec J) (challenge_msg C li (identity_public C di) cn sn d l)
               @ frame_of (aresp_codec J) auth_response_accepted @ rest"
    and room: "\<not> fin s" "length (frame_of (areq_codec J) (request_msg C di cn)
       @ frame_of (kproof_codec J) (proof_msg C di (identity_public C li) cn sn d l)) \<le> wcap s"
  shows "runs (dialer_handshake J C di (identity_public C li) d l cn) s (\<lambda>r t. r = Done ()
     \<and> tx t = tx s @ frame_of (areq_codec J) (request_msg C di cn)
         @ frame_of (kproof_codec J) (proof_msg C di (identity_public C li) cn sn d l)
     \<and> rx t = rest \<and> fin t = fin s
     \<and> wcap t = wcap s - length (frame_of (areq_codec J) (request_msg C di cn)
         @ frame_of (kproof_codec J) (proof_msg C di (identity_public C li) cn sn d l)))"
proof -
  note L = session_facts [OF laws]
  note step = wp control_codec L room(1)
  have room1: "length (frame_of (areq_codec J) (request_msg C di cn)) \<le> wcap s"
    and room2: "length (frame_of (kproof_codec J) (proof_msg C di (identity_public C li) cn sn d l))
      \<le> wcap s - length (frame_of (areq_codec J) (request_msg C di cn))" using room(2) by simp_all
  show ?thesis
    unfolding dialer_handshake_def Let_def
    apply (simp add: step room1 flip: request_msg_def)
    apply (subst runs_read_control_frame [OF L(2),
          where rest = "frame_of (aresp_codec J) auth_response_accepted @ rest"])
     apply (simp add: rx)
    apply (simp add: step room2 flip: proof_msg_def)
    apply (subst runs_read_control_frame [OF L(4), where rest = rest])
     apply (simp add: rx)
    apply (simp add: step)
    done
qed

lemma listener_honest:
  assumes laws: "session_laws J C di li cn sn d l"
    and rx: "rx s = frame_of (kproof_codec J) (proof_msg C di (identity_public C li) cn sn d l) @ rest"
    and room: "\<not> fin s" "length (frame_of (kchal_codec J)
           (challenge_msg C li (identity_public C di) cn sn d l)
         @ frame_of (aresp_codec J) auth_response_accepted) \<le> wcap s"
    and policy: "admit (identity_public C di) (world s) = Inr ()"
      "commit (identity_public C di) (world s) = (True, w)"
  shows "runs (listener_handshake J C li (key_hex C (identity_public C di)) cn d l sn admit commit) s
     (\<lambda>r t. r = Done (identity_public C di)
     \<and> tx t = tx s @ frame_of (kchal_codec J) (challenge_msg C li (identity_public C di) cn sn d l)
         @ frame_of (aresp_codec J) auth_response_accepted
     \<and> rx t = rest \<and> world t = w \<and> fin t = fin s
     \<and> wcap t = wcap s - length (frame_of (kchal_codec J)
           (challenge_msg C li (identity_public C di) cn sn d l)
         @ frame_of (aresp_codec J) auth_response_accepted))"
proof -
  note L = session_facts [OF laws]
  note step = wp control_codec L room(1) policy
  have room1: "length (frame_of (kchal_codec J)
      (challenge_msg C li (identity_public C di) cn sn d l)) \<le> wcap s"
    and room2: "length (frame_of (aresp_codec J) auth_response_accepted) \<le>
      wcap s - length (frame_of (kchal_codec J) (challenge_msg C li (identity_public C di) cn sn d l))"
    using room(2) by simp_all
  show ?thesis
    unfolding listener_handshake_def Let_def
    apply (simp add: step room1 flip: challenge_msg_def)
    apply (subst runs_read_control_frame [OF L(3), where rest = rest])
     apply (simp add: rx)
    apply (simp add: step room2)
    done
qed

text \<open>What each half of an honest session writes, within 40000 bytes.\<close>

definition hello_frames :: "codecs \<Rightarrow> 'y crypto_scheme \<Rightarrow> identity \<Rightarrow> pubkey \<Rightarrow> ustring \<Rightarrow> ustring \<Rightarrow> ustring \<Rightarrow> ustring \<Rightarrow> bytes" where
  "hello_frames J C di lk cn sn d l =
     frame_of (areq_codec J) (request_msg C di cn) @ frame_of (kproof_codec J) (proof_msg C di lk cn sn d l)"

definition welcome_frames :: "codecs \<Rightarrow> 'y crypto_scheme \<Rightarrow> identity \<Rightarrow> pubkey \<Rightarrow> ustring \<Rightarrow> ustring \<Rightarrow> ustring \<Rightarrow> ustring \<Rightarrow> bytes" where
  "welcome_frames J C li dk cn sn d l =
     frame_of (kchal_codec J) (challenge_msg C li dk cn sn d l) @ frame_of (aresp_codec J) auth_response_accepted"

lemma hello_welcome_length:
  assumes "session_laws J C di li cn sn d l"
  shows "length (hello_frames J C di (identity_public C li) cn sn d l) \<le> 40000"
    "length (welcome_frames J C li (identity_public C di) cn sn d l) \<le> 40000"
proof -
  note L = session_facts [OF assms]
  show "length (hello_frames J C di (identity_public C li) cn sn d l) \<le> 40000"
    "length (welcome_frames J C li (identity_public C di) cn sn d l) \<le> 40000"
    using frame_of_length [OF L(1)] frame_of_length [OF L(2)] frame_of_length [OF L(3)] frame_of_length [OF L(4)]
    by (simp_all add: hello_frames_def welcome_frames_def const_simps)
qed

lemma dialer_completes:
  assumes laws: "session_laws J C di li cn sn d l"
    and ch: "\<not> fin s" "40000 \<le> wcap s" "rx s = welcome_frames J C li (identity_public C di) cn sn d l @ q"
  shows "\<exists>t. dialer_handshake J C di (identity_public C li) d l cn s = (Done (), t)
     \<and> tx t = tx s @ hello_frames J C di (identity_public C li) cn sn d l \<and> rx t = q \<and> \<not> fin t \<and> wcap s - 40000 \<le> wcap t"
proof -
  note len = hello_welcome_length(1) [OF laws, unfolded hello_frames_def]
  have "runs (dialer_handshake J C di (identity_public C li) d l cn) s
      (\<lambda>r t. r = Done () \<and> tx t = tx s @ hello_frames J C di (identity_public C li) cn sn d l \<and> rx t = q \<and> \<not> fin t
         \<and> wcap s - 40000 \<le> wcap t)"
    by (rule runs_conseq [OF dialer_honest [OF laws, where rest = q]])
      (use ch len in \<open>auto simp: welcome_frames_def hello_frames_def\<close>)
  then show ?thesis by (auto simp: runs_def split: prod.splits)
qed

lemma listener_completes:
  assumes laws: "session_laws J C di li cn sn d l"
    and ch: "\<not> fin s" "40000 \<le> wcap s"
      "rx s = frame_of (kproof_codec J) (proof_msg C di (identity_public C li) cn sn d l) @ q"
    and policy: "admit (identity_public C di) (world s) = Inr ()" "commit (identity_public C di) (world s) = (True, w)"
  shows "\<exists>t. listener_handshake J C li (key_hex C (identity_public C di)) cn d l sn admit commit s
       = (Done (identity_public C di), t)
     \<and> tx t = tx s @ welcome_frames J C li (identity_public C di) cn sn d l \<and> rx t = q \<and> world t = w \<and> \<not> fin t
     \<and> wcap s - 40000 \<le> wcap t"
proof -
  note len = hello_welcome_length(2) [OF laws, unfolded welcome_frames_def]
  have "runs (listener_handshake J C li (key_hex C (identity_public C di)) cn d l sn admit commit) s
      (\<lambda>r t. r = Done (identity_public C di) \<and> tx t = tx s @ welcome_frames J C li (identity_public C di) cn sn d l
         \<and> rx t = q \<and> world t = w \<and> \<not> fin t \<and> wcap s - 40000 \<le> wcap t)"
    by (rule runs_conseq [OF listener_honest [where rest = q and w = w and admit = admit and commit = commit, OF laws ch(3) ch(1) _ policy]])
      (use ch len in \<open>auto simp: welcome_frames_def\<close>)
  then show ?thesis by (auto simp: runs_def split: prod.splits)
qed

lemma key_request_read:
  assumes "codec_at (areq_codec J) MAX_CONTROL_MESSAGE_SIZE (request_msg C i cn)"
    and "rx s = frame_of (areq_codec J) (request_msg C i cn) @ q"
  shows "read_key_request J s = (Done (key_hex C (identity_public C i), cn), s\<lparr>rx := q\<rparr>)"
proof -
  have "runs (read_key_request J) s (\<lambda>r t. r = Done (key_hex C (identity_public C i), cn) \<and> t = s\<lparr>rx := q\<rparr>)"
    unfolding read_key_request_def wp
    apply (subst runs_read_control_frame [OF assms(1) assms(2)])
    apply (simp add: wp control_codec assms(1))
    apply (simp add: request_msg_def auth_request_key_def wp)
    done
  then show ?thesis by (auto simp: runs_def split: prod.splits)
qed

text \<open>The listening half from its first byte.\<close>

lemma listener_accepts_hello:
  assumes laws: "session_laws J C di li cn sn d l"
    and ch: "\<not> fin s" "40000 \<le> wcap s" "rx s = hello_frames J C di (identity_public C li) cn sn d l @ q"
    and policy: "admit (identity_public C di) (world s) = Inr ()" "commit (identity_public C di) (world s) = (True, w)"
  shows "\<exists>t. bindp (read_key_request J) (\<lambda>(pk, n). listener_handshake J C li pk n d l sn admit commit) s
       = (Done (identity_public C di), t)
     \<and> tx t = tx s @ welcome_frames J C li (identity_public C di) cn sn d l \<and> rx t = q \<and> world t = w \<and> \<not> fin t
     \<and> wcap s - 40000 \<le> wcap t"
proof -
  let ?s = "s\<lparr>rx := frame_of (kproof_codec J) (proof_msg C di (identity_public C li) cn sn d l) @ q\<rparr>"
  from key_request_read [OF session_facts(1) [OF laws], of s] ch(3)
  have "read_key_request J s = (Done (key_hex C (identity_public C di), cn), ?s)" by (simp add: hello_frames_def)
  with listener_completes [OF laws, of ?s q admit commit w] ch policy show ?thesis by (simp add: bindp_def)
qed

lemma honest_handshake:
  assumes laws: "session_laws J C di li cn sn d l"
    and ends: "\<not> fin sd \<and> tx sd = [] \<and> 40000 \<le> wcap sd" "\<not> fin sl \<and> tx sl = [] \<and> 40000 \<le> wcap sl"
    and policy: "admit (identity_public C di) (world sl) = Inr ()"
      "commit (identity_public C di) (world sl) = (True, w)"
  shows "\<exists>to_l to_d.
     (case dialer_handshake J C di (identity_public C li) d l cn (sd\<lparr>rx := to_d\<rparr>) of (r, t) \<Rightarrow>
        r = Done () \<and> tx t = to_l \<and> rx t = [])
     \<and> (case bindp (read_key_request J)
              (\<lambda>(pk, n). listener_handshake J C li pk n d l sn admit commit) (sl\<lparr>rx := to_l\<rparr>) of (r, t) \<Rightarrow>
        r = Done (identity_public C di) \<and> tx t = to_d \<and> rx t = [] \<and> world t = w)"
  using dialer_completes [OF laws, of "sd\<lparr>rx := welcome_frames J C li (identity_public C di) cn sn d l\<rparr>" "[]"]
    listener_accepts_hello [OF laws, of "sl\<lparr>rx := hello_frames J C di (identity_public C li) cn sn d l\<rparr>" "[]" admit commit w]
    ends policy
  by (intro exI [of _ "hello_frames J C di (identity_public C li) cn sn d l"]
      exI [of _ "welcome_frames J C li (identity_public C di) cn sn d l"]) auto

text \<open>
  Property C9. Two honest devices authenticate. With frames that fit, the dialer's bytes fed to the
  listener (which first reads the opening request) and the listener's bytes fed to the dialer make
  both halves return: the dialer succeeds, and the listener names the dialer's key, having
  committed it.
\<close>

theorem key_auth_completes:
  assumes laws: "session_laws J C di li cn sn d l"
    and ends: "\<not> fin sd \<and> tx sd = [] \<and> 40000 \<le> wcap sd" "\<not> fin sl \<and> tx sl = [] \<and> 40000 \<le> wcap sl"
    and policy: "admit (identity_public C di) (world sl) = Inr ()"
      "commit (identity_public C di) (world sl) = (True, w)"
  shows "\<exists>to_l to_d.
     (case dialer_handshake J C di (identity_public C li) d l cn (sd\<lparr>rx := to_d\<rparr>) of (r, t) \<Rightarrow>
        r = Done () \<and> tx t = to_l \<and> rx t = [])
     \<and> (case bindp (read_key_request J)
              (\<lambda>(pk, n). listener_handshake J C li pk n d l sn admit commit) (sl\<lparr>rx := to_l\<rparr>) of (r, t) \<Rightarrow>
        r = Done (identity_public C di) \<and> tx t = to_d \<and> rx t = [] \<and> world t = w)"
  by (rule honest_handshake [where admit = admit and commit = commit and w = w, OF laws ends policy])

text \<open>
  Property C15. The proof is bound to the connection. Assume that the listener's signature verifies
  over no transcript but the one it signed. Then a dialer that succeeds on a challenge some listener
  signed agrees with that listener on everything the transcript names: the listener is the expected
  peer, it meant this dialer's key and nonce, and both ends call the two transport endpoints by the
  same names. So a relayed or replayed proof is refused.
\<close>

theorem channel_binding:
  assumes run: "dialer_handshake J C di expected d l cn s = (Done (), t)"
    and rx: "rx s = frame_of (kchal_codec J) (challenge_msg C li ck cn' sn d' l') @ rest"
    and carries: "codec_at (kchal_codec J) MAX_CONTROL_MESSAGE_SIZE (challenge_msg C li ck cn' sn d' l')"
    and parses: "key_parse C (key_hex C (identity_public C li)) = Some (identity_public C li)"
    and binds: "\<forall>T. verify_auth_signature C (identity_public C li) T
        (sign_auth C li (auth_transcript ROLE_LISTENER ck (identity_public C li) cn' sn d' l')) = Inr ()
        \<longrightarrow> T = auth_transcript ROLE_LISTENER ck (identity_public C li) cn' sn d' l'"
    and sizes: "list_all small [to_bytes ck, to_bytes (identity_public C li),
        to_bytes (identity_public C di), utf8 cn, utf8 cn', utf8 sn, utf8 d, utf8 d', utf8 l, utf8 l']"
  shows "expected = identity_public C li \<and> ck = identity_public C di \<and> utf8 cn' = utf8 cn
     \<and> utf8 d' = utf8 d \<and> utf8 l' = utf8 l"
proof -
  let ?lk = "identity_public C li"
  let ?m = "challenge_msg C li ck cn' sn d' l'"
  from run have "challenge_proves J C (identity_public C di) expected d l cn (rx s)"
    using runsD [OF dialer_runs run] by blast
  then obtain f q ch where f: "rx s = f @ q" "decode_key_challenge J f = Inr ch"
    and k: "key_parse C (kc_public_key ch) = Some expected"
    and v: "verify_auth_signature C expected (auth_transcript ROLE_LISTENER (identity_public C di)
        expected cn (kc_nonce ch) d l) (kc_proof ch) = Inr ()"
    by (auto simp: challenge_proves_def)
  have "f = frame_of (kchal_codec J) ?m"
    by (rule frame_unique(1) [where q = q and rest = rest, OF f(2) [unfolded decode_defs] carries])
      (use f rx in \<open>simp_all add: const_simps\<close>)
  with f carries have ch: "ch = ?m" by (simp add: control_codec)
  with k parses have e: "expected = ?lk" by simp
  have "small (utf8 ROLE_LISTENER)" by (simp add: small_def ROLE_LISTENER_def ascii_def)
  moreover from v ch e binds
  have "auth_transcript ROLE_LISTENER (identity_public C di) ?lk cn sn d l =
      auth_transcript ROLE_LISTENER ck ?lk cn' sn d' l'" by simp
  ultimately show ?thesis using auth_transcript_inj sizes e by fastforce
qed

section \<open>Witnesses\<close>

definition demo_identity :: "byte \<Rightarrow> identity" where "demo_identity k = \<lparr>secret = [k]\<rparr>"

definition demo_crypto :: crypto where "demo_crypto = sample_crypto\<lparr>sha256 := (\<lambda>bs. bs)\<rparr>"

text \<open>A session of device 7 dialing device 9, with nonces \<open>[1]\<close>, \<open>[2]\<close> and ids \<open>[3]\<close>, \<open>[4]\<close>.\<close>

definition demo_codecs :: "'y crypto_scheme \<Rightarrow> codecs" where
  "demo_codecs C =
     \<lparr>areq_codec = table_codec [request_msg C (demo_identity 7) [1]],
      kchal_codec = table_codec [challenge_msg C (demo_identity 9) (PublicKey [7]) [1] [2] [3] [4]],
      kproof_codec = table_codec [proof_msg C (demo_identity 7) (PublicKey [9]) [1] [2] [3] [4]],
      pchal_codec = table_codec [], presp_codec = table_codec [], pconf_codec = table_codec [],
      aresp_codec = table_codec [auth_response_accepted], offer_codec = table_codec [],
      clip_codec = table_codec []\<rparr>"

lemma demo_public [simp]: "identity_public demo_crypto (demo_identity k) = PublicKey [k]"
  by (simp add: identity_public_def demo_identity_def demo_crypto_def sample_crypto_def toy_crypto_def)

lemma demo_verify:
  "verify_auth_signature demo_crypto (PublicKey [k]) T (sign_auth demo_crypto (demo_identity k) T')
     = Inr () \<longleftrightarrow> T = T'"
  by (auto simp: verify_auth_signature_def sign_auth_def demo_crypto_def sample_crypto_def
      toy_crypto_def demo_identity_def auth_digest_def comp_def)

lemma demo_key: "key_parse demo_crypto (key_hex demo_crypto k) = Some k"
  by (cases k) (simp add: demo_crypto_def sample_crypto_def toy_crypto_def comp_def)

lemma demo_laws:
  "session_laws (demo_codecs demo_crypto) demo_crypto (demo_identity 7) (demo_identity 9)
     [1] [2] [3] [4]"
  by (simp add: session_laws_def Let_def demo_codecs_def table_codec_at demo_verify demo_key const_simps)

definition demo_end :: "unit hchan" where
  "demo_end = \<lparr>rx = [], rx_end = Silent, tx = [], fin = False, wcap = 100000, world = ()\<rparr>"

lemma key_auth_completes_witness:
  "\<exists>to_l to_d. (case dialer_handshake (demo_codecs demo_crypto) demo_crypto (demo_identity 7)
      (PublicKey [9]) [3] [4] [1] (demo_end\<lparr>rx := to_d\<rparr>) of (r, t) \<Rightarrow> r = Done () \<and> tx t = to_l)"
proof -
  have e: "\<not> fin demo_end \<and> tx demo_end = [] \<and> 40000 \<le> wcap demo_end" by (simp add: demo_end_def)
  from key_auth_completes [OF demo_laws e e, where w = "()"
      and admit = "\<lambda>_ _. Inr ()" and commit = "\<lambda>_ _. (True, ())"]
  show ?thesis by (simp add: case_prod_beta) blast
qed

lemma channel_binding_witness:
  "\<exists>(s :: unit hchan) t. dialer_handshake (demo_codecs demo_crypto) demo_crypto (demo_identity 7)
      (PublicKey [9]) [3] [4] [1] s = (Done (), t) \<and> PublicKey [9] = identity_public demo_crypto (demo_identity 9)"
proof -
  let ?J = "demo_codecs demo_crypto"
  let ?c = "frame_of (kchal_codec ?J) (challenge_msg demo_crypto (demo_identity 9) (PublicKey [7]) [1] [2] [3] [4])"
  let ?a = "frame_of (aresp_codec ?J) auth_response_accepted"
  let ?s = "demo_end\<lparr>rx := ?c @ ?a\<rparr>"
  note L = session_facts [OF demo_laws]
  have "length (frame_of (areq_codec ?J) (request_msg demo_crypto (demo_identity 7) [1])
       @ frame_of (kproof_codec ?J) (proof_msg demo_crypto (demo_identity 7) (PublicKey [9]) [1] [2] [3] [4]))
      \<le> 100000"
    using frame_of_length [OF L(1)] frame_of_length [OF L(3)] by (simp add: const_simps)
  then have "runs (dialer_handshake ?J demo_crypto (demo_identity 7) (PublicKey [9]) [3] [4] [1]) ?s
      (\<lambda>r t. r = Done ())"
    using dialer_honest [OF demo_laws, of ?s "[]"] by (auto simp: demo_end_def runs_def split: prod.splits)
  then obtain t where run: "dialer_handshake ?J demo_crypto (demo_identity 7) (PublicKey [9]) [3] [4] [1] ?s
      = (Done (), t)" by (auto simp: runs_def split: prod.splits)
  have rx: "rx ?s = ?c @ ?a" by simp
  have sizes: "list_all small [to_bytes (PublicKey [7]),
      to_bytes (identity_public demo_crypto (demo_identity 9)),
      to_bytes (identity_public demo_crypto (demo_identity 7)),
      utf8 [1], utf8 [1], utf8 [2], utf8 [3], utf8 [3], utf8 [4], utf8 [4]]"
    by (simp add: small_def)
  from channel_binding [OF run rx _ demo_key _ sizes] L(2) demo_verify
  have "PublicKey [9] = identity_public demo_crypto (demo_identity 9)" by simp
  with run show ?thesis by blast
qed

end
