(* ===== verification/CardExchange.thy ===== *)
theory CardExchange
  imports KeyAuth
begin

text \<open>
  The exchange of identity cards that follows a card-setup handshake
  (\<open>duocb-core/src/card_exchange.rs\<close>). Both sides run the same program: offer the own card, read
  and verify the peer's, finish the own stream, then wait for the peer to finish its own.
\<close>

datatype exchange_error =
  ExWire wire_error
| PeerCardInvalid auth_error
| NotFinished

definition MAX_TRAILING_BYTES :: nat where [const_simps]: "MAX_TRAILING_BYTES = 1024"

text \<open>
  Finishing the own stream fails when it was finished before, and when the transport has broken: it
  takes nothing more, not even the end of the stream.
\<close>

definition shutdown :: "'e \<Rightarrow> ('z chan_scheme, 'e, unit) prog" where
  "shutdown err s = (if fin s \<or> wcap s = 0 then (Fail err, s) else (Done (), s\<lparr>fin := True\<rparr>))"

text \<open>
  \<open>take(MAX_TRAILING_BYTES).read_to_end\<close>: it returns at the limit or at the peer's end of
  stream, and waits otherwise. A read error is only logged by the code, so it counts as returning.
\<close>

definition drain :: "('z chan_scheme, 'e, unit) prog" where
  "drain s =
     (if MAX_TRAILING_BYTES \<le> length (rx s) then (Done (), s\<lparr>rx := drop MAX_TRAILING_BYTES (rx s)\<rparr>)
      else ((case rx_end s of Eof \<Rightarrow> Done () | Silent \<Rightarrow> Stall), s\<lparr>rx := []\<rparr>))"

definition exchange_cards ::
    "codecs \<Rightarrow> 'y crypto_scheme \<Rightarrow> identity_card \<Rightarrow> ('z chan_scheme, exchange_error, identity_card) prog" where
  "exchange_cards J C own_card =
     bindp (map_err ExWire (lift_sum (encode_card_offer J (card_offer_new (card_encode C own_card))))) (\<lambda>frame.
     bindp (map_err ExWire (write_all frame)) (\<lambda>_.
     bindp (map_err ExWire (read_length_prefixed MAX_CONTROL_MESSAGE_SIZE)) (\<lambda>bytes.
     bindp (map_err ExWire (lift_sum (decode_card_offer J bytes))) (\<lambda>offer.
     bindp (map_err PeerCardInvalid (lift_sum (card_parse C (co_card offer)))) (\<lambda>peer_card.
     bindp (shutdown NotFinished) (\<lambda>_.
     bindp drain (\<lambda>_. ret peer_card)))))))"

section \<open>What finishing the stream means\<close>

lemma runs_shutdown [wp]:
  "runs (shutdown err) s Q \<longleftrightarrow> (if fin s \<or> wcap s = 0 then Q (Fail err) s else Q (Done ()) (s\<lparr>fin := True\<rparr>))"
  by (simp add: runs_def shutdown_def)

lemma runs_drain:
  assumes "\<And>q. Q (Done ()) (s\<lparr>rx := q\<rparr>)" "\<And>q. Q Stall (s\<lparr>rx := q\<rparr>)"
  shows "runs drain s Q"
  using assms by (auto simp: runs_def drain_def split: rx_end.split)

lemma runs_drain_eof [wp]:
  "rx_end s = Eof \<Longrightarrow> length (rx s) < MAX_TRAILING_BYTES \<Longrightarrow> runs drain s Q = Q (Done ()) (s\<lparr>rx := []\<rparr>)"
  by (simp add: runs_def drain_def)

text \<open>The input begins with an offer of a card that verifies.\<close>

definition offers_card ::
    "codecs \<Rightarrow> 'y crypto_scheme \<Rightarrow> identity_card \<Rightarrow> bytes \<Rightarrow> bool" where
  "offers_card J C c input \<longleftrightarrow>
     (\<exists>f q offer. input = f @ q \<and> decode_card_offer J f = Inr offer \<and> card_parse C (co_card offer) = Inr c)"

definition offer_frame :: "codecs \<Rightarrow> 'y crypto_scheme \<Rightarrow> identity_card \<Rightarrow> bytes" where
  "offer_frame J C c =
     (case encode_card_offer J (card_offer_new (card_encode C c)) of Inl _ \<Rightarrow> [] | Inr f \<Rightarrow> f)"

lemma exchange_outcome:
  "case exchange_cards J C own s of (r, t) \<Rightarrow>
     fin t = fin s \<and> failed r
     \<or> (\<exists>c. offers_card J C c (rx s) \<and> fin t \<and> tx t = tx s @ offer_frame J C own
          \<and> (r = Done c \<or> r = Stall) \<and> card_wf C c)"
proof -
  let ?Q = "\<lambda>r t. fin t = fin s \<and> failed r
     \<or> (\<exists>c. offers_card J C c (rx s) \<and> fin t \<and> tx t = tx s @ offer_frame J C own
          \<and> (r = Done c \<or> r = Stall) \<and> card_wf C c)"
  have "runs (exchange_cards J C own) s ?Q"
  proof (cases "encode_card_offer J (card_offer_new (card_encode C own))")
    case (Inl e)
    then show ?thesis by (simp add: exchange_cards_def wp failed_def)
  next
    case (Inr frame)
    then have o: "offer_frame J C own = frame" by (simp add: offer_frame_def)
    show ?thesis
      unfolding exchange_cards_def
      apply (simp add: wp Inr o failed_def)
      apply (intro conjI impI)
      apply (rule runs_read)
      subgoal for f q
      proof (cases "decode_card_offer J f")
        case (Inr offer)
        assume nf: "\<not> fin s" and rx: "rx (s\<lparr>tx := tx s @ frame, wcap := wcap s - length frame\<rparr>) = f @ q"
        show ?thesis
        proof (cases "card_parse C (co_card offer)")
          case c: (Inr c)
          then have "offers_card J C c (rx s)" using rx Inr by (auto simp: offers_card_def)
          moreover have "card_wf C c" using c by (rule card_parse_wf)
          ultimately show ?thesis using Inr c nf by (simp add: wp) (intro impI, rule runs_drain; auto simp: wp)
        qed (use Inr nf in \<open>simp add: wp\<close>)
      qed (simp add: wp)
      by auto
  qed
  then show ?thesis by (simp add: runs_def)
qed

text \<open>
  Property C16. Seeing the end of a peer's card stream proves that the peer already holds the local
  card, and success means a verified card: the program finishes its stream only after it has read an
  offer whose card parses and verifies and after its own offer was sent in full, it returns no other
  card than that one, and in every other case it fails with its stream unfinished.
\<close>

theorem finish_after_peer_card:
  "case exchange_cards J C own s of (r, t) \<Rightarrow>
     fin t = fin s \<and> failed r
     \<or> (\<exists>c. offers_card J C c (rx s) \<and> fin t \<and> tx t = tx s @ offer_frame J C own
          \<and> (r = Done c \<or> r = Stall) \<and> card_wf C c)"
  by (rule exchange_outcome)

section \<open>The honest exchange\<close>

lemma offer_card [simp]: "co_card (card_offer_new text) = text"
  by (simp add: card_offer_new_def)

lemma trailing_pos [simp]: "0 < MAX_TRAILING_BYTES"
  by (simp add: const_simps)

lemma exchange_honest:
  assumes mine: "codec_at (offer_codec J) MAX_CONTROL_MESSAGE_SIZE (card_offer_new (card_encode C own))"
    and theirs: "codec_at (offer_codec J) MAX_CONTROL_MESSAGE_SIZE (card_offer_new (card_encode C peer))"
    and parses: "card_parse C (card_encode C peer) = Inr peer"
    and ch: "\<not> fin s" "20000 \<le> wcap s" "rx s = offer_frame J C peer" "rx_end s = Eof"
  shows "runs (exchange_cards J C own) s (\<lambda>r t. r = Done peer \<and> tx t = tx s @ offer_frame J C own \<and> fin t)"
proof -
  have enc: "encode_card_offer J (card_offer_new (card_encode C own)) =
      Inr (frame_of (offer_codec J) (card_offer_new (card_encode C own)))"
    using mine by (simp add: encode_defs codec_at_encode)
  have small: "MAX_CONTROL_MESSAGE_SIZE < 256 ^ 4" by (simp add: const_simps)
  have dec: "decode_card_offer J (frame_of (offer_codec J) (card_offer_new (card_encode C peer))) =
      Inr (card_offer_new (card_encode C peer))"
    using theirs by (simp add: decode_defs codec_at_decode message_defs)
  have rx: "rx s = frame_of (offer_codec J) (card_offer_new (card_encode C peer)) @ []"
    using ch(3) theirs by (simp add: offer_frame_def encode_defs codec_at_encode)
  have room: "length (frame_of (offer_codec J) (card_offer_new (card_encode C own))) < wcap s"
    using frame_of_length [OF mine] ch(2) by (simp add: const_simps)
  show ?thesis
    unfolding exchange_cards_def
    apply (simp add: wp enc ch(1) room less_imp_le [OF room])
    apply (subst runs_read_frame [OF theirs small, where rest = "[]"])
     apply (simp add: rx)
    using room apply (simp add: wp dec parses ch offer_frame_def enc)
    done
qed

text \<open>
  The exchange completes: when two verified cards travel as offers that fit a control
  frame, each side, fed the other's bytes followed by its end of stream, returns exactly the other
  side's card with its own stream finished.
\<close>

theorem exchange_completes:
  assumes offers: "codec_at (offer_codec J) MAX_CONTROL_MESSAGE_SIZE (card_offer_new (card_encode C a))"
      "codec_at (offer_codec J) MAX_CONTROL_MESSAGE_SIZE (card_offer_new (card_encode C b))"
    and cards: "card_wf C a \<and> ev_from_json C (card_encode C a) = Some (card_event a)
        \<and> str_trim (card_encode C a) = card_encode C a"
      "card_wf C b \<and> ev_from_json C (card_encode C b) = Some (card_event b)
        \<and> str_trim (card_encode C b) = card_encode C b"
    and ends: "\<not> fin sa \<and> tx sa = [] \<and> 20000 \<le> wcap sa" "\<not> fin sb \<and> tx sb = [] \<and> 20000 \<le> wcap sb"
  shows "\<exists>to_a to_b.
     (case exchange_cards J C a (sa\<lparr>rx := to_a, rx_end := Eof\<rparr>) of (r, t) \<Rightarrow>
        r = Done b \<and> tx t = to_b \<and> fin t)
     \<and> (case exchange_cards J C b (sb\<lparr>rx := to_b, rx_end := Eof\<rparr>) of (r, t) \<Rightarrow>
        r = Done a \<and> tx t = to_a \<and> fin t)"
proof -
  have p: "card_parse C (card_encode C a) = Inr a" "card_parse C (card_encode C b) = Inr b"
    using cards card_wf_reparse by blast+
  have "runs (exchange_cards J C a) (sa\<lparr>rx := offer_frame J C b, rx_end := Eof\<rparr>)
      (\<lambda>r t. r = Done b \<and> tx t = offer_frame J C a \<and> fin t)"
    by (rule runs_conseq [OF exchange_honest [OF offers(1) offers(2) p(2)]]) (use ends in auto)
  moreover have "runs (exchange_cards J C b) (sb\<lparr>rx := offer_frame J C a, rx_end := Eof\<rparr>)
      (\<lambda>r t. r = Done a \<and> tx t = offer_frame J C b \<and> fin t)"
    by (rule runs_conseq [OF exchange_honest [OF offers(2) offers(1) p(1)]]) (use ends in auto)
  ultimately show ?thesis
    by (intro exI [of _ "offer_frame J C b"] exI [of _ "offer_frame J C a"]) (simp add: runs_def)
qed

definition card_codecs :: codecs where
  "card_codecs = (demo_codecs demo_crypto)\<lparr>offer_codec :=
     table_codec [card_offer_new [123, 1000, 125], card_offer_new [123, 1001, 125]]\<rparr>"

lemma exchange_completes_witness:
  "\<exists>to_a. fst (exchange_cards card_codecs sample_crypto (sample_card 7)
      (demo_end\<lparr>rx := to_a, rx_end := Eof\<rparr>)) = Done (sample_card 9)"
proof -
  have enc: "card_encode sample_crypto (sample_card 7) = [123, 1000, 125]"
    "card_encode sample_crypto (sample_card 9) = [123, 1001, 125]"
    by (simp_all add: card_encode_def sample_card_def sample_events)
  have o: "codec_at (offer_codec card_codecs) MAX_CONTROL_MESSAGE_SIZE
      (card_offer_new (card_encode sample_crypto (sample_card 7)))"
    "codec_at (offer_codec card_codecs) MAX_CONTROL_MESSAGE_SIZE
      (card_offer_new (card_encode sample_crypto (sample_card 9)))"
    by (simp_all add: card_codecs_def enc table_codec_at const_simps)
  have c: "card_wf sample_crypto (sample_card k) \<and> ev_from_json sample_crypto
      (card_encode sample_crypto (sample_card k)) = Some (card_event (sample_card k))
      \<and> str_trim (card_encode sample_crypto (sample_card k)) = card_encode sample_crypto (sample_card k)"
    if "k = 7 \<or> k = 9" for k
    using that sample_card_wf enc sample_from_json
    by (auto simp: sample_card_def str_trim_def is_whitespace_def)
  have e: "\<not> fin demo_end \<and> tx demo_end = [] \<and> 20000 \<le> wcap demo_end" by (simp add: demo_end_def)
  from exchange_completes [OF o c c e e] show ?thesis by (auto simp: case_prod_beta)
qed

end
