(* ===== verification/PinAuth.thy ===== *)
theory PinAuth
  imports Pin KeyAuth
begin

text \<open>
  Card-setup authentication (\<open>duocb-core/src/pin_auth.rs\<close>): the SPAKE2 handshake with one slot per
  PIN the listener still honours, and its key confirmations. SPAKE2, HMAC and base64 are the fields
  of the record \<open>pake\<close>; the password slots beyond the listener's candidates are random.
\<close>

section \<open>Slots and confirmations\<close>

record pake =
  start_a :: "nat \<Rightarrow> bytes \<Rightarrow> bytes \<Rightarrow> bytes \<Rightarrow> bytes \<times> bytes"
  start_b :: "nat \<Rightarrow> bytes \<Rightarrow> bytes \<Rightarrow> bytes \<Rightarrow> bytes \<times> bytes"
  finish :: "bytes \<Rightarrow> bytes \<Rightarrow> bytes option"
  hmac :: "bytes \<Rightarrow> bytes \<Rightarrow> bytes option"
  b64 :: "bytes \<Rightarrow> ustring"
  unb64 :: "ustring \<Rightarrow> bytes option"

definition PAKE_DOMAIN :: ustring where "PAKE_DOMAIN = ascii ''duocb:pin-pake:v1''"
definition PAKE_SLOTS :: nat where [const_simps]: "PAKE_SLOTS = 2"

datatype direction = Dialer | Listener

definition direction_str :: "direction \<Rightarrow> ustring" where
  "direction_str dir = (case dir of Dialer \<Rightarrow> ascii ''dialer'' | Listener \<Rightarrow> ascii ''listener'')"

definition pake_identities :: "nat \<Rightarrow> ustring \<Rightarrow> ustring \<Rightarrow> bytes \<times> bytes" where
  "pake_identities slot id_d id_l =
     (utf8 (PAKE_DOMAIN @ ascii ''|dialer|'' @ dec slot @ ascii ''|'' @ id_d),
      utf8 (PAKE_DOMAIN @ ascii ''|listener|'' @ dec slot @ ascii ''|'' @ id_l))"

definition confirm_mac ::
    "pake \<Rightarrow> bytes \<Rightarrow> direction \<Rightarrow> nat \<Rightarrow> ustring \<Rightarrow> ustring \<Rightarrow> bytes option" where
  "confirm_mac P key dir slot id_d id_l =
     hmac P key (utf8 (PAKE_DOMAIN @ ascii ''|confirm|'' @ direction_str dir @ ascii ''|''
       @ dec slot @ ascii ''|'' @ id_d @ ascii ''|'' @ id_l))"

datatype pin_error =
  PinWire wire_error
| KdfFailed
| WrongCount nat
| BadBase64
| FinishFailed nat
| MacFailed
| PinRejected ustring
| NoSlotNamed
| SlotOutOfRange nat
| NoConfirmation
| PeerNotProved
| RaceLost
| NoPinMatched

definition decode_b64 :: "pake \<Rightarrow> ustring \<Rightarrow> pin_error + bytes" where
  "decode_b64 P v = (case unb64 P v of None \<Rightarrow> Inl BadBase64 | Some b \<Rightarrow> Inr b)"

definition pin_wire :: "wire_error + 'a \<Rightarrow> ('s, pin_error, 'a) prog" where
  "pin_wire r = map_err PinWire (lift_sum r)"

definition pin_write :: "bytes \<Rightarrow> ('z chan_scheme, pin_error, unit) prog" where
  "pin_write frame = map_err PinWire (write_all frame)"

definition pin_read :: "('z chan_scheme, pin_error, bytes) prog" where
  "pin_read = map_err PinWire (read_length_prefixed MAX_CONTROL_MESSAGE_SIZE)"

section \<open>The dialer\<close>

text \<open>The dialer's instance of a slot: its private state and its message, from the draw \<open>rnd slot\<close>.\<close>

definition dialer_slot ::
    "pake \<Rightarrow> (nat \<Rightarrow> nat) \<Rightarrow> bytes \<Rightarrow> ustring \<Rightarrow> ustring \<Rightarrow> nat \<Rightarrow> bytes \<times> bytes" where
  "dialer_slot P rnd password dialer_id listener_id slot =
     (let (id_a, id_b) = pake_identities slot dialer_id listener_id
      in start_a P (rnd slot) password id_a id_b)"

text \<open>Step 3 for one slot: finish it and compute the dialer's confirmation.\<close>

definition dialer_finish ::
    "pake \<Rightarrow> ustring \<Rightarrow> ustring \<Rightarrow> nat \<times> (bytes \<times> ustring) \<Rightarrow> pin_error + (bytes \<times> ustring)" where
  "dialer_finish P dialer_id listener_id =
     (\<lambda>(slot, (state, msg_b)).
        case decode_b64 P msg_b of
          Inl e \<Rightarrow> Inl e
        | Inr m \<Rightarrow>
            (case finish P state m of
               None \<Rightarrow> Inl (FinishFailed slot)
             | Some key \<Rightarrow>
                 (case confirm_mac P key Dialer slot dialer_id listener_id of
                    None \<Rightarrow> Inl MacFailed
                  | Some mac \<Rightarrow> Inr (key, b64 P mac))))"

definition unknown :: ustring where "unknown = ascii ''unknown''"

text \<open>Step 4: the verdict.\<close>

definition dialer_verdict ::
    "pake \<Rightarrow> ustring \<Rightarrow> ustring \<Rightarrow> bytes list \<Rightarrow> pin_confirm \<Rightarrow> pin_error + unit" where
  "dialer_verdict P dialer_id listener_id keys c =
     (if \<not> pcf_accepted c
      then Inl (PinRejected (case pcf_reason c of Some r \<Rightarrow> r | None \<Rightarrow> unknown))
      else case pcf_slot c of
        None \<Rightarrow> Inl NoSlotNamed
      | Some slot \<Rightarrow>
          (if \<not> slot < PAKE_SLOTS then Inl (SlotOutOfRange slot)
           else case pcf_confirm c of
             None \<Rightarrow> Inl NoConfirmation
           | Some text \<Rightarrow>
               (case decode_b64 P text of
                  Inl e \<Rightarrow> Inl e
                | Inr mac \<Rightarrow>
                    (case confirm_mac P (keys ! slot) Listener slot dialer_id listener_id of
                       None \<Rightarrow> Inl MacFailed
                     | Some expected \<Rightarrow> if mac = expected then Inr () else Inl PeerNotProved))))"

definition pin_dialer_handshake ::
    "codecs \<Rightarrow> pake \<Rightarrow> argon2 \<Rightarrow> (nat \<Rightarrow> nat) \<Rightarrow> ustring \<Rightarrow> ustring \<Rightarrow> ustring
     \<Rightarrow> ('z chan_scheme, pin_error, unit) prog" where
  "pin_dialer_handshake J P A rnd canonical_pin dialer_id listener_id =
     (case derive_auth_key_material A canonical_pin of
        None \<Rightarrow> throw KdfFailed
      | Some password \<Rightarrow>
      let started = map (dialer_slot P rnd password dialer_id listener_id) [0..<PAKE_SLOTS] in
      bindp (pin_wire (encode_auth_request J (auth_request_pin (map (b64 P \<circ> snd) started)))) (\<lambda>request.
      bindp (pin_write request) (\<lambda>_.
      bindp pin_read (\<lambda>challenge_bytes.
      bindp (pin_wire (decode_pin_challenge J challenge_bytes)) (\<lambda>challenge.
      bindp (guardp (length (pch_pakes challenge) = PAKE_SLOTS)
               (WrongCount (length (pch_pakes challenge)))) (\<lambda>_.
      bindp (lift_sum (traverse (dialer_finish P dialer_id listener_id)
               (List.enumerate 0 (zip (map fst started) (pch_pakes challenge))))) (\<lambda>slots.
      bindp (pin_wire (encode_pin_response J (pin_response_new (map snd slots)))) (\<lambda>response.
      bindp (pin_write response) (\<lambda>_.
      bindp pin_read (\<lambda>confirm_bytes.
      bindp (pin_wire (decode_pin_confirm J confirm_bytes)) (\<lambda>c.
      lift_sum (dialer_verdict P dialer_id listener_id (map fst slots) c))))))))))))"

section \<open>The listener\<close>

text \<open>The password of a slot: the candidate, or a random dummy; a dummy slot is not real.\<close>

definition slot_password :: "(nat \<Rightarrow> bytes) \<Rightarrow> bytes list \<Rightarrow> nat \<Rightarrow> bytes" where
  "slot_password dummy candidates slot =
     (if slot < length candidates then candidates ! slot else dummy slot)"

definition listener_slot ::
    "pake \<Rightarrow> (nat \<Rightarrow> nat) \<Rightarrow> bytes \<Rightarrow> ustring \<Rightarrow> ustring \<Rightarrow> nat \<Rightarrow> bytes \<times> bytes" where
  "listener_slot P rnd password dialer_id listener_id slot =
     (let (id_a, id_b) = pake_identities slot dialer_id listener_id
      in start_b P (rnd slot) password id_a id_b)"

definition listener_finish ::
    "pake \<Rightarrow> (nat \<Rightarrow> nat) \<Rightarrow> (nat \<Rightarrow> bytes) \<Rightarrow> bytes list \<Rightarrow> ustring list \<Rightarrow> ustring \<Rightarrow> ustring
     \<Rightarrow> nat \<Rightarrow> pin_error + (bytes \<times> ustring)" where
  "listener_finish P rnd dummy candidates dialer_pakes dialer_id listener_id slot =
     (let (state, msg_b) = listener_slot P rnd (slot_password dummy candidates slot)
            dialer_id listener_id slot in
      case decode_b64 P (dialer_pakes ! slot) of
        Inl e \<Rightarrow> Inl e
      | Inr msg_a \<Rightarrow>
          (case finish P state msg_a of
             None \<Rightarrow> Inl (FinishFailed slot)
           | Some key \<Rightarrow> Inr (key, b64 P msg_b)))"

text \<open>Whether the dialer's confirmation of a slot verifies; a text that is not base64 does not.\<close>

definition slot_matches ::
    "pake \<Rightarrow> bytes list \<Rightarrow> nat \<Rightarrow> ustring list \<Rightarrow> ustring \<Rightarrow> ustring \<Rightarrow> nat \<Rightarrow> pin_error + bool" where
  "slot_matches P keys live confirms dialer_id listener_id slot =
     (case confirm_mac P (keys ! slot) Dialer slot dialer_id listener_id of
        None \<Rightarrow> Inl MacFailed
      | Some expected \<Rightarrow>
          (case unb64 P (confirms ! slot) of
             None \<Rightarrow> Inr False
           | Some mac \<Rightarrow> Inr (slot < live \<and> mac = expected)))"

text \<open>The first slot whose flag is set.\<close>

definition first_match :: "bool list \<Rightarrow> nat option" where
  "first_match flags = find (\<lambda>i. flags ! i) [0..<length flags]"

definition already_paired :: ustring where
  "already_paired = ascii ''listener already paired with another device''"

definition pin_failed :: ustring where
  "pin_failed = ascii ''PIN authentication failed''"

definition pin_listener_handshake ::
    "codecs \<Rightarrow> pake \<Rightarrow> (nat \<Rightarrow> nat) \<Rightarrow> (nat \<Rightarrow> bytes) \<Rightarrow> bytes list \<Rightarrow> ustring list \<Rightarrow> ustring \<Rightarrow> ustring
     \<Rightarrow> ('w \<Rightarrow> bool \<times> 'w) \<Rightarrow> ('w hchan, pin_error, unit) prog" where
  "pin_listener_handshake J P rnd dummy candidates dialer_pakes dialer_id listener_id commit =
     bindp (guardp (length dialer_pakes = PAKE_SLOTS) (WrongCount (length dialer_pakes))) (\<lambda>_.
     bindp (lift_sum (traverse
              (listener_finish P rnd dummy candidates dialer_pakes dialer_id listener_id)
              [0..<PAKE_SLOTS])) (\<lambda>slots.
     let keys = map fst slots in
     bindp (pin_wire (encode_pin_challenge J (pin_challenge_new (map snd slots)))) (\<lambda>challenge.
     bindp (pin_write challenge) (\<lambda>_.
     bindp pin_read (\<lambda>response_bytes.
     bindp (pin_wire (decode_pin_response J response_bytes)) (\<lambda>response.
     bindp (guardp (length (prs_confirms response) = PAKE_SLOTS)
              (WrongCount (length (prs_confirms response)))) (\<lambda>_.
     bindp (lift_sum (traverse
              (slot_matches P keys (length candidates) (prs_confirms response) dialer_id listener_id)
              [0..<PAKE_SLOTS])) (\<lambda>flags.
     case first_match flags of
       Some slot \<Rightarrow>
         bindp (call_commit commit) (\<lambda>won.
         if won then
           (case confirm_mac P (keys ! slot) Listener slot dialer_id listener_id of
              None \<Rightarrow> throw MacFailed
            | Some mac \<Rightarrow>
                bindp (pin_wire (encode_pin_confirm J (pin_confirm_accepted slot (b64 P mac)))) (\<lambda>f.
                pin_write f))
         else
           bindp (pin_wire (encode_pin_confirm J (pin_confirm_rejected already_paired))) (\<lambda>f.
           bindp (pin_write f) (\<lambda>_. throw RaceLost)))
     | None \<Rightarrow>
         bindp (pin_wire (encode_pin_confirm J (pin_confirm_rejected pin_failed))) (\<lambda>f.
         bindp (pin_write f) (\<lambda>_. throw NoPinMatched))))))))))"

section \<open>Symbolic execution\<close>

lemma slots [simp]: "[0..<PAKE_SLOTS] = [0, Suc 0]"
  by (simp add: PAKE_SLOTS_def upt_rec)

lemma slots_two: "PAKE_SLOTS = Suc (Suc 0)"
  by (simp add: PAKE_SLOTS_def)

lemma first_match_two [simp]:
  "first_match [a, b] = (if a then Some 0 else if b then Some (Suc 0) else None)"
  by (simp add: first_match_def upt_rec)

lemma runs_pin_wire [wp]:
  "runs (pin_wire r) s Q \<longleftrightarrow> (case r of Inl e \<Rightarrow> Q (Fail (PinWire e)) s | Inr a \<Rightarrow> Q (Done a) s)"
  by (cases r) (simp_all add: pin_wire_def wp)

lemma runs_pin_write [wp]:
  "runs (pin_write bs) s Q \<longleftrightarrow>
     (if fin s then Q (Fail (PinWire WriteFailed)) s
      else if length bs \<le> wcap s then Q (Done ()) (s\<lparr>tx := tx s @ bs, wcap := wcap s - length bs\<rparr>)
      else Q (Fail (PinWire WriteFailed)) (s\<lparr>tx := tx s @ take (wcap s) bs, wcap := 0\<rparr>))"
  by (simp add: pin_write_def wp)

lemma runs_pin_read:
  assumes "\<And>f q. rx s = f @ q \<Longrightarrow> Q (Done f) (s\<lparr>rx := q\<rparr>)"
    and "\<And>e q. Q (Fail e) (s\<lparr>rx := q\<rparr>)" and "\<And>q. Q Stall (s\<lparr>rx := q\<rparr>)"
  shows "runs pin_read s Q"
  unfolding pin_read_def wp by (rule runs_read) (auto intro: assms)

lemma runs_pin_read_frame:
  assumes "codec_at c MAX_CONTROL_MESSAGE_SIZE v" "rx s = frame_of c v @ rest"
  shows "runs pin_read s Q = Q (Done (frame_of c v)) (s\<lparr>rx := rest\<rparr>)"
proof -
  have "MAX_CONTROL_MESSAGE_SIZE < 256 ^ 4" by (simp add: const_simps)
  from runs_read_frame [OF assms(1) this assms(2)] show ?thesis by (simp add: pin_read_def wp)
qed

section \<open>The honest exchange\<close>

text \<open>The messages of a session in which both ends follow the protocol.\<close>

definition pin_request_msg :: "pake \<Rightarrow> (nat \<Rightarrow> nat) \<Rightarrow> bytes \<Rightarrow> ustring \<Rightarrow> ustring \<Rightarrow> auth_request" where
  "pin_request_msg P rd pw d l =
     auth_request_pin (map (b64 P \<circ> snd) (map (dialer_slot P rd pw d l) [0..<PAKE_SLOTS]))"

definition listener_side ::
    "pake \<Rightarrow> (nat \<Rightarrow> nat) \<Rightarrow> (nat \<Rightarrow> bytes) \<Rightarrow> bytes list \<Rightarrow> ustring \<Rightarrow> ustring \<Rightarrow> nat \<Rightarrow> bytes \<times> bytes" where
  "listener_side P rl dummy cands d l slot =
     listener_slot P rl (slot_password dummy cands slot) d l slot"

definition key_d where
  "key_d P rd rl dummy cands pw d l slot =
     the (finish P (fst (dialer_slot P rd pw d l slot)) (snd (listener_side P rl dummy cands d l slot)))"

definition key_l where
  "key_l P rd rl dummy cands pw d l slot =
     the (finish P (fst (listener_side P rl dummy cands d l slot)) (snd (dialer_slot P rd pw d l slot)))"

definition pin_challenge_msg where
  "pin_challenge_msg P rl dummy cands d l =
     pin_challenge_new (map (\<lambda>slot. b64 P (snd (listener_side P rl dummy cands d l slot))) [0..<PAKE_SLOTS])"

definition pin_response_msg where
  "pin_response_msg P rd rl dummy cands pw d l =
     pin_response_new (map (\<lambda>slot. b64 P (the (confirm_mac P (key_d P rd rl dummy cands pw d l slot)
       Dialer slot d l))) [0..<PAKE_SLOTS])"

definition shared_slot :: "bytes list \<Rightarrow> bytes \<Rightarrow> nat option" where
  "shared_slot cands pw =
     first_match (map (\<lambda>slot. slot < length cands \<and> cands ! slot = pw) [0..<PAKE_SLOTS])"

definition pin_verdict_msg where
  "pin_verdict_msg P rd rl dummy cands pw d l =
     (case shared_slot cands pw of
        None \<Rightarrow> pin_confirm_rejected pin_failed
      | Some slot \<Rightarrow> pin_confirm_accepted slot
          (b64 P (the (confirm_mac P (key_l P rd rl dummy cands pw d l slot) Listener slot d l))))"

text \<open>
  The laws of SPAKE2, HMAC, base64 and JSON at this session: instances finish, two ends holding the
  same password derive the same key, a confirmation made under another password does not verify,
  and the four messages travel unharmed.
\<close>

definition slot_laws where
  "slot_laws P rd rl dummy cands pw d l slot \<longleftrightarrow>
     (let D = dialer_slot P rd pw d l slot; L = listener_side P rl dummy cands d l slot;
          kd = key_d P rd rl dummy cands pw d l slot; kl = key_l P rd rl dummy cands pw d l slot in
      finish P (fst D) (snd L) = Some kd \<and> finish P (fst L) (snd D) = Some kl
      \<and> confirm_mac P kd Dialer slot d l \<noteq> None \<and> confirm_mac P kl Dialer slot d l \<noteq> None
      \<and> confirm_mac P kl Listener slot d l \<noteq> None
      \<and> (if slot_password dummy cands slot = pw then kd = kl
         else confirm_mac P kd Dialer slot d l \<noteq> confirm_mac P kl Dialer slot d l))"

definition pin_laws where
  "pin_laws J P rd rl dummy cands pw d l \<longleftrightarrow>
     list_all (slot_laws P rd rl dummy cands pw d l) [0..<PAKE_SLOTS]
     \<and> (\<forall>b. unb64 P (b64 P b) = Some b)
     \<and> codec_at (areq_codec J) MAX_CONTROL_MESSAGE_SIZE (pin_request_msg P rd pw d l)
     \<and> codec_at (pchal_codec J) MAX_CONTROL_MESSAGE_SIZE (pin_challenge_msg P rl dummy cands d l)
     \<and> codec_at (presp_codec J) MAX_CONTROL_MESSAGE_SIZE (pin_response_msg P rd rl dummy cands pw d l)
     \<and> codec_at (pconf_codec J) MAX_CONTROL_MESSAGE_SIZE (pin_verdict_msg P rd rl dummy cands pw d l)"

lemma pin_codec:
  "codec_at (areq_codec J) MAX_CONTROL_MESSAGE_SIZE m1 \<Longrightarrow>
     encode_auth_request J m1 = Inr (frame_of (areq_codec J) m1)"
  "codec_at (pchal_codec J) MAX_CONTROL_MESSAGE_SIZE m2 \<Longrightarrow>
     encode_pin_challenge J m2 = Inr (frame_of (pchal_codec J) m2)"
  "codec_at (presp_codec J) MAX_CONTROL_MESSAGE_SIZE m3 \<Longrightarrow>
     encode_pin_response J m3 = Inr (frame_of (presp_codec J) m3)"
  "codec_at (pconf_codec J) MAX_CONTROL_MESSAGE_SIZE m4 \<Longrightarrow>
     encode_pin_confirm J m4 = Inr (frame_of (pconf_codec J) m4)"
  "codec_at (pchal_codec J) MAX_CONTROL_MESSAGE_SIZE m2 \<Longrightarrow> pch_version m2 = DUOCB_PROTO_VERSION \<Longrightarrow>
     decode_pin_challenge J (frame_of (pchal_codec J) m2) = Inr m2"
  "codec_at (presp_codec J) MAX_CONTROL_MESSAGE_SIZE m3 \<Longrightarrow> prs_version m3 = DUOCB_PROTO_VERSION \<Longrightarrow>
     decode_pin_response J (frame_of (presp_codec J) m3) = Inr m3"
  "codec_at (pconf_codec J) MAX_CONTROL_MESSAGE_SIZE m4 \<Longrightarrow> pcf_version m4 = DUOCB_PROTO_VERSION \<Longrightarrow>
     decode_pin_confirm J (frame_of (pconf_codec J) m4) = Inr m4"
  by (simp_all add: encode_defs decode_defs codec_at_encode codec_at_decode)

lemma pin_message_fields [simp]:
  "pch_version (pin_challenge_msg P rl dummy cands d l) = DUOCB_PROTO_VERSION"
  "pch_pakes (pin_challenge_msg P rl dummy cands d l) =
     map (\<lambda>slot. b64 P (snd (listener_side P rl dummy cands d l slot))) [0, Suc 0]"
  "prs_version (pin_response_msg P rd rl dummy cands pw d l) = DUOCB_PROTO_VERSION"
  "prs_confirms (pin_response_msg P rd rl dummy cands pw d l) =
     map (\<lambda>slot. b64 P (the (confirm_mac P (key_d P rd rl dummy cands pw d l slot) Dialer slot d l)))
       [0, Suc 0]"
  "pcf_version (pin_verdict_msg P rd rl dummy cands pw d l) = DUOCB_PROTO_VERSION"
  by (auto simp: pin_challenge_msg_def pin_response_msg_def pin_verdict_msg_def message_defs
      split: option.splits)

lemma shared_slot_iff: "shared_slot cands pw = None \<longleftrightarrow> pw \<notin> set (take PAKE_SLOTS cands)"
proof (cases cands)
  case (Cons x xs)
  then show ?thesis by (cases xs) (auto simp: shared_slot_def slots_two)
qed (simp add: shared_slot_def)

lemma shared_slot_Some:
  "shared_slot cands pw = Some slot \<Longrightarrow>
     slot \<in> {0, Suc 0} \<and> slot < length cands \<and> slot_password dummy cands slot = pw"
  by (auto simp: shared_slot_def slot_password_def split: if_splits)

lemma slot_law:
  "pin_laws J P rd rl dummy cands pw d l \<Longrightarrow> slot \<in> {0, Suc 0} \<Longrightarrow>
     slot_laws P rd rl dummy cands pw d l slot"
  by (auto simp: pin_laws_def)

lemma unb64_law: "pin_laws J P rd rl dummy cands pw d l \<Longrightarrow> unb64 P (b64 P b) = Some b"
  by (simp add: pin_laws_def)

lemma dialer_finish_honest:
  assumes "pin_laws J P rd rl dummy cands pw d l" "slot \<in> {0, Suc 0}"
  shows "dialer_finish P d l (slot, (fst (dialer_slot P rd pw d l slot),
      b64 P (snd (listener_side P rl dummy cands d l slot)))) =
    Inr (key_d P rd rl dummy cands pw d l slot,
      b64 P (the (confirm_mac P (key_d P rd rl dummy cands pw d l slot) Dialer slot d l)))"
  using slot_law [OF assms] unb64_law [OF assms(1)]
  by (auto simp: dialer_finish_def decode_b64_def slot_laws_def Let_def)

lemma dialer_verdict_honest:
  assumes laws: "pin_laws J P rd rl dummy cands pw d l"
  shows "dialer_verdict P d l [key_d P rd rl dummy cands pw d l 0,
      key_d P rd rl dummy cands pw d l (Suc 0)] (pin_verdict_msg P rd rl dummy cands pw d l) =
    (if pw \<in> set (take PAKE_SLOTS cands) then Inr () else Inl (PinRejected pin_failed))"
proof (cases "shared_slot cands pw")
  case None
  then have "pw \<notin> set (take PAKE_SLOTS cands)" by (simp add: shared_slot_iff)
  moreover have "truncate_reason pin_failed MAX_REJECT_REASON_LENGTH = pin_failed"
    by (simp add: truncate_reason_def pin_failed_def ascii_def const_simps)
  ultimately show ?thesis using None
    by (simp add: dialer_verdict_def pin_verdict_msg_def message_defs)
next
  case (Some slot)
  then have "pw \<in> set (take PAKE_SLOTS cands)" using shared_slot_iff by (metis option.distinct(1))
  moreover from Some have sl: "slot \<in> {0, Suc 0}" "slot_password dummy cands slot = pw"
    using shared_slot_Some by blast+
  moreover from slot_law [OF laws sl(1)] sl(2)
  have "key_d P rd rl dummy cands pw d l slot = key_l P rd rl dummy cands pw d l slot"
    and "confirm_mac P (key_l P rd rl dummy cands pw d l slot) Listener slot d l \<noteq> None"
    by (auto simp: slot_laws_def Let_def)
  ultimately show ?thesis using Some unb64_law [OF laws]
    by (auto simp: dialer_verdict_def pin_verdict_msg_def message_defs decode_b64_def slots_two)
qed

lemma pin_codecs_hold:
  assumes "pin_laws J P rd rl dummy cands pw d l"
  shows "codec_at (areq_codec J) MAX_CONTROL_MESSAGE_SIZE (pin_request_msg P rd pw d l)"
    "codec_at (pchal_codec J) MAX_CONTROL_MESSAGE_SIZE (pin_challenge_msg P rl dummy cands d l)"
    "codec_at (presp_codec J) MAX_CONTROL_MESSAGE_SIZE (pin_response_msg P rd rl dummy cands pw d l)"
    "codec_at (pconf_codec J) MAX_CONTROL_MESSAGE_SIZE (pin_verdict_msg P rd rl dummy cands pw d l)"
  using assms by (simp_all add: pin_laws_def)

lemma pin_dialer_honest:
  assumes laws: "pin_laws J P rd rl dummy cands pw d l"
    and kdf: "derive_auth_key_material A pin = Some pw"
    and rx: "rx s = frame_of (pchal_codec J) (pin_challenge_msg P rl dummy cands d l)
               @ frame_of (pconf_codec J) (pin_verdict_msg P rd rl dummy cands pw d l) @ q"
    and room: "\<not> fin s" "length (frame_of (areq_codec J) (pin_request_msg P rd pw d l)
       @ frame_of (presp_codec J) (pin_response_msg P rd rl dummy cands pw d l)) \<le> wcap s"
  shows "runs (pin_dialer_handshake J P A rd pin d l) s (\<lambda>r t.
     r = (if pw \<in> set (take PAKE_SLOTS cands) then Done () else Fail (PinRejected pin_failed))
     \<and> tx t = tx s @ frame_of (areq_codec J) (pin_request_msg P rd pw d l)
         @ frame_of (presp_codec J) (pin_response_msg P rd rl dummy cands pw d l)
     \<and> rx t = q \<and> rx_end t = rx_end s \<and> \<not> fin t \<and> wcap t = wcap s
         - length (frame_of (areq_codec J) (pin_request_msg P rd pw d l))
         - length (frame_of (presp_codec J) (pin_response_msg P rd rl dummy cands pw d l)))"
proof -
  note C = pin_codecs_hold [OF laws]
  note step = wp pin_codec C room(1)
  have room1: "length (frame_of (areq_codec J) (pin_request_msg P rd pw d l)) \<le> wcap s"
    and room2: "length (frame_of (presp_codec J) (pin_response_msg P rd rl dummy cands pw d l))
      \<le> wcap s - length (frame_of (areq_codec J) (pin_request_msg P rd pw d l))"
    using room(2) by simp_all
  have rq: "auth_request_pin [b64 P (snd (dialer_slot P rd pw d l 0)),
      b64 P (snd (dialer_slot P rd pw d l (Suc 0)))] = pin_request_msg P rd pw d l"
    by (simp add: pin_request_msg_def)
  have rs: "pin_response_new [b64 P (the (confirm_mac P (key_d P rd rl dummy cands pw d l 0) Dialer 0 d l)),
      b64 P (the (confirm_mac P (key_d P rd rl dummy cands pw d l (Suc 0)) Dialer (Suc 0) d l))] =
      pin_response_msg P rd rl dummy cands pw d l"
    by (simp add: pin_response_msg_def)
  have main: "runs (pin_dialer_handshake J P A rd pin d l) s (\<lambda>r t. r = R
      \<and> tx t = tx s @ frame_of (areq_codec J) (pin_request_msg P rd pw d l)
         @ frame_of (presp_codec J) (pin_response_msg P rd rl dummy cands pw d l)
     \<and> rx t = q \<and> rx_end t = rx_end s \<and> \<not> fin t \<and> wcap t = wcap s
         - length (frame_of (areq_codec J) (pin_request_msg P rd pw d l))
         - length (frame_of (presp_codec J) (pin_response_msg P rd rl dummy cands pw d l)))"
    if v: "dialer_verdict P d l [key_d P rd rl dummy cands pw d l 0,
        key_d P rd rl dummy cands pw d l (Suc 0)] (pin_verdict_msg P rd rl dummy cands pw d l) = V"
      and R: "R = (case V of Inl e \<Rightarrow> Fail e | Inr _ \<Rightarrow> Done ())" for V R
    unfolding pin_dialer_handshake_def Let_def
    apply (simp add: kdf step rq room1)
    apply (subst runs_pin_read_frame [OF C(2),
          where rest = "frame_of (pconf_codec J) (pin_verdict_msg P rd rl dummy cands pw d l) @ q"])
     apply (simp add: rx)
    apply (simp add: step dialer_finish_honest [OF laws] rs room2 slots_two)
    apply (subst runs_pin_read_frame [OF C(4), where rest = q])
     apply (simp add: rx)
    apply (simp add: step v R split: sum.split)
    done
  show ?thesis
    by (rule runs_conseq [OF main [OF dialer_verdict_honest [OF laws] refl]]) auto
qed

lemma slot_matches_honest:
  assumes laws: "pin_laws J P rd rl dummy cands pw d l" and sl: "slot \<in> {0, Suc 0}"
    and keys: "keys ! slot = key_l P rd rl dummy cands pw d l slot"
    and conf: "confirms ! slot =
      b64 P (the (confirm_mac P (key_d P rd rl dummy cands pw d l slot) Dialer slot d l))"
  shows "slot_matches P keys (length cands) confirms d l slot =
    Inr (slot < length cands \<and> cands ! slot = pw)"
proof -
  from slot_law [OF laws sl] obtain ml where
    ml: "confirm_mac P (key_l P rd rl dummy cands pw d l slot) Dialer slot d l = Some ml"
    by (auto simp: slot_laws_def Let_def)
  from slot_law [OF laws sl] ml unb64_law [OF laws] show ?thesis
    by (auto simp: slot_matches_def keys conf slot_laws_def Let_def slot_password_def split: if_splits)
qed

lemma listener_finish_honest:
  assumes laws: "pin_laws J P rd rl dummy cands pw d l" and sl: "slot \<in> {0, Suc 0}"
    and pk: "pakes ! slot = b64 P (snd (dialer_slot P rd pw d l slot))"
  shows "listener_finish P rl dummy cands pakes d l slot =
    Inr (key_l P rd rl dummy cands pw d l slot, b64 P (snd (listener_side P rl dummy cands d l slot)))"
  using slot_law [OF laws sl] unb64_law [OF laws]
  by (auto simp: listener_finish_def decode_b64_def slot_laws_def Let_def pk listener_side_def
      split: prod.splits)

lemma pin_listener_honest:
  assumes laws: "pin_laws J P rd rl dummy cands pw d l"
    and rx: "rx s = frame_of (presp_codec J) (pin_response_msg P rd rl dummy cands pw d l) @ q"
    and room: "\<not> fin s" "length (frame_of (pchal_codec J) (pin_challenge_msg P rl dummy cands d l)
       @ frame_of (pconf_codec J) (pin_verdict_msg P rd rl dummy cands pw d l)) \<le> wcap s"
    and commit: "commit (world s) = (True, w)"
  shows "runs (pin_listener_handshake J P rl dummy cands (req_pakes (pin_request_msg P rd pw d l)) d l
      commit) s (\<lambda>r t.
     r = (if pw \<in> set (take PAKE_SLOTS cands) then Done () else Fail NoPinMatched)
     \<and> tx t = tx s @ frame_of (pchal_codec J) (pin_challenge_msg P rl dummy cands d l)
         @ frame_of (pconf_codec J) (pin_verdict_msg P rd rl dummy cands pw d l)
     \<and> world t = (if pw \<in> set (take PAKE_SLOTS cands) then w else world s)
     \<and> rx t = q \<and> rx_end t = rx_end s \<and> \<not> fin t \<and> wcap t = wcap s
         - length (frame_of (pchal_codec J) (pin_challenge_msg P rl dummy cands d l))
         - length (frame_of (pconf_codec J) (pin_verdict_msg P rd rl dummy cands pw d l)))"
proof -
  note C = pin_codecs_hold [OF laws]
  note step = wp pin_codec C room(1)
  let ?v = "pin_verdict_msg P rd rl dummy cands pw d l"
  have room1: "length (frame_of (pchal_codec J) (pin_challenge_msg P rl dummy cands d l)) \<le> wcap s"
    and room2: "length (frame_of (pconf_codec J) ?v)
      \<le> wcap s - length (frame_of (pchal_codec J) (pin_challenge_msg P rl dummy cands d l))"
    using room(2) by simp_all
  have pk: "req_pakes (pin_request_msg P rd pw d l) = [b64 P (snd (dialer_slot P rd pw d l 0)),
      b64 P (snd (dialer_slot P rd pw d l (Suc 0)))]"
    by (simp add: pin_request_msg_def auth_request_pin_def)
  have ch: "pin_challenge_new [b64 P (snd (listener_side P rl dummy cands d l 0)),
      b64 P (snd (listener_side P rl dummy cands d l (Suc 0)))] = pin_challenge_msg P rl dummy cands d l"
    by (simp add: pin_challenge_msg_def)
  have fm: "first_match [cands \<noteq> [] \<and> cands ! 0 = pw, Suc 0 < length cands \<and> cands ! Suc 0 = pw]
      = shared_slot cands pw" by (simp add: shared_slot_def)
  have main: "runs (pin_listener_handshake J P rl dummy cands (req_pakes (pin_request_msg P rd pw d l)) d l
      commit) s (\<lambda>r t.
     r = (case m of None \<Rightarrow> Fail NoPinMatched | Some _ \<Rightarrow> Done ())
     \<and> tx t = tx s @ frame_of (pchal_codec J) (pin_challenge_msg P rl dummy cands d l)
         @ frame_of (pconf_codec J) ?v
     \<and> world t = (case m of None \<Rightarrow> world s | Some _ \<Rightarrow> w)
     \<and> rx t = q \<and> rx_end t = rx_end s \<and> \<not> fin t \<and> wcap t = wcap s
         - length (frame_of (pchal_codec J) (pin_challenge_msg P rl dummy cands d l))
         - length (frame_of (pconf_codec J) ?v))"
    if m: "shared_slot cands pw = m" for m
  proof (cases m)
    case None
    have v: "?v = pin_confirm_rejected pin_failed" using m None by (simp add: pin_verdict_msg_def)
    show ?thesis
      unfolding pin_listener_handshake_def Let_def
      apply (simp add: None step pk listener_finish_honest [OF laws] ch room1 slots_two del: first_match_two)
      apply (subst runs_pin_read_frame [OF C(3), where rest = q])
       apply (simp add: rx)
      apply (simp add: step slot_matches_honest [OF laws] slots_two fm m None room2
          C(4) [unfolded v] room2 [unfolded v] v del: first_match_two)
      done
  next
    case (Some slot)
    have sl: "slot \<in> {0, Suc 0}" "slot_password dummy cands slot = pw"
      using m Some shared_slot_Some by blast+
    from slot_law [OF laws sl(1)] obtain ml where
      ml: "confirm_mac P (key_l P rd rl dummy cands pw d l slot) Listener slot d l = Some ml"
      by (auto simp: slot_laws_def Let_def)
    have v: "?v = pin_confirm_accepted slot (b64 P ml)" using m Some ml by (simp add: pin_verdict_msg_def)
    have key: "[key_l P rd rl dummy cands pw d l 0, key_l P rd rl dummy cands pw d l (Suc 0)] ! slot =
        key_l P rd rl dummy cands pw d l slot" using sl(1) by auto
    show ?thesis
      unfolding pin_listener_handshake_def Let_def
      apply (simp add: Some step pk listener_finish_honest [OF laws] ch room1 slots_two del: first_match_two)
      apply (subst runs_pin_read_frame [OF C(3), where rest = q])
       apply (simp add: rx)
      apply (simp add: step slot_matches_honest [OF laws] slots_two fm m Some commit key ml
          C(4) [unfolded v] room2 [unfolded v] v del: first_match_two)
      done
  qed
  show ?thesis
    by (rule runs_conseq [OF main [OF refl]]) (auto simp flip: shared_slot_iff split: option.splits)
qed

section \<open>Completion\<close>

text \<open>
  Property C7. The PIN decides, and only the recent PINs count. Between two honest ends the
  handshake accepts exactly when the password the dialer typed is one of the two newest candidates
  the listener keeps: then both halves return and the listener has committed; otherwise the listener
  reports that no PIN matched, commits nothing, and the dialer is told so. A random filler slot is
  never accepted, even if it happened to hold the dialer's password.
\<close>

theorem pin_handshake_decides:
  assumes laws: "pin_laws J P rd rl dummy cands pw d l"
    and kdf: "derive_auth_key_material A pin = Some pw"
    and ends: "\<not> fin sd \<and> tx sd = [] \<and> 40000 \<le> wcap sd" "\<not> fin sl \<and> tx sl = [] \<and> 40000 \<le> wcap sl"
    and commit: "commit (world sl) = (True, w)"
  shows "\<exists>request to_l to_d.
     (case pin_dialer_handshake J P A rd pin d l (sd\<lparr>rx := to_d\<rparr>) of (r, t) \<Rightarrow>
        r = (if pw \<in> set (take PAKE_SLOTS cands) then Done () else Fail (PinRejected pin_failed))
        \<and> tx t = request @ to_l)
     \<and> encode_auth_request J (pin_request_msg P rd pw d l) = Inr request
     \<and> (case pin_listener_handshake J P rl dummy cands (req_pakes (pin_request_msg P rd pw d l)) d l
            commit (sl\<lparr>rx := to_l\<rparr>) of (r, t) \<Rightarrow>
        r = (if pw \<in> set (take PAKE_SLOTS cands) then Done () else Fail NoPinMatched)
        \<and> tx t = to_d \<and> world t = (if pw \<in> set (take PAKE_SLOTS cands) then w else world sl))"
proof -
  note C = pin_codecs_hold [OF laws]
  let ?q = "frame_of (areq_codec J) (pin_request_msg P rd pw d l)"
  let ?r = "frame_of (presp_codec J) (pin_response_msg P rd rl dummy cands pw d l)"
  let ?c = "frame_of (pchal_codec J) (pin_challenge_msg P rl dummy cands d l)"
  let ?v = "frame_of (pconf_codec J) (pin_verdict_msg P rd rl dummy cands pw d l)"
  have len: "length ?q + length ?r \<le> 40000" "length ?c + length ?v \<le> 40000"
    using frame_of_length [OF C(1)] frame_of_length [OF C(2)] frame_of_length [OF C(3)]
      frame_of_length [OF C(4)] by (simp_all add: const_simps)
  have D: "runs (pin_dialer_handshake J P A rd pin d l) (sd\<lparr>rx := ?c @ ?v\<rparr>) (\<lambda>r t.
     r = (if pw \<in> set (take PAKE_SLOTS cands) then Done () else Fail (PinRejected pin_failed))
     \<and> tx t = ?q @ ?r)"
    by (rule runs_conseq [OF pin_dialer_honest [where q = "[]", OF laws kdf]]) (use ends len in auto)
  have L: "runs (pin_listener_handshake J P rl dummy cands (req_pakes (pin_request_msg P rd pw d l)) d l
      commit) (sl\<lparr>rx := ?r\<rparr>) (\<lambda>r t.
     r = (if pw \<in> set (take PAKE_SLOTS cands) then Done () else Fail NoPinMatched)
     \<and> tx t = ?c @ ?v \<and> world t = (if pw \<in> set (take PAKE_SLOTS cands) then w else world sl))"
    by (rule runs_conseq [OF pin_listener_honest [where q = "[]", OF laws]]) (use ends len commit in auto)
  from D L show ?thesis
    by (intro exI [of _ ?q] exI [of _ ?r] exI [of _ "?c @ ?v"]) (simp add: runs_def pin_codec C)
qed

definition toy_pake :: pake where
  "toy_pake = \<lparr>start_a = (\<lambda>r pw ia ib. (pw, ia)), start_b = (\<lambda>r pw ia ib. (pw, ib)),
     finish = (\<lambda>st m. Some st), hmac = (\<lambda>k m. Some (k @ m)),
     b64 = map unat, unb64 = (\<lambda>s. Some (map of_nat s))\<rparr>"

definition toy_argon2 :: argon2 where "toy_argon2 m t l pw salt = Some pw"

definition toy_pin_codecs :: "bytes list \<Rightarrow> bytes \<Rightarrow> codecs" where
  "toy_pin_codecs cands pw =
     \<lparr>areq_codec = table_codec [pin_request_msg toy_pake id pw [3] [4]],
      kchal_codec = table_codec [], kproof_codec = table_codec [],
      pchal_codec = table_codec [pin_challenge_msg toy_pake id (\<lambda>_. []) cands [3] [4]],
      presp_codec = table_codec [pin_response_msg toy_pake id id (\<lambda>_. []) cands pw [3] [4]],
      pconf_codec = table_codec [pin_verdict_msg toy_pake id id (\<lambda>_. []) cands pw [3] [4]],
      aresp_codec = table_codec [], offer_codec = table_codec [], clip_codec = table_codec []\<rparr>"

lemma toy_pin_laws: "pin_laws (toy_pin_codecs cands pw) toy_pake id id (\<lambda>_. []) cands pw [3] [4]"
proof -
  have k: "key_d toy_pake id id (\<lambda>_. []) cands pw [3] [4] slot = pw"
    "key_l toy_pake id id (\<lambda>_. []) cands pw [3] [4] slot = slot_password (\<lambda>_. []) cands slot" for slot
    by (simp_all add: key_d_def key_l_def toy_pake_def dialer_slot_def listener_side_def
        listener_slot_def pake_identities_def)
  have "slot_laws toy_pake id id (\<lambda>_. []) cands pw [3] [4] slot" for slot
    by (simp add: slot_laws_def Let_def k)
      (auto simp: toy_pake_def confirm_mac_def dialer_slot_def listener_side_def listener_slot_def
        pake_identities_def)
  moreover have "unb64 toy_pake (b64 toy_pake b) = Some b" for b
    by (simp add: toy_pake_def comp_def)
  moreover have "0 < MAX_CONTROL_MESSAGE_SIZE" by (simp add: const_simps)
  ultimately show ?thesis
    by (simp add: pin_laws_def toy_pin_codecs_def table_codec_at list_all_iff)
qed

lemma pin_handshake_decides_witness:
  "(\<exists>to_d. fst (pin_dialer_handshake (toy_pin_codecs [[9], [5]] [5]) toy_pake toy_argon2 id [5] [3] [4]
      (demo_end\<lparr>rx := to_d\<rparr>)) = Done ())
   \<and> (\<exists>to_d. fst (pin_dialer_handshake (toy_pin_codecs [[9], [8], [5]] [5]) toy_pake toy_argon2 id [5] [3] [4]
      (demo_end\<lparr>rx := to_d\<rparr>)) = Fail (PinRejected pin_failed))"
proof -
  have e: "\<not> fin demo_end \<and> tx demo_end = [] \<and> 40000 \<le> wcap demo_end" by (simp add: demo_end_def)
  have kdf: "derive_auth_key_material toy_argon2 [5] = Some [5]"
    by (simp add: derive_auth_key_material_def argon2_key_def WORK_FACTORS_def toy_argon2_def)
  note A = pin_handshake_decides [OF toy_pin_laws kdf e e, where commit = "\<lambda>_. (True, ())" and w = "()"]
  from A [of "[[9], [5]]"] A [of "[[9], [8], [5]]"] show ?thesis
    by (simp add: slots_two case_prod_beta) blast
qed

end
