(* ===== verification/Net.thy ===== *)
theory Net
  imports Auth Protocol
begin

text \<open>
  The vocabulary of the network runtime (\<open>duocb-core/src/net/mod.rs\<close> and
  \<open>transport/mod.rs\<close>): addresses, signalling channels, session roles, modes, commands from the
  user interface and events back to it. Error events carry a symbolic message instead of the
  sentence shown to the user.
\<close>

section \<open>Addresses\<close>

datatype ipv4 = IPv4 byte byte byte byte

datatype ip_addr = V4 ipv4 | V6 "u16 list"

record socket_addr =
  sa_ip :: ip_addr
  sa_port :: u16

datatype node_id = NodeId (node_bytes: bytes)

text \<open>Where to dial: a node id and the direct addresses known for it (\<open>iroh::EndpointAddr\<close>).\<close>

record endpoint_addr =
  ea_id :: node_id
  ea_addrs :: "socket_addr list"

record transport_addr =
  ta_kind :: ustring
  ta_address :: ustring

definition address_of :: "transport_addr \<Rightarrow> ustring \<Rightarrow> ustring option" where
  "address_of a kind = (if ta_kind a = kind then Some (ta_address a) else None)"

section \<open>Sessions\<close>

record key_identity =
  ki_identity :: identity
  ki_self_card :: identity_card
  ki_peers :: "identity_card list"
  ki_relays :: "ustring list"

definition ki_peer :: "key_identity \<Rightarrow> pubkey \<Rightarrow> identity_card option" where
  "ki_peer ki k = find (\<lambda>c. card_public_key c = k) (ki_peers ki)"

datatype signal_channel = LanThenNostr | NostrOnly | LanOnly

definition ch_lan :: "signal_channel \<Rightarrow> bool" where
  "ch_lan ch \<longleftrightarrow> (case ch of LanThenNostr \<Rightarrow> True | LanOnly \<Rightarrow> True | NostrOnly \<Rightarrow> False)"

definition ch_nostr :: "signal_channel \<Rightarrow> bool" where
  "ch_nostr ch \<longleftrightarrow> (case ch of LanThenNostr \<Rightarrow> True | NostrOnly \<Rightarrow> True | LanOnly \<Rightarrow> False)"

datatype role = Host | Dial

definition session_role :: "pubkey \<Rightarrow> pubkey \<Rightarrow> role" where
  "session_role me peer = (if to_bytes me \<le> to_bytes peer then Host else Dial)"

datatype server_mode =
  ServeKey key_identity pubkey signal_channel
| ServeCardSetup identity_card signal_channel "ustring list"

datatype dial_spec =
  DialKey key_identity pubkey signal_channel
| DialCardSetup ustring identity_card "ip_addr option" signal_channel "ustring list"

datatype ui_command =
  StartServer server_mode
| StopServer
| Connect dial_spec
| Disconnect
| RefreshPin
| SendClipboard ustring
| QueryConnPath
| Shutdown

datatype conn_status =
  Idle
| Starting
| Waiting
| Resolving
| Connecting
| Authenticating
| Connected
| Reconnecting nat nat

datatype message =
  NoPinPublished
| NotConnected
| FailedToStart
| CardNotYetValid ustring
| CardExpired ustring
| CannotBeFoundUntilThen message
| OwnNodeId
| AuthTimedOut
| PeerClosed nat
| CouldNotReach nat
| NotSent wire_error
| CouldNotAnnounce
| PinNeedsIp
| PinNotPublished
| OwnPin
| PeerStoppedResponding
| Failure ustring

datatype path_kind = PathDirect | PathRelay | PathOther

text \<open>A connection path: its kind, the line shown for it, and whether traffic uses it.\<close>

datatype conn_path = ConnPath (path_kind: path_kind) (path_display: ustring) (path_selected: bool)

datatype net_event =
  ServerReady node_id "ustring option"
| ClientReady node_id "ustring option"
| PinRotated ustring u64 "ipv4 option"
| PinCleared
| Status conn_status
| PeerPaired node_id "pubkey option"
| PeerCardReceived identity_card
| PeerDisconnected
| ConnPaths "conn_path list"
| ItemReceived ustring bool
| ItemSent
| ErrorEvent message

section \<open>Roles\<close>

text \<open>
  The two devices of a pair never pick the same half of a session: for two distinct
  keys exactly one of the two computations of the role says \<open>Host\<close>, whoever computes it, and
  the role depends on nothing else.
\<close>

theorem session_roles_complementary:
  assumes "me \<noteq> peer"
  shows "(session_role me peer = Host \<longleftrightarrow> session_role peer me = Dial)
     \<and> (session_role me peer = Dial \<longleftrightarrow> session_role peer me = Host)"
  using assms by (auto simp: session_role_def pubkey.expand)

lemma session_roles_complementary_witness:
  "session_role (PublicKey [1]) (PublicKey [2]) = Host \<and> session_role (PublicKey [2]) (PublicKey [1]) = Dial"
  using session_roles_complementary [of "PublicKey [1]" "PublicKey [2]"]
  by (simp add: session_role_def)

end
