(* ===== verification/Runtime.thy ===== *)
theory Runtime
  imports Net Pin Sample
begin

text \<open>
  The command loop of the network runtime and the pairing state it owns
  (\<open>duocb-core/src/net/runtime.rs\<close>): the cache of recent PIN passwords, the one-peer claim, the
  key under which a session's memory is reused, and the loop itself. Session tasks run beside the
  loop; their effects on the shared state are the other steps of the relation \<open>rt_step\<close>.
\<close>

section \<open>Bounded caches of the newest entries\<close>

locale newest_cache =
  fixes push :: "'a \<Rightarrow> 'a list \<Rightarrow> 'a list" and cap :: nat
  assumes push_take: "push x xs = take cap (x # xs)"
begin

lemma length_push: "length (push x xs) \<le> cap"
  by (simp add: push_take)

lemma fold_push: "length xs \<le> cap \<Longrightarrow> fold push ys xs = take cap (rev ys @ xs)"
proof (induction ys arbitrary: xs)
  case (Cons y ys)
  then have "fold push (y # ys) xs = take cap (rev ys @ push y xs)"
    by (simp add: length_push)
  also have "\<dots> = take cap (rev ys @ y # xs)"
    by (simp add: push_take min_def)
  finally show ?case by simp
qed simp

end

definition RECENT_PIN_CACHE :: nat where [const_simps]: "RECENT_PIN_CACHE = 2"

type_synonym recent_pins = "bytes list"

text \<open>\<open>push_front\<close>, then \<open>pop_back\<close> while too long.\<close>

function pop_back_to :: "nat \<Rightarrow> 'a list \<Rightarrow> 'a list" where
  "pop_back_to n xs = (if length xs > n then pop_back_to n (butlast xs) else xs)"
  by auto
termination by (relation "measure (\<lambda>(n, xs). length xs)") auto

declare pop_back_to.simps [simp del]

definition recent_push :: "bytes \<Rightarrow> recent_pins \<Rightarrow> recent_pins" where
  "recent_push password g = pop_back_to RECENT_PIN_CACHE (password # g)"

definition recent_clear :: "recent_pins \<Rightarrow> recent_pins" where
  "recent_clear g = []"

lemma pop_back_to_take: "pop_back_to n xs = take n xs"
proof (induction n xs rule: pop_back_to.induct)
  case (1 n xs)
  show ?case
  proof (cases "length xs > n")
    case True
    with 1 show ?thesis by (simp add: pop_back_to.simps [of n xs] take_butlast)
  next
    case False
    then show ?thesis by (simp add: pop_back_to.simps [of n xs])
  qed
qed

interpretation recent: newest_cache recent_push RECENT_PIN_CACHE
  by unfold_locales (simp add: recent_push_def pop_back_to_take)

section \<open>The pair claim\<close>

text \<open>A commit operation decides for the first identity that reaches it, and stays decided.\<close>

locale first_wins =
  fixes commit :: "'i \<Rightarrow> 'c \<Rightarrow> bool \<times> 'c" and holder :: "'c \<Rightarrow> 'h option" and name :: "'i \<Rightarrow> 'h"
  assumes free: "holder c = None \<Longrightarrow> fst (commit i c) \<and> holder (snd (commit i c)) = Some (name i)"
    and held: "holder c = Some h \<Longrightarrow>
      (fst (commit i c) \<longleftrightarrow> h = name i) \<and> holder (snd (commit i c)) = Some h"
begin

lemma commit_holder: "holder (snd (commit i c)) = (case holder c of None \<Rightarrow> Some (name i) | Some h \<Rightarrow> Some h)"
  using free held by (auto split: option.split)

lemma commits_keep: "holder c = Some h \<Longrightarrow> holder (fold (\<lambda>i c. snd (commit i c)) is c) = Some h"
  by (induction "is" arbitrary: c) (simp_all add: commit_holder)

lemma winners_agree:
  "fst (commit i c) \<Longrightarrow> fst (commit j (fold (\<lambda>i c. snd (commit i c)) is (snd (commit i c)))) \<Longrightarrow>
   name j = name i"
proof -
  assume i: "fst (commit i c)" and j: "fst (commit j (fold (\<lambda>i c. snd (commit i c)) is (snd (commit i c))))"
  have "holder (snd (commit i c)) = Some (name i)"
    using i free [of c i] held [of c] by (cases "holder c") auto
  then have "holder (fold (\<lambda>i c. snd (commit i c)) is (snd (commit i c))) = Some (name i)"
    by (rule commits_keep)
  with j held show "name j = name i" by metis
qed

end

record claimed_peer =
  cp_key :: "pubkey option"
  cp_node :: "node_id option"

record pair_claim =
  pc_peer :: "claimed_peer option"
  pc_paired :: bool

definition claim_default :: pair_claim where
  "claim_default = \<lparr>pc_peer = None, pc_paired = False\<rparr>"

definition commit_key :: "pubkey \<Rightarrow> node_id \<Rightarrow> pair_claim \<Rightarrow> bool \<times> pair_claim" where
  "commit_key public_key node c =
     (case pc_peer c of
        Some p \<Rightarrow>
          (if cp_key p \<noteq> Some public_key then (False, c)
           else (True, c\<lparr>pc_peer := Some (p\<lparr>cp_node := Some node\<rparr>)\<rparr>))
      | None \<Rightarrow>
          (True, c\<lparr>pc_peer := Some \<lparr>cp_key = Some public_key, cp_node = Some node\<rparr>,
                   pc_paired := True\<rparr>))"

definition commit_pin :: "node_id \<Rightarrow> pair_claim \<Rightarrow> bool \<times> pair_claim" where
  "commit_pin node c =
     (case pc_peer c of
        Some p \<Rightarrow> (if cp_node p \<noteq> Some node then (False, c) else (True, c))
      | None \<Rightarrow>
          (True, c\<lparr>pc_peer := Some \<lparr>cp_key = None, cp_node = Some node\<rparr>, pc_paired := True\<rparr>))"

lemmas commit_defs = commit_key_def commit_pin_def

interpretation key_claim: first_wins "\<lambda>(k, n). commit_key k n" "\<lambda>c. map_option cp_key (pc_peer c)"
    "\<lambda>(k, n). Some k"
  by unfold_locales (auto simp: commit_key_def split: option.splits if_splits)

interpretation pin_claim: first_wins commit_pin "\<lambda>c. map_option cp_node (pc_peer c)" Some
  by unfold_locales (auto simp: commit_pin_def split: option.splits if_splits)

text \<open>
  The gate of \<open>accept_serveable\<close>: whether a connection from \<open>remote\<close> is returned, or refused
  with the busy code.
\<close>

definition serveable :: "bool \<Rightarrow> pair_claim \<Rightarrow> node_id \<Rightarrow> bool" where
  "serveable allow_new_transport_for_key_claim c remote \<longleftrightarrow>
     \<not> (case pc_peer c of
          None \<Rightarrow> False
        | Some claimed \<Rightarrow> cp_node claimed \<noteq> Some remote
            \<and> (cp_key claimed = None \<or> \<not> allow_new_transport_for_key_claim))"

section \<open>Session keys and memory\<close>

datatype session_kind = Server server_mode | Client dial_spec

datatype memory_key =
  ServerCardSetup signal_channel
| ServerKey pubkey pubkey signal_channel
| ClientCardSetup ustring signal_channel
| ClientKey pubkey pubkey signal_channel

definition session_key :: "'z crypto_scheme \<Rightarrow> session_kind \<Rightarrow> memory_key" where
  "session_key C kind =
     (case kind of
        Server (ServeCardSetup self_card channel relays) \<Rightarrow> ServerCardSetup channel
      | Server (ServeKey identity peer channel) \<Rightarrow>
          ServerKey (identity_public C (ki_identity identity)) peer channel
      | Client (DialCardSetup pin self_card target_ip channel relays) \<Rightarrow> ClientCardSetup pin channel
      | Client (DialKey identity peer channel) \<Rightarrow>
          ClientKey (identity_public C (ki_identity identity)) peer channel)"

record session_memory =
  m_key :: memory_key
  m_claim :: pair_claim
  m_pins :: recent_pins

definition memory_new :: "memory_key \<Rightarrow> session_memory" where
  "memory_new key = \<lparr>m_key = key, m_claim = claim_default, m_pins = []\<rparr>"

definition remember :: "session_memory option \<Rightarrow> memory_key \<Rightarrow> session_memory" where
  "remember memory key =
     (case memory of
        Some m \<Rightarrow> if m_key m \<noteq> key then memory_new key else m
      | None \<Rightarrow> memory_new key)"

section \<open>The command loop\<close>

text \<open>
  A session: its kind, whether its task has returned, the texts queued on its clipboard channel,
  the connection snapshot, and for a card-setup host whether a refresh is pending
  (\<open>tokio::sync::Notify\<close> stores one permit). The channel's receiver belongs to the task and lives
  until it returns.
\<close>

record session =
  s_kind :: session_kind
  s_ended :: bool
  s_queue :: "ustring list"
  s_paths :: "conn_path list option"
  s_refresh :: "bool option"

definition start_session :: "session_kind \<Rightarrow> session" where
  "start_session kind =
     \<lparr>s_kind = kind, s_ended = False, s_queue = [], s_paths = None,
      s_refresh = (case kind of Server (ServeCardSetup _ _ _) \<Rightarrow> Some False | _ \<Rightarrow> None)\<rparr>"

record runtime =
  rt_session :: "session option"
  rt_memory :: "session_memory option"
  rt_events :: "net_event list"
  rt_down :: bool

definition runtime_init :: runtime where
  "runtime_init = \<lparr>rt_session = None, rt_memory = None, rt_events = [], rt_down = False\<rparr>"

definition emit :: "net_event \<Rightarrow> runtime \<Rightarrow> runtime" where
  "emit e s = s\<lparr>rt_events := rt_events s @ [e]\<rparr>"

definition stop_session :: "runtime \<Rightarrow> runtime" where
  "stop_session s = s\<lparr>rt_session := None\<rparr>"

definition begin_session :: "'z crypto_scheme \<Rightarrow> session_kind \<Rightarrow> runtime \<Rightarrow> runtime" where
  "begin_session C kind s =
     (let s1 = stop_session s; mem = remember (rt_memory s1) (session_key C kind)
      in s1\<lparr>rt_memory := Some mem, rt_session := Some (start_session kind)\<rparr>)"

definition net_command :: "'z crypto_scheme \<Rightarrow> ui_command \<Rightarrow> runtime \<Rightarrow> runtime" where
  "net_command C cmd s =
     (case cmd of
        StartServer mode \<Rightarrow> begin_session C (Server mode) s
      | Connect spec \<Rightarrow> begin_session C (Client spec) s
      | StopServer \<Rightarrow> emit (Status Idle) ((stop_session s)\<lparr>rt_memory := None\<rparr>)
      | Disconnect \<Rightarrow> emit (Status Idle) ((stop_session s)\<lparr>rt_memory := None\<rparr>)
      | RefreshPin \<Rightarrow>
          (case rt_session s of
             Some x \<Rightarrow>
               (case s_refresh x of
                  Some _ \<Rightarrow> s\<lparr>rt_session := Some (x\<lparr>s_refresh := Some True\<rparr>)\<rparr>
                | None \<Rightarrow> emit (ErrorEvent NoPinPublished) s)
           | None \<Rightarrow> emit (ErrorEvent NoPinPublished) s)
      | SendClipboard text \<Rightarrow>
          (case rt_session s of
             Some x \<Rightarrow>
               (if s_ended x then emit (ErrorEvent NotConnected) s
                else s\<lparr>rt_session := Some (x\<lparr>s_queue := s_queue x @ [text]\<rparr>)\<rparr>)
           | None \<Rightarrow> emit (ErrorEvent NotConnected) s)
      | QueryConnPath \<Rightarrow>
          emit (ConnPaths (case rt_session s of None \<Rightarrow> []
                 | Some x \<Rightarrow> (case s_paths x of None \<Rightarrow> [] | Some ps \<Rightarrow> ps))) s
      | Shutdown \<Rightarrow> (stop_session s)\<lparr>rt_down := True\<rparr>)"

text \<open>
  Steps: a command, or an action of the live session task on what it shares with the loop. A
  configure-mode host commits only the peer it was started for (the listener's \<open>admit\<close>).
\<close>

inductive rt_step :: "'z crypto_scheme \<Rightarrow> runtime \<Rightarrow> runtime \<Rightarrow> bool" for C where
  Command: "\<not> rt_down s \<Longrightarrow> rt_step C s (net_command C cmd s)"
| TaskEnds: "rt_session s = Some x \<Longrightarrow>
    rt_step C s (s\<lparr>rt_session := Some (x\<lparr>s_ended := True, s_queue := [], s_paths := None\<rparr>)\<rparr>)"
| TaskEvent: "rt_session s = Some x \<Longrightarrow> \<not> s_ended x \<Longrightarrow> rt_step C s (emit e s)"
| TaskPumps: "rt_session s = Some x \<Longrightarrow> \<not> s_ended x \<Longrightarrow> s_kind x = Server (ServeKey i p ch)
    \<or> s_kind x = Client (DialKey i p ch) \<Longrightarrow> s_queue x = t # ts \<Longrightarrow>
    rt_step C s (s\<lparr>rt_session := Some (x\<lparr>s_queue := ts\<rparr>)\<rparr>)"
| TaskPaths: "rt_session s = Some x \<Longrightarrow> \<not> s_ended x \<Longrightarrow>
    rt_step C s (s\<lparr>rt_session := Some (x\<lparr>s_paths := ps\<rparr>)\<rparr>)"
| CommitKey: "rt_session s = Some x \<Longrightarrow> \<not> s_ended x \<Longrightarrow> s_kind x = Server (ServeKey i p ch) \<Longrightarrow>
    rt_memory s = Some m \<Longrightarrow>
    rt_step C s (s\<lparr>rt_memory := Some (m\<lparr>m_claim := snd (commit_key p node (m_claim m))\<rparr>)\<rparr>)"
| CommitPin: "rt_session s = Some x \<Longrightarrow> \<not> s_ended x \<Longrightarrow> s_kind x = Server (ServeCardSetup c ch rl) \<Longrightarrow>
    rt_memory s = Some m \<Longrightarrow>
    rt_step C s (s\<lparr>rt_memory := Some (m\<lparr>m_claim := snd (commit_pin node (m_claim m))\<rparr>)\<rparr>)"
| PushPin: "rt_session s = Some x \<Longrightarrow> \<not> s_ended x \<Longrightarrow> s_kind x = Server (ServeCardSetup c ch rl) \<Longrightarrow>
    rt_memory s = Some m \<Longrightarrow>
    rt_step C s (s\<lparr>rt_memory := Some (m\<lparr>m_pins := recent_push pw (m_pins m)\<rparr>)\<rparr>)"
| RefreshDone: "rt_session s = Some x \<Longrightarrow> \<not> s_ended x \<Longrightarrow> s_refresh x = Some True \<Longrightarrow>
    rt_memory s = Some m \<Longrightarrow>
    rt_step C s (s\<lparr>rt_session := Some (x\<lparr>s_refresh := Some False\<rparr>),
                   rt_memory := Some (m\<lparr>m_pins := recent_clear (m_pins m)\<rparr>)\<rparr>)"

inductive reachable :: "'z crypto_scheme \<Rightarrow> runtime \<Rightarrow> bool" for C where
  init: "reachable C runtime_init"
| step: "reachable C s \<Longrightarrow> rt_step C s t \<Longrightarrow> reachable C t"

inductive_cases rt_stepE: "rt_step C s t"

section \<open>Invariants\<close>

text \<open>
  The claim fits the session key it is kept under: a configure-mode host has claimed nobody or
  exactly the peer it hosts for, a card-setup host nobody or a bare node id, a dialer nobody; the
  paired signal has fired exactly if somebody is claimed; and the PIN cache is within its bound.
\<close>

definition claim_fits :: "memory_key \<Rightarrow> pair_claim \<Rightarrow> bool" where
  "claim_fits key c \<longleftrightarrow>
     pc_paired c = (pc_peer c \<noteq> None) \<and>
     (case pc_peer c of
        None \<Rightarrow> True
      | Some p \<Rightarrow> cp_node p \<noteq> None \<and>
          (case key of
             ServerKey me peer ch \<Rightarrow> cp_key p = Some peer
           | ServerCardSetup ch \<Rightarrow> cp_key p = None
           | _ \<Rightarrow> False))"

definition memory_wf :: "session_memory \<Rightarrow> bool" where
  "memory_wf m \<longleftrightarrow> claim_fits (m_key m) (m_claim m) \<and> length (m_pins m) \<le> RECENT_PIN_CACHE"

definition runtime_wf :: "'z crypto_scheme \<Rightarrow> runtime \<Rightarrow> bool" where
  "runtime_wf C s \<longleftrightarrow>
     (\<forall>m. rt_memory s = Some m \<longrightarrow> memory_wf m)
     \<and> (\<forall>x. rt_session s = Some x \<longrightarrow>
          (\<exists>m. rt_memory s = Some m \<and> m_key m = session_key C (s_kind x))
          \<and> (s_refresh x \<noteq> None \<longleftrightarrow> (\<exists>c ch rl. s_kind x = Server (ServeCardSetup c ch rl))))"

lemma memory_new_wf: "memory_wf (memory_new key)"
  by (simp add: memory_wf_def memory_new_def claim_fits_def claim_default_def)

lemma remember_wf: "(\<forall>m. mem = Some m \<longrightarrow> memory_wf m) \<Longrightarrow> memory_wf (remember mem key)"
  by (auto simp: remember_def memory_new_wf split: option.splits)

lemma remember_key: "m_key (remember mem key) = key"
  by (auto simp: remember_def memory_new_def split: option.splits)

lemma commit_key_fits:
  "claim_fits (ServerKey me peer ch) c \<Longrightarrow> claim_fits (ServerKey me peer ch) (snd (commit_key peer node c))"
  by (auto simp: claim_fits_def commit_key_def split: option.splits)

lemma commit_pin_fits:
  "claim_fits (ServerCardSetup ch) c \<Longrightarrow> claim_fits (ServerCardSetup ch) (snd (commit_pin node c))"
  by (auto simp: claim_fits_def commit_pin_def split: option.splits)

lemma begin_session_wf: "runtime_wf C s \<Longrightarrow> runtime_wf C (begin_session C kind s)"
  by (auto simp: runtime_wf_def begin_session_def Let_def stop_session_def remember_wf remember_key
      start_session_def split: session_kind.splits server_mode.splits)

lemma net_command_wf: "runtime_wf C s \<Longrightarrow> runtime_wf C (net_command C cmd s)"
proof (cases cmd)
  case (StartServer m)
  assume "runtime_wf C s"
  with StartServer show ?thesis by (simp add: net_command_def begin_session_wf)
next
  case (Connect d)
  assume "runtime_wf C s"
  with Connect show ?thesis by (simp add: net_command_def begin_session_wf)
qed (auto simp: net_command_def runtime_wf_def emit_def stop_session_def split: option.splits)

lemma rt_step_wf: "rt_step C s t \<Longrightarrow> runtime_wf C s \<Longrightarrow> runtime_wf C t"
proof (induction rule: rt_step.induct)
  case (Command s cmd)
  then show ?case by (simp add: net_command_wf)
next
  case (CommitKey s x i p ch m node)
  then have "m_key m = ServerKey (identity_public C (ki_identity i)) p ch" "memory_wf m"
    by (auto simp: runtime_wf_def session_key_def)
  then have "memory_wf (m\<lparr>m_claim := snd (commit_key p node (m_claim m))\<rparr>)"
    by (simp add: memory_wf_def commit_key_fits)
  with CommitKey show ?case by (auto simp: runtime_wf_def)
next
  case (CommitPin s x c ch rl m node)
  then have "m_key m = ServerCardSetup ch" "memory_wf m" by (auto simp: runtime_wf_def session_key_def)
  then have "memory_wf (m\<lparr>m_claim := snd (commit_pin node (m_claim m))\<rparr>)"
    by (simp add: memory_wf_def commit_pin_fits)
  with CommitPin show ?case by (auto simp: runtime_wf_def)
next
  case (PushPin s x c ch rl m pw)
  then show ?case using recent.length_push by (auto simp: runtime_wf_def memory_wf_def)
qed (auto simp: runtime_wf_def emit_def memory_wf_def recent_clear_def)

lemma reachable_wf: "reachable C s \<Longrightarrow> runtime_wf C s"
proof (induction rule: reachable.induct)
  case init
  then show ?case by (simp add: runtime_wf_def runtime_init_def)
next
  case (step s t)
  then show ?case by (simp add: rt_step_wf)
qed

text \<open>
  Property C19. Whatever commands arrive and however the session tasks run beside them, the pairing
  state stays sound: the memory in use is the one of the running session, a configure-mode host is
  claimed by nobody but the very peer it was started for, a card-setup claim never names a key, the
  paired signal has fired exactly when a peer is claimed, and at most two PIN passwords are honoured.
\<close>

theorem pairing_state_sound:
  assumes "reachable C s" and "rt_session s = Some x"
  shows "\<exists>m. rt_memory s = Some m \<and> m_key m = session_key C (s_kind x)
     \<and> length (m_pins m) \<le> 2 \<and> pc_paired (m_claim m) = (pc_peer (m_claim m) \<noteq> None)
     \<and> (case s_kind x of
          Server (ServeKey i p ch) \<Rightarrow> map_option cp_key (pc_peer (m_claim m)) \<in> {None, Some (Some p)}
        | Server (ServeCardSetup c ch rl) \<Rightarrow> map_option cp_key (pc_peer (m_claim m)) \<in> {None, Some None}
        | Client d \<Rightarrow> pc_peer (m_claim m) = None)"
proof -
  from reachable_wf [OF assms(1)] assms(2) obtain m where
    m: "rt_memory s = Some m" "m_key m = session_key C (s_kind x)" "memory_wf m"
    by (auto simp: runtime_wf_def)
  then show ?thesis
    by (auto simp: memory_wf_def claim_fits_def session_key_def const_simps
        split: session_kind.splits server_mode.splits dial_spec.splits option.splits)
qed

lemma begin_session_claim:
  assumes "rt_memory s = Some m"
  shows "session_key C kind \<noteq> m_key m \<or> rt_memory (begin_session C kind s) = Some m"
  using assms by (auto simp: begin_session_def Let_def remember_def stop_session_def)

definition same_claim :: "claimed_peer \<Rightarrow> runtime \<Rightarrow> bool" where
  "same_claim p t \<longleftrightarrow>
     (case rt_memory t of
        None \<Rightarrow> False
      | Some m \<Rightarrow> (case pc_peer (m_claim m) of
           None \<Rightarrow> False
         | Some q \<Rightarrow> cp_key q = cp_key p \<and> (cp_key p = None \<longrightarrow> cp_node q = cp_node p)))"

text \<open>
  Property C20. A pairing is released only by the user. Once a peer holds the claim, every step of the
  runtime, be it a command, a restarted session or the end of a task, leaves the same application key
  (or, in card setup, the same node) in possession, except stopping the session explicitly or
  starting a session under a different key.
\<close>

theorem claim_kept:
  assumes "reachable C s" and "rt_step C s t"
    and "rt_memory s = Some m" and "pc_peer (m_claim m) = Some p"
  shows "same_claim p t \<or> t = net_command C StopServer s \<or> t = net_command C Disconnect s
     \<or> (\<exists>kind. t = begin_session C kind s \<and> session_key C kind \<noteq> m_key m)"
proof -
  have wf: "memory_wf m" using reachable_wf [OF assms(1)] assms(3) by (simp add: runtime_wf_def)
  have same: "rt_memory u = Some m \<Longrightarrow> same_claim p u" for u
    using assms(4) by (simp add: same_claim_def)
  show ?thesis
    using assms(2)
  proof (cases rule: rt_step.cases)
    case (Command cmd)
    show ?thesis
    proof (cases cmd)
      case (StartServer mode)
      with Command begin_session_claim [OF assms(3), of C "Server mode"] same
      show ?thesis by (auto simp: net_command_def)
    next
      case (Connect spec)
      with Command begin_session_claim [OF assms(3), of C "Client spec"] same
      show ?thesis by (auto simp: net_command_def)
    qed (use Command assms(3) in \<open>auto intro!: same simp: net_command_def emit_def stop_session_def
        split: option.splits\<close>)
  next
    case (CommitKey x i q ch m' node)
    with assms(3,4) show ?thesis by (auto simp: same_claim_def commit_key_def)
  next
    case (CommitPin x c ch rl m' node)
    with assms(3,4) show ?thesis by (auto simp: same_claim_def commit_pin_def)
  qed (use assms(3) same in \<open>auto simp: emit_def same_claim_def assms(4)\<close>)
qed

text \<open>Two concrete states: a card-setup host just started, and the same host after its commit.\<close>

definition demo_hosting :: runtime where
  "demo_hosting =
     net_command sample_crypto (StartServer (ServeCardSetup (sample_card 7) LanOnly [])) runtime_init"

definition demo_node :: node_id where
  "demo_node = NodeId [3]"

definition demo_memory :: session_memory where
  "demo_memory = \<lparr>m_key = ServerCardSetup LanOnly,
     m_claim = \<lparr>pc_peer = Some \<lparr>cp_key = None, cp_node = Some demo_node\<rparr>, pc_paired = True\<rparr>, m_pins = []\<rparr>"

lemma demo_hosting_eq:
  "demo_hosting = \<lparr>rt_session = Some (start_session (Server (ServeCardSetup (sample_card 7) LanOnly []))),
     rt_memory = Some (memory_new (ServerCardSetup LanOnly)), rt_events = [], rt_down = False\<rparr>"
  by (simp add: demo_hosting_def net_command_def begin_session_def runtime_init_def stop_session_def
      remember_def session_key_def Let_def)

lemma demo_hosting_reachable: "reachable sample_crypto demo_hosting"
  unfolding demo_hosting_def
  by (rule reachable.step [OF reachable.init], rule rt_step.Command) (simp add: runtime_init_def)

lemma demo_paired_reachable: "reachable sample_crypto (demo_hosting\<lparr>rt_memory := Some demo_memory\<rparr>)"
proof (rule reachable.step [OF demo_hosting_reachable])
  have "rt_step sample_crypto demo_hosting (demo_hosting\<lparr>rt_memory := Some
      (memory_new (ServerCardSetup LanOnly)\<lparr>m_claim :=
        snd (commit_pin demo_node (m_claim (memory_new (ServerCardSetup LanOnly))))\<rparr>)\<rparr>)"
    by (rule rt_step.CommitPin) (simp add: demo_hosting_eq start_session_def)+
  then show "rt_step sample_crypto demo_hosting (demo_hosting\<lparr>rt_memory := Some demo_memory\<rparr>)"
    by (simp add: memory_new_def claim_default_def commit_pin_def demo_memory_def)
qed

lemma pairing_state_sound_witness:
  "\<exists>m. rt_memory demo_hosting = Some m \<and> m_key m = ServerCardSetup LanOnly \<and> pc_peer (m_claim m) = None
     \<and> length (m_pins m) \<le> 2"
  using pairing_state_sound [OF demo_hosting_reachable, of "start_session (Server (ServeCardSetup (sample_card 7) LanOnly []))"]
  by (simp add: demo_hosting_eq memory_new_def claim_default_def)

lemma claim_kept_witness:
  "same_claim \<lparr>cp_key = None, cp_node = Some demo_node\<rparr>
     (net_command sample_crypto RefreshPin (demo_hosting\<lparr>rt_memory := Some demo_memory\<rparr>))"
proof -
  let ?s = "demo_hosting\<lparr>rt_memory := Some demo_memory\<rparr>"
  let ?t = "net_command sample_crypto RefreshPin ?s"
  have mem: "rt_memory ?t = Some demo_memory" and sess: "rt_session ?t \<noteq> None"
    by (simp_all add: demo_hosting_eq net_command_def start_session_def)
  have "rt_step sample_crypto ?s ?t" by (rule rt_step.Command) (simp add: demo_hosting_eq)
  from claim_kept [OF demo_paired_reachable this, of demo_memory "\<lparr>cp_key = None, cp_node = Some demo_node\<rparr>"]
  have "same_claim \<lparr>cp_key = None, cp_node = Some demo_node\<rparr> ?t \<or> ?t = net_command sample_crypto StopServer ?s
     \<or> ?t = net_command sample_crypto Disconnect ?s
     \<or> (\<exists>kind. ?t = begin_session sample_crypto kind ?s \<and> session_key sample_crypto kind \<noteq> m_key demo_memory)"
    by (simp add: demo_memory_def)
  moreover have "?t \<noteq> net_command sample_crypto StopServer ?s" "?t \<noteq> net_command sample_crypto Disconnect ?s"
    using sess by (auto simp: net_command_def emit_def stop_session_def)
  moreover have "\<And>kind. session_key sample_crypto kind \<noteq> m_key demo_memory \<Longrightarrow>
      ?t \<noteq> begin_session sample_crypto kind ?s"
    using mem by (auto simp: begin_session_def Let_def stop_session_def remember_def memory_new_def demo_memory_def)
  ultimately show ?thesis by blast
qed

end
