(* ===== verification/Text.thy ===== *)
theory Text
  imports Net Identity
begin

text \<open>
  What the network and configuration code uses of the Rust standard library's text conversions:
  strict UTF-8 decoding (\<open>str::from_utf8\<close>), parsing of unsigned integers and of IPv4
  addresses, their display, and the classes of \<open>Ipv4Addr\<close>. Each parser is shown to invert
  its printer.
\<close>

text \<open>\<open>Iterator::find_map\<close>.\<close>

fun find_map :: "('a \<Rightarrow> 'b option) \<Rightarrow> 'a list \<Rightarrow> 'b option" where
  "find_map f [] = None"
| "find_map f (x # xs) = (case f x of Some y \<Rightarrow> Some y | None \<Rightarrow> find_map f xs)"

lemma find_map_None: "find_map f xs = None \<longleftrightarrow> (\<forall>x \<in> set xs. f x = None)"
  by (induction xs) (auto split: option.splits)

lemma find_map_SomeD: "find_map f xs = Some y \<Longrightarrow> \<exists>x \<in> set xs. f x = Some y"
  by (induction xs) (auto split: option.splits)

lemma find_map_split:
  "find_map g xs = Some y \<Longrightarrow>
     \<exists>pre k post. xs = pre @ k # post \<and> list_all (\<lambda>k'. g k' = None) pre \<and> g k = Some y"
proof (induction xs)
  case (Cons x xs)
  show ?case
  proof (cases "g x")
    case None
    with Cons obtain pre k post where
      "xs = pre @ k # post" "list_all (\<lambda>k'. g k' = None) pre" "g k = Some y" by auto
    with None show ?thesis by (intro exI [of _ "x # pre"] exI [of _ k] exI [of _ post]) simp
  next
    case (Some z)
    with Cons.prems show ?thesis by (intro exI [of _ "[]"] exI [of _ x] exI [of _ xs]) simp
  qed
qed simp

lemma find_map_first:
  "list_all (\<lambda>k'. g k' = None) pre \<Longrightarrow> g k = Some y \<Longrightarrow> find_map g (pre @ k # post) = Some y"
  by (induction pre) auto

lemma find_map_Some:
  "find_map g xs = Some y \<longleftrightarrow>
     (\<exists>pre k post. xs = pre @ k # post \<and> list_all (\<lambda>k'. g k' = None) pre \<and> g k = Some y)"
  using find_map_split find_map_first by metis

lemma find_map_agree:
  "x \<in> set xs \<Longrightarrow> f x = Some y \<Longrightarrow> (\<And>z. z \<in> set xs \<Longrightarrow> f z = None \<or> f z = Some y) \<Longrightarrow>
   find_map f xs = Some y"
proof (induction xs)
  case (Cons a xs)
  show ?case
  proof (cases "f a")
    case None
    with Cons show ?thesis by auto
  next
    case (Some z)
    with Cons.prems(3) [of a] show ?thesis by simp
  qed
qed simp

section \<open>UTF-8\<close>

definition valid_scalar :: "uchar \<Rightarrow> bool" where
  "valid_scalar c \<longleftrightarrow> c < 55296 \<or> 57344 \<le> c \<and> c < 1114112"

definition valid_text :: "ustring \<Rightarrow> bool" where
  "valid_text s \<longleftrightarrow> list_all valid_scalar s"

definition cont :: "byte \<Rightarrow> bool" where
  "cont b \<longleftrightarrow> 128 \<le> unat b \<and> unat b < 192"

fun decode1 :: "bytes \<Rightarrow> (uchar \<times> bytes) option" where
  "decode1 [] = None"
| "decode1 (b # r) =
     (let n = unat b in
      if n < 128 then Some (n, r)
      else if n < 194 then None
      else if n < 224 then
        (case r of
           b1 # r1 \<Rightarrow> (if cont b1 then Some ((n - 192) * 64 + (unat b1 - 128), r1) else None)
         | _ \<Rightarrow> None)
      else if n < 240 then
        (case r of
           b1 # b2 # r2 \<Rightarrow>
             (let c = ((n - 224) * 64 + (unat b1 - 128)) * 64 + (unat b2 - 128)
              in if cont b1 \<and> cont b2 \<and> 2048 \<le> c \<and> valid_scalar c then Some (c, r2) else None)
         | _ \<Rightarrow> None)
      else
        (case r of
           b1 # b2 # b3 # r3 \<Rightarrow>
             (let c = (((n - 240) * 64 + (unat b1 - 128)) * 64 + (unat b2 - 128)) * 64 + (unat b3 - 128)
              in if cont b1 \<and> cont b2 \<and> cont b3 \<and> 65536 \<le> c \<and> valid_scalar c then Some (c, r3) else None)
         | _ \<Rightarrow> None))"

lemma decode1_length: "decode1 bs = Some (c, r) \<Longrightarrow> length r < length bs"
  by (cases bs) (auto simp: Let_def split: if_splits list.splits)

function utf8_decode :: "bytes \<Rightarrow> ustring option" where
  "utf8_decode bs =
     (if bs = [] then Some []
      else case decode1 bs of
        None \<Rightarrow> None
      | Some (c, r) \<Rightarrow> map_option (Cons c) (utf8_decode r))"
  by auto
termination by (relation "measure length") (auto simp: decode1_length)

declare utf8_decode.simps [simp del]

lemma unat_of_nat_byte [simp]: "n < 256 \<Longrightarrow> unat (of_nat n :: byte) = n"
  by (rule unat_small_byte)

lemma unat_lead: "k + n < 256 \<Longrightarrow> unat (of_nat k + of_nat n :: byte) = k + n"
  using unat_small_byte [of "k + n"] by simp

lemma cont_unat:
  assumes "b = of_nat (128 + k mod 64)"
  shows "unat (b :: byte) = 128 + k mod 64" and "cont b"
proof -
  have "k mod 64 < 64" by simp
  then have "128 + k mod 64 < 256" by simp
  with assms show u: "unat b = 128 + k mod 64" by (simp only: unat_small_byte)
  show "cont b" by (simp add: cont_def u)
qed

lemma split64: "(c :: nat) div 64 * 64 + c mod 64 = c"
  by simp

lemma split4096: "(c :: nat) div 4096 * 64 + c div 64 mod 64 = c div 64"
  using split64 [of "c div 64"] by (simp add: div_mult2_eq [symmetric])

lemma split262144: "(c :: nat) div 262144 * 64 + c div 4096 mod 64 = c div 4096"
  using split64 [of "c div 4096"] by (simp add: div_mult2_eq [symmetric])

lemma decode1_utf8:
  assumes v: "valid_scalar c"
  shows "decode1 (utf8_char c @ r) = Some (c, r)"
proof -
  consider "c < 128" | "128 \<le> c" "c < 2048" | "2048 \<le> c" "c < 65536" | "65536 \<le> c" "c < 1114112"
    using v by (force simp: valid_scalar_def)
  then show ?thesis
  proof cases
    case 1
    then show ?thesis by simp
  next
    case 2
    define a b where "a = (of_nat (192 + c div 64) :: byte)" and "b = (of_nat (128 + c mod 64) :: byte)"
    have a: "unat a = 192 + c div 64" unfolding a_def by (rule unat_small_byte) (use 2 in auto)
    have "utf8_char c = [a, b]" using 2 by (simp add: utf8_char_def a_def b_def)
    moreover have "2 \<le> c div 64" "c div 64 < 32" using 2 by auto
    ultimately show ?thesis by (simp add: a cont_unat [OF b_def] Let_def)
  next
    case 3
    define a b d where "a = (of_nat (224 + c div 4096) :: byte)"
      and "b = (of_nat (128 + c div 64 mod 64) :: byte)" and "d = (of_nat (128 + c mod 64) :: byte)"
    have a: "unat a = 224 + c div 4096" unfolding a_def by (rule unat_small_byte) (use 3 in auto)
    have "utf8_char c = [a, b, d]" using 3 by (simp add: utf8_char_def a_def b_def d_def)
    moreover have "c div 4096 < 16" using 3 by auto
    ultimately show ?thesis using 3 v
      by (simp add: Let_def a cont_unat [OF b_def] cont_unat [OF d_def] split4096)
  next
    case 4
    define a b d e where "a = (of_nat (240 + c div 262144) :: byte)"
      and "b = (of_nat (128 + c div 4096 mod 64) :: byte)"
      and "d = (of_nat (128 + c div 64 mod 64) :: byte)" and "e = (of_nat (128 + c mod 64) :: byte)"
    have a: "unat a = 240 + c div 262144" unfolding a_def by (rule unat_small_byte) (use 4 in auto)
    have "utf8_char c = [a, b, d, e]" using 4 by (simp add: utf8_char_def a_def b_def d_def e_def)
    moreover have "((c div 262144 * 64 + c div 4096 mod 64) * 64 + c div 64 mod 64) * 64 + c mod 64 = c"
      unfolding split262144 split4096 by simp
    ultimately show ?thesis using 4 v
      by (simp only: append_Cons append_Nil decode1.simps Let_def a cont_unat [OF b_def]
          cont_unat [OF d_def] cont_unat [OF e_def] add_diff_cancel_left' list.case) simp
  qed
qed

lemma utf8_decode_utf8: "valid_text s \<Longrightarrow> utf8_decode (utf8 s) = Some s"
proof (induction s)
  case Nil
  then show ?case by (simp add: utf8_decode.simps)
next
  case (Cons c s)
  then have "decode1 (utf8_char c @ utf8 s) = Some (c, utf8 s)" "utf8_decode (utf8 s) = Some s"
    by (simp_all add: valid_text_def decode1_utf8)
  then show ?case by (subst utf8_decode.simps) simp
qed

lemma ascii_valid: "is_ascii s \<Longrightarrow> valid_text s"
  by (auto simp: is_ascii_def valid_text_def valid_scalar_def list_all_iff)

section \<open>Unsigned integers\<close>

definition is_digit :: "uchar \<Rightarrow> bool" where
  "is_digit c \<longleftrightarrow> 48 \<le> c \<and> c \<le> 57"

definition dec_val :: "ustring \<Rightarrow> nat" where
  "dec_val s = foldl (\<lambda>a c. 10 * a + (c - 48)) 0 s"

text \<open>\<open>str::parse\<close> at an unsigned type whose largest value is \<open>m\<close>.\<close>

definition parse_uint :: "nat \<Rightarrow> ustring \<Rightarrow> nat option" where
  "parse_uint m s =
     (let d = (case s of c # r \<Rightarrow> if c = 43 then r else s | [] \<Rightarrow> [])
      in if d \<noteq> [] \<and> list_all is_digit d \<and> dec_val d \<le> m then Some (dec_val d) else None)"

definition parse_u16 :: "ustring \<Rightarrow> u16 option" where
  "parse_u16 s = map_option of_nat (parse_uint 65535 s)"

lemma dec_digits: "list_all is_digit (dec n)"
proof (induction n rule: dec.induct)
  case (1 n)
  then show ?case by (cases "n < 10") (simp_all add: dec.simps [of n] is_digit_def)
qed

lemma dec_nonempty [simp]: "dec n \<noteq> []"
  by (subst dec.simps) simp

lemma dec_val_dec [simp]: "dec_val (dec n) = n"
proof (induction n rule: dec.induct)
  case (1 n)
  show ?case
  proof (cases "n < 10")
    case True
    then show ?thesis by (simp add: dec.simps [of n] dec_val_def)
  next
    case False
    then have "dec_val (dec n) = 10 * dec_val (dec (n div 10)) + n mod 10"
      by (simp add: dec.simps [of n] dec_val_def)
    with False 1 show ?thesis by simp
  qed
qed

lemma dec_hd: "hd (dec n) = 48 \<longleftrightarrow> n = 0"
proof (induction n rule: dec.induct)
  case (1 n)
  show ?case
  proof (cases "n < 10")
    case True
    then show ?thesis by (simp add: dec.simps [of n])
  next
    case False
    with 1 have "hd (dec (n div 10)) = 48 \<longleftrightarrow> n div 10 = 0" by blast
    with False show ?thesis by (simp add: dec.simps [of n])
  qed
qed

lemma dec_length_byte: "n < 1000 \<Longrightarrow> length (dec n) \<le> 3"
  by (simp add: dec.simps [of n] dec.simps [of "n div 10"] dec.simps [of "n div 10 div 10"])

lemma dec_length_digit: "n < 10 \<Longrightarrow> length (dec n) = 1"
  by (simp add: dec.simps)

lemma dec_no: "c < 48 \<or> 57 < c \<Longrightarrow> c \<notin> set (dec n)"
  using dec_digits [of n] by (auto simp: list_all_iff is_digit_def)

lemma parse_uint_dec: "n \<le> m \<Longrightarrow> parse_uint m (dec n) = Some n"
proof -
  assume "n \<le> m"
  obtain c r where d: "dec n = c # r" by (cases "dec n") auto
  then have "c \<noteq> 43" using dec_no [of 43 n] by auto
  then have "(case dec n of c # r \<Rightarrow> if c = 43 then r else dec n | [] \<Rightarrow> []) = dec n" by (simp add: d)
  with \<open>n \<le> m\<close> show ?thesis by (simp add: parse_uint_def dec_digits)
qed

lemma parse_u16_dec [simp]: "parse_u16 (dec (unat (p :: u16))) = Some p"
proof -
  have "unat p < 2 ^ 16" using unsigned_less [where 'a = nat, of p] by simp
  then have "unat p \<le> 65535" by simp
  then show ?thesis by (simp add: parse_u16_def parse_uint_dec)
qed

section \<open>IPv4 addresses\<close>

fun split_on :: "uchar \<Rightarrow> ustring \<Rightarrow> ustring list" where
  "split_on d [] = [[]]"
| "split_on d (c # s) =
     (if c = d then [] # split_on d s
      else case split_on d s of [] \<Rightarrow> [[c]] | p # ps \<Rightarrow> (c # p) # ps)"

definition parse_octet :: "ustring \<Rightarrow> byte option" where
  "parse_octet p =
     (if p \<noteq> [] \<and> length p \<le> 3 \<and> list_all is_digit p \<and> (hd p = 48 \<longrightarrow> length p = 1) \<and> dec_val p < 256
      then Some (of_nat (dec_val p)) else None)"

definition parse_ipv4 :: "ustring \<Rightarrow> ipv4 option" where
  "parse_ipv4 s =
     (case map parse_octet (split_on 46 s) of
        [Some a, Some b, Some c, Some d] \<Rightarrow> Some (IPv4 a b c d)
      | _ \<Rightarrow> None)"

fun octets :: "ipv4 \<Rightarrow> bytes" where
  "octets (IPv4 a b c d) = [a, b, c, d]"

definition show_octet :: "byte \<Rightarrow> ustring" where
  "show_octet b = dec (unat b)"

fun show_ipv4 :: "ipv4 \<Rightarrow> ustring" where
  "show_ipv4 (IPv4 a b c d) =
     show_octet a @ 46 # show_octet b @ 46 # show_octet c @ 46 # show_octet d"

definition ipv4_is_private :: "ipv4 \<Rightarrow> bool" where
  "ipv4_is_private a \<longleftrightarrow>
     (case a of IPv4 x y _ _ \<Rightarrow> x = 10 \<or> x = 172 \<and> 16 \<le> y \<and> y \<le> 31 \<or> x = 192 \<and> y = 168)"

definition ipv4_is_loopback :: "ipv4 \<Rightarrow> bool" where
  "ipv4_is_loopback a \<longleftrightarrow> (case a of IPv4 x _ _ _ \<Rightarrow> x = 127)"

lemma split_on_nonempty [simp]: "split_on d s \<noteq> []"
  by (induction s) (auto split: list.splits)

lemma split_on_free: "d \<notin> set s \<Longrightarrow> split_on d s = [s]"
  by (induction s) auto

lemma split_on_cons: "d \<notin> set s \<Longrightarrow> split_on d (s @ d # t) = s # split_on d t"
  by (induction s) auto

lemma show_octet_free [simp]: "46 \<notin> set (show_octet b)"
  by (simp add: show_octet_def dec_no)

lemma parse_show_octet [simp]: "parse_octet (show_octet b) = Some b"
proof -
  have l: "unat b < 256" by (rule byte_lt)
  have "hd (dec (unat b)) = 48 \<longrightarrow> length (dec (unat b)) = 1"
    using dec_hd [of "unat b"] by (auto simp: dec_length_digit)
  with l dec_length_byte [of "unat b"] show ?thesis
    by (simp add: parse_octet_def show_octet_def dec_digits)
qed

lemma split_show_ipv4:
  "split_on 46 (show_ipv4 (IPv4 a b c d)) = [show_octet a, show_octet b, show_octet c, show_octet d]"
  by (simp add: split_on_cons split_on_free)

lemma parse_show_ipv4 [simp]: "parse_ipv4 (show_ipv4 a) = Some a"
  by (cases a) (simp only: parse_ipv4_def split_show_ipv4, simp)

text \<open>Two texts parse to the same address only if they are equal: the parser accepts one spelling.\<close>

lemma split_on_join: "concat (map (\<lambda>p. d # p) (split_on d s)) = d # s"
proof (induction s)
  case (Cons c s)
  then show ?case by (cases "split_on d s") auto
qed simp

lemma split_on_inj: "split_on d s = split_on d t \<Longrightarrow> s = t"
  by (metis list.inject split_on_join)

lemma dec_val_snoc: "dec_val (p @ [c]) = 10 * dec_val p + (c - 48)"
  by (simp add: dec_val_def)

lemma digit_lt: "(c :: nat) \<le> 57 \<Longrightarrow> c - 48 < 10"
  by simp

lemma dec_dec_val:
  "p \<noteq> [] \<Longrightarrow> list_all is_digit p \<Longrightarrow> (hd p = 48 \<Longrightarrow> length p = 1) \<Longrightarrow> dec (dec_val p) = p"
proof (induction p rule: rev_induct)
  case (snoc c p)
  have c: "48 \<le> c" "c \<le> 57" using snoc.prems by (auto simp: is_digit_def)
  show ?case
  proof (cases "p = []")
    case True
    with c show ?thesis by (simp add: dec_val_def dec.simps)
  next
    case False
    with snoc.prems have h: "hd p \<noteq> 48" by auto
    with False snoc.prems have ih: "dec (dec_val p) = p" by (intro snoc.IH) auto
    have "dec_val p \<noteq> 0"
    proof
      assume "dec_val p = 0"
      with ih have "p = [48]" by (simp add: dec.simps)
      with h show False by simp
    qed
    then have "\<not> 10 * dec_val p + (c - 48) < 10" by simp
    moreover have "(10 * n + k) div 10 = n" "(10 * n + k) mod 10 = k" if "k < 10" for n k :: nat
      using that by simp_all
    then have "(10 * dec_val p + (c - 48)) div 10 = dec_val p"
      "(10 * dec_val p + (c - 48)) mod 10 = c - 48" using c by (blast intro: digit_lt)+
    ultimately have "dec (10 * dec_val p + (c - 48)) = dec (dec_val p) @ [48 + (c - 48)]"
      by (subst dec.simps) (simp del: Nat.diff_add_assoc)
    with ih c show ?thesis by (simp add: dec_val_snoc)
  qed
qed simp

lemma show_parse_octet: "parse_octet p = Some b \<Longrightarrow> show_octet b = p"
  by (auto simp: parse_octet_def show_octet_def dec_dec_val split: if_splits)

lemma show_parse_ipv4:
  assumes "parse_ipv4 s = Some a"
  shows "show_ipv4 a = s"
proof -
  obtain p q u v where s: "split_on 46 s = [p, q, u, v]"
    using assms by (auto simp: parse_ipv4_def split: list.splits option.splits)
  with assms obtain b c d e where
    o: "parse_octet p = Some b" "parse_octet q = Some c" "parse_octet u = Some d" "parse_octet v = Some e"
    and a: "a = IPv4 b c d e"
    by (auto simp: parse_ipv4_def split: option.splits)
  have "split_on 46 (show_ipv4 a) = split_on 46 s"
    using s o by (simp only: a split_show_ipv4 show_parse_octet)
  then show ?thesis by (rule split_on_inj)
qed

lemma parse_ipv4_iff: "parse_ipv4 s = Some a \<longleftrightarrow> s = show_ipv4 a"
  using show_parse_ipv4 by auto

lemma show_ipv4_inj [simp]: "show_ipv4 a = show_ipv4 b \<longleftrightarrow> a = b"
  by (metis option.inject parse_show_ipv4)

text \<open>Stripping affixes and ASCII case mapping of whole strings.\<close>

definition strip_suffix :: "ustring \<Rightarrow> ustring \<Rightarrow> ustring option" where
  "strip_suffix suf s =
     (if length suf \<le> length s \<and> drop (length s - length suf) s = suf
      then Some (take (length s - length suf) s) else None)"

lemma strip_suffix_append [simp]: "strip_suffix suf (s @ suf) = Some s"
  by (simp add: strip_suffix_def)

definition make_ascii_lowercase :: "ustring \<Rightarrow> ustring" where
  "make_ascii_lowercase s = map to_ascii_lowercase s"

lemma lowercase_append [simp]:
  "make_ascii_lowercase (s @ t) = make_ascii_lowercase s @ make_ascii_lowercase t"
  by (simp add: make_ascii_lowercase_def)

lemma lowercase_hex [simp]: "make_ascii_lowercase (take n (hex bs)) = take n (hex bs)"
proof -
  have "\<forall>c \<in> set (hex bs). to_ascii_lowercase c = c"
    by (auto simp: hex_def hex_byte_def hex_digit_def to_ascii_lowercase_def)
  then show ?thesis by (auto simp: make_ascii_lowercase_def intro!: map_idI dest: in_set_takeD)
qed

end
