(* ===== verification/Subnet.thy ===== *)
theory Subnet
  imports Text
begin

text \<open>
  The joiner's host-address entry (\<open>duocb-core/src/subnet.rs\<close>). Interface enumeration and
  the network type of the \<open>ipnet\<close> crate are parameters: \<open>ipnet\<close> holds the operations the
  source calls on a network, and the interfaces are the list \<open>get_interfaces\<close> returned.
\<close>

section \<open>Subnets\<close>

record 'n ipnet =
  net_contains :: "'n \<Rightarrow> ipv4 \<Rightarrow> bool"
  net_prefix_len :: "'n \<Rightarrow> nat"
  net_network :: "'n \<Rightarrow> ipv4"
  net_broadcast :: "'n \<Rightarrow> ipv4"
  net_addr :: "'n \<Rightarrow> ipv4"
  net_trunc :: "'n \<Rightarrow> 'n"

record 'n interface =
  if_index :: nat
  if_loopback :: bool
  if_ipv4 :: "'n list"

definition subnet_locked_prefix :: "'n ipnet \<Rightarrow> 'n \<Rightarrow> ustring" where
  "subnet_locked_prefix N s =
     concat (map (\<lambda>b. show_octet b @ [46]) (take (net_prefix_len N s div 8) (octets (net_network N s))))"

definition editable_octets :: "'n ipnet \<Rightarrow> 'n \<Rightarrow> nat" where
  "editable_octets N s = 4 - net_prefix_len N s div 8"

definition splits_an_octet :: "'n ipnet \<Rightarrow> 'n \<Rightarrow> bool" where
  "splits_an_octet N s \<longleftrightarrow> net_prefix_len N s mod 8 \<noteq> 0"

definition subnet_range :: "'n ipnet \<Rightarrow> 'n \<Rightarrow> ipv4 \<times> ipv4" where
  "subnet_range N s = (net_network N s, net_broadcast N s)"

definition subnet_label :: "'n ipnet \<Rightarrow> 'n \<Rightarrow> ustring" where
  "subnet_label N s = show_ipv4 (net_network N s) @ [47] @ dec (net_prefix_len N s)"

text \<open>Detection: the default-route interface first, private addresses only, without duplicates.\<close>

definition push_subnet :: "'n ipnet \<Rightarrow> 'n \<Rightarrow> 'n list \<Rightarrow> 'n list" where
  "push_subnet N net subnets =
     (if \<not> ipv4_is_private (net_addr N net) then subnets
      else let subnet = net_trunc N net
           in if subnet \<in> set subnets then subnets else subnets @ [subnet])"

definition local_private_ipv4_subnets :: "'n ipnet \<Rightarrow> nat option \<Rightarrow> 'n interface list \<Rightarrow> 'n list" where
  "local_private_ipv4_subnets N default_index ifaces =
     (let interfaces = sort_key (\<lambda>i. Some (if_index i) \<noteq> default_index) ifaces
      in fold (\<lambda>iface subnets. if if_loopback iface then subnets
                 else fold (push_subnet N) (if_ipv4 iface) subnets) interfaces [])"

section \<open>The entry constraint\<close>

datatype join_ip_outcome = Empty | InRange ipv4 | OutOfRange | Malformed

type_synonym 'n join_ip_constraint = "'n list"

definition is_active :: "'n join_ip_constraint \<Rightarrow> bool" where
  "is_active c \<longleftrightarrow> c \<noteq> []"

definition primary :: "'n join_ip_constraint \<Rightarrow> 'n option" where
  "primary c = (case c of [] \<Rightarrow> None | s # _ \<Rightarrow> Some s)"

definition locked_prefix :: "'n ipnet \<Rightarrow> 'n join_ip_constraint \<Rightarrow> ustring" where
  "locked_prefix N c = (case primary c of None \<Rightarrow> [] | Some s \<Rightarrow> subnet_locked_prefix N s)"

definition host_placeholder :: "'n ipnet \<Rightarrow> 'n join_ip_constraint \<Rightarrow> ustring" where
  "host_placeholder N c =
     (case map_option (editable_octets N) (primary c) of
        None \<Rightarrow> []
      | Some n \<Rightarrow> (if n = 1 then ascii ''last octet'' else ascii ''last '' @ dec n @ ascii '' octets''))"

definition hint :: "'n ipnet \<Rightarrow> 'n join_ip_constraint \<Rightarrow> ustring" where
  "hint N c =
     (case primary c of
        Some s \<Rightarrow>
          (if splits_an_octet N s
           then case subnet_range N s of (lo, hi) \<Rightarrow>
             ascii ''Valid range: '' @ show_ipv4 lo @ [32, 8211, 32] @ show_ipv4 hi
           else [])
      | None \<Rightarrow> [])"

definition constraint_label :: "'n ipnet \<Rightarrow> 'n join_ip_constraint \<Rightarrow> ustring" where
  "constraint_label N c = (case primary c of None \<Rightarrow> [] | Some s \<Rightarrow> subnet_label N s)"

definition resolve_entry :: "'n ipnet \<Rightarrow> 'n join_ip_constraint \<Rightarrow> ustring \<Rightarrow> join_ip_outcome" where
  "resolve_entry N c entry0 =
     (let entry = str_trim entry0
      in if entry = [] then Empty
         else let full = (if parse_ipv4 entry \<noteq> None then entry else locked_prefix N c @ entry)
              in case parse_ipv4 full of
                   None \<Rightarrow> Malformed
                 | Some ip \<Rightarrow>
                     (if ipv4_is_loopback ip \<or> \<not> is_active c \<or> list_ex (\<lambda>s. net_contains N s ip) c
                      then InRange ip else OutOfRange))"

section \<open>What the entry accepts\<close>

lemma ipv4_digits: "c \<in> set (show_ipv4 a) \<Longrightarrow> is_digit c \<or> c = 46"
  by (cases a) (use dec_digits in \<open>fastforce simp: show_octet_def list_all_iff\<close>)

lemma ws_digit: "is_digit c \<or> c = 46 \<Longrightarrow> \<not> is_whitespace c"
  by (auto simp: is_digit_def is_whitespace_def)

lemma trim_show_ipv4 [simp]: "str_trim (show_ipv4 a) = show_ipv4 a"
proof -
  have "show_ipv4 a \<noteq> []" by (cases a) simp
  then show ?thesis
    by (intro str_trim_fix disjI2 conjI)
       (rule ws_digit, rule ipv4_digits, erule hd_in_set last_in_set)+
qed

lemma show_ipv4_nonempty [simp]: "show_ipv4 a \<noteq> []"
  by (cases a) simp

text \<open>
  The entry is accepted exactly when it spells an address the constraint allows: a whole
  address, or the part of one that follows the locked prefix, where the address is loopback, or no
  subnet was detected, or some detected subnet contains it. The address returned is the one spelled.
\<close>

theorem join_ip_exact:
  "resolve_entry N c entry = InRange ip \<longleftrightarrow>
     (str_trim entry = show_ipv4 ip
      \<or> str_trim entry \<noteq> [] \<and> str_trim entry \<notin> range show_ipv4
          \<and> locked_prefix N c @ str_trim entry = show_ipv4 ip)
     \<and> (ipv4_is_loopback ip \<or> c = [] \<or> (\<exists>s \<in> set c. net_contains N s ip))"
proof -
  have p: "parse_ipv4 s = None \<longleftrightarrow> s \<notin> range show_ipv4" for s
    by (metis (no_types, lifting) not_Some_eq parse_ipv4_iff rangeE rangeI)
  show ?thesis
    by (auto simp: resolve_entry_def Let_def p is_active_def list_ex_iff parse_ipv4_iff
        split: option.splits if_splits)
qed

definition tail_text :: "nat \<Rightarrow> ipv4 \<Rightarrow> ustring" where
  "tail_text k ip = tl (concat (map (\<lambda>b. 46 # show_octet b) (drop k (octets ip))))"

lemma prefix_tail:
  assumes "1 \<le> k" "k \<le> 3"
  shows "concat (map (\<lambda>b. show_octet b @ [46]) (take k (octets ip))) @ tail_text k ip = show_ipv4 ip"
proof -
  have "k = 1 \<or> k = 2 \<or> k = 3" using assms by auto
  then show ?thesis by (cases ip) (auto simp: tail_text_def numeral_2_eq_2 numeral_3_eq_3)
qed

lemma tail_not_address:
  assumes "1 \<le> k" "k \<le> 3"
  shows "tail_text k ip \<noteq> [] \<and> parse_ipv4 (tail_text k ip) = None \<and> str_trim (tail_text k ip) = tail_text k ip"
proof -
  obtain a b c d where ip: "ip = IPv4 a b c d" by (cases ip)
  have k: "k = 1 \<or> k = 2 \<or> k = 3" using assms by auto
  have ne: "tail_text k ip \<noteq> []"
    using k by (auto simp: tail_text_def ip numeral_2_eq_2 numeral_3_eq_3 show_octet_def)
  have "length (split_on 46 (tail_text k ip)) < 4"
    using k by (auto simp: tail_text_def ip numeral_2_eq_2 numeral_3_eq_3 split_on_cons split_on_free)
  then have "parse_ipv4 (tail_text k ip) = None"
    by (auto simp: parse_ipv4_def split: list.splits option.splits)
  moreover have "str_trim (tail_text k ip) = tail_text k ip"
  proof (rule str_trim_fix, intro disjI2 conjI)
    have sub: "set (tail_text k ip) \<subseteq> set (show_ipv4 ip)"
      using prefix_tail [OF assms, of ip] by (metis set_append sup_ge2)
    show "\<not> is_whitespace (hd (tail_text k ip))" "\<not> is_whitespace (last (tail_text k ip))"
      using sub ne hd_in_set last_in_set ipv4_digits ws_digit by blast+
  qed
  ultimately show ?thesis using ne by blast
qed

text \<open>
  Typing the tail and pasting the whole address are the same: for an address in the
  primary subnet whose prefix fixes one to three octets, the octets after the locked prefix and the
  full address both resolve to that address, surrounding white space included. The hypothesis states
  what a network's membership test means for its fixed octets.
\<close>

theorem join_ip_tail_or_paste:
  assumes "net_contains N s ip" and "8 \<le> net_prefix_len N s" and "net_prefix_len N s < 32"
    and "take (net_prefix_len N s div 8) (octets ip)
       = take (net_prefix_len N s div 8) (octets (net_network N s))"
    and "str_trim typed = tail_text (4 - editable_octets N s) ip" and "str_trim pasted = show_ipv4 ip"
  shows "resolve_entry N (s # others) typed = InRange ip \<and> resolve_entry N (s # others) pasted = InRange ip"
proof -
  let ?k = "net_prefix_len N s div 8"
  have k: "1 \<le> ?k" "?k \<le> 3" using assms(2,3) by auto
  then have e: "4 - editable_octets N s = ?k" by (simp add: editable_octets_def)
  have "locked_prefix N (s # others) @ tail_text ?k ip = show_ipv4 ip"
    using prefix_tail [OF k, of ip] assms(4)
    by (simp add: locked_prefix_def primary_def subnet_locked_prefix_def)
  moreover have "tail_text ?k ip \<noteq> []" "parse_ipv4 (tail_text ?k ip) = None"
    using tail_not_address [OF k] by auto
  ultimately show ?thesis using assms(1,5,6) e by (simp add: resolve_entry_def Let_def)
qed

section \<open>Detection\<close>

lemma push_subnet_set:
  "set (fold (push_subnet N) nets acc)
     = set acc \<union> net_trunc N ` {n \<in> set nets. ipv4_is_private (net_addr N n)}"
  by (induction nets arbitrary: acc) (auto simp: push_subnet_def Let_def)

lemma push_subnet_distinct: "distinct acc \<Longrightarrow> distinct (fold (push_subnet N) nets acc)"
  by (induction nets arbitrary: acc) (auto simp: push_subnet_def Let_def)

definition scan :: "'n ipnet \<Rightarrow> 'n interface list \<Rightarrow> 'n list \<Rightarrow> 'n list" where
  "scan N is acc = fold (\<lambda>iface subnets. if if_loopback iface then subnets
                 else fold (push_subnet N) (if_ipv4 iface) subnets) is acc"

lemma scan_set:
  "set (scan N is acc) = set acc \<union> net_trunc N `
     {n. ipv4_is_private (net_addr N n) \<and> (\<exists>i \<in> set is. \<not> if_loopback i \<and> n \<in> set (if_ipv4 i))}"
  unfolding scan_def
  by (induction "is" arbitrary: acc) (auto simp: push_subnet_set image_iff)

lemma scan_distinct: "distinct acc \<Longrightarrow> distinct (scan N is acc)"
  unfolding scan_def by (induction "is" arbitrary: acc) (auto simp: push_subnet_distinct)


text \<open>
  Detection keeps exactly the truncated networks of private addresses on interfaces that
  are not loopback, each once, whatever order the system reports them in and whichever interface is
  the default route.
\<close>

theorem local_subnets_exact:
  "distinct (local_private_ipv4_subnets N d ifs)
   \<and> set (local_private_ipv4_subnets N d ifs)
     = {net_trunc N n |n i. i \<in> set ifs \<and> \<not> if_loopback i \<and> n \<in> set (if_ipv4 i)
          \<and> ipv4_is_private (net_addr N n)}"
proof -
  have s: "local_private_ipv4_subnets N d ifs = scan N (sort_key (\<lambda>i. Some (if_index i) \<noteq> d) ifs) []"
    by (simp add: local_private_ipv4_subnets_def scan_def)
  show ?thesis unfolding s by (auto simp: scan_distinct scan_set)
qed

text \<open>A network as an address and a prefix length, with the bit masks written out on 32-bit words.\<close>

definition addr32 :: "ipv4 \<Rightarrow> u32" where
  "addr32 a = of_nat (be_val (octets a))"

definition demo_ipnet :: "(ipv4 \<times> nat) ipnet" where
  "demo_ipnet =
     \<lparr>net_contains = (\<lambda>(a, p) ip. drop_bit (32 - p) (addr32 a) = drop_bit (32 - p) (addr32 ip)),
      net_prefix_len = snd, net_network = fst, net_broadcast = fst, net_addr = fst, net_trunc = id\<rparr>"

lemma join_ip_tail_or_paste_witness:
  "resolve_entry demo_ipnet [(IPv4 10 22 33 0, 24)] [32, 49, 53] = InRange (IPv4 10 22 33 15)
   \<and> resolve_entry demo_ipnet [(IPv4 10 22 33 0, 24)] (show_ipv4 (IPv4 10 22 33 15)) = InRange (IPv4 10 22 33 15)"
proof (rule join_ip_tail_or_paste)
  show "net_contains demo_ipnet (IPv4 10 22 33 0, 24) (IPv4 10 22 33 15)"
    by (simp add: demo_ipnet_def addr32_def be_val_def drop_bit_eq_div)
  show "str_trim [32, 49, 53] = tail_text (4 - editable_octets demo_ipnet (IPv4 10 22 33 0, 24)) (IPv4 10 22 33 15)"
    by (simp add: str_trim_def is_whitespace_def tail_text_def editable_octets_def demo_ipnet_def
        numeral_3_eq_3 show_octet_def dec.simps)
qed (simp_all add: demo_ipnet_def numeral_3_eq_3 del: show_ipv4.simps)

end
