(* ===== verification/Records.thy ===== *)
theory Records
  imports Text Pin Sample
begin

text \<open>
  The two encrypted rendezvous records: the pairwise hosting record
  (\<open>duocb-core/src/hosting_record.rs\<close>) and the card-setup PIN record
  (\<open>duocb-core/src/pin_record.rs\<close>), with the iroh address form of
  \<open>transport/iroh_quic.rs\<close>. NIP-44, the JSON codecs of the two payloads, the text form of
  node ids and the check of secret keys are parameters, collected in \<open>sealing\<close>; NIP-44's
  random nonce is an argument.
\<close>

section \<open>Payloads and parameters\<close>

record hosting_payload =
  hp_version :: u32
  hp_transport :: ustring
  hp_address :: ustring

record pin_payload =
  pp_node_id :: ustring

record sealing =
  nip_enc :: "seckey \<Rightarrow> pubkey \<Rightarrow> ustring \<Rightarrow> nat \<Rightarrow> ustring option"
  nip_dec :: "seckey \<Rightarrow> pubkey \<Rightarrow> ustring \<Rightarrow> ustring option"
  hosting_ser :: "hosting_payload \<Rightarrow> ustring option"
  hosting_de :: "ustring \<Rightarrow> hosting_payload option"
  pin_ser :: "pin_payload \<Rightarrow> ustring option"
  pin_de :: "ustring \<Rightarrow> pin_payload option"
  node_show :: "node_id \<Rightarrow> ustring"
  node_parse :: "ustring \<Rightarrow> node_id option"
  seckey_of :: "bytes \<Rightarrow> seckey option"

definition HOSTING_VERSION :: u32 where [const_simps]: "HOSTING_VERSION = 2"
definition NOSTR_TAG_DOMAIN :: bytes where
  "NOSTR_TAG_DOMAIN = map of_char ''duocb:pairwise-hosting:v1''"
definition LAN_LABEL_DOMAIN :: bytes where
  "LAN_LABEL_DOMAIN = map of_char ''duocb:pairwise-hosting-lan:v1''"

section \<open>The hosting record\<close>

definition pair_hash :: "'z crypto_scheme \<Rightarrow> bytes \<Rightarrow> pubkey \<Rightarrow> pubkey \<Rightarrow> bytes" where
  "pair_hash C domain host peer = sha256 C (domain @ to_bytes host @ to_bytes peer)"

definition nostr_dtag :: "'z crypto_scheme \<Rightarrow> pubkey \<Rightarrow> pubkey \<Rightarrow> ustring" where
  "nostr_dtag C host peer = ascii ''duocb:hosting:v1:'' @ hex (pair_hash C NOSTR_TAG_DOMAIN host peer)"

definition lan_instance :: "'z crypto_scheme \<Rightarrow> pubkey \<Rightarrow> pubkey \<Rightarrow> ustring" where
  "lan_instance C host peer = take 32 (hex (pair_hash C LAN_LABEL_DOMAIN host peer))"

definition hosting_encrypt ::
    "'s sealing_scheme \<Rightarrow> nat \<Rightarrow> identity \<Rightarrow> pubkey \<Rightarrow> transport_addr \<Rightarrow> ustring option" where
  "hosting_encrypt S nonce identity peer addr =
     (case hosting_ser S \<lparr>hp_version = HOSTING_VERSION, hp_transport = ta_kind addr,
             hp_address = ta_address addr\<rparr> of
        None \<Rightarrow> None
      | Some payload \<Rightarrow> nip_enc S (secret identity) peer payload nonce)"

definition hosting_decrypt ::
    "'s sealing_scheme \<Rightarrow> identity \<Rightarrow> pubkey \<Rightarrow> ustring \<Rightarrow> transport_addr option" where
  "hosting_decrypt S identity host content =
     (case nip_dec S (secret identity) host content of
        None \<Rightarrow> None
      | Some plaintext \<Rightarrow>
          (case hosting_de S plaintext of
             None \<Rightarrow> None
           | Some record \<Rightarrow>
               (if hp_version record \<noteq> HOSTING_VERSION then None
                else Some \<lparr>ta_kind = hp_transport record, ta_address = hp_address record\<rparr>)))"

text \<open>The iroh transport's address text.\<close>

definition IROH_KIND :: ustring where "IROH_KIND = ascii ''iroh''"

definition rendezvous_addr :: "'s sealing_scheme \<Rightarrow> node_id \<Rightarrow> transport_addr" where
  "rendezvous_addr S n = \<lparr>ta_kind = IROH_KIND, ta_address = node_show S n\<rparr>"

definition endpoint_id :: "'s sealing_scheme \<Rightarrow> transport_addr \<Rightarrow> node_id option" where
  "endpoint_id S addr =
     (case address_of addr IROH_KIND of None \<Rightarrow> None | Some a \<Rightarrow> node_parse S (str_trim a))"

section \<open>The PIN record\<close>

text \<open>A nostr key pair is given by its secret.\<close>

type_synonym keys = seckey

definition pin_keys :: "'s sealing_scheme \<Rightarrow> argon2 \<Rightarrow> ustring \<Rightarrow> u64 \<Rightarrow> keys option" where
  "pin_keys S A canonical_pin bucket =
     (case derive_key_material A canonical_pin bucket of
        None \<Rightarrow> None
      | Some material \<Rightarrow> seckey_of S material)"

definition candidate_buckets :: "u64 \<Rightarrow> u64 list" where
  "candidate_buckets current = [current, current - 1, current + 1]"

fun collect :: "'a option list \<Rightarrow> 'a list option" where
  "collect [] = Some []"
| "collect (None # xs) = None"
| "collect (Some x # xs) = map_option (Cons x) (collect xs)"

definition candidate_keys :: "'s sealing_scheme \<Rightarrow> argon2 \<Rightarrow> u64 option \<Rightarrow> ustring \<Rightarrow> keys list option" where
  "candidate_keys S A now canonical_pin =
     collect (map (pin_keys S A canonical_pin) (candidate_buckets (current_bucket now)))"

definition encrypt_pin_payload ::
    "'z crypto_scheme \<Rightarrow> 's sealing_scheme \<Rightarrow> nat \<Rightarrow> keys \<Rightarrow> node_id \<Rightarrow> ustring option" where
  "encrypt_pin_payload C S nonce keys node =
     (case pin_ser S \<lparr>pp_node_id = node_show S node\<rparr> of
        None \<Rightarrow> None
      | Some payload \<Rightarrow> nip_enc S keys (pub_of C keys) payload nonce)"

definition decrypt_pin_payload ::
    "'z crypto_scheme \<Rightarrow> 's sealing_scheme \<Rightarrow> keys \<Rightarrow> ustring \<Rightarrow> node_id option" where
  "decrypt_pin_payload C S keys content =
     (case nip_dec S keys (pub_of C keys) content of
        None \<Rightarrow> None
      | Some plaintext \<Rightarrow>
          (case pin_de S plaintext of
             None \<Rightarrow> None
           | Some payload \<Rightarrow> node_parse S (str_trim (pp_node_id payload))))"

section \<open>Behaviour of the parameters at a message\<close>

text \<open>
  What decrypting relies on: the recipient's key opens what was sealed to it, and the JSON codec
  reads back what it wrote. \<open>node_text\<close>: the text form of a node id parses back.
\<close>

definition sealed_at :: "'s sealing_scheme \<Rightarrow> seckey \<Rightarrow> pubkey \<Rightarrow> seckey \<Rightarrow> pubkey \<Rightarrow> nat \<Rightarrow> ustring \<Rightarrow> bool" where
  "sealed_at S sk to sk' from nonce text \<longleftrightarrow>
     (case nip_enc S sk to text nonce of None \<Rightarrow> True | Some c \<Rightarrow> nip_dec S sk' from c = Some text)"

definition hosting_codec_at :: "'s sealing_scheme \<Rightarrow> hosting_payload \<Rightarrow> bool" where
  "hosting_codec_at S p \<longleftrightarrow>
     (case hosting_ser S p of None \<Rightarrow> True | Some t \<Rightarrow> hosting_de S t = Some p)"

definition pin_codec_at :: "'s sealing_scheme \<Rightarrow> pin_payload \<Rightarrow> bool" where
  "pin_codec_at S p \<longleftrightarrow> (case pin_ser S p of None \<Rightarrow> True | Some t \<Rightarrow> pin_de S t = Some p)"

definition node_text :: "'s sealing_scheme \<Rightarrow> node_id \<Rightarrow> bool" where
  "node_text S n \<longleftrightarrow> node_parse S (str_trim (node_show S n)) = Some n"

definition hosting_text :: "'s sealing_scheme \<Rightarrow> transport_addr \<Rightarrow> ustring option" where
  "hosting_text S addr = hosting_ser S \<lparr>hp_version = HOSTING_VERSION, hp_transport = ta_kind addr,
     hp_address = ta_address addr\<rparr>"

lemma hosting_roundtrip:
  assumes "hosting_encrypt S nonce me peer addr = Some content"
    and "\<And>t. hosting_text S addr = Some t \<Longrightarrow> sealed_at S (secret me) peer (secret you) host nonce t"
    and "hosting_codec_at S \<lparr>hp_version = HOSTING_VERSION, hp_transport = ta_kind addr, hp_address = ta_address addr\<rparr>"
  shows "hosting_decrypt S you host content = Some addr"
  using assms
  by (auto simp: hosting_encrypt_def hosting_decrypt_def hosting_text_def sealed_at_def
      hosting_codec_at_def split: option.splits)

lemma pin_payload_roundtrip:
  assumes "encrypt_pin_payload C S nonce keys node = Some content"
    and "\<And>t. pin_ser S \<lparr>pp_node_id = node_show S node\<rparr> = Some t \<Longrightarrow>
      sealed_at S keys (pub_of C keys) keys (pub_of C keys) nonce t"
    and "pin_codec_at S \<lparr>pp_node_id = node_show S node\<rparr>" and "node_text S node"
  shows "decrypt_pin_payload C S keys content = Some node"
  using assms
  by (auto simp: encrypt_pin_payload_def decrypt_pin_payload_def sealed_at_def
      pin_codec_at_def node_text_def split: option.splits)

lemma endpoint_id_rendezvous: "node_text S n \<Longrightarrow> endpoint_id S (rendezvous_addr S n) = Some n"
  by (simp add: endpoint_id_def rendezvous_addr_def address_of_def node_text_def)

section \<open>Labels\<close>

lemma hex_append: "hex (a @ b) = hex a @ hex b"
  by (simp add: hex_def)

lemma take_hex: "take (2 * n) (hex bs) = hex (take n bs)"
proof (cases "n \<le> length bs")
  case True
  have "hex bs = hex (take n bs) @ hex (drop n bs)"
    by (metis append_take_drop_id hex_append)
  with True show ?thesis by simp
qed simp

lemma lan_instance_hex: "lan_instance C h p = hex (take 16 (pair_hash C LAN_LABEL_DOMAIN h p))"
  using take_hex [of 16] by (simp add: lan_instance_def)

lemma pair_message_inj:
  assumes "length (to_bytes h) = length (to_bytes h')"
  shows "d @ to_bytes h @ to_bytes p = d @ to_bytes h' @ to_bytes p' \<longleftrightarrow> h = h' \<and> p = p'"
  using assms by (auto simp: append_eq_append_conv intro: pubkey.expand)

text \<open>
  Labels of different pairs, or of the two directions of one pair, or on the two
  carriers, are hashes of different messages: two relay labels are equal exactly when SHA-256
  collides on two distinct messages, two local labels exactly when the first 16 bytes of it do, and a
  relay label and a local label never hash the same message.
\<close>

theorem pairwise_labels:
  assumes "(h, p) \<noteq> (h', p')"
    and "length (to_bytes h) = 32" and "length (to_bytes p) = 32"
    and "length (to_bytes h') = 32" and "length (to_bytes p') = 32"
  defines "m \<equiv> (\<lambda>d h p. d @ to_bytes h @ to_bytes p)"
  shows "m NOSTR_TAG_DOMAIN h p \<noteq> m NOSTR_TAG_DOMAIN h' p'
     \<and> m LAN_LABEL_DOMAIN h p \<noteq> m LAN_LABEL_DOMAIN h' p'
     \<and> m NOSTR_TAG_DOMAIN h p \<noteq> m LAN_LABEL_DOMAIN h' p'
     \<and> (nostr_dtag C h p = nostr_dtag C h' p'
          \<longleftrightarrow> sha256 C (m NOSTR_TAG_DOMAIN h p) = sha256 C (m NOSTR_TAG_DOMAIN h' p'))
     \<and> (lan_instance C h p = lan_instance C h' p'
          \<longleftrightarrow> take 16 (sha256 C (m LAN_LABEL_DOMAIN h p)) = take 16 (sha256 C (m LAN_LABEL_DOMAIN h' p')))"
proof (intro conjI)
  have ne: "m d h p \<noteq> m d h' p'" for d
    using assms(1-5) pair_message_inj [of h h' d p p'] by (auto simp: m_def)
  then show "m NOSTR_TAG_DOMAIN h p \<noteq> m NOSTR_TAG_DOMAIN h' p'"
    "m LAN_LABEL_DOMAIN h p \<noteq> m LAN_LABEL_DOMAIN h' p'" by blast+
  have "length (m NOSTR_TAG_DOMAIN h p) = 89" "length (m LAN_LABEL_DOMAIN h' p') = 93"
    using assms(2-5) by (simp_all add: m_def NOSTR_TAG_DOMAIN_def LAN_LABEL_DOMAIN_def)
  then show "m NOSTR_TAG_DOMAIN h p \<noteq> m LAN_LABEL_DOMAIN h' p'" by force
  show "nostr_dtag C h p = nostr_dtag C h' p'
     \<longleftrightarrow> sha256 C (m NOSTR_TAG_DOMAIN h p) = sha256 C (m NOSTR_TAG_DOMAIN h' p')"
    by (auto simp: nostr_dtag_def pair_hash_def m_def dest: hex_inj)
  show "lan_instance C h p = lan_instance C h' p'
     \<longleftrightarrow> take 16 (sha256 C (m LAN_LABEL_DOMAIN h p)) = take 16 (sha256 C (m LAN_LABEL_DOMAIN h' p'))"
    by (auto simp: lan_instance_hex pair_hash_def m_def dest: hex_inj)
qed

definition demo_key :: "byte \<Rightarrow> pubkey" where
  "demo_key b = PublicKey (replicate 32 b)"

lemma pairwise_labels_witness:
  "nostr_dtag (sample_crypto\<lparr>sha256 := id\<rparr>) (demo_key 1) (demo_key 2)
     \<noteq> nostr_dtag (sample_crypto\<lparr>sha256 := id\<rparr>) (demo_key 2) (demo_key 1)"
proof -
  have "(demo_key 1, demo_key 2) \<noteq> (demo_key 2, demo_key 1)"
    by (simp add: demo_key_def numeral_eq_Suc)
  from pairwise_labels [OF this, of "sample_crypto\<lparr>sha256 := id\<rparr>"]
  show ?thesis by (simp add: demo_key_def)
qed

section \<open>The buckets a joiner searches\<close>

lemma collect_Some: "collect xs = Some ys \<longleftrightarrow> xs = map Some ys"
proof (induction xs arbitrary: ys rule: collect.induct)
  case (3 x xs)
  then show ?case by (cases ys) auto
qed auto

lemma candidate_key_in:
  assumes "candidate_keys S A now pin = Some ks" and "b \<in> set (candidate_buckets (current_bucket now))"
    and "pin_keys S A pin b = Some k"
  shows "k \<in> set ks"
proof -
  have "map (pin_keys S A pin) (candidate_buckets (current_bucket now)) = map Some ks"
    using assms(1) by (simp only: candidate_keys_def collect_Some)
  then have "Some k \<in> set (map Some ks)"
    using assms(2,3) by (metis image_eqI list.set_map)
  then show ?thesis by (simp add: image_iff)
qed

lemma bucket_skew:
  assumes "unat t \<le> unat u + 60" and "unat u \<le> unat t + 60"
  shows "current_bucket (Some t) \<in> set (candidate_buckets (current_bucket (Some u)))"
proof -
  have b: "current_bucket (Some v) = of_nat (unat v div 60)" for v
    by (simp only: current_bucket_def BUCKET_SECS_def option.case word_arith_nat_div [of v]) simp
  consider "unat t div 60 = unat u div 60" | "unat u div 60 = unat t div 60 + 1" | "unat t div 60 = unat u div 60 + 1"
    using assms by linarith
  then show ?thesis
    by cases (simp_all only: b candidate_buckets_def of_nat_add of_nat_1 list.set insert_iff add_diff_cancel simp_thms)
qed

section \<open>A concrete instance of the parameters\<close>

definition demo_lock :: "bytes \<Rightarrow> bytes \<Rightarrow> ustring" where
  "demo_lock a b = map unat a @ [300] @ map unat b @ [300]"

definition demo_sealing :: sealing where
  "demo_sealing =
     \<lparr>nip_enc = (\<lambda>sk peer t nonce. Some (demo_lock sk (to_bytes peer) @ t)),
      nip_dec = (\<lambda>sk from c. let l = demo_lock (to_bytes from) sk
         in if take (length l) c = l then Some (drop (length l) c) else None),
      hosting_ser = (\<lambda>p. Some (unat (hp_version p) # length (hp_transport p) # hp_transport p @ hp_address p)),
      hosting_de = (\<lambda>t. case t of v # n # s \<Rightarrow>
           Some \<lparr>hp_version = of_nat v, hp_transport = take n s, hp_address = drop n s\<rparr> | _ \<Rightarrow> None),
      pin_ser = (\<lambda>p. Some (pp_node_id p)), pin_de = (\<lambda>t. Some \<lparr>pp_node_id = t\<rparr>),
      node_show = (\<lambda>n. map (\<lambda>b. 300 + unat b) (node_bytes n)),
      node_parse = (\<lambda>t. Some (NodeId (map (\<lambda>c. of_nat (c - 300)) t))),
      seckey_of = Some\<rparr>"

lemma demo_sealed: "sealed_at demo_sealing sk (PublicKey sk') sk' (PublicKey sk) nonce t"
  by (simp add: sealed_at_def demo_sealing_def Let_def demo_lock_def)

lemma demo_hosting_codec: "hosting_codec_at demo_sealing p"
  by (simp add: hosting_codec_at_def demo_sealing_def)

lemma demo_pin_codec: "pin_codec_at demo_sealing p"
  by (simp add: pin_codec_at_def demo_sealing_def)

lemma demo_node_text: "node_text demo_sealing n"
proof -
  have "\<not> is_whitespace (300 + unat (b :: byte))" for b
    using byte_lt [of b] by (auto simp: is_whitespace_def)
  then have "str_trim (map (\<lambda>b. 300 + unat b) (bs :: bytes)) = map (\<lambda>b. 300 + unat b) bs" for bs
    by (intro str_trim_fix) (auto simp: hd_map last_map)
  then show ?thesis by (cases n) (simp add: node_text_def demo_sealing_def comp_def)
qed

end
