(* ===== verification/Lan.thy ===== *)
theory Lan
  imports Records
begin

text \<open>
  The local-network carriers (\<open>duocb-core/src/lan/mod.rs\<close>, \<open>dnssd.rs\<close>,
  \<open>unicast.rs\<close>): DNS-SD advertisements and the browse loop, the TXT wire format of the iOS half,
  the ports and addresses a record travels with, and the unicast side channel. The responder daemon
  and the network are parameters: an advertisement is the value handed to the responder, a browse is
  the list of events that arrive within its window, and the side channel answers with bytes.
\<close>

unbundle bit_operations_syntax

section \<open>Names, ports and addresses\<close>

definition PIN_SERVICE_TYPE :: ustring where "PIN_SERVICE_TYPE = ascii ''_duocb-pin._udp.local.''"
definition HOSTING_SERVICE_TYPE :: ustring where
  "HOSTING_SERVICE_TYPE = ascii ''_duocb-host._udp.local.''"
definition TXT_KEY :: ustring where [const_simps]: "TXT_KEY = [101]"
definition TXT_KEY_PORT6 :: ustring where [const_simps]: "TXT_KEY_PORT6 = [112, 54]"
definition PORT_SALT :: bytes where "PORT_SALT = map of_char ''duocb:pin-side-channel-port:v1''"
definition EPHEMERAL_START :: u16 where [const_simps]: "EPHEMERAL_START = 49152"
definition EPHEMERAL_LEN :: u16 where [const_simps]: "EPHEMERAL_LEN = (- 1) - EPHEMERAL_START + 1"

definition pin_instance_name :: "'z crypto_scheme \<Rightarrow> keys \<Rightarrow> ustring" where
  "pin_instance_name C keys = take 32 (key_hex C (pub_of C keys))"

definition side_channel_port :: "'z crypto_scheme \<Rightarrow> keys \<Rightarrow> u16" where
  "side_channel_port C keys =
     (let digest = sha256 C (PORT_SALT @ to_bytes (pub_of C keys))
      in EPHEMERAL_START + of_nat (be_val (take 2 digest)) mod EPHEMERAL_LEN)"

record 'p lan_found =
  lf_payload :: 'p
  lf_addrs :: "socket_addr list"

definition dial_target :: "node_id \<Rightarrow> socket_addr list \<Rightarrow> endpoint_addr" where
  "dial_target node addrs =
     fold (\<lambda>a addr. addr\<lparr>ea_addrs := ea_addrs addr @ [a]\<rparr>) addrs \<lparr>ea_id = node, ea_addrs = []\<rparr>"

definition pin_endpoint_addr :: "node_id lan_found \<Rightarrow> endpoint_addr" where
  "pin_endpoint_addr f = dial_target (lf_payload f) (lf_addrs f)"

definition hosting_endpoint_addr :: "'s sealing_scheme \<Rightarrow> transport_addr lan_found \<Rightarrow> endpoint_addr option" where
  "hosting_endpoint_addr S f =
     (case endpoint_id S (lf_payload f) of None \<Rightarrow> None | Some n \<Rightarrow> Some (dial_target n (lf_addrs f)))"

definition is_v4 :: "socket_addr \<Rightarrow> bool" where
  "is_v4 a \<longleftrightarrow> (case sa_ip a of V4 _ \<Rightarrow> True | V6 _ \<Rightarrow> False)"

definition preferred_lan_ipv4 :: "socket_addr list \<Rightarrow> ipv4 option" where
  "preferred_lan_ipv4 addrs =
     find ipv4_is_private
       (List.map_filter (\<lambda>a. case sa_ip a of V4 v4 \<Rightarrow> Some v4 | V6 _ \<Rightarrow> None) addrs)"

definition split_ports :: "socket_addr list \<Rightarrow> (u16 \<times> u16 option) option" where
  "split_ports addrs =
     (let v4 = map_option sa_port (find is_v4 addrs);
          v6 = map_option sa_port (find (\<lambda>a. \<not> is_v4 a) addrs)
      in case (case v4 of Some p \<Rightarrow> Some p | None \<Rightarrow> v6) of
           None \<Rightarrow> None
         | Some srv \<Rightarrow> Some (srv, case v6 of Some p \<Rightarrow> if p \<noteq> srv then Some p else None | None \<Rightarrow> None))"

definition v6_link_local :: "u16 list \<Rightarrow> bool" where
  "v6_link_local segments \<longleftrightarrow> segments ! 0 AND 0xffc0 = 0xfe80"

definition assemble_addrs :: "ip_addr list \<Rightarrow> u16 \<Rightarrow> u16 option \<Rightarrow> socket_addr list" where
  "assemble_addrs ips srv_port port6 =
     List.map_filter (\<lambda>ip. case ip of
         V4 _ \<Rightarrow> Some \<lparr>sa_ip = ip, sa_port = srv_port\<rparr>
       | V6 segments \<Rightarrow>
           (if v6_link_local segments then None
            else Some \<lparr>sa_ip = ip, sa_port = (case port6 of Some p \<Rightarrow> p | None \<Rightarrow> srv_port)\<rparr>)) ips"

lemma map_filter_set: "set (List.map_filter f xs) = {y. \<exists>x \<in> set xs. f x = Some y}"
  by (induction xs) (auto simp: List.map_filter_simps split: option.splits)

lemma dial_target_eq: "dial_target n addrs = \<lparr>ea_id = n, ea_addrs = addrs\<rparr>"
proof -
  have "fold (\<lambda>a addr. addr\<lparr>ea_addrs := ea_addrs addr @ [a]\<rparr>) addrs \<lparr>ea_id = n, ea_addrs = pre\<rparr>
      = \<lparr>ea_id = n, ea_addrs = pre @ addrs\<rparr>" for pre
    by (induction addrs arbitrary: pre) auto
  then show ?thesis by (simp add: dial_target_def)
qed

text \<open>
  One port per address family, no link-local IPv6 address: what an endpoint with one socket per
  family reports, and what the two port fields of an advertisement can carry.
\<close>

definition one_port_each :: "u16 \<Rightarrow> u16 \<Rightarrow> socket_addr list \<Rightarrow> bool" where
  "one_port_each p4 p6 addrs \<longleftrightarrow>
     (\<forall>a \<in> set addrs. case sa_ip a of V4 _ \<Rightarrow> sa_port a = p4
        | V6 segs \<Rightarrow> sa_port a = p6 \<and> \<not> v6_link_local segs)"

lemma split_ports_uniform:
  assumes "one_port_each p4 p6 addrs"
  shows "split_ports addrs =
     (if \<exists>a \<in> set addrs. is_v4 a
      then Some (p4, if (\<exists>a \<in> set addrs. \<not> is_v4 a) \<and> p6 \<noteq> p4 then Some p6 else None)
      else if addrs = [] then None else Some (p6, None))"
proof -
  have f4: "a \<in> set addrs \<Longrightarrow> is_v4 a \<Longrightarrow> sa_port a = p4" for a
    using assms by (cases "sa_ip a") (auto simp: one_port_each_def is_v4_def)
  have f6: "a \<in> set addrs \<Longrightarrow> \<not> is_v4 a \<Longrightarrow> sa_port a = p6" for a
    using assms by (cases "sa_ip a") (auto simp: one_port_each_def is_v4_def)
  have 4: "find is_v4 addrs = Some a \<Longrightarrow> sa_port a = p4" for a
    using find_Some_set f4 by metis
  have 6: "find (\<lambda>a. \<not> is_v4 a) addrs = Some a \<Longrightarrow> sa_port a = p6" for a
    using f6 find_Some_set [of "\<lambda>a. \<not> is_v4 a" addrs a] by blast
  have n: "find P addrs = None \<longleftrightarrow> \<not> (\<exists>a \<in> set addrs. P a)" for P
    by (auto simp: find_None_iff)
  have "map_option sa_port (find is_v4 addrs) = (if \<exists>a \<in> set addrs. is_v4 a then Some p4 else None)"
    using 4 n [of is_v4] by (cases "find is_v4 addrs") auto
  moreover have "map_option sa_port (find (\<lambda>a. \<not> is_v4 a) addrs)
      = (if \<exists>a \<in> set addrs. \<not> is_v4 a then Some p6 else None)"
    using 6 n [of "\<lambda>a. \<not> is_v4 a"] by (cases "find (\<lambda>a. \<not> is_v4 a) addrs") auto
  moreover have "addrs = [] \<longleftrightarrow> \<not> (\<exists>a \<in> set addrs. is_v4 a) \<and> \<not> (\<exists>a \<in> set addrs. \<not> is_v4 a)"
    by (cases addrs) auto
  ultimately show ?thesis
    by (cases "\<exists>a \<in> set addrs. is_v4 a"; cases "\<exists>a \<in> set addrs. \<not> is_v4 a";
        simp only: split_ports_def Let_def if_True if_False option.case simp_thms)
qed

text \<open>The addresses of the host that were heard, each with its own port again.\<close>

lemma assemble_heard:
  assumes u: "one_port_each p4 p6 addrs" and s: "split_ports addrs = Some (srv, port6)"
    and ips: "set ips \<subseteq> sa_ip ` set addrs"
  shows "set (assemble_addrs ips srv port6) = {a \<in> set addrs. sa_ip a \<in> set ips}"
proof -
  have p: "sa_port a = (case sa_ip a of V4 _ \<Rightarrow> srv | V6 _ \<Rightarrow> (case port6 of Some p \<Rightarrow> p | None \<Rightarrow> srv))"
    if "a \<in> set addrs" for a
    using that u s
    by (auto simp: split_ports_uniform [OF u] one_port_each_def is_v4_def split: ip_addr.splits if_splits)
  have l: "sa_ip a = V6 segs \<Longrightarrow> a \<in> set addrs \<Longrightarrow> \<not> v6_link_local segs" for a segs
    using u by (auto simp: one_port_each_def)
  show ?thesis
  proof (intro subset_antisym subsetI)
    fix b assume "b \<in> set (assemble_addrs ips srv port6)"
    then obtain ip where ip: "ip \<in> set ips" and b: "(case ip of V4 _ \<Rightarrow> Some \<lparr>sa_ip = ip, sa_port = srv\<rparr>
        | V6 segs \<Rightarrow> if v6_link_local segs then None else
            Some \<lparr>sa_ip = ip, sa_port = (case port6 of Some p \<Rightarrow> p | None \<Rightarrow> srv)\<rparr>) = Some b"
      unfolding assemble_addrs_def map_filter_set by auto
    from ip ips obtain a where a: "a \<in> set addrs" "ip = sa_ip a" by auto
    with p [OF a(1)] b have "b = a" by (auto intro!: socket_addr.equality split: ip_addr.splits if_splits)
    with a ip show "b \<in> {a \<in> set addrs. sa_ip a \<in> set ips}" by simp
  next
    fix a assume "a \<in> {a \<in> set addrs. sa_ip a \<in> set ips}"
    then have a: "a \<in> set addrs" "sa_ip a \<in> set ips" by simp_all
    then show "a \<in> set (assemble_addrs ips srv port6)"
      unfolding assemble_addrs_def map_filter_set using p [OF a(1)] l [OF _ a(1)]
      by (auto intro!: bexI [of _ "sa_ip a"] split: ip_addr.splits)
  qed
qed

lemma assemble_split:
  assumes "one_port_each p4 p6 addrs" "split_ports addrs = Some (srv, port6)" "set ips = sa_ip ` set addrs"
  shows "set (assemble_addrs ips srv port6) = set addrs"
  using assemble_heard [OF assms(1,2), of ips] assms(3) by auto

section \<open>The DNS-SD desktop backend\<close>

datatype lan_error = ResponderFailed | NoDirectAddresses | PayloadError | RecordTooLarge | BindFailed

record advert =
  ad_type :: ustring
  ad_instance :: ustring
  ad_host :: ustring
  ad_ips :: "ip_addr list"
  ad_port :: u16
  ad_props :: "ustring \<Rightarrow> ustring option"

text \<open>The order of \<open>IpAddr\<close>: IPv4 before IPv6, then by octets or segments.\<close>

definition ip_ord :: "ip_addr \<Rightarrow> nat list" where
  "ip_ord ip = (case ip of V4 a \<Rightarrow> 0 # map unat (octets a) | V6 segs \<Rightarrow> 1 # map unat segs)"

text \<open>\<open>accepts\<close>: the responder builds and registers the service.\<close>

definition dnssd_advertise ::
    "(advert \<Rightarrow> bool) \<Rightarrow> ustring \<Rightarrow> ustring \<Rightarrow> ustring \<Rightarrow> socket_addr list \<Rightarrow> lan_error + advert" where
  "dnssd_advertise accepts service_type inst content addrs =
     (case split_ports addrs of
        None \<Rightarrow> Inl NoDirectAddresses
      | Some (srv_port, port6) \<Rightarrow>
          (let props0 = [TXT_KEY \<mapsto> content];
               props = (case port6 of Some p6 \<Rightarrow> props0(TXT_KEY_PORT6 \<mapsto> dec (unat p6)) | None \<Rightarrow> props0);
               ips = remdups_adj (sort_key ip_ord (map sa_ip addrs));
               info = \<lparr>ad_type = service_type, ad_instance = inst, ad_host = inst @ ascii ''.local.'',
                       ad_ips = ips, ad_port = srv_port, ad_props = props\<rparr>
           in if accepts info then Inr info else Inl ResponderFailed))"

record resolved =
  rs_fullname :: ustring
  rs_ips :: "ip_addr list"
  rs_port :: u16
  rs_props :: "ustring \<Rightarrow> ustring option"

datatype service_event = ServiceResolved resolved | OtherEvent

text \<open>One event of the browse: the hit, or \<open>None\<close> to keep browsing.\<close>

definition dnssd_event :: "ustring \<Rightarrow> (ustring \<Rightarrow> ustring \<Rightarrow> 'p option) \<Rightarrow> service_event \<Rightarrow> 'p lan_found option" where
  "dnssd_event service_type decode event =
     (case event of
        OtherEvent \<Rightarrow> None
      | ServiceResolved info \<Rightarrow>
          (case strip_suffix (46 # service_type) (make_ascii_lowercase (rs_fullname info)) of
             None \<Rightarrow> None
           | Some inst \<Rightarrow>
               (case rs_props info TXT_KEY of
                  None \<Rightarrow> None
                | Some content \<Rightarrow>
                    (case decode inst content of
                       None \<Rightarrow> None
                     | Some payload \<Rightarrow>
                         (let port6 = Option.bind (rs_props info TXT_KEY_PORT6) parse_u16
                          in Some \<lparr>lf_payload = payload,
                                   lf_addrs = assemble_addrs (rs_ips info) (rs_port info) port6\<rparr>)))))"

fun dnssd_loop :: "ustring \<Rightarrow> (ustring \<Rightarrow> ustring \<Rightarrow> 'p option) \<Rightarrow> service_event list \<Rightarrow> 'p lan_found option" where
  "dnssd_loop service_type decode [] = None"
| "dnssd_loop service_type decode (event # arrivals) =
     (case dnssd_event service_type decode event of
        Some f \<Rightarrow> Some f
      | None \<Rightarrow> dnssd_loop service_type decode arrivals)"

text \<open>\<open>arrivals\<close> is \<open>None\<close> when the browser does not start.\<close>

definition dnssd_lookup ::
    "service_event list option \<Rightarrow> ustring \<Rightarrow> (ustring \<Rightarrow> ustring \<Rightarrow> 'p option) \<Rightarrow> lan_error + 'p lan_found option" where
  "dnssd_lookup arrivals service_type decode =
     (case arrivals of None \<Rightarrow> Inl ResponderFailed | Some es \<Rightarrow> Inr (dnssd_loop service_type decode es))"

definition dnssd_advertise_pin_record ::
    "'z crypto_scheme \<Rightarrow> 's sealing_scheme \<Rightarrow> nat \<Rightarrow> (advert \<Rightarrow> bool) \<Rightarrow> keys \<Rightarrow> node_id
       \<Rightarrow> socket_addr list \<Rightarrow> lan_error + advert" where
  "dnssd_advertise_pin_record C S nonce accepts keys node addrs =
     (case encrypt_pin_payload C S nonce keys node of
        None \<Rightarrow> Inl PayloadError
      | Some content \<Rightarrow> dnssd_advertise accepts PIN_SERVICE_TYPE (pin_instance_name C keys) content addrs)"

definition dnssd_lookup_pin_record ::
    "'z crypto_scheme \<Rightarrow> 's sealing_scheme \<Rightarrow> service_event list option \<Rightarrow> keys list
       \<Rightarrow> lan_error + node_id lan_found option" where
  "dnssd_lookup_pin_record C S arrivals candidates =
     (let by_instance = fold (\<lambda>keys m. m(pin_instance_name C keys \<mapsto> keys)) candidates Map.empty
      in dnssd_lookup arrivals PIN_SERVICE_TYPE (\<lambda>inst content.
           case by_instance inst of None \<Rightarrow> None | Some keys \<Rightarrow> decrypt_pin_payload C S keys content))"

definition dnssd_advertise_hosting ::
    "'z crypto_scheme \<Rightarrow> 's sealing_scheme \<Rightarrow> nat \<Rightarrow> (advert \<Rightarrow> bool) \<Rightarrow> identity \<Rightarrow> pubkey
       \<Rightarrow> transport_addr \<Rightarrow> socket_addr list \<Rightarrow> lan_error + advert" where
  "dnssd_advertise_hosting C S nonce accepts identity peer addr addrs =
     (case hosting_encrypt S nonce identity peer addr of
        None \<Rightarrow> Inl PayloadError
      | Some content \<Rightarrow>
          dnssd_advertise accepts HOSTING_SERVICE_TYPE
            (lan_instance C (identity_public C identity) peer) content addrs)"

definition dnssd_lookup_hosting ::
    "'z crypto_scheme \<Rightarrow> 's sealing_scheme \<Rightarrow> service_event list option \<Rightarrow> identity \<Rightarrow> pubkey
       \<Rightarrow> lan_error + transport_addr lan_found option" where
  "dnssd_lookup_hosting C S arrivals identity host =
     (let wanted = lan_instance C host (identity_public C identity)
      in dnssd_lookup arrivals HOSTING_SERVICE_TYPE (\<lambda>inst content.
           if inst = wanted then hosting_decrypt S identity host content else None))"

section \<open>Discovery over DNS-SD\<close>

text \<open>What the network shows of an advertisement: its name in any case, and its data.\<close>

definition delivers :: "advert \<Rightarrow> resolved \<Rightarrow> bool" where
  "delivers ad r \<longleftrightarrow>
     make_ascii_lowercase (rs_fullname r) = ad_instance ad @ 46 # ad_type ad
     \<and> set (rs_ips r) = set (ad_ips ad) \<and> rs_port r = ad_port ad \<and> rs_props r = ad_props ad"

definition carries_label :: "ustring \<Rightarrow> ustring \<Rightarrow> service_event \<Rightarrow> bool" where
  "carries_label service_type inst e \<longleftrightarrow>
     (case e of OtherEvent \<Rightarrow> False
      | ServiceResolved q \<Rightarrow> make_ascii_lowercase (rs_fullname q) = inst @ 46 # service_type)"

lemma strip_suffix_SomeD: "strip_suffix suf s = Some t \<Longrightarrow> s = t @ suf"
  by (auto simp: strip_suffix_def split: if_splits) (metis append_take_drop_id)

lemma dnssd_event_label:
  assumes "\<not> carries_label st inst e" and "\<And>i c. decode i c \<noteq> None \<Longrightarrow> i = inst"
  shows "dnssd_event st decode e = None"
proof (rule ccontr)
  assume "dnssd_event st decode e \<noteq> None"
  then obtain q i c where "e = ServiceResolved q"
    "strip_suffix (46 # st) (make_ascii_lowercase (rs_fullname q)) = Some i" "decode i c \<noteq> None"
    by (auto simp: dnssd_event_def split: service_event.splits option.splits)
  with assms show False by (auto simp: carries_label_def dest!: strip_suffix_SomeD)
qed

lemma dnssd_loop_skip:
  "\<forall>e \<in> set pre. dnssd_event st decode e = None \<Longrightarrow> dnssd_loop st decode (pre @ rest) = dnssd_loop st decode rest"
  by (induction pre) auto

lemma dnssd_found:
  assumes ad: "dnssd_advertise accepts st inst content addrs = Inr ad"
    and u: "one_port_each p4 p6 addrs" and d: "delivers ad r"
    and x: "decode inst content = Some x"
    and pre: "\<forall>e \<in> set pre. dnssd_event st decode e = None"
  shows "\<exists>f. dnssd_lookup (Some (pre @ ServiceResolved r # post)) st decode = Inr (Some f)
     \<and> lf_payload f = x \<and> set (lf_addrs f) = set addrs"
proof -
  from ad obtain srv port6 where sp: "split_ports addrs = Some (srv, port6)"
    by (auto simp: dnssd_advertise_def split: option.splits)
  with ad have info: "ad_type ad = st" "ad_instance ad = inst" "set (ad_ips ad) = sa_ip ` set addrs"
      "ad_port ad = srv" "ad_props ad TXT_KEY = Some content"
      "Option.bind (ad_props ad TXT_KEY_PORT6) parse_u16 = port6"
    by (auto simp: dnssd_advertise_def Let_def const_simps split: option.splits if_splits)
  have "dnssd_event st decode (ServiceResolved r)
      = Some \<lparr>lf_payload = x, lf_addrs = assemble_addrs (rs_ips r) srv port6\<rparr>"
    using d info x by (simp add: dnssd_event_def delivers_def)
  moreover have "set (assemble_addrs (rs_ips r) srv port6) = set addrs"
    using d info by (intro assemble_split [OF u sp]) (simp add: delivers_def)
  ultimately show ?thesis by (simp add: dnssd_lookup_def dnssd_loop_skip [OF pre])
qed

lemma hosting_found:
  assumes "dnssd_advertise_hosting C S nonce accepts host (identity_public C me) addr addrs = Inr ad"
    and "one_port_each p4 p6 addrs" and "delivers ad r"
    and "\<forall>e \<in> set pre. \<not> carries_label HOSTING_SERVICE_TYPE (ad_instance ad) e"
    and "\<forall>t. hosting_text S addr = Some t \<longrightarrow>
      sealed_at S (secret host) (identity_public C me) (secret me) (identity_public C host) nonce t"
    and "hosting_codec_at S \<lparr>hp_version = HOSTING_VERSION, hp_transport = ta_kind addr, hp_address = ta_address addr\<rparr>"
  shows "\<exists>f. dnssd_lookup_hosting C S (Some (pre @ ServiceResolved r # post)) me (identity_public C host)
       = Inr (Some f) \<and> lf_payload f = addr \<and> set (lf_addrs f) = set addrs"
proof -
  let ?w = "lan_instance C (identity_public C host) (identity_public C me)"
  let ?d = "\<lambda>inst content. if inst = ?w then hosting_decrypt S me (identity_public C host) content else None"
  from assms(1) obtain content where c: "hosting_encrypt S nonce host (identity_public C me) addr = Some content"
    and ad: "dnssd_advertise accepts HOSTING_SERVICE_TYPE ?w content addrs = Inr ad"
    by (auto simp: dnssd_advertise_hosting_def split: option.splits)
  from ad have "ad_instance ad = ?w"
    by (auto simp: dnssd_advertise_def Let_def split: option.splits if_splits)
  with assms(4) have "\<forall>e \<in> set pre. dnssd_event HOSTING_SERVICE_TYPE ?d e = None"
    by (intro ballI dnssd_event_label [of _ ?w]) (auto split: if_splits)
  moreover have "?d ?w content = Some addr"
    using hosting_roundtrip [OF c _ assms(6)] assms(5) by simp
  ultimately show ?thesis
    unfolding dnssd_lookup_hosting_def Let_def using assms(2,3) by (intro dnssd_found [OF ad])
qed

text \<open>
  Property C29. A clipboard host advertised on the local network is found by the peer it advertises
  for: whenever the advertisement reaches that peer, in any letter case and after any events of other
  services, the lookup returns the very transport address the host encrypted and exactly the host's
  direct socket addresses, ports restored per address family.
\<close>

theorem hosting_found_on_lan:
  assumes "dnssd_advertise_hosting C S nonce accepts host (identity_public C me) addr addrs = Inr ad"
    and "one_port_each p4 p6 addrs" and "delivers ad r"
    and "\<forall>e \<in> set pre. \<not> carries_label HOSTING_SERVICE_TYPE (ad_instance ad) e"
    and "\<forall>t. hosting_text S addr = Some t \<longrightarrow>
      sealed_at S (secret host) (identity_public C me) (secret me) (identity_public C host) nonce t"
    and "hosting_codec_at S \<lparr>hp_version = HOSTING_VERSION, hp_transport = ta_kind addr, hp_address = ta_address addr\<rparr>"
  shows "\<exists>f. dnssd_lookup_hosting C S (Some (pre @ ServiceResolved r # post)) me (identity_public C host)
       = Inr (Some f) \<and> lf_payload f = addr \<and> set (lf_addrs f) = set addrs"
  by (rule hosting_found [OF assms])

lemma by_instance_unique:
  assumes "k \<in> set ks" and "\<And>k'. k' \<in> set ks \<Longrightarrow> g k' = g k \<Longrightarrow> k' = k"
  shows "fold (\<lambda>keys m. m(g keys \<mapsto> keys)) ks m (g k) = Some k"
  using assms
proof (induction ks arbitrary: m rule: rev_induct)
  case (snoc x xs)
  show ?case
  proof (cases "g x = g k")
    case True
    with snoc.prems(2) [of x] show ?thesis by simp
  next
    case False
    with snoc.prems(1) have "k \<in> set xs" by auto
    with snoc False show ?thesis by simp
  qed
qed simp

lemma by_instance_dom:
  "fold (\<lambda>keys m. m(g keys \<mapsto> keys)) ks m i = Some k \<Longrightarrow> m i = Some k \<or> k \<in> set ks \<and> i = g k"
  by (induction ks arbitrary: m rule: rev_induct) (auto split: if_splits)

text \<open>
  Property C32. A PIN shown on the host finds the host over DNS-SD as long as the two clocks differ by
  at most a rotation period: the joiner derives the key of the host's bucket among its candidates,
  recognises the advertisement by its label, and obtains the host's node id and direct addresses.
\<close>

theorem pin_record_found:
  assumes "pin_keys S A pin (current_bucket (Some host_clock)) = Some k"
    and "candidate_keys S A (Some clock) pin = Some ks"
    and "unat host_clock \<le> unat clock + 60" and "unat clock \<le> unat host_clock + 60"
    and "dnssd_advertise_pin_record C S nonce accepts k node addrs = Inr ad"
    and "one_port_each p4 p6 addrs" and "delivers ad r"
    and "\<forall>k' \<in> set ks. pin_instance_name C k' = pin_instance_name C k \<longrightarrow> k' = k"
    and "\<forall>e \<in> set pre. \<forall>k' \<in> set ks. \<not> carries_label PIN_SERVICE_TYPE (pin_instance_name C k') e"
    and "\<forall>t. pin_ser S \<lparr>pp_node_id = node_show S node\<rparr> = Some t \<longrightarrow>
      sealed_at S k (pub_of C k) k (pub_of C k) nonce t"
    and "pin_codec_at S \<lparr>pp_node_id = node_show S node\<rparr>" and "node_text S node"
  shows "\<exists>f. dnssd_lookup_pin_record C S (Some (pre @ ServiceResolved r # post)) ks = Inr (Some f)
     \<and> ea_id (pin_endpoint_addr f) = node \<and> set (ea_addrs (pin_endpoint_addr f)) = set addrs"
proof -
  let ?m = "fold (\<lambda>keys m. m(pin_instance_name C keys \<mapsto> keys)) ks Map.empty"
  let ?d = "\<lambda>inst content. case ?m inst of None \<Rightarrow> None | Some keys \<Rightarrow> decrypt_pin_payload C S keys content"
  have k: "k \<in> set ks"
    using candidate_key_in [OF assms(2) bucket_skew [OF assms(3,4)] assms(1)] .
  then have m: "?m (pin_instance_name C k) = Some k"
    using assms(8) by (intro by_instance_unique) auto
  from assms(5) obtain content where c: "encrypt_pin_payload C S nonce k node = Some content"
    and ad: "dnssd_advertise accepts PIN_SERVICE_TYPE (pin_instance_name C k) content addrs = Inr ad"
    by (auto simp: dnssd_advertise_pin_record_def split: option.splits)
  have "\<forall>e \<in> set pre. dnssd_event PIN_SERVICE_TYPE ?d e = None"
  proof (intro ballI, rule ccontr)
    fix e assume e: "e \<in> set pre" and "dnssd_event PIN_SERVICE_TYPE ?d e \<noteq> None"
    then obtain q i k' where "e = ServiceResolved q" "?m i = Some k'"
      "strip_suffix (46 # PIN_SERVICE_TYPE) (make_ascii_lowercase (rs_fullname q)) = Some i"
      by (auto simp: dnssd_event_def split: service_event.splits option.splits)
    then have "carries_label PIN_SERVICE_TYPE (pin_instance_name C k') e" "k' \<in> set ks"
      by (auto simp: carries_label_def dest!: strip_suffix_SomeD by_instance_dom)
    with assms(9) e show False by blast
  qed
  moreover have "?d (pin_instance_name C k) content = Some node"
    using pin_payload_roundtrip [OF c _ assms(11,12)] assms(10) m by simp
  ultimately have "\<exists>f. dnssd_lookup (Some (pre @ ServiceResolved r # post)) PIN_SERVICE_TYPE ?d = Inr (Some f)
      \<and> lf_payload f = node \<and> set (lf_addrs f) = set addrs"
    using assms(6,7) by (intro dnssd_found [OF ad])
  then show ?thesis
    by (auto simp: dnssd_lookup_pin_record_def Let_def pin_endpoint_addr_def dial_target_eq)
qed

section \<open>The unicast side channel\<close>

definition MAX_RECORD_BYTES :: nat where [const_simps]: "MAX_RECORD_BYTES = 8 * 1024"

record unicast_record =
  ur_e :: ustring
  ur_addrs :: "socket_addr list"

text \<open>The port and the bytes served on it; \<open>bind\<close> says whether the port can be bound.\<close>

definition unicast_advertise ::
    "'z crypto_scheme \<Rightarrow> 's sealing_scheme \<Rightarrow> unicast_record codec \<Rightarrow> (u16 \<Rightarrow> bool) \<Rightarrow> nat \<Rightarrow> keys
       \<Rightarrow> node_id \<Rightarrow> socket_addr list \<Rightarrow> lan_error + (u16 \<times> bytes)" where
  "unicast_advertise C S U bind nonce keys node addrs =
     (case encrypt_pin_payload C S nonce keys node of
        None \<Rightarrow> Inl PayloadError
      | Some content \<Rightarrow>
          (case ser U \<lparr>ur_e = content, ur_addrs = addrs\<rparr> of
             None \<Rightarrow> Inl PayloadError
           | Some body \<Rightarrow>
               (if length body > MAX_RECORD_BYTES then Inl RecordTooLarge
                else let port = side_channel_port C keys
                     in if bind port then Inr (port, body) else Inl BindFailed)))"

text \<open>What a connection delivers until its end, \<open>None\<close> when it cannot be made or breaks.\<close>

type_synonym responder = "ip_addr \<Rightarrow> u16 \<Rightarrow> bytes option"

definition fetch :: "responder \<Rightarrow> socket_addr \<Rightarrow> bytes option" where
  "fetch net addr = map_option (take (MAX_RECORD_BYTES + 1)) (net (sa_ip addr) (sa_port addr))"

definition fetch_and_decrypt ::
    "'z crypto_scheme \<Rightarrow> 's sealing_scheme \<Rightarrow> unicast_record codec \<Rightarrow> responder \<Rightarrow> keys list
       \<Rightarrow> socket_addr \<Rightarrow> node_id lan_found option" where
  "fetch_and_decrypt C S U net candidates addr =
     (case fetch net addr of
        None \<Rightarrow> None
      | Some buf \<Rightarrow>
          (if length buf > MAX_RECORD_BYTES then None
           else case de U buf of
                  None \<Rightarrow> None
                | Some r \<Rightarrow>
                    find_map (\<lambda>keys. map_option (\<lambda>node. \<lparr>lf_payload = node, lf_addrs = ur_addrs r\<rparr>)
                      (decrypt_pin_payload C S keys (ur_e r))) candidates))"

text \<open>\<open>finished\<close> lists the candidates whose probe ends within the time limit, in that order.\<close>

definition unicast_lookup ::
    "'z crypto_scheme \<Rightarrow> 's sealing_scheme \<Rightarrow> unicast_record codec \<Rightarrow> responder \<Rightarrow> keys list \<Rightarrow> ip_addr
       \<Rightarrow> keys list \<Rightarrow> node_id lan_found option" where
  "unicast_lookup C S U net finished ip candidates =
     (if candidates = [] then None
      else find_map (\<lambda>keys. fetch_and_decrypt C S U net candidates
             \<lparr>sa_ip = ip, sa_port = side_channel_port C keys\<rparr>) finished)"

lemma fetch_within:
  "fetch net a = Some buf \<and> length buf \<le> MAX_RECORD_BYTES \<longleftrightarrow>
     net (sa_ip a) (sa_port a) = Some buf \<and> length buf \<le> MAX_RECORD_BYTES"
  by (auto simp: fetch_def min_def split: if_splits)

text \<open>
  The side channel trusts nothing it reads: a probe yields a host exactly when the port
  delivered a complete record of at most 8 KiB that parses and that one of the candidate keys opens,
  and then the node id is the one under the first such key and the addresses are the record's.
\<close>

theorem unicast_probe_exact:
  "fetch_and_decrypt C S U net ks a = Some f \<longleftrightarrow>
     (\<exists>buf r pre k post. net (sa_ip a) (sa_port a) = Some buf \<and> length buf \<le> 8192 \<and> de U buf = Some r
        \<and> ks = pre @ k # post \<and> list_all (\<lambda>k'. decrypt_pin_payload C S k' (ur_e r) = None) pre
        \<and> decrypt_pin_payload C S k (ur_e r) = Some (lf_payload f) \<and> lf_addrs f = ur_addrs r)"
proof -
  let ?g = "\<lambda>r keys. map_option (\<lambda>node. \<lparr>lf_payload = node, lf_addrs = ur_addrs r\<rparr>)
      (decrypt_pin_payload C S keys (ur_e r))"
  have some: "?g r k = Some f \<longleftrightarrow> decrypt_pin_payload C S k (ur_e r) = Some (lf_payload f) \<and> lf_addrs f = ur_addrs r"
    for r k by (cases f) auto
  have none: "?g r k = None \<longleftrightarrow> decrypt_pin_payload C S k (ur_e r) = None" for r k by simp
  have "fetch_and_decrypt C S U net ks a = Some f \<longleftrightarrow>
      (\<exists>buf. (fetch net a = Some buf \<and> length buf \<le> MAX_RECORD_BYTES) \<and>
        (\<exists>r. de U buf = Some r \<and> find_map (?g r) ks = Some f))"
    by (auto simp: fetch_and_decrypt_def not_less split: option.splits if_splits)
  also have "\<dots> \<longleftrightarrow> (\<exists>buf r pre k post. net (sa_ip a) (sa_port a) = Some buf \<and> length buf \<le> MAX_RECORD_BYTES
        \<and> de U buf = Some r \<and> ks = pre @ k # post
        \<and> list_all (\<lambda>k'. decrypt_pin_payload C S k' (ur_e r) = None) pre
        \<and> decrypt_pin_payload C S k (ur_e r) = Some (lf_payload f) \<and> lf_addrs f = ur_addrs r)"
    unfolding fetch_within find_map_Some some none by blast
  finally show ?thesis by (simp add: const_simps)
qed

text \<open>
  Typing the host's address reaches a host whose PIN the joiner typed: if the served
  record's key is among the joiner's candidates, its probe ends in time, the other probed ports are
  closed and no other candidate key opens the record to something else, the lookup returns the host's
  node id and addresses.
\<close>

theorem unicast_found:
  assumes "unicast_advertise C S U bind nonce k node addrs = Inr (port, body)"
    and "k \<in> set ks" and "k \<in> set finished"
    and "\<forall>p. net ip p = (if p = port then Some body else None)"
    and "\<forall>r. ser U r = Some body \<longrightarrow> de U body = Some r"
    and "\<forall>t. pin_ser S \<lparr>pp_node_id = node_show S node\<rparr> = Some t \<longrightarrow>
      sealed_at S k (pub_of C k) k (pub_of C k) nonce t"
    and "pin_codec_at S \<lparr>pp_node_id = node_show S node\<rparr>" and "node_text S node"
    and "\<forall>r. \<forall>k' \<in> set ks. de U body = Some r \<longrightarrow> decrypt_pin_payload C S k' (ur_e r) \<in> {None, Some node}"
  shows "unicast_lookup C S U net finished ip ks = Some \<lparr>lf_payload = node, lf_addrs = addrs\<rparr>"
proof -
  let ?f = "\<lparr>lf_payload = node, lf_addrs = addrs\<rparr>"
  let ?a = "\<lambda>k. \<lparr>sa_ip = ip, sa_port = side_channel_port C k\<rparr>"
  from assms(1) obtain content where c: "encrypt_pin_payload C S nonce k node = Some content"
    and body: "ser U \<lparr>ur_e = content, ur_addrs = addrs\<rparr> = Some body"
    and port: "port = side_channel_port C k" and len: "length body \<le> MAX_RECORD_BYTES"
    by (auto simp: unicast_advertise_def Let_def split: option.splits if_splits)
  have d: "de U body = Some \<lparr>ur_e = content, ur_addrs = addrs\<rparr>" using assms(5) body by blast
  have "decrypt_pin_payload C S k content = Some node"
    using pin_payload_roundtrip [OF c _ assms(7,8)] assms(6) by simp
  then have fm: "find_map (\<lambda>keys. map_option (\<lambda>node. \<lparr>lf_payload = node, lf_addrs = addrs\<rparr>)
      (decrypt_pin_payload C S keys content)) ks = Some ?f"
    using assms(9) d by (intro find_map_agree [OF assms(2)]) force+
  have probe: "fetch_and_decrypt C S U net ks (?a j) = (if side_channel_port C j = port then Some ?f else None)" for j
    using assms(4) len d fm by (simp add: fetch_and_decrypt_def fetch_def)
  have "find_map (\<lambda>keys. fetch_and_decrypt C S U net ks (?a keys)) finished = Some ?f"
    using probe port by (intro find_map_agree [OF assms(3)]) auto
  with assms(2) show ?thesis by (auto simp: unicast_lookup_def)
qed

text \<open>
  The side channel always listens in the dynamic port range, and the sum that computes
  the port does not wrap: it is 49152 plus the first two digest bytes reduced modulo 16384.
\<close>

theorem side_channel_port_dynamic:
  "49152 \<le> unat (side_channel_port C k)
   \<and> unat (side_channel_port C k) = 49152 + be_val (take 2 (sha256 C (PORT_SALT @ to_bytes (pub_of C k)))) mod 16384"
proof -
  let ?d = "take 2 (sha256 C (PORT_SALT @ to_bytes (pub_of C k)))"
  have "be_val ?d < 256 ^ 2"
    using be_val_bound [of ?d] by (rule order_less_le_trans) (rule power_increasing; simp)
  then have "unat (of_nat (be_val ?d) :: u16) = be_val ?d" by (simp add: unat_of_nat)
  then have m: "unat (of_nat (be_val ?d) mod 16384 :: u16) = be_val ?d mod 16384" by (simp add: unat_mod_distrib)
  have "unat (49152 + of_nat (be_val ?d) mod 16384 :: u16) = 49152 + unat (of_nat (be_val ?d) mod 16384 :: u16)"
    by (subst unat_plus_if_size) (simp add: m word_size; linarith)
  moreover have "side_channel_port C k = 49152 + of_nat (be_val ?d) mod 16384"
  proof -
    have "EPHEMERAL_LEN = 16384" by (simp add: const_simps)
    then show ?thesis by (simp only: side_channel_port_def Let_def EPHEMERAL_START_def)
  qed
  ultimately show ?thesis using m by simp
qed

section \<open>A concrete network\<close>

definition demo_addrs :: "socket_addr list" where
  "demo_addrs = [\<lparr>sa_ip = V4 (IPv4 192 168 1 9), sa_port = 4433\<rparr>,
     \<lparr>sa_ip = V6 [0x2001, 0xdb8, 0, 0, 0, 0, 0, 7], sa_port = 4444\<rparr>]"

definition echo :: "advert \<Rightarrow> resolved" where
  "echo ad = \<lparr>rs_fullname = ad_instance ad @ 46 # ad_type ad, rs_ips = ad_ips ad, rs_port = ad_port ad,
     rs_props = ad_props ad\<rparr>"

lemma demo_ports: "one_port_each 4433 4444 demo_addrs"
  by (simp add: one_port_each_def demo_addrs_def v6_link_local_def)

lemma demo_split: "split_ports demo_addrs = Some (4433, Some 4444)"
  by (simp add: split_ports_uniform [OF demo_ports]) (simp add: demo_addrs_def is_v4_def)

lemma demo_advertise:
  assumes "make_ascii_lowercase inst = inst" and "make_ascii_lowercase st = st"
  shows "\<exists>ad. dnssd_advertise (\<lambda>_. True) st inst content demo_addrs = Inr ad \<and> ad_instance ad = inst
     \<and> delivers ad (echo ad)"
  using assms
  by (simp add: dnssd_advertise_def demo_split Let_def delivers_def echo_def)
     (simp add: make_ascii_lowercase_def to_ascii_lowercase_def)

lemma service_types_lower:
  "make_ascii_lowercase HOSTING_SERVICE_TYPE = HOSTING_SERVICE_TYPE"
  "make_ascii_lowercase PIN_SERVICE_TYPE = PIN_SERVICE_TYPE"
  by (simp_all add: make_ascii_lowercase_def HOSTING_SERVICE_TYPE_def PIN_SERVICE_TYPE_def ascii_def
      to_ascii_lowercase_def)

lemma sample_pub: "pub_of sample_crypto = PublicKey"
  by (simp add: sample_crypto_def toy_crypto_def)

lemma hosting_found_on_lan_witness:
  "\<exists>ad f. dnssd_advertise_hosting sample_crypto demo_sealing 0 (\<lambda>_. True) \<lparr>secret = [7]\<rparr> (PublicKey [9])
       (rendezvous_addr demo_sealing (NodeId [3])) demo_addrs = Inr ad
     \<and> dnssd_lookup_hosting sample_crypto demo_sealing (Some [OtherEvent, ServiceResolved (echo ad)])
         \<lparr>secret = [9]\<rparr> (PublicKey [7]) = Inr (Some f)
     \<and> lf_payload f = rendezvous_addr demo_sealing (NodeId [3]) \<and> set (lf_addrs f) = set demo_addrs"
proof -
  let ?addr = "rendezvous_addr demo_sealing (NodeId [3])"
  obtain content where c: "hosting_encrypt demo_sealing 0 \<lparr>secret = [7]\<rparr> (PublicKey [9]) ?addr = Some content"
    by (simp add: hosting_encrypt_def demo_sealing_def)
  let ?l = "lan_instance sample_crypto (PublicKey [7]) (PublicKey [9])"
  have "make_ascii_lowercase ?l = ?l" by (simp add: lan_instance_def)
  from demo_advertise [OF this service_types_lower(1), of content] obtain ad where
    ad: "dnssd_advertise (\<lambda>_. True) HOSTING_SERVICE_TYPE ?l content demo_addrs = Inr ad" and d: "delivers ad (echo ad)"
    by blast
  have h: "dnssd_advertise_hosting sample_crypto demo_sealing 0 (\<lambda>_. True) \<lparr>secret = [7]\<rparr>
      (identity_public sample_crypto \<lparr>secret = [9]\<rparr>) ?addr demo_addrs = Inr ad"
    using ad c by (simp add: dnssd_advertise_hosting_def identity_public_def sample_pub)
  show ?thesis
    using hosting_found_on_lan [OF h demo_ports d, of "[OtherEvent]" "[]"] h
    by (auto simp: carries_label_def identity_public_def sample_pub demo_sealed demo_hosting_codec)
qed

definition demo_argon2 :: argon2 where
  "demo_argon2 m t l pw salt = Some [last salt]"

lemma pin_record_found_witness:
  "\<exists>k ks ad f. pin_keys demo_sealing demo_argon2 (ascii ''ABCD'') (current_bucket (Some 600)) = Some k
     \<and> candidate_keys demo_sealing demo_argon2 (Some 630) (ascii ''ABCD'') = Some ks
     \<and> dnssd_advertise_pin_record sample_crypto demo_sealing 0 (\<lambda>_. True) k (NodeId [3]) demo_addrs = Inr ad
     \<and> dnssd_lookup_pin_record sample_crypto demo_sealing (Some [ServiceResolved (echo ad)]) ks = Inr (Some f)
     \<and> ea_id (pin_endpoint_addr f) = NodeId [3]"
proof -
  have b: "current_bucket (Some 600) = 10" "current_bucket (Some 630) = 10"
    by (simp_all add: current_bucket_def const_simps)
  have "last (rendezvous_salt q) = of_nat (unat q)" for q
    using be_bytes.simps(2) [of 7 "unat q"] by (simp add: rendezvous_salt_def)
  then have key: "pin_keys demo_sealing demo_argon2 p q = Some [of_nat (unat q)]" for p q
    by (simp add: pin_keys_def derive_key_material_def argon2_key_def WORK_FACTORS_def demo_argon2_def
        demo_sealing_def)
  have k: "pin_keys demo_sealing demo_argon2 (ascii ''ABCD'') (current_bucket (Some 600)) = Some [10]"
    by (simp only: key b) simp
  have ks: "candidate_keys demo_sealing demo_argon2 (Some 630) (ascii ''ABCD'') = Some [[10], [9], [11]]"
    by (simp only: candidate_keys_def b candidate_buckets_def list.map key collect.simps) simp
  have n: "pin_instance_name sample_crypto [x] = [unat x]" for x
    by (simp add: pin_instance_name_def sample_crypto_def toy_crypto_def)
  obtain content where c: "encrypt_pin_payload sample_crypto demo_sealing 0 [10] (NodeId [3]) = Some content"
    by (simp add: encrypt_pin_payload_def demo_sealing_def)
  have "make_ascii_lowercase (pin_instance_name sample_crypto [10]) = pin_instance_name sample_crypto [10]"
    by (simp add: n make_ascii_lowercase_def to_ascii_lowercase_def)
  from demo_advertise [OF this service_types_lower(2), of content] obtain ad where
    ad: "dnssd_advertise (\<lambda>_. True) PIN_SERVICE_TYPE (pin_instance_name sample_crypto [10]) content demo_addrs = Inr ad"
    and d: "delivers ad (echo ad)" by blast
  have h: "dnssd_advertise_pin_record sample_crypto demo_sealing 0 (\<lambda>_. True) [10] (NodeId [3]) demo_addrs = Inr ad"
    using ad c by (simp add: dnssd_advertise_pin_record_def)
  have "\<exists>f. dnssd_lookup_pin_record sample_crypto demo_sealing (Some ([] @ ServiceResolved (echo ad) # [])) [[10], [9], [11]]
      = Inr (Some f) \<and> ea_id (pin_endpoint_addr f) = NodeId [3]
      \<and> set (ea_addrs (pin_endpoint_addr f)) = set demo_addrs"
    by (rule pin_record_found [OF k ks _ _ h demo_ports d])
       (simp_all add: n sample_pub demo_sealed demo_pin_codec demo_node_text)
  with k ks h show ?thesis by auto
qed

definition demo_served :: unicast_record where
  "demo_served = \<lparr>ur_e = [10, 300, 10, 300, 303], ur_addrs = demo_addrs\<rparr>"

lemma unicast_found_witness:
  "\<exists>port body. unicast_advertise sample_crypto demo_sealing (table_codec [demo_served]) (\<lambda>_. True) 0 [10] (NodeId [3])
        demo_addrs = Inr (port, body)
     \<and> unicast_lookup sample_crypto demo_sealing (table_codec [demo_served])
         (\<lambda>ip p. if p = port then Some body else None) [[9], [10]] (V4 (IPv4 192 168 1 9)) [[10], [9], [11]]
       = Some \<lparr>lf_payload = NodeId [3], lf_addrs = demo_addrs\<rparr>"
proof -
  let ?U = "table_codec [demo_served]"
  have e: "encrypt_pin_payload sample_crypto demo_sealing 0 [10] (NodeId [3]) = Some [10, 300, 10, 300, 303]"
    by (simp add: encrypt_pin_payload_def demo_sealing_def demo_lock_def sample_pub)
  have adv: "unicast_advertise sample_crypto demo_sealing ?U (\<lambda>_. True) 0 [10] (NodeId [3]) demo_addrs
      = Inr (side_channel_port sample_crypto [10], [0])"
    by (simp add: unicast_advertise_def e table_codec_def demo_served_def Let_def const_simps)
  have d: "de ?U [0] = Some demo_served" by (simp add: table_codec_def)
  have "unicast_lookup sample_crypto demo_sealing ?U
         (\<lambda>ip p. if p = side_channel_port sample_crypto [10] then Some [0] else None)
         [[9], [10]] (V4 (IPv4 192 168 1 9)) [[10], [9], [11]]
       = Some \<lparr>lf_payload = NodeId [3], lf_addrs = demo_addrs\<rparr>"
  proof (rule unicast_found [OF adv])
    show "\<forall>r. ser ?U r = Some [0] \<longrightarrow> de ?U [0] = Some r"
      by (auto simp: d) (simp add: table_codec_def split: if_splits)
    show "\<forall>r. \<forall>k' \<in> set [[10], [9], [11]]. de ?U [0] = Some r \<longrightarrow>
        decrypt_pin_payload sample_crypto demo_sealing k' (ur_e r) \<in> {None, Some (NodeId [3])}"
    proof (intro allI ballI impI)
      fix r k' assume "k' \<in> set [[10], [9], [11 :: byte]]" "de ?U [0] = Some r"
      moreover from this d have "r = demo_served" by simp
      ultimately show "decrypt_pin_payload sample_crypto demo_sealing k' (ur_e r) \<in> {None, Some (NodeId [3])}"
        by (auto simp: demo_served_def decrypt_pin_payload_def demo_sealing_def demo_lock_def sample_pub
          Let_def str_trim_def is_whitespace_def)
    qed
  qed (simp_all add: demo_pin_codec demo_node_text demo_sealed sample_pub)
  with adv show ?thesis by blast
qed

end
