(* ===== verification/Txt.thy ===== *)
theory Txt
  imports Lan
begin

text \<open>
  The TXT wire format the iOS half of \<open>duocb-core/src/lan/dnssd.rs\<close> writes and reads itself:
  length-prefixed \<open>key=value\<close> strings.
\<close>

definition push_txt :: "bytes \<Rightarrow> ustring \<Rightarrow> ustring \<Rightarrow> bytes option" where
  "push_txt buf key value =
     (let entry = utf8 (key @ [61] @ value); len = length entry
      in if len \<le> 255 \<and> 0 < len then Some (buf @ of_nat len # entry) else None)"

function parse_txt_loop :: "bytes \<Rightarrow> (ustring \<Rightarrow> ustring option) \<Rightarrow> ustring \<Rightarrow> ustring option" where
  "parse_txt_loop [] m = m"
| "parse_txt_loop (b # rest) m =
     (let len = unat b in
      if len = 0 \<or> length rest < len then m
      else let entry = take len rest; tail = drop len rest
           in case utf8_decode entry of
                None \<Rightarrow> parse_txt_loop tail m
              | Some s \<Rightarrow>
                  (case split_once 61 s of
                     Some (key, value) \<Rightarrow> parse_txt_loop tail (m(key \<mapsto> value))
                   | None \<Rightarrow> parse_txt_loop tail m))"
  by pat_completeness auto
termination by (relation "measure (\<lambda>(data, m). length data)") auto

definition parse_txt :: "bytes \<Rightarrow> ustring \<Rightarrow> ustring option" where
  "parse_txt data = parse_txt_loop data Map.empty"

text \<open>The record \<open>blocking_advertise\<close> builds.\<close>

definition advert_txt :: "ustring \<Rightarrow> u16 option \<Rightarrow> bytes option" where
  "advert_txt content port6 =
     (case push_txt [] TXT_KEY content of
        None \<Rightarrow> None
      | Some txt \<Rightarrow>
          (case port6 of None \<Rightarrow> Some txt | Some p6 \<Rightarrow> push_txt txt TXT_KEY_PORT6 (dec (unat p6))))"

text \<open>One attribute read back: its key is ASCII without an equals sign.\<close>

lemma parse_pushed:
  assumes "is_ascii key" and "61 \<notin> set key" and "valid_text value"
    and len: "length (utf8 (key @ [61] @ value)) \<le> 255"
  shows "parse_txt_loop (of_nat (length (utf8 (key @ [61] @ value))) # utf8 (key @ [61] @ value) @ rest) m
    = parse_txt_loop rest (m(key \<mapsto> value))"
proof -
  let ?e = "utf8 (key @ [61] @ value)"
  have u: "unat (of_nat (length ?e) :: byte) = length ?e" using len by (intro unat_small_byte) simp
  have "valid_text (key @ [61] @ value)"
    using assms(1,3) ascii_valid [of key] by (simp add: valid_text_def valid_scalar_def)
  then have d: "utf8_decode ?e = Some (key @ [61] @ value)" by (rule utf8_decode_utf8)
  have s: "split_once 61 (key @ [61] @ value) = Some (key, value)"
    using assms(2) by (simp add: split_once_Some)
  have "?e \<noteq> []" by (simp del: append_Cons)
  with u d s show ?thesis by (simp del: utf8_append utf8_Cons append_Cons)
qed

lemma dec_u16_length: "length (dec (unat (p :: u16))) \<le> 5"
proof -
  have "unat p < 2 ^ 16" using unsigned_less [where 'a = nat, of p] by simp
  then have "unat p div 10 div 10 div 10 div 10 < 10" by simp
  then show ?thesis
    by (simp add: dec.simps [of "unat p"] dec.simps [of "unat p div 10"] dec.simps [of "unat p div 10 div 10"]
        dec.simps [of "unat p div 10 div 10 div 10"] dec.simps [of "unat p div 10 div 10 div 10 div 10"]
        del: div_mult2_eq)
qed

lemma dec_ascii: "is_ascii (dec n)"
  using dec_digits [of n] by (auto simp: is_ascii_def is_digit_def list_all_iff)

text \<open>
  What the iOS advertiser writes, the iOS parser reads: a ciphertext of up to 253 bytes
  and an optional IPv6 port are both recovered exactly, and a longer ciphertext is refused rather
  than truncated.
\<close>

theorem txt_roundtrip:
  assumes "valid_text content"
  shows "case advert_txt content port6 of
       None \<Rightarrow> 253 < str_len content
     | Some txt \<Rightarrow> str_len content \<le> 253 \<and> parse_txt txt TXT_KEY = Some content
         \<and> Option.bind (parse_txt txt TXT_KEY_PORT6) parse_u16 = port6"
proof (cases "str_len content \<le> 253")
  case True
  let ?c = "utf8 (TXT_KEY @ [61] @ content)"
  have lc: "length ?c \<le> 255" using True by (simp add: const_simps str_len_def)
  have c: "parse_txt_loop (of_nat (length ?c) # ?c @ rest) m = parse_txt_loop rest (m(TXT_KEY \<mapsto> content))" for rest m
    using lc assms by (intro parse_pushed) (simp_all add: const_simps)
  have push_c: "push_txt [] TXT_KEY content = Some (of_nat (length ?c) # ?c)"
    using lc by (simp add: push_txt_def Let_def const_simps)
  show ?thesis
  proof (cases port6)
    case None
    with push_c c [of "[]" Map.empty] True show ?thesis
      by (simp add: advert_txt_def parse_txt_def const_simps)
  next
    case (Some p)
    let ?p = "utf8 (TXT_KEY_PORT6 @ [61] @ dec (unat p))"
    have "length (utf8 (dec (unat p))) \<le> 5"
      using dec_u16_length [of p] dec_ascii [of "unat p"] by (metis str_len_ascii str_len_def)
    then have lp: "length ?p \<le> 255" by (simp add: const_simps)
    have p: "parse_txt_loop (of_nat (length ?p) # ?p @ rest) m
        = parse_txt_loop rest (m(TXT_KEY_PORT6 \<mapsto> dec (unat p)))" for rest m
      using lp ascii_valid [OF dec_ascii] by (intro parse_pushed) (simp_all add: const_simps)
    have "advert_txt content port6 = Some (of_nat (length ?c) # ?c @ of_nat (length ?p) # ?p)"
      using lp push_c Some
      by (simp add: advert_txt_def push_txt_def Let_def const_simps)
    moreover have "parse_txt (of_nat (length ?c) # ?c @ of_nat (length ?p) # ?p)
        = [TXT_KEY \<mapsto> content, TXT_KEY_PORT6 \<mapsto> dec (unat p)]"
      unfolding parse_txt_def c using p [of "[]"] by simp
    ultimately show ?thesis using True Some by (simp add: const_simps)
  qed
next
  case False
  then have "255 < length (utf8 (TXT_KEY @ [61] @ content))" by (simp add: const_simps str_len_def)
  then have "push_txt [] TXT_KEY content = None" by (simp add: push_txt_def Let_def)
  with False show ?thesis by (simp add: advert_txt_def)
qed

lemma txt_roundtrip_witness:
  "\<exists>txt. advert_txt (ascii ''abc'') (Some 4444) = Some txt \<and> parse_txt txt TXT_KEY = Some (ascii ''abc'')
     \<and> Option.bind (parse_txt txt TXT_KEY_PORT6) parse_u16 = Some 4444"
proof -
  have "valid_text (ascii ''abc'')" by (simp add: ascii_def valid_text_def valid_scalar_def)
  from txt_roundtrip [OF this, of "Some 4444"] show ?thesis
    by (simp add: ascii_def split: option.splits)
qed

end
