(* ===== verification/Relays.thy ===== *)
theory Relays
  imports Records
begin

text \<open>
  The relay carrier of both rendezvous records (\<open>duocb-core/src/nostr.rs\<close>). The relay client is
  a parameter: which relays it accepts and reaches, whether a send succeeds, and the events a query
  returns, in whatever order and from whomever.
\<close>

definition DEFAULT_NOSTR_RELAYS :: "ustring list" where
  "DEFAULT_NOSTR_RELAYS = [ascii ''wss://nos.lol'', ascii ''wss://relay.nostr.net'',
     ascii ''wss://relay.primal.net'', ascii ''wss://relay.snort.social'']"
definition HOSTING_KIND_U16 :: u16 where [const_simps]: "HOSTING_KIND_U16 = 30385"
definition HOSTING_EVENT_TTL_SECS :: u64 where [const_simps]: "HOSTING_EVENT_TTL_SECS = 300"
definition PIN_KIND_U16 :: u16 where [const_simps]: "PIN_KIND_U16 = 9421"
definition PIN_EVENT_TTL_SECS :: u64 where [const_simps]: "PIN_EVENT_TTL_SECS = 3 * BUCKET_SECS"

datatype relay_error = NoUsableRelays nat | NotConnectedToRelays nat | RecordError | SigningError
  | SendError | QueryError

record relay_net =
  rn_adds :: "ustring \<Rightarrow> bool"
  rn_connects :: "ustring \<Rightarrow> bool"
  rn_sends :: "event \<Rightarrow> bool"

definition connect_client :: "relay_net \<Rightarrow> ustring list \<Rightarrow> relay_error + unit" where
  "connect_client net relays =
     (let added = filter (rn_adds net) relays
      in if length added = 0 then Inl (NoUsableRelays (length relays))
         else if length (filter (rn_connects net) added) = 0 then Inl (NotConnectedToRelays (length added))
         else Inr ())"

text \<open>
  A published event with its public \<open>p\<close> tag, which no lookup of this program reads.
\<close>

type_synonym post = "event \<times> pubkey option"

definition publish_hosting ::
    "'z crypto_scheme \<Rightarrow> 's sealing_scheme \<Rightarrow> nat \<Rightarrow> u64 \<Rightarrow> relay_net \<Rightarrow> identity \<Rightarrow> pubkey
       \<Rightarrow> transport_addr \<Rightarrow> ustring list \<Rightarrow> relay_error + post" where
  "publish_hosting C S nonce now net identity peer addr relays =
     (case hosting_encrypt S nonce identity peer addr of
        None \<Rightarrow> Inl RecordError
      | Some content \<Rightarrow>
          (case ev_sign C (secret identity)
                  \<lparr>ev_pubkey = identity_public C identity, ev_kind = HOSTING_KIND_U16,
                   ev_created_at = now,
                   ev_identifier = Some (nostr_dtag C (identity_public C identity) peer),
                   ev_expiration = Some (now + HOSTING_EVENT_TTL_SECS),
                   ev_content = content, ev_sig = []\<rparr> of
             None \<Rightarrow> Inl SigningError
           | Some ev \<Rightarrow>
               (case connect_client net relays of
                  Inl e \<Rightarrow> Inl e
                | Inr _ \<Rightarrow> (if rn_sends net ev then Inr (ev, Some peer) else Inl SendError))))"

text \<open>\<open>Iterator::max_by_key\<close> keeps the last of several maximal elements.\<close>

definition newest :: "event list \<Rightarrow> event option" where
  "newest events =
     (case events of
        [] \<Rightarrow> None
      | e # es \<Rightarrow> Some (fold (\<lambda>x m. if ev_created_at m \<le> ev_created_at x then x else m) es e))"

definition lookup_hosting ::
    "'z crypto_scheme \<Rightarrow> 's sealing_scheme \<Rightarrow> relay_net \<Rightarrow> identity \<Rightarrow> pubkey \<Rightarrow> ustring list
       \<Rightarrow> event list option \<Rightarrow> relay_error + transport_addr option" where
  "lookup_hosting C S net identity peer relays fetched =
     (case connect_client net relays of
        Inl e \<Rightarrow> Inl e
      | Inr _ \<Rightarrow>
          (case fetched of
             None \<Rightarrow> Inl QueryError
           | Some events \<Rightarrow>
               (case newest events of
                  None \<Rightarrow> Inr None
                | Some ev \<Rightarrow>
                    (if \<not> ev_verify C ev then Inr None
                     else Inr (hosting_decrypt S identity peer (ev_content ev))))))"

definition publish_pin_record ::
    "'z crypto_scheme \<Rightarrow> 's sealing_scheme \<Rightarrow> nat \<Rightarrow> u64 \<Rightarrow> relay_net \<Rightarrow> keys \<Rightarrow> node_id
       \<Rightarrow> ustring list \<Rightarrow> relay_error + post" where
  "publish_pin_record C S nonce now net keys node relays =
     (case encrypt_pin_payload C S nonce keys node of
        None \<Rightarrow> Inl RecordError
      | Some content \<Rightarrow>
          (case connect_client net relays of
             Inl e \<Rightarrow> Inl e
           | Inr _ \<Rightarrow>
               (case ev_sign C keys
                       \<lparr>ev_pubkey = pub_of C keys, ev_kind = PIN_KIND_U16, ev_created_at = now,
                        ev_identifier = None, ev_expiration = Some (now + PIN_EVENT_TTL_SECS),
                        ev_content = content, ev_sig = []\<rparr> of
                  None \<Rightarrow> Inl SigningError
                | Some ev \<Rightarrow> (if rn_sends net ev then Inr (ev, None) else Inl SendError))))"

definition by_pubkey :: "'z crypto_scheme \<Rightarrow> keys list \<Rightarrow> pubkey \<Rightarrow> keys option" where
  "by_pubkey C candidates = fold (\<lambda>keys m. m(pub_of C keys \<mapsto> keys)) candidates Map.empty"

fun first_readable ::
    "'z crypto_scheme \<Rightarrow> 's sealing_scheme \<Rightarrow> (pubkey \<Rightarrow> keys option) \<Rightarrow> event list \<Rightarrow> node_id option" where
  "first_readable C S m [] = None"
| "first_readable C S m (ev # found) =
     (case m (ev_pubkey ev) of
        None \<Rightarrow> first_readable C S m found
      | Some keys \<Rightarrow>
          (case decrypt_pin_payload C S keys (ev_content ev) of
             Some node \<Rightarrow> Some node
           | None \<Rightarrow> first_readable C S m found))"

definition lookup_pin_record ::
    "'z crypto_scheme \<Rightarrow> 's sealing_scheme \<Rightarrow> relay_net \<Rightarrow> keys list \<Rightarrow> ustring list
       \<Rightarrow> event list option \<Rightarrow> relay_error + node_id option" where
  "lookup_pin_record C S net candidates relays fetched =
     (case connect_client net relays of
        Inl e \<Rightarrow> Inl e
      | Inr _ \<Rightarrow>
          (case fetched of
             None \<Rightarrow> Inl QueryError
           | Some events \<Rightarrow>
               (let found = sort_key (\<lambda>ev. - int (unat (ev_created_at ev))) events
                in Inr (first_readable C S (by_pubkey C candidates) found))))"

section \<open>What the lookups return\<close>

lemma newest_max:
  "fold (\<lambda>x m. if ev_created_at m \<le> ev_created_at x then x else m) es e \<in> set (e # es)
   \<and> (\<forall>x \<in> set (e # es). ev_created_at x
        \<le> ev_created_at (fold (\<lambda>x m. if ev_created_at m \<le> ev_created_at x then x else m) es e))"
proof (induction es arbitrary: e)
  case (Cons y es)
  show ?case
  proof (cases "ev_created_at e \<le> ev_created_at y")
    case True
    with Cons [of y] show ?thesis by (auto intro: order_trans)
  next
    case False
    then have "ev_created_at y \<le> ev_created_at e" by simp
    with False Cons [of e] show ?thesis by (auto intro: order_trans)
  qed
qed simp

lemma newest_unique:
  assumes "ev \<in> set events" and "\<forall>e \<in> set events. e \<noteq> ev \<longrightarrow> ev_created_at e < ev_created_at ev"
  shows "newest events = Some ev"
proof (cases events)
  case (Cons e es)
  let ?m = "fold (\<lambda>x m. if ev_created_at m \<le> ev_created_at x then x else m) es e"
  have m: "?m \<in> set events" "\<forall>x \<in> set events. ev_created_at x \<le> ev_created_at ?m"
    using newest_max [of es e] Cons by blast+
  have "?m = ev"
  proof (rule ccontr)
    assume "?m \<noteq> ev"
    with m(1) assms(2) have "ev_created_at ?m < ev_created_at ev" by blast
    with m(2) assms(1) show False by (auto dest: leD)
  qed
  with Cons show ?thesis by (simp add: newest_def)
qed (use assms in simp)

text \<open>
  A hosting record published on relays leads the addressed peer to the host: if the
  publication succeeds and the query returns that event among strictly older ones, the lookup over
  any reachable relay yields the transport address that was published.
\<close>

theorem relay_hosting_found:
  assumes "publish_hosting C S nonce now net host (identity_public C me) addr relays = Inr (ev, tag)"
    and "connect_client net' relays' = Inr ()"
    and "ev \<in> set events" and "\<forall>e \<in> set events. e \<noteq> ev \<longrightarrow> ev_created_at e < ev_created_at ev"
    and "\<forall>e s. ev_sign C (secret host) e = Some s \<and> ev_pubkey e = identity_public C host
      \<longrightarrow> ev_verify C s \<and> ev_content s = ev_content e"
    and "\<forall>t. hosting_text S addr = Some t \<longrightarrow>
      sealed_at S (secret host) (identity_public C me) (secret me) (identity_public C host) nonce t"
    and "hosting_codec_at S \<lparr>hp_version = HOSTING_VERSION, hp_transport = ta_kind addr, hp_address = ta_address addr\<rparr>"
  shows "lookup_hosting C S net' me (identity_public C host) relays' (Some events) = Inr (Some addr)"
proof -
  from assms(1) obtain content e where c: "hosting_encrypt S nonce host (identity_public C me) addr = Some content"
    and s: "ev_sign C (secret host) e = Some ev" and e: "ev_content e = content" "ev_pubkey e = identity_public C host"
    by (auto simp: publish_hosting_def split: option.splits sum.splits if_splits)
  have "hosting_decrypt S me (identity_public C host) (ev_content ev) = Some addr"
    using hosting_roundtrip [OF c _ assms(7)] assms(5,6) s e by simp
  moreover have "ev_verify C ev" using assms(5) s e by blast
  ultimately show ?thesis
    using assms(2) newest_unique [OF assms(3,4)] by (simp add: lookup_hosting_def)
qed

definition readable :: "'z crypto_scheme \<Rightarrow> 's sealing_scheme \<Rightarrow> keys list \<Rightarrow> event \<Rightarrow> node_id option" where
  "readable C S candidates ev =
     Option.bind (by_pubkey C candidates (ev_pubkey ev)) (\<lambda>k. decrypt_pin_payload C S k (ev_content ev))"

lemma first_readable_find:
  "first_readable C S (by_pubkey C ks) es = find_map (readable C S ks) es"
  by (induction es) (auto simp: readable_def split: option.splits bind_splits)

text \<open>
  The PIN lookup over relays is exact: nothing is returned only if no event is readable
  under a candidate key it was published under; otherwise the node id comes from a readable event
  such that no newer event is readable, whatever order the relays answered in.
\<close>

theorem relay_pin_newest:
  assumes "lookup_pin_record C S net ks relays (Some events) = Inr r"
  shows "case r of
       None \<Rightarrow> \<forall>e \<in> set events. readable C S ks e = None
     | Some node \<Rightarrow> \<exists>e \<in> set events. readable C S ks e = Some node
         \<and> (\<forall>e' \<in> set events. ev_created_at e < ev_created_at e' \<longrightarrow> readable C S ks e' = None)"
proof -
  let ?k = "\<lambda>ev. - int (unat (ev_created_at ev))"
  let ?found = "sort_key ?k events"
  have r: "r = find_map (readable C S ks) ?found"
    using assms by (auto simp: lookup_pin_record_def Let_def first_readable_find split: sum.splits)
  show ?thesis
  proof (cases r)
    case None
    with r show ?thesis by (auto simp: find_map_None eq_commute [of None])
  next
    case (Some node)
    with r have "find_map (readable C S ks) ?found = Some node" by simp
    then obtain pre e post where f: "?found = pre @ e # post"
      "list_all (\<lambda>e'. readable C S ks e' = None) pre" "readable C S ks e = Some node"
      by (auto simp: find_map_Some)
    have "set ?found = set events" by simp
    then have ev: "set events = set (pre @ e # post)" unfolding f(1) by (rule sym)
    have "sorted (map ?k (pre @ e # post))" unfolding f(1) [symmetric] by simp
    then have "\<forall>e' \<in> set post. ?k e \<le> ?k e'" by (simp add: sorted_append)
    then have "\<forall>e' \<in> set post. ev_created_at e' \<le> ev_created_at e" by (simp add: word_le_def)
    with ev f(2,3) Some show ?thesis
      by (auto simp: list_all_iff intro!: bexI [of _ e] dest: leD)
  qed
qed

section \<open>A concrete relay\<close>

definition demo_net :: relay_net where
  "demo_net = \<lparr>rn_adds = (\<lambda>_. True), rn_connects = (\<lambda>r. r = [3]), rn_sends = (\<lambda>_. True)\<rparr>"

lemma demo_connect: "connect_client demo_net [[2], [3]] = Inr ()"
  by (simp add: connect_client_def demo_net_def)

lemma relay_hosting_found_witness:
  "\<exists>ev tag. publish_hosting sample_crypto demo_sealing 0 500 demo_net \<lparr>secret = [7]\<rparr> (PublicKey [9])
       (rendezvous_addr demo_sealing (NodeId [3])) [[2], [3]] = Inr (ev, tag)
     \<and> lookup_hosting sample_crypto demo_sealing demo_net \<lparr>secret = [9]\<rparr> (PublicKey [7]) [[2], [3]]
         (Some [sample_event 7 100, ev]) = Inr (Some (rendezvous_addr demo_sealing (NodeId [3])))"
proof -
  let ?addr = "rendezvous_addr demo_sealing (NodeId [3])"
  have sign: "ev_sign sample_crypto k e = Some (e\<lparr>ev_sig := k\<rparr>)" for k e
    by (simp add: sample_crypto_def toy_crypto_def)
  have pub: "identity_public sample_crypto \<lparr>secret = k\<rparr> = PublicKey k" for k
    by (simp add: identity_public_def sample_crypto_def toy_crypto_def)
  obtain content where c: "hosting_encrypt demo_sealing 0 \<lparr>secret = [7]\<rparr> (PublicKey [9]) ?addr = Some content"
    by (simp add: hosting_encrypt_def demo_sealing_def)
  have sends: "rn_sends demo_net e" for e by (simp add: demo_net_def)
  obtain ev tag where p: "publish_hosting sample_crypto demo_sealing 0 500 demo_net \<lparr>secret = [7]\<rparr>
      (identity_public sample_crypto \<lparr>secret = [9]\<rparr>) ?addr [[2], [3]] = Inr (ev, tag)"
    and t: "ev_created_at ev = 500"
    by (simp add: publish_hosting_def demo_connect c sign pub sends)
  have "lookup_hosting sample_crypto demo_sealing demo_net \<lparr>secret = [9]\<rparr>
      (identity_public sample_crypto \<lparr>secret = [7]\<rparr>) [[2], [3]] (Some [sample_event 7 100, ev]) = Inr (Some ?addr)"
  proof (rule relay_hosting_found [OF p demo_connect])
    show "\<forall>e s. ev_sign sample_crypto (secret \<lparr>secret = [7]\<rparr>) e = Some s
        \<and> ev_pubkey e = identity_public sample_crypto \<lparr>secret = [7]\<rparr>
      \<longrightarrow> ev_verify sample_crypto s \<and> ev_content s = ev_content e"
      by (auto simp: pub sign) (simp add: sample_crypto_def toy_crypto_def)
  qed (simp_all add: t sample_event_def demo_sealed demo_hosting_codec pub)
  with p show ?thesis unfolding pub by blast
qed

lemma relay_pin_newest_witness:
  "lookup_pin_record sample_crypto demo_sealing demo_net [[5]] [[2], [3]]
     (Some [sample_event 7 100, sample_event 9 200]) = Inr None
   \<and> readable sample_crypto demo_sealing [[5]] (sample_event 7 100) = None"
proof -
  have l: "lookup_pin_record sample_crypto demo_sealing demo_net [[5]] [[2], [3]]
     (Some [sample_event 7 100, sample_event 9 200]) = Inr None"
    by (simp add: lookup_pin_record_def demo_connect by_pubkey_def sample_event_def)
       (simp add: sample_crypto_def toy_crypto_def)
  from relay_pin_newest [OF l] l show ?thesis by simp
qed

end
