(* ===== verification/Listener.thy ===== *)
theory Listener
  imports Runtime PinAuth
begin

text \<open>
  The hosting half of a session (\<open>duocb-core/src/net/runtime.rs\<close>): who may connect
  (\<open>accept_serveable\<close>), the authentication of one connection with the host's policy
  (\<open>auth_as_listener\<close>), and the accept loop of a clipboard host (\<open>run_server_session\<close>) as
  a step relation over incoming connections. The channel of a connection carries the pair claim as
  the shared state the handshake's callbacks act on.
\<close>

section \<open>Close codes and wording\<close>

definition SHUTDOWN_CODE :: nat where [const_simps]: "SHUTDOWN_CODE = 0"
definition AUTH_FAILED_CODE :: nat where [const_simps]: "AUTH_FAILED_CODE = 1"
definition AUTH_TIMEOUT_CODE :: nat where [const_simps]: "AUTH_TIMEOUT_CODE = 2"
definition SERVER_BUSY_CODE :: nat where [const_simps]: "SERVER_BUSY_CODE = 3"
definition CARD_EXPIRED_CODE :: nat where [const_simps]: "CARD_EXPIRED_CODE = 4"

definition expired_card_message :: "u64 \<Rightarrow> identity_card \<Rightarrow> message" where
  "expired_card_message now held =
     (if is_not_yet_valid_at held now then CardNotYetValid (card_name held)
      else CardExpired (card_name held))"

section \<open>Admission\<close>

text \<open>
  The gate over the connections that arrive: the first serveable one with what follows it, and the
  ones refused as busy. \<open>None\<close> in the input is a failed accept; the end of the input is the end
  of the endpoint or the session.
\<close>

fun accept_serveable ::
    "bool \<Rightarrow> pair_claim \<Rightarrow> node_id option list \<Rightarrow> (node_id \<times> node_id option list) option \<times> (node_id \<times> nat) list" where
  "accept_serveable allow claim [] = (None, [])"
| "accept_serveable allow claim (None # incoming) = accept_serveable allow claim incoming"
| "accept_serveable allow claim (Some remote # incoming) =
     (if \<not> serveable allow claim remote
      then (case accept_serveable allow claim incoming of (r, closed) \<Rightarrow>
              (r, (remote, SERVER_BUSY_CODE) # closed))
      else (Some (remote, incoming), []))"

record key_listener =
  kl_identity :: key_identity
  kl_peer :: pubkey

text \<open>The reasons of \<open>admit\<close>: untrusted, another device, the expired card, paired with another key.\<close>

definition NOT_TRUSTED :: nat where [const_simps]: "NOT_TRUSTED = 0"
definition NOT_THE_PEER :: nat where [const_simps]: "NOT_THE_PEER = 1"
definition EXPIRED_CARD :: nat where [const_simps]: "EXPIRED_CARD = 2"
definition PAIRED_WITH_OTHER :: nat where [const_simps]: "PAIRED_WITH_OTHER = 3"

definition key_admit :: "u64 \<Rightarrow> key_listener \<Rightarrow> claimed_peer option \<Rightarrow> pubkey \<Rightarrow> nat + unit" where
  "key_admit now kl existing client_key =
     (case ki_peer (kl_identity kl) client_key of
        None \<Rightarrow> Inl NOT_TRUSTED
      | Some held \<Rightarrow>
          (if client_key \<noteq> kl_peer kl then Inl NOT_THE_PEER
           else if \<not> is_valid_at held now then Inl EXPIRED_CARD
           else if (case existing of None \<Rightarrow> False | Some claimed \<Rightarrow> cp_key claimed \<noteq> Some client_key)
                then Inl PAIRED_WITH_OTHER
           else Inr ()))"

definition pin_claimed_by_other :: "claimed_peer option \<Rightarrow> node_id \<Rightarrow> bool" where
  "pin_claimed_by_other existing remote \<longleftrightarrow>
     (case existing of None \<Rightarrow> False
      | Some claimed \<Rightarrow> cp_key claimed \<noteq> None \<or> cp_node claimed \<noteq> Some remote)"

section \<open>Authentication of one connection\<close>

datatype listener_error =
  NoStream
| BadRequest wire_error
| NotKeyMode
| KeyError hs_error
| PinError pin_error
| TimedOut

text \<open>
  What a connection's authentication draws from its surroundings: codecs, PAKE, the PAKE's draws and
  dummy passwords, the text of node ids, the nonce and the clock.
\<close>

record host_env =
  he_codecs :: codecs
  he_pake :: pake
  he_rnd :: "nat \<Rightarrow> nat"
  he_dummy :: "nat \<Rightarrow> bytes"
  he_show :: "node_id \<Rightarrow> ustring"
  he_nonce :: ustring
  he_now :: u64

type_synonym claim_chan = "pair_claim hchan"

definition listener_body ::
    "host_env \<Rightarrow> 'z crypto_scheme \<Rightarrow> key_listener option \<Rightarrow> recent_pins option \<Rightarrow> claimed_peer option
       \<Rightarrow> node_id \<Rightarrow> node_id \<Rightarrow> (claim_chan, listener_error, pubkey option) prog" where
  "listener_body E C key_auth pin_cache existing remote own =
     bindp (map_err BadRequest (read_length_prefixed MAX_CONTROL_MESSAGE_SIZE)) (\<lambda>request_bytes.
     bindp (map_err BadRequest (lift_sum (decode_auth_request (he_codecs E) request_bytes))) (\<lambda>request.
     case request of
       Key version public_key client_nonce \<Rightarrow>
         (case key_auth of
            None \<Rightarrow> throw NotKeyMode
          | Some kl \<Rightarrow>
              bindp (map_err KeyError
                (listener_handshake (he_codecs E) C (ki_identity (kl_identity kl)) public_key client_nonce
                   (he_show E remote) (he_show E own) (he_nonce E)
                   (\<lambda>client_key claim. key_admit (he_now E) kl existing client_key)
                   (\<lambda>client_key claim. commit_key client_key remote claim)))
                (\<lambda>client_key. ret (Some client_key)))
     | Pin version pakes \<Rightarrow>
         (let candidates = (if pin_claimed_by_other existing remote then []
                            else case pin_cache of None \<Rightarrow> [] | Some c \<Rightarrow> c)
          in bindp (map_err PinError
               (pin_listener_handshake (he_codecs E) (he_pake E) (he_rnd E) (he_dummy E) candidates pakes
                  (he_show E remote) (he_show E own) (commit_pin remote)))
               (\<lambda>_. ret None))))"

text \<open>
  The result, the code the connection is closed with if any, and the channel. \<open>opened\<close> is the
  outcome of taking the session's stream; a wait without end runs into the deadline.
\<close>

definition auth_as_listener ::
    "host_env \<Rightarrow> 'z crypto_scheme \<Rightarrow> (unit, unit) outcome \<Rightarrow> key_listener option \<Rightarrow> recent_pins option
       \<Rightarrow> node_id \<Rightarrow> node_id \<Rightarrow> claim_chan \<Rightarrow> (listener_error + pubkey option) \<times> nat option \<times> claim_chan" where
  "auth_as_listener E C opened key_auth pin_cache remote own s =
     (let existing = pc_peer (world s)
      in case bindp (map_err (\<lambda>_. NoStream) (\<lambda>s. (opened, s)))
                 (\<lambda>_. listener_body E C key_auth pin_cache existing remote own) s of
           (Done k, t) \<Rightarrow> (Inr k, None, t)
         | (Fail e, t) \<Rightarrow>
             (Inl e, Some (if e = KeyError (NotAdmitted EXPIRED_CARD) then CARD_EXPIRED_CODE
                           else AUTH_FAILED_CODE), t)
         | (Stall, t) \<Rightarrow> (Inl TimedOut, Some AUTH_TIMEOUT_CODE, t))"

section \<open>What a handshake does to the shared state\<close>

text \<open>A program preserves a predicate of the shared state; only a commit can change that state.\<close>

definition preserves :: "('w \<Rightarrow> bool) \<Rightarrow> ('w hchan, 'e, 'a) prog \<Rightarrow> bool" where
  "preserves I m \<longleftrightarrow> (\<forall>s r t. m s = (r, t) \<longrightarrow> I (world s) \<longrightarrow> I (world t))"

named_theorems keeps

lemma preservesD: "preserves I m \<Longrightarrow> m s = (r, t) \<Longrightarrow> I (world s) \<Longrightarrow> I (world t)"
  by (simp add: preserves_def)

lemma preserves_reads: "reads_only m \<Longrightarrow> preserves I m"
  by (auto simp: preserves_def dest!: reads_onlyD)

lemma keeps_basic [keeps]:
  "preserves I (ret a)" "preserves I (throw e)" "preserves I (lift_sum r)" "preserves I (guardp b e)"
  by (rule preserves_reads, rule reads_basic)+

lemma keeps_bindp [keeps]:
  "preserves I m \<Longrightarrow> (\<And>a. preserves I (f a)) \<Longrightarrow> preserves I (bindp m f)"
  by (fastforce simp: preserves_def bindp_def split: prod.splits outcome.splits)

lemma keeps_map_err [keeps]: "preserves I m \<Longrightarrow> preserves I (map_err g m)"
  by (fastforce simp: preserves_def map_err_def split: prod.splits outcome.splits)

lemma keeps_read [keeps]: "preserves I (read_length_prefixed n)"
  by (rule preserves_reads, rule read_length_prefixed_reads)

lemma keeps_write [keeps]: "preserves I (write_all bs)"
proof -
  have "world t = world s" if "write_all bs s = (r, t)" for s t :: "'a hchan" and r
  proof -
    have "runs (write_all bs) s (\<lambda>r t. world t = world s)" by (simp add: wp)
    from runsD [OF this that] show ?thesis .
  qed
  then show ?thesis by (simp add: preserves_def)
qed

lemma keeps_admit [keeps]: "preserves I (call_admit admit)"
  by (auto simp: preserves_def call_admit_def split: sum.splits)

lemma keeps_commit [keeps]: "(\<And>w. I w \<Longrightarrow> I (snd (commit w))) \<Longrightarrow> preserves I (call_commit commit)"
  by (auto simp: preserves_def call_commit_def split: prod.splits) (metis snd_conv)

lemma keeps_case [keeps]:
  "(\<And>a. preserves I (f a)) \<Longrightarrow> preserves I g \<Longrightarrow> preserves I (case x of None \<Rightarrow> g | Some a \<Rightarrow> f a)"
  "preserves I p \<Longrightarrow> preserves I q \<Longrightarrow> preserves I (if b then p else q)"
  by (simp_all split: option.split)

lemmas keeps_prims [keeps] =
  keeps_map_err [OF keeps_read, of I PinWire MAX_CONTROL_MESSAGE_SIZE for I, folded pin_read_def]

lemma keeps_wire [keeps]: "preserves I (wire r)" "preserves I (pin_wire q)"
  by (simp_all add: wire_def pin_wire_def keeps)

lemma keeps_frames [keeps]:
  "preserves I (write_frame bs)" "preserves I read_control" "preserves I (pin_write bs)"
  by (simp_all add: write_frame_def read_control_def pin_write_def keeps)

lemma pin_listener_keeps:
  "(\<And>w. I w \<Longrightarrow> I (snd (commit w))) \<Longrightarrow>
   preserves I (pin_listener_handshake J P rnd dummy cands pakes d l commit)"
  unfolding pin_listener_handshake_def Let_def by (intro keeps)

lemma key_listener_keeps:
  "(\<And>k w. I w \<Longrightarrow> I (snd (commit k w))) \<Longrightarrow>
   preserves I (listener_handshake J C i cpk cn d l sn admit commit)"
  unfolding listener_handshake_def Let_def by (intro keeps)

section \<open>What a listener's acceptance means\<close>

lemma key_admit_ok:
  "key_admit now kl existing k = Inr () \<longleftrightarrow>
     (\<exists>held. ki_peer (kl_identity kl) k = Some held \<and> k = kl_peer kl \<and> is_valid_at held now)
     \<and> (\<forall>c. existing = Some c \<longrightarrow> cp_key c = Some k)"
  by (auto simp: key_admit_def split: option.splits)

lemma key_admit_expired:
  "key_admit now kl existing k = Inl EXPIRED_CARD \<longleftrightarrow>
     k = kl_peer kl \<and> (\<exists>held. ki_peer (kl_identity kl) k = Some held \<and> \<not> is_valid_at held now)"
  by (auto simp: key_admit_def const_simps split: option.splits)

text \<open>The key handshake: a success was admitted and committed.\<close>

lemma listener_accepted:
  assumes "listener_handshake J C i cpk cn d l sn admit commit s = (Done k, t)"
  shows "key_parse C cpk = Some k \<and> admit k (world s) = Inr () \<and> fst (commit k (world s))
     \<and> world t = snd (commit k (world s)) \<and> proof_proves J C k (identity_public C i) d l cn sn (rx s)"
proof (cases "key_parse C cpk")
  case None
  with assms show ?thesis by (simp add: listener_handshake_def Let_def)
next
  case (Some k')
  have w: "k = k'" "world t = snd (commit k' (world s))"
    using runsD [OF listener_world [OF Some] assms] by auto
  have "proof_proves J C k' (identity_public C i) d l cn sn (rx s) \<and> fst (commit k' (world s))"
    using runsD [OF listener_no_proof [OF Some] assms] by blast
  moreover have "admit k' (world s) = Inr ()"
    using runsD [OF listener_not_admitted assms] Some by force
  ultimately show ?thesis using w Some by simp
qed

text \<open>The PIN handshake: a success matched a live candidate and committed.\<close>

lemma slot_matches_none: "slot_matches P keys 0 confirms d l slot = Inr b \<Longrightarrow> \<not> b"
  by (auto simp: slot_matches_def split: option.splits)

lemma keeps_Done: "m s = (r, t) \<Longrightarrow> (\<And>I. preserves I m) \<Longrightarrow> world t = world s"
  using preservesD [of "\<lambda>w. w = world s" m s r t] by simp

lemma pin_listener_accepted:
  assumes "pin_listener_handshake J P rnd dummy cands pakes d l commit s = (Done (), t)"
  shows "cands \<noteq> [] \<and> fst (commit (world s)) \<and> world t = snd (commit (world s))"
  using assms unfolding pin_listener_handshake_def Let_def
proof (elim bindp_DoneE)
  fix a1 s1 and slots :: "(bytes \<times> ustring) list" and s2 ch s3 a4 s4 f5 s5 rsp s6 a7 s7 flags s8
  let ?verdict = "case first_match flags of
       Some slot \<Rightarrow>
         bindp (call_commit commit) (\<lambda>won.
         if won then
           (case confirm_mac P (map fst slots ! slot) Listener slot d l of
              None \<Rightarrow> throw MacFailed
            | Some mac \<Rightarrow>
                bindp (pin_wire (encode_pin_confirm J (pin_confirm_accepted slot (b64 P mac)))) pin_write)
         else
           bindp (pin_wire (encode_pin_confirm J (pin_confirm_rejected already_paired))) (\<lambda>f.
           bindp (pin_write f) (\<lambda>_. throw RaceLost)))
     | None \<Rightarrow>
         bindp (pin_wire (encode_pin_confirm J (pin_confirm_rejected pin_failed))) (\<lambda>f.
         bindp (pin_write f) (\<lambda>_. throw NoPinMatched))"
  assume 1: "guardp (length pakes = PAKE_SLOTS) (WrongCount (length pakes)) s = (Done a1, s1)"
    and 2: "lift_sum (traverse (listener_finish P rnd dummy cands pakes d l) [0..<PAKE_SLOTS]) s1 = (Done slots, s2)"
    and 3: "pin_wire (encode_pin_challenge J (pin_challenge_new (map snd slots))) s2 = (Done ch, s3)"
    and 4: "pin_write ch s3 = (Done a4, s4)" and 5: "pin_read s4 = (Done f5, s5)"
    and 6: "pin_wire (decode_pin_response J f5) s5 = (Done rsp, s6)"
    and 7: "guardp (length (prs_confirms rsp) = PAKE_SLOTS) (WrongCount (length (prs_confirms rsp))) s6 = (Done a7, s7)"
    and 8: "lift_sum (traverse (slot_matches P (map fst slots) (length cands) (prs_confirms rsp) d l)
              [0..<PAKE_SLOTS]) s7 = (Done flags, s8)"
    and 9: "?verdict s8 = (Done (), t)"
  have "world s8 = world s"
    using keeps_Done [OF 3 keeps_wire(2)] keeps_Done [OF 4 keeps_frames(3)] keeps_Done [OF 5 keeps_prims]
      keeps_Done [OF 6 keeps_wire(2)] 1 2 7 8 by simp
  moreover obtain slot where slot: "first_match flags = Some slot"
    using 9 by (cases "first_match flags") (auto elim!: bindp_DoneE)
  have "cands \<noteq> []"
    using 8 slot by (cases "cands = []") (auto split: sum.splits dest!: slot_matches_none)
  moreover define won where "won = fst (commit (world s8))"
  moreover define s9 where "s9 = s8\<lparr>world := snd (commit (world s8))\<rparr>"
  moreover have c: "call_commit commit s8 = (Done won :: (pin_error, bool) outcome, s9)"
    by (simp add: call_commit_def won_def s9_def case_prod_beta)
  moreover have c': "world s9 = snd (commit (world s8))" by (simp add: s9_def)
  from 9 slot c have "(if won then
           (case confirm_mac P (map fst slots ! slot) Listener slot d l of
              None \<Rightarrow> throw MacFailed
            | Some mac \<Rightarrow>
                bindp (pin_wire (encode_pin_confirm J (pin_confirm_accepted slot (b64 P mac)))) pin_write)
         else
           bindp (pin_wire (encode_pin_confirm J (pin_confirm_rejected already_paired))) (\<lambda>f.
           bindp (pin_write f) (\<lambda>_. throw RaceLost))) s9 = (Done (), t)" by (simp add: bindp_Done)
  moreover from this have "won" by (auto elim!: bindp_DoneE split: if_splits)
  ultimately show ?thesis
    by (auto split: option.splits elim!: bindp_DoneE
        dest!: keeps_Done [OF _ keeps_wire(2)] keeps_Done [OF _ keeps_frames(3)])
qed

lemma auth_accepted:
  assumes "auth_as_listener E C opened key_auth pin_cache remote own s = (Inr k, code, t)"
  shows "code = None \<and> (\<exists>c. pc_peer (world t) = Some c \<and> cp_node c = Some remote \<and> cp_key c = k)
     \<and> (case k of
          Some key \<Rightarrow> (\<exists>kl held request input v pk cn. key_auth = Some kl \<and> key = kl_peer kl
             \<and> ki_peer (kl_identity kl) key = Some held \<and> is_valid_at held (he_now E)
             \<and> map_option cp_key (pc_peer (world s)) \<in> {None, Some (Some key)}
             \<and> rx s = request @ input \<and> decode_auth_request (he_codecs E) request = Inr (Key v pk cn)
             \<and> key_parse C pk = Some key
             \<and> proof_proves (he_codecs E) C key (identity_public C (ki_identity (kl_identity kl)))
                 (he_show E remote) (he_show E own) cn (he_nonce E) input)
        | None \<Rightarrow> pin_cache \<noteq> None \<and> pin_cache \<noteq> Some []
             \<and> pc_peer (world s) \<in> {None, Some \<lparr>cp_key = None, cp_node = Some remote\<rparr>})"
proof -
  from assms have code: "code = None" and body: "listener_body E C key_auth pin_cache (pc_peer (world s)) remote own s = (Done k, t)"
    by (auto simp: auth_as_listener_def Let_def bindp_def map_err_def split: prod.splits outcome.splits)
  from body show ?thesis
    unfolding listener_body_def
  proof (elim bindp_DoneE)
    fix f1 s1 req s2
    let ?J = "he_codecs E" and ?d = "he_show E remote" and ?l = "he_show E own"
    assume 1: "map_err BadRequest (read_length_prefixed MAX_CONTROL_MESSAGE_SIZE) s = (Done f1, s1)"
      and 2: "map_err BadRequest (lift_sum (decode_auth_request ?J f1)) s1 = (Done req, s2)"
      and 3: "(case req of
         Key version public_key client_nonce \<Rightarrow>
           (case key_auth of
              None \<Rightarrow> throw NotKeyMode
            | Some kl \<Rightarrow>
                bindp (map_err KeyError
                  (listener_handshake ?J C (ki_identity (kl_identity kl)) public_key client_nonce ?d ?l (he_nonce E)
                     (\<lambda>client_key claim. key_admit (he_now E) kl (pc_peer (world s)) client_key)
                     (\<lambda>client_key claim. commit_key client_key remote claim)))
                  (\<lambda>client_key. ret (Some client_key)))
       | Pin version pakes \<Rightarrow>
           (let candidates = (if pin_claimed_by_other (pc_peer (world s)) remote then []
                              else case pin_cache of None \<Rightarrow> [] | Some c \<Rightarrow> c)
            in bindp (map_err PinError
                 (pin_listener_handshake ?J (he_pake E) (he_rnd E) (he_dummy E) candidates pakes ?d ?l (commit_pin remote)))
                 (\<lambda>_. ret None))) s2 = (Done k, t)"
    have w: "world s2 = world s"
      using keeps_Done [OF 1 keeps_map_err [OF keeps_read]] 2 by simp
    have req: "rx s = f1 @ rx s2" "decode_auth_request ?J f1 = Inr req"
      using 1 2 read_length_prefixed_Done(1) by auto
    show ?thesis
    proof (cases req)
      case (Key v pk cn)
      with 3 obtain kl key where kl: "key_auth = Some kl" and k: "k = Some key" and
        h: "listener_handshake ?J C (ki_identity (kl_identity kl)) pk cn ?d ?l (he_nonce E)
             (\<lambda>client_key claim. key_admit (he_now E) kl (pc_peer (world s)) client_key)
             (\<lambda>client_key claim. commit_key client_key remote claim) s2 = (Done key, t)"
        by (auto split: option.splits elim!: bindp_DoneE)
      from listener_accepted [OF h] w have pk: "key_parse C pk = Some key"
        and a: "key_admit (he_now E) kl (pc_peer (world s)) key = Inr ()"
        "fst (commit_key key remote (world s))" "world t = snd (commit_key key remote (world s))"
        and p: "proof_proves ?J C key (identity_public C (ki_identity (kl_identity kl))) ?d ?l cn (he_nonce E) (rx s2)"
        by simp_all
      have claim: "\<exists>c. pc_peer (world t) = Some c \<and> cp_node c = Some remote \<and> cp_key c = Some key"
        using a by (auto simp: commit_key_def split: option.splits if_splits)
      from a obtain held where held: "key = kl_peer kl" "ki_peer (kl_identity kl) key = Some held"
        "is_valid_at held (he_now E)" "map_option cp_key (pc_peer (world s)) \<in> {None, Some (Some key)}"
        by (cases "pc_peer (world s)") (auto simp: key_admit_ok)
      with claim p kl k code pk req Key show ?thesis by (simp; blast)
    next
      case (Pin v pakes)
      let ?c = "if pin_claimed_by_other (pc_peer (world s)) remote then [] else case pin_cache of None \<Rightarrow> [] | Some c \<Rightarrow> c"
      from 3 Pin have k: "k = None" and
        h: "pin_listener_handshake ?J (he_pake E) (he_rnd E) (he_dummy E) ?c pakes ?d ?l (commit_pin remote) s2 = (Done (), t)"
        by (auto simp: Let_def elim!: bindp_DoneE)
      from pin_listener_accepted [OF h] w have "?c \<noteq> []" "world t = snd (commit_pin remote (world s))" by simp_all
      with k code show ?thesis
        by (auto simp: pin_claimed_by_other_def commit_pin_def split: option.splits if_splits
            intro!: claimed_peer.equality)
    qed
  qed
qed

text \<open>
  Property C5. A host accepts nobody by mistake. If the authentication of a connection succeeds, the
  connection stays open and its node holds the pair claim afterwards. With an application key, the
  key is exactly the one of the device this session is for, a card for it is held and valid now, the
  dialer proved the key on this connection, and no other key held the claim. With a PIN, a PIN was
  being honoured, and the claim was free or already this node's.
\<close>

theorem accepted_peer_sound:
  assumes "auth_as_listener E C opened key_auth pin_cache remote own s = (Inr k, code, t)"
  shows "code = None \<and> (\<exists>c. pc_peer (world t) = Some c \<and> cp_node c = Some remote \<and> cp_key c = k)
     \<and> (case k of
          Some key \<Rightarrow> (\<exists>kl held request input v pk cn. key_auth = Some kl \<and> key = kl_peer kl
             \<and> ki_peer (kl_identity kl) key = Some held \<and> is_valid_at held (he_now E)
             \<and> map_option cp_key (pc_peer (world s)) \<in> {None, Some (Some key)}
             \<and> rx s = request @ input \<and> decode_auth_request (he_codecs E) request = Inr (Key v pk cn)
             \<and> key_parse C pk = Some key
             \<and> proof_proves (he_codecs E) C key (identity_public C (ki_identity (kl_identity kl)))
                 (he_show E remote) (he_show E own) cn (he_nonce E) input)
        | None \<Rightarrow> pin_cache \<noteq> None \<and> pin_cache \<noteq> Some []
             \<and> pc_peer (world s) \<in> {None, Some \<lparr>cp_key = None, cp_node = Some remote\<rparr>})"
  by (rule auth_accepted [OF assms])

lemma runs_read_control_wire:
  assumes "\<And>f q. rx s = f @ q \<Longrightarrow> Q (Done f) (s\<lparr>rx := q\<rparr>)"
    and "\<And>e q. Q (Fail (Wire e)) (s\<lparr>rx := q\<rparr>)" and "\<And>q. Q Stall (s\<lparr>rx := q\<rparr>)"
  shows "runs read_control s Q"
  unfolding read_control_def wp by (rule runs_read) (auto intro: assms)

lemma not_admitted_exact:
  "runs (listener_handshake J C i cpk cn d l sn admit commit) s (\<lambda>r t. \<forall>e. r = Fail (NotAdmitted e) \<longrightarrow>
     (\<exists>k. key_parse C cpk = Some k \<and> admit k (world s) = Inl e) \<and> t = s)"
proof (cases "key_parse C cpk")
  case None
  then show ?thesis by (simp add: listener_handshake_def Let_def wp)
next
  case (Some k)
  show ?thesis
  proof (cases "admit k (world s)")
    case (Inl e)
    with Some show ?thesis by (simp add: listener_handshake_def Let_def wp)
  next
    case (Inr u)
    show ?thesis
      unfolding listener_handshake_def Let_def
      apply (simp add: wp Some Inr split: sum.split)
      apply (intro conjI impI allI)
      apply (rule runs_read_control_wire)
        apply (auto simp: wp split: sum.splits)
      done
  qed
qed

text \<open>
  The distinct refusal for a lapsed card is given to nobody but the device it concerns: a
  connection is closed with that code only if it asked with the very key this session is for while the
  card held for it was outside its window; then the listener has written nothing, in particular no
  proof of its own key, and the claim is as before.
\<close>

theorem expired_code_exact:
  assumes "auth_as_listener E C opened key_auth pin_cache remote own s = (res, Some CARD_EXPIRED_CODE, t)"
  shows "\<exists>kl held request v pk cn. key_auth = Some kl
     \<and> rx s = request @ rx t \<and> decode_auth_request (he_codecs E) request = Inr (Key v pk cn)
     \<and> key_parse C pk = Some (kl_peer kl) \<and> ki_peer (kl_identity kl) (kl_peer kl) = Some held
     \<and> \<not> is_valid_at held (he_now E) \<and> tx t = tx s \<and> world t = world s"
proof -
  let ?J = "he_codecs E" and ?d = "he_show E remote" and ?l = "he_show E own"
  let ?e = "KeyError (NotAdmitted EXPIRED_CARD)"
  have run: "listener_body E C key_auth pin_cache (pc_peer (world s)) remote own s = (Fail ?e, t)"
    using assms
    by (auto simp: auth_as_listener_def Let_def const_simps bindp_def map_err_def
        split: prod.splits outcome.splits if_splits)
  show ?thesis
  proof (cases "read_length_prefixed MAX_CONTROL_MESSAGE_SIZE s")
    case (Pair r1 s1)
    with run obtain f1 where r1: "r1 = Done f1"
      by (cases r1) (auto simp: listener_body_def bindp_def map_err_def)
    note rd = read_length_prefixed_Done [OF Pair [unfolded r1]]
    show ?thesis
    proof (cases "decode_auth_request ?J f1")
      case (Inl e)
      with run Pair r1 show ?thesis by (simp add: listener_body_def bindp_def map_err_def lift_sum_def throw_def)
    next
      case req: (Inr req)
      show ?thesis
      proof (cases req)
        case (Key v pk cn)
        with run Pair r1 req have kr: "(case key_auth of
              None \<Rightarrow> throw NotKeyMode
            | Some kl \<Rightarrow>
                bindp (map_err KeyError
                  (listener_handshake ?J C (ki_identity (kl_identity kl)) pk cn ?d ?l (he_nonce E)
                     (\<lambda>client_key claim. key_admit (he_now E) kl (pc_peer (world s)) client_key)
                     (\<lambda>client_key claim. commit_key client_key remote claim)))
                  (\<lambda>client_key. ret (Some client_key))) s1 = (Fail ?e, t)"
          by (simp add: listener_body_def bindp_def map_err_def lift_sum_def ret_def)
        then obtain kl where kl: "key_auth = Some kl" and
          h: "listener_handshake ?J C (ki_identity (kl_identity kl)) pk cn ?d ?l (he_nonce E)
             (\<lambda>client_key claim. key_admit (he_now E) kl (pc_peer (world s)) client_key)
             (\<lambda>client_key claim. commit_key client_key remote claim) s1 = (Fail (NotAdmitted EXPIRED_CARD), t)"
          by (auto simp: throw_def bindp_def map_err_def ret_def split: option.splits prod.splits outcome.splits)
        from runsD [OF not_admitted_exact h] obtain k where
          k: "key_parse C pk = Some k" "key_admit (he_now E) kl (pc_peer (world s)) k = Inl EXPIRED_CARD" "t = s1"
          by blast
        have "tx s1 = tx s" "world s1 = world s"
          using arg_cong [OF rd(2), of tx] arg_cong [OF rd(2), of world] by simp_all
        with kl k rd(1) req Key show ?thesis by (auto simp: key_admit_expired)
      next
        case (Pin v pakes)
        with run Pair r1 req show ?thesis
          by (auto simp: listener_body_def bindp_def map_err_def lift_sum_def ret_def Let_def
              split: prod.splits outcome.splits)
      qed
    qed
  qed
qed

section \<open>The accept loop of a clipboard host\<close>

text \<open>
  Where the loop of \<open>run_server_session\<close> stands: accepting, about to authenticate a connection that
  preempted the last one, pumping a connection, or returned. \<open>sv_closed\<close> lists the connections
  closed with their codes and \<open>sv_slot\<close> is the connection path queries see.
\<close>

datatype phase = Accepting | Pending node_id | Serving node_id | Stopped

record server_state =
  sv_phase :: phase
  sv_claim :: pair_claim
  sv_slot :: "node_id option"
  sv_events :: "net_event list"
  sv_closed :: "(node_id \<times> nat) list"

definition server_start :: "bool \<Rightarrow> node_id \<Rightarrow> ustring \<Rightarrow> pair_claim \<Rightarrow> server_state" where
  "server_start bound own npub claim =
     \<lparr>sv_phase = (if bound then Accepting else Stopped), sv_claim = claim, sv_slot = None,
      sv_events = (if bound then [Status Starting, ServerReady own (Some npub), Status Waiting]
                   else [Status Starting, ErrorEvent FailedToStart, Status Idle]),
      sv_closed = []\<rparr>"

definition serve_connection ::
    "host_env \<Rightarrow> 'z crypto_scheme \<Rightarrow> (unit, unit) outcome \<Rightarrow> key_listener \<Rightarrow> node_id \<Rightarrow> node_id
       \<Rightarrow> claim_chan \<Rightarrow> server_state \<Rightarrow> server_state" where
  "serve_connection E C opened kl remote own ch st =
     (case auth_as_listener E C opened (Some kl) None remote own (ch\<lparr>world := sv_claim st\<rparr>) of
        (Inr k, code, t) \<Rightarrow>
          st\<lparr>sv_phase := Serving remote, sv_claim := world t, sv_slot := Some remote,
             sv_events := sv_events st @ [Status Authenticating, PeerPaired remote k, Status Connected]\<rparr>
      | (Inl e, code, t) \<Rightarrow>
          st\<lparr>sv_phase := Accepting, sv_claim := world t,
             sv_events := sv_events st @ [Status Authenticating, Status Waiting],
             sv_closed := sv_closed st @ (case code of None \<Rightarrow> [] | Some c \<Rightarrow> [(remote, c)])\<rparr>)"

definition pump_event :: "net_event \<Rightarrow> bool" where
  "pump_event e \<longleftrightarrow>
     (case e of ItemReceived _ _ \<Rightarrow> True | ItemSent \<Rightarrow> True | ErrorEvent (NotSent _) \<Rightarrow> True | _ \<Rightarrow> False)"

inductive srv_step :: "'z crypto_scheme \<Rightarrow> key_listener \<Rightarrow> node_id \<Rightarrow> server_state \<Rightarrow> server_state \<Rightarrow> bool"
  for C kl own where
  Refused: "sv_phase s = Accepting \<Longrightarrow> \<not> serveable True (sv_claim s) r \<Longrightarrow>
    srv_step C kl own s (s\<lparr>sv_closed := sv_closed s @ [(r, SERVER_BUSY_CODE)]\<rparr>)"
| Accepted: "sv_phase s = Accepting \<Longrightarrow> serveable True (sv_claim s) r \<Longrightarrow>
    srv_step C kl own s (serve_connection E C opened kl r own ch s)"
| Resumed: "sv_phase s = Pending r \<Longrightarrow> srv_step C kl own s (serve_connection E C opened kl r own ch s)"
| Pumped: "sv_phase s = Serving n \<Longrightarrow> pump_event e \<Longrightarrow>
    srv_step C kl own s (s\<lparr>sv_events := sv_events s @ [e]\<rparr>)"
| LiveRefused: "sv_phase s = Serving n \<Longrightarrow> \<not> serveable False (sv_claim s) r \<Longrightarrow>
    srv_step C kl own s (s\<lparr>sv_closed := sv_closed s @ [(r, SERVER_BUSY_CODE)]\<rparr>)"
| Preempted: "sv_phase s = Serving n \<Longrightarrow> serveable False (sv_claim s) r \<Longrightarrow>
    srv_step C kl own s (s\<lparr>sv_phase := Pending r, sv_slot := None,
      sv_closed := sv_closed s @ [(n, SHUTDOWN_CODE)]\<rparr>)"
| PumpEnded: "sv_phase s = Serving n \<Longrightarrow>
    srv_step C kl own s (s\<lparr>sv_phase := Accepting, sv_slot := None,
      sv_events := sv_events s @ [PeerDisconnected, Status Waiting]\<rparr>)"
| CancelledLive: "sv_phase s = Serving n \<Longrightarrow>
    srv_step C kl own s (s\<lparr>sv_phase := Stopped, sv_slot := None,
      sv_closed := sv_closed s @ [(n, SHUTDOWN_CODE)]\<rparr>)"
| Closed: "sv_phase s = Accepting \<Longrightarrow> srv_step C kl own s (s\<lparr>sv_phase := Stopped\<rparr>)"

inductive srv_reachable ::
    "'z crypto_scheme \<Rightarrow> key_listener \<Rightarrow> node_id \<Rightarrow> server_state \<Rightarrow> server_state \<Rightarrow> bool"
  for C kl own s0 where
  start: "srv_reachable C kl own s0 s0"
| step: "srv_reachable C kl own s0 s \<Longrightarrow> srv_step C kl own s t \<Longrightarrow> srv_reachable C kl own s0 t"

definition held_by :: "key_listener \<Rightarrow> node_id \<Rightarrow> server_state \<Rightarrow> bool" where
  "held_by kl n s \<longleftrightarrow> pc_peer (sv_claim s) = Some \<lparr>cp_key = Some (kl_peer kl), cp_node = Some n\<rparr>"

definition srv_inv :: "key_listener \<Rightarrow> server_state \<Rightarrow> bool" where
  "srv_inv kl s \<longleftrightarrow>
     (case pc_peer (sv_claim s) of None \<Rightarrow> True | Some c \<Rightarrow> cp_key c = Some (kl_peer kl))
     \<and> (case sv_phase s of
          Serving n \<Rightarrow> held_by kl n s \<and> sv_slot s = Some n
        | Pending n \<Rightarrow> held_by kl n s \<and> sv_slot s = None
        | _ \<Rightarrow> sv_slot s = None)
     \<and> list_all (\<lambda>e. case e of PeerPaired r k \<Rightarrow> k = Some (kl_peer kl) | _ \<Rightarrow> True) (sv_events s)"

text \<open>Without a live PIN the PIN handshake leaves the claim alone.\<close>

lemma keeps_lift_bind:
  "(\<And>a. r = Inr a \<Longrightarrow> preserves I (f a)) \<Longrightarrow> preserves I (bindp (lift_sum r) f)"
  by (cases r) (auto simp: preserves_def bindp_def lift_sum_def ret_def throw_def)

lemma pin_listener_idle: "preserves I (pin_listener_handshake J P rnd dummy [] pakes d l commit)"
proof -
  have n: "first_match flags = None"
    if "traverse (slot_matches P keys 0 confirms d l) [0..<PAKE_SLOTS] = Inr flags" for keys confirms flags
    using that by (auto split: sum.splits dest!: slot_matches_none)
  show ?thesis
    unfolding pin_listener_handshake_def Let_def list.size
    by (rule keeps_bindp keeps_lift_bind keeps_basic keeps_wire keeps_frames keeps_prims
        | simp only: n option.case)+
qed

lemma auth_world:
  assumes "auth_as_listener E C opened key_auth pin_cache remote own s = (res, code, t)"
    and I: "I (world s)"
    and key: "\<And>kl k w. key_auth = Some kl \<Longrightarrow> key_admit (he_now E) kl (pc_peer (world s)) k = Inr () \<Longrightarrow>
      I (snd (commit_key k remote (world s)))"
    and pin: "\<And>w. pin_cache \<noteq> None \<Longrightarrow> I w \<Longrightarrow> I (snd (commit_pin remote w))"
  shows "I (world t)"
proof -
  have body: "I (world t)" if b: "listener_body E C key_auth pin_cache (pc_peer (world s)) remote own s = (r, t)" for r t
  proof -
    let ?d = "he_show E remote" and ?l = "he_show E own"
    have P: "preserves (\<lambda>w. I w) (pin_listener_handshake (he_codecs E) (he_pake E) (he_rnd E) (he_dummy E)
        (if pin_claimed_by_other (pc_peer (world s)) remote then [] else case pin_cache of None \<Rightarrow> [] | Some c \<Rightarrow> c)
        pakes ?d ?l (commit_pin remote))" for pakes
      using pin by (cases pin_cache) (auto simp: pin_listener_idle pin_listener_keeps)
    have K: "I (world t')" if "key_auth = Some kl"
      "listener_handshake (he_codecs E) C (ki_identity (kl_identity kl)) pk cn ?d ?l (he_nonce E)
             (\<lambda>client_key claim. key_admit (he_now E) kl (pc_peer (world s)) client_key)
             (\<lambda>client_key claim. commit_key client_key remote claim) s' = (r', t')"
      "world s' = world s" for kl pk cn s' r' t'
    proof (cases "key_parse C pk")
      case None
      with that I show ?thesis by (simp add: listener_handshake_def Let_def throw_def)
    next
      case (Some k)
      show ?thesis
      proof (cases "key_admit (he_now E) kl (pc_peer (world s)) k = Inr ()")
        case True
        from runsD [OF listener_world [OF Some] that(2)] that(3) I key [OF that(1) True] show ?thesis by auto
      next
        case False
        with runsD [OF listener_not_admitted that(2)] Some that(3) I show ?thesis by force
      qed
    qed
    show ?thesis
    proof (cases "read_length_prefixed MAX_CONTROL_MESSAGE_SIZE s")
      case (Pair r1 s1)
      then have w: "world s1 = world s" by (rule keeps_Done) (rule keeps)
      show ?thesis
      proof (cases r1)
        case (Done f1)
        show ?thesis
        proof (cases "decode_auth_request (he_codecs E) f1")
          case (Inl e)
          with b Pair Done w I show ?thesis
            by (simp add: listener_body_def bindp_def map_err_def lift_sum_def throw_def)
        next
          case (Inr req)
          show ?thesis
          proof (cases req)
            case (Key v pk cn)
            with b Pair Done Inr w I show ?thesis
              by (cases key_auth)
                (auto simp: listener_body_def bindp_def map_err_def lift_sum_def ret_def throw_def
                  split: prod.splits outcome.splits dest: K [OF _ _ w])
          next
            case (Pin v pakes)
            with b Pair Done Inr w I show ?thesis
              by (auto simp: listener_body_def bindp_def map_err_def lift_sum_def ret_def Let_def
                  split: prod.splits outcome.splits dest: preservesD [OF P])
          qed
        qed
      qed (use b Pair w I in \<open>auto simp: listener_body_def bindp_def map_err_def\<close>)
    qed
  qed
  obtain r u where b: "listener_body E C key_auth pin_cache (pc_peer (world s)) remote own s = (r, u)"
    by (cases "listener_body E C key_auth pin_cache (pc_peer (world s)) remote own s")
  from assms(1) b have "t = s \<or> t = u"
    by (auto simp: auth_as_listener_def Let_def bindp_def map_err_def split: prod.splits outcome.splits)
  with body [OF b] I show ?thesis by blast
qed

lemma auth_keeps_key:
  assumes "auth_as_listener E C opened (Some kl) None remote own s = (res, code, t)"
    and "case pc_peer (world s) of None \<Rightarrow> True | Some c \<Rightarrow> cp_key c = Some (kl_peer kl)"
  shows "case pc_peer (world t) of None \<Rightarrow> True | Some c \<Rightarrow> cp_key c = Some (kl_peer kl)"
  by (rule auth_world [where I = "\<lambda>w. case pc_peer w of None \<Rightarrow> True | Some c \<Rightarrow> cp_key c = Some (kl_peer kl)",
        OF assms])
    (use assms(2) in \<open>auto simp: key_admit_ok commit_key_def split: option.splits\<close>)

lemma serve_connection_inv:
  assumes "srv_inv kl s" and "sv_slot s = None"
  shows "srv_inv kl (serve_connection E C opened kl r own ch s)"
proof -
  obtain res code t where a: "auth_as_listener E C opened (Some kl) None r own (ch\<lparr>world := sv_claim s\<rparr>) = (res, code, t)"
    by (cases "auth_as_listener E C opened (Some kl) None r own (ch\<lparr>world := sv_claim s\<rparr>)")
  have k: "case pc_peer (world t) of None \<Rightarrow> True | Some c \<Rightarrow> cp_key c = Some (kl_peer kl)"
    by (rule auth_keeps_key [OF a]) (use assms in \<open>simp add: srv_inv_def\<close>)
  show ?thesis
  proof (cases res)
    case (Inl e)
    with assms k show ?thesis by (simp add: serve_connection_def a srv_inv_def)
  next
    case (Inr key)
    from auth_accepted [OF a [unfolded Inr]] have "key = Some (kl_peer kl)"
      "pc_peer (world t) = Some \<lparr>cp_key = Some (kl_peer kl), cp_node = Some r\<rparr>"
      by (auto split: option.splits intro!: claimed_peer.equality)
    with Inr assms show ?thesis by (simp add: serve_connection_def a srv_inv_def held_by_def)
  qed
qed

lemma srv_step_inv: "srv_step C kl own s t \<Longrightarrow> srv_inv kl s \<Longrightarrow> srv_inv kl t"
proof (induction rule: srv_step.induct)
  case (Accepted s r E opened ch)
  then show ?case by (intro serve_connection_inv) (simp_all add: srv_inv_def)
next
  case (Resumed s r E opened ch)
  then show ?case by (intro serve_connection_inv) (simp_all add: srv_inv_def)
next
  case (Pumped s n e)
  then show ?case by (auto simp: srv_inv_def held_by_def pump_event_def split: net_event.splits)
next
  case (Preempted s n r)
  then show ?case by (auto simp: srv_inv_def held_by_def serveable_def split: option.splits)
qed (auto simp: srv_inv_def held_by_def)

lemma srv_reachable_inv: "srv_reachable C kl own s0 s \<Longrightarrow> srv_inv kl s0 \<Longrightarrow> srv_inv kl s"
  by (induction rule: srv_reachable.induct) (auto intro: srv_step_inv)

inductive_cases srv_stepE: "srv_step C kl own s t"

lemma preempt_same:
  assumes "srv_step C kl own s t" and "sv_phase s = Serving n" and "sv_phase t = Pending r"
    and "held_by kl n s"
  shows "r = n"
  using assms
  by (cases rule: srv_step.cases) (auto simp: serveable_def held_by_def)

text \<open>
  Property C22. A clipboard host serves one device, the one it was started for. In every state the accept
  loop can reach, each pairing it announced names that device's key; while it serves or is about to
  resume a connection, the claim is held by that key on that connection's node, and path queries see
  that connection only while it is served; and a live connection is preempted by no node but its own.
\<close>

theorem host_serves_only_the_peer:
  assumes "srv_reachable C kl own (server_start bound own npub claim) s"
    and "map_option cp_key (pc_peer claim) \<in> {None, Some (Some (kl_peer kl))}"
  shows "list_all (\<lambda>e. case e of PeerPaired r k \<Rightarrow> k = Some (kl_peer kl) | _ \<Rightarrow> True) (sv_events s)
     \<and> (case sv_phase s of
          Serving n \<Rightarrow> held_by kl n s \<and> sv_slot s = Some n
            \<and> (\<forall>t r. srv_step C kl own s t \<and> sv_phase t = Pending r \<longrightarrow> r = n)
        | Pending n \<Rightarrow> held_by kl n s \<and> sv_slot s = None
        | _ \<Rightarrow> sv_slot s = None)"
proof -
  have "srv_inv kl (server_start bound own npub claim)"
    using assms(2) by (cases "pc_peer claim") (auto simp: srv_inv_def server_start_def)
  then have inv: "srv_inv kl s" by (rule srv_reachable_inv [OF assms(1)])
  then show ?thesis
    by (cases "sv_phase s") (auto simp: srv_inv_def dest: preempt_same)
qed

section \<open>A concrete host\<close>

definition demo_listener :: key_listener where
  "demo_listener = \<lparr>kl_identity = \<lparr>ki_identity = demo_identity 9, ki_self_card = sample_card 9,
     ki_peers = [sample_card 7], ki_relays = []\<rparr>, kl_peer = PublicKey [7]\<rparr>"

definition demo_host :: "u64 \<Rightarrow> host_env" where
  "demo_host now = \<lparr>he_codecs = demo_codecs demo_crypto, he_pake = toy_pake, he_rnd = id, he_dummy = (\<lambda>_. []),
     he_show = (\<lambda>n. map unat (node_bytes n)), he_nonce = [2], he_now = now\<rparr>"

definition demo_claim_end :: "claim_chan" where
  "demo_claim_end = \<lparr>rx = [], rx_end = Silent, tx = [], fin = False, wcap = 100000, world = claim_default\<rparr>"

lemma demo_peer: "ki_peer (kl_identity demo_listener) (PublicKey [7]) = Some (sample_card 7)"
  by (simp add: demo_listener_def ki_peer_def card_public_key_def sample_card_def sample_event_def)

text \<open>The dialer's side of the handshake, addressed to this host, with the card in its window.\<close>

definition demo_input :: bytes where
  "demo_input = frame_of (areq_codec (demo_codecs demo_crypto)) (request_msg demo_crypto (demo_identity 7) [1])
     @ frame_of (kproof_codec (demo_codecs demo_crypto)) (proof_msg demo_crypto (demo_identity 7) (PublicKey [9]) [1] [2] [3] [4])"

lemma demo_accepts:
  "\<exists>t. auth_as_listener (demo_host 2000) demo_crypto (Done ()) (Some demo_listener) None (NodeId [3]) (NodeId [4])
      (demo_claim_end\<lparr>rx := demo_input\<rparr>) = (Inr (Some (PublicKey [7])), None, t)"
proof -
  note L = session_facts [OF demo_laws]
  let ?J = "demo_codecs demo_crypto"
  let ?q = "frame_of (areq_codec ?J) (request_msg demo_crypto (demo_identity 7) [1])"
  let ?p = "frame_of (kproof_codec ?J) (proof_msg demo_crypto (demo_identity 7) (PublicKey [9]) [1] [2] [3] [4])"
  let ?s = "demo_claim_end\<lparr>rx := ?p\<rparr>"
  let ?admit = "\<lambda>client_key claim. key_admit 2000 demo_listener None client_key"
  let ?commit = "\<lambda>client_key claim. commit_key client_key (NodeId [3]) claim"
  have rd: "read_length_prefixed MAX_CONTROL_MESSAGE_SIZE (demo_claim_end\<lparr>rx := demo_input\<rparr>) = (Done ?q, ?s)"
    using read_frame [OF L(1), of "demo_claim_end\<lparr>rx := demo_input\<rparr>" ?p] by (simp add: demo_input_def const_simps)
  have "is_valid_at (sample_card 7) 2000"
    by (simp add: is_valid_at_def is_not_yet_valid_at_def sample_card_def const_simps saturating_add_def)
  then have admit: "key_admit 2000 demo_listener None (PublicKey [7]) = Inr ()"
    by (simp add: key_admit_def demo_peer) (simp add: demo_listener_def)
  obtain t where h: "listener_handshake ?J demo_crypto (demo_identity 9) (key_hex demo_crypto (PublicKey [7]))
      [1] [3] [4] [2] ?admit ?commit ?s = (Done (PublicKey [7]), t)"
    using listener_completes [OF demo_laws, of ?s "[]" ?admit ?commit] admit
    by (auto simp: demo_claim_end_def claim_default_def commit_key_def)
  have req: "decode_auth_request ?J ?q = Inr (Key DUOCB_PROTO_VERSION (key_hex demo_crypto (PublicKey [7])) [1])"
    using control_codec(5) L(1) by (simp add: request_msg_def auth_request_key_def)
  show ?thesis
    using h rd req
    by (simp add: auth_as_listener_def Let_def bindp_def map_err_def listener_body_def lift_sum_def ret_def
        demo_host_def demo_claim_end_def claim_default_def) (simp add: demo_listener_def ret_def)
qed

lemma accepted_peer_sound_witness:
  "\<exists>t c. auth_as_listener (demo_host 2000) demo_crypto (Done ()) (Some demo_listener) None (NodeId [3]) (NodeId [4])
      (demo_claim_end\<lparr>rx := demo_input\<rparr>) = (Inr (Some (PublicKey [7])), None, t)
     \<and> pc_peer (world t) = Some c \<and> cp_node c = Some (NodeId [3]) \<and> cp_key c = Some (PublicKey [7])"
proof -
  from demo_accepts obtain t where t: "auth_as_listener (demo_host 2000) demo_crypto (Done ()) (Some demo_listener) None
      (NodeId [3]) (NodeId [4]) (demo_claim_end\<lparr>rx := demo_input\<rparr>) = (Inr (Some (PublicKey [7])), None, t)" by blast
  from accepted_peer_sound [OF t] t show ?thesis by blast
qed

lemma demo_expired:
  "\<exists>t. auth_as_listener (demo_host 0) demo_crypto (Done ()) (Some demo_listener) None (NodeId [3]) (NodeId [4])
      (demo_claim_end\<lparr>rx := demo_input\<rparr>) = (Inl (KeyError (NotAdmitted EXPIRED_CARD)), Some CARD_EXPIRED_CODE, t)"
proof -
  note L = session_facts [OF demo_laws]
  let ?J = "demo_codecs demo_crypto"
  let ?q = "frame_of (areq_codec ?J) (request_msg demo_crypto (demo_identity 7) [1])"
  let ?p = "frame_of (kproof_codec ?J) (proof_msg demo_crypto (demo_identity 7) (PublicKey [9]) [1] [2] [3] [4])"
  have rd: "read_length_prefixed MAX_CONTROL_MESSAGE_SIZE (demo_claim_end\<lparr>rx := demo_input\<rparr>)
      = (Done ?q, demo_claim_end\<lparr>rx := ?p\<rparr>)"
    using read_frame [OF L(1), of "demo_claim_end\<lparr>rx := demo_input\<rparr>" ?p] by (simp add: demo_input_def const_simps)
  have "\<not> is_valid_at (sample_card 7) 0"
    by (simp add: is_valid_at_def is_not_yet_valid_at_def sample_card_def const_simps saturating_add_def)
  then have admit: "key_admit 0 demo_listener None (PublicKey [7]) = Inl EXPIRED_CARD"
    by (simp add: key_admit_def demo_peer) (simp add: demo_listener_def)
  have req: "decode_auth_request ?J ?q = Inr (Key DUOCB_PROTO_VERSION (key_hex demo_crypto (PublicKey [7])) [1])"
    using control_codec(5) L(1) by (simp add: request_msg_def auth_request_key_def)
  show ?thesis
    using rd req admit
    by (simp add: auth_as_listener_def Let_def bindp_def map_err_def listener_body_def lift_sum_def ret_def
        demo_host_def demo_claim_end_def claim_default_def)
      (simp add: demo_listener_def listener_handshake_def Let_def demo_key bindp_def call_admit_def)
qed

lemma expired_code_exact_witness:
  "\<exists>res t. auth_as_listener (demo_host 0) demo_crypto (Done ()) (Some demo_listener) None (NodeId [3]) (NodeId [4])
      (demo_claim_end\<lparr>rx := demo_input\<rparr>) = (res, Some CARD_EXPIRED_CODE, t)
     \<and> tx t = [] \<and> world t = claim_default"
proof -
  from demo_expired obtain res t where t: "auth_as_listener (demo_host 0) demo_crypto (Done ()) (Some demo_listener) None
      (NodeId [3]) (NodeId [4]) (demo_claim_end\<lparr>rx := demo_input\<rparr>) = (res, Some CARD_EXPIRED_CODE, t)" by blast
  from expired_code_exact [OF t] t show ?thesis by (auto simp: demo_claim_end_def)
qed

lemma host_serves_only_the_peer_witness:
  "\<exists>s. srv_reachable demo_crypto demo_listener (NodeId [4]) (server_start True (NodeId [4]) [] claim_default) s
     \<and> sv_phase s = Serving (NodeId [3]) \<and> held_by demo_listener (NodeId [3]) s"
proof -
  let ?init = "server_start True (NodeId [4]) [] claim_default"
  let ?s = "serve_connection (demo_host 2000) demo_crypto (Done ()) demo_listener (NodeId [3]) (NodeId [4])
     (demo_claim_end\<lparr>rx := demo_input\<rparr>) ?init"
  from demo_accepts obtain t where t: "auth_as_listener (demo_host 2000) demo_crypto (Done ()) (Some demo_listener) None
      (NodeId [3]) (NodeId [4]) (demo_claim_end\<lparr>rx := demo_input\<rparr>) = (Inr (Some (PublicKey [7])), None, t)" by blast
  have "(demo_claim_end\<lparr>rx := demo_input\<rparr>)\<lparr>world := sv_claim ?init\<rparr> = demo_claim_end\<lparr>rx := demo_input\<rparr>"
    by (simp add: server_start_def demo_claim_end_def)
  then have ph: "sv_phase ?s = Serving (NodeId [3])" by (simp add: serve_connection_def t)
  have r: "srv_reachable demo_crypto demo_listener (NodeId [4]) ?init ?s"
    by (rule srv_reachable.step [OF srv_reachable.start], rule srv_step.Accepted)
      (simp_all add: server_start_def serveable_def claim_default_def)
  from host_serves_only_the_peer [OF r] ph r show ?thesis by (auto simp: claim_default_def)
qed

end
