(* ===== verification/Dialer.thy ===== *)
theory Dialer
  imports Listener
begin

text \<open>
  The dialing half of a session (\<open>duocb-core/src/net/runtime.rs\<close>): authentication as a dialer with
  the translation of close codes, and the connect loop of \<open>run_client_session\<close> as a function of
  what each round meets: what the lookup answers, how the connection fares and which waits are
  cancelled.
\<close>

section \<open>Authentication\<close>

text \<open>The code the peer closed the connection with, if it did.\<close>

definition auth_close_reason :: "nat option \<Rightarrow> message option" where
  "auth_close_reason close =
     (case close of
        None \<Rightarrow> None
      | Some code \<Rightarrow>
          (if code = AUTH_FAILED_CODE then Some (PeerClosed AUTH_FAILED_CODE)
           else if code = CARD_EXPIRED_CODE then Some (PeerClosed CARD_EXPIRED_CODE)
           else if code = AUTH_TIMEOUT_CODE then Some (PeerClosed AUTH_TIMEOUT_CODE)
           else if code = SERVER_BUSY_CODE then Some (PeerClosed SERVER_BUSY_CODE)
           else None))"

text \<open>
  \<open>opened\<close> is the outcome of opening the stream, \<open>close\<close> the peer's close code when the handshake
  is over, \<open>say\<close> the wording of an error. Every failure is final for this target.
\<close>

definition auth_as_dialer_key ::
    "host_env \<Rightarrow> 'z crypto_scheme \<Rightarrow> (hs_error \<Rightarrow> ustring) \<Rightarrow> (hs_error, unit) outcome \<Rightarrow> nat option \<Rightarrow> identity
       \<Rightarrow> pubkey \<Rightarrow> node_id \<Rightarrow> node_id \<Rightarrow> 'y chan_scheme \<Rightarrow> (message + unit) \<times> 'y chan_scheme" where
  "auth_as_dialer_key E C say opened close i expected_peer own remote s =
     (case bindp (\<lambda>s. (opened, s)) (\<lambda>_. dialer_handshake (he_codecs E) C i expected_peer
             (he_show E own) (he_show E remote) (he_nonce E)) s of
        (Stall, t) \<Rightarrow> (Inl AuthTimedOut, t)
      | (Fail e, t) \<Rightarrow>
          (case auth_close_reason close of Some reason \<Rightarrow> (Inl reason, t) | None \<Rightarrow> (Inl (Failure (say e)), t))
      | (Done _, t) \<Rightarrow> (Inr (), t))"

definition auth_as_dialer_pin ::
    "host_env \<Rightarrow> argon2 \<Rightarrow> (pin_error \<Rightarrow> ustring) \<Rightarrow> (pin_error, unit) outcome \<Rightarrow> nat option \<Rightarrow> ustring
       \<Rightarrow> node_id \<Rightarrow> node_id \<Rightarrow> 'y chan_scheme \<Rightarrow> (message + unit) \<times> 'y chan_scheme" where
  "auth_as_dialer_pin E A say opened close pin own remote s =
     (case bindp (\<lambda>s. (opened, s)) (\<lambda>_. pin_dialer_handshake (he_codecs E) (he_pake E) A (he_rnd E) pin
             (he_show E own) (he_show E remote)) s of
        (Stall, t) \<Rightarrow> (Inl AuthTimedOut, t)
      | (Fail e, t) \<Rightarrow>
          (case auth_close_reason close of Some reason \<Rightarrow> (Inl reason, t) | None \<Rightarrow> (Inl (Failure (say e)), t))
      | (Done _, t) \<Rightarrow> (Inr (), t))"

section \<open>The connect loop\<close>

definition RECONNECT_DELAY :: nat where [const_simps]: "RECONNECT_DELAY = 3"
definition WAITING_POLL :: nat where [const_simps]: "WAITING_POLL = 15"
definition MAX_CONNECT_ATTEMPTS :: nat where [const_simps]: "MAX_CONNECT_ATTEMPTS = 10"

text \<open>
  What one round meets. A session is over when it is cancelled or dropped; \<open>pumped\<close> are the events of
  its pump.
\<close>

datatype connection =
  ConnectCancelled
| ConnectFailed
| ConnectRefused message
| ConnectServed node_id "net_event list" bool

datatype lookup = LookupCancelled | LookupFailed | LookupFound node_id connection

record round =
  rd_lookup :: lookup
  rd_sleep_cancelled :: bool

text \<open>\<open>cl_slept\<close> lists the pauses between rounds, in seconds.\<close>

record client =
  cl_attempts :: nat
  cl_before :: bool
  cl_over :: bool
  cl_events :: "net_event list"
  cl_slept :: "nat list"

definition say :: "net_event list \<Rightarrow> client \<Rightarrow> client" where
  "say es c = c\<lparr>cl_events := cl_events c @ es\<rparr>"

definition finish_client :: "net_event list \<Rightarrow> client \<Rightarrow> client" where
  "finish_client es c = (say es c)\<lparr>cl_over := True\<rparr>"

definition client_pause :: "bool \<Rightarrow> nat \<Rightarrow> client \<Rightarrow> client" where
  "client_pause cancelled secs c =
     (if cancelled then finish_client [] c else c\<lparr>cl_slept := cl_slept c @ [secs]\<rparr>)"

text \<open>After an attempt failed or a session dropped.\<close>

definition attempt_failed :: "bool \<Rightarrow> client \<Rightarrow> client" where
  "attempt_failed cancelled c0 =
     (let c = c0\<lparr>cl_attempts := cl_attempts c0 + 1\<rparr> in
      if \<not> cl_before c
      then client_pause cancelled
             (if cl_attempts c < MAX_CONNECT_ATTEMPTS then RECONNECT_DELAY else WAITING_POLL)
             (say [Status Waiting] c)
      else if cl_attempts c \<ge> MAX_CONNECT_ATTEMPTS
      then finish_client [ErrorEvent (CouldNotReach MAX_CONNECT_ATTEMPTS), Status Idle] c
      else client_pause cancelled RECONNECT_DELAY
             (say [Status (Reconnecting (cl_attempts c) MAX_CONNECT_ATTEMPTS)] c))"

definition client_round :: "node_id \<Rightarrow> pubkey \<Rightarrow> round \<Rightarrow> client \<Rightarrow> client" where
  "client_round own peer r c0 =
     (let c = say [Status (if cl_before c0 then Resolving else Waiting)] c0 in
      case rd_lookup r of
        LookupCancelled \<Rightarrow> finish_client [] c
      | LookupFailed \<Rightarrow> attempt_failed (rd_sleep_cancelled r) c
      | LookupFound target outcome \<Rightarrow>
          (if target = own then finish_client [ErrorEvent OwnNodeId, Status Idle] c
           else let c = say [Status Connecting] c in
             case outcome of
               ConnectCancelled \<Rightarrow> finish_client [] c
             | ConnectFailed \<Rightarrow> attempt_failed (rd_sleep_cancelled r) c
             | ConnectRefused m \<Rightarrow>
                 finish_client [Status Authenticating, ErrorEvent m, Status Idle] c
             | ConnectServed remote pumped cancelled \<Rightarrow>
                 (let c = (say (Status Authenticating # PeerPaired remote (Some peer) # Status Connected # pumped) c)
                            \<lparr>cl_attempts := 0, cl_before := True\<rparr>
                  in if cancelled then finish_client [] c
                     else attempt_failed (rd_sleep_cancelled r) (say [PeerDisconnected] c))))"

fun client_loop :: "node_id \<Rightarrow> pubkey \<Rightarrow> round list \<Rightarrow> client \<Rightarrow> client" where
  "client_loop own peer [] c = c"
| "client_loop own peer (r # rs) c =
     (if cl_over c then c else client_loop own peer rs (client_round own peer r c))"

text \<open>\<open>bound\<close>: the endpoint was created; \<open>now\<close> is the clock the card is checked against.\<close>

definition run_client_session ::
    "'z crypto_scheme \<Rightarrow> u64 \<Rightarrow> bool \<Rightarrow> node_id \<Rightarrow> key_identity \<Rightarrow> pubkey \<Rightarrow> round list \<Rightarrow> client" where
  "run_client_session C now bound own ident peer rounds =
     (let c = \<lparr>cl_attempts = 0, cl_before = False, cl_over = False, cl_events = [Status Starting], cl_slept = []\<rparr> in
      case ki_peer ident peer of
        Some held \<Rightarrow>
          (if \<not> is_valid_at held now
           then finish_client [ErrorEvent (expired_card_message now held), Status Idle] c
           else if \<not> bound then finish_client [ErrorEvent FailedToStart, Status Idle] c
           else client_loop own peer rounds (say [ClientReady own (Some (to_npub C (ki_identity ident)))] c))
      | None \<Rightarrow>
          (if \<not> bound then finish_client [ErrorEvent FailedToStart, Status Idle] c
           else client_loop own peer rounds (say [ClientReady own (Some (to_npub C (ki_identity ident)))] c)))"

section \<open>Patience and its end\<close>

text \<open>A round that meets nobody: no answer, or a connection that does not come up.\<close>

definition misses :: "node_id \<Rightarrow> round \<Rightarrow> bool" where
  "misses own r \<longleftrightarrow> \<not> rd_sleep_cancelled r \<and>
     (case rd_lookup r of
        LookupFailed \<Rightarrow> True
      | LookupFound target ConnectFailed \<Rightarrow> target \<noteq> own
      | _ \<Rightarrow> False)"

lemma client_loop_append:
  "client_loop own peer (xs @ ys) c = client_loop own peer ys (client_loop own peer xs c)"
proof (induction xs arbitrary: c)
  case Nil
  then show ?case by simp
next
  case (Cons r xs)
  have "cl_over c \<Longrightarrow> client_loop own peer ys c = c" by (cases ys) simp_all
  with Cons show ?case by simp
qed

lemmas client_defs = say_def finish_client_def client_pause_def attempt_failed_def Let_def const_simps

lemma miss_waiting:
  assumes "misses own r" and "\<not> cl_before c"
  shows "client_round own peer r c =
     c\<lparr>cl_attempts := cl_attempts c + 1,
       cl_slept := cl_slept c @ [if cl_attempts c < 9 then 3 else 15],
       cl_events := cl_events c @ (case rd_lookup r of
           LookupFailed \<Rightarrow> [Status Waiting, Status Waiting]
         | _ \<Rightarrow> [Status Waiting, Status Connecting, Status Waiting])\<rparr>"
  using assms
  by (auto simp: client_round_def misses_def client_defs split: lookup.splits connection.splits)

lemma misses_waiting:
  assumes "list_all (misses own) rs" and "\<not> cl_before c" and "\<not> cl_over c"
  shows "let d = client_loop own peer rs c in \<not> cl_over d \<and> \<not> cl_before d
     \<and> cl_slept d = cl_slept c @ map (\<lambda>i. if i < 9 then 3 else 15) [cl_attempts c..<cl_attempts c + length rs]
     \<and> (\<exists>es. cl_events d = cl_events c @ es \<and> list_all (\<lambda>e. e = Status Waiting \<or> e = Status Connecting) es)"
  using assms
proof (induction rs arbitrary: c)
  case (Cons r rs)
  let ?c = "client_round own peer r c"
  note m = miss_waiting [OF _ Cons.prems(2), of own r peer]
  have r: "misses own r" and rs: "list_all (misses own) rs" using Cons.prems(1) by simp_all
  have IH: "let d = client_loop own peer rs ?c in \<not> cl_over d \<and> \<not> cl_before d
     \<and> cl_slept d = cl_slept ?c @ map (\<lambda>i. if i < 9 then 3 else 15) [cl_attempts ?c..<cl_attempts ?c + length rs]
     \<and> (\<exists>es. cl_events d = cl_events ?c @ es \<and> list_all (\<lambda>e. e = Status Waiting \<or> e = Status Connecting) es)"
    using Cons.prems rs by (intro Cons.IH) (simp_all add: m [OF r])
  have u: "[cl_attempts c..<cl_attempts c + length (r # rs)]
      = cl_attempts c # [cl_attempts ?c..<cl_attempts ?c + length rs]"
    by (simp add: m [OF r] upt_rec)
  obtain es' where e: "cl_events ?c = cl_events c @ es'"
    "list_all (\<lambda>e. e = Status Waiting \<or> e = Status Connecting) es'"
    by (cases "rd_lookup r") (simp_all add: m [OF r])
  obtain es where es: "cl_events (client_loop own peer rs ?c) = cl_events ?c @ es"
    "list_all (\<lambda>e. e = Status Waiting \<or> e = Status Connecting) es" using IH by (auto simp: Let_def)
  show ?case
    using IH u e es Cons.prems(3)
    by (auto simp: Let_def m [OF r] intro!: exI [of _ "es' @ es"])
qed simp

text \<open>
  A dialer whose peer has not appeared never gives up and never complains: over any number
  of rounds that find nobody, the session keeps running, shows nothing but waiting and connecting,
  and pauses three seconds after each of the first nine rounds and fifteen after every later one.
\<close>

theorem dialer_waits_for_first_connection:
  assumes "list_all (misses own) rounds"
    and "case ki_peer ident peer of None \<Rightarrow> True | Some held \<Rightarrow> is_valid_at held now"
  shows "let c = run_client_session C now True own ident peer rounds in
     \<not> cl_over c \<and> cl_slept c = map (\<lambda>i. if i < 9 then 3 else 15) [0..<length rounds]
     \<and> (\<exists>es. cl_events c = Status Starting # ClientReady own (Some (to_npub C (ki_identity ident))) # es
          \<and> list_all (\<lambda>e. e = Status Waiting \<or> e = Status Connecting) es)"
proof -
  let ?c = "\<lparr>cl_attempts = 0, cl_before = False, cl_over = False,
     cl_events = [Status Starting, ClientReady own (Some (to_npub C (ki_identity ident)))], cl_slept = []\<rparr>"
  have "run_client_session C now True own ident peer rounds = client_loop own peer rounds ?c"
    using assms(2) by (auto simp: run_client_session_def Let_def say_def split: option.splits)
  with misses_waiting [OF assms(1), of ?c peer] show ?thesis by (simp add: Let_def)
qed

text \<open>A round that connects, serves and loses the connection.\<close>

definition drops :: "node_id \<Rightarrow> round \<Rightarrow> bool" where
  "drops own r \<longleftrightarrow> \<not> rd_sleep_cancelled r \<and>
     (case rd_lookup r of
        LookupFound target (ConnectServed remote pumped cancelled) \<Rightarrow> target \<noteq> own \<and> \<not> cancelled
      | _ \<Rightarrow> False)"

lemma drop_round:
  assumes "drops own r"
  shows "cl_attempts (client_round own peer r c) = 1 \<and> cl_before (client_round own peer r c)
     \<and> cl_over (client_round own peer r c) = cl_over c
     \<and> last (cl_events (client_round own peer r c)) = Status (Reconnecting 1 10)"
  using assms
  by (auto simp: client_round_def drops_def client_defs split: lookup.splits connection.splits)

lemma miss_reconnecting:
  assumes "misses own r" and "cl_before c"
  shows "cl_before (client_round own peer r c)
     \<and> cl_attempts (client_round own peer r c) = cl_attempts c + 1
     \<and> (if cl_attempts c < 9
        then cl_over (client_round own peer r c) = cl_over c
          \<and> last (cl_events (client_round own peer r c)) = Status (Reconnecting (cl_attempts c + 1) 10)
        else cl_over (client_round own peer r c)
          \<and> (\<exists>es. cl_events (client_round own peer r c) = es @ [ErrorEvent (CouldNotReach 10), Status Idle]))"
  using assms
  by (auto simp: client_round_def misses_def client_defs split: lookup.splits connection.splits)

lemma misses_reconnecting:
  assumes "list_all (misses own) rs" and "cl_before c" and "\<not> cl_over c" and "cl_attempts c \<le> 9"
    and "last (cl_events c) = Status (Reconnecting (cl_attempts c) 10)"
  shows "let d = client_loop own peer rs c in
     if cl_attempts c + length rs < 10
     then \<not> cl_over d \<and> last (cl_events d) = Status (Reconnecting (cl_attempts c + length rs) 10)
     else cl_over d \<and> (\<exists>es. cl_events d = es @ [ErrorEvent (CouldNotReach 10), Status Idle])"
  using assms
proof (induction rs arbitrary: c)
  case (Cons r rs)
  let ?c = "client_round own peer r c"
  have r: "misses own r" and rs: "list_all (misses own) rs" using Cons.prems(1) by simp_all
  note m = miss_reconnecting [OF r Cons.prems(2), of peer]
  show ?case
  proof (cases "cl_attempts c < 9")
    case True
    with m Cons.prems(3) have c: "cl_before ?c" "cl_attempts ?c = cl_attempts c + 1" "\<not> cl_over ?c"
      "last (cl_events ?c) = Status (Reconnecting (cl_attempts ?c) 10)" by simp_all
    from Cons.IH [OF rs c(1,3) _ c(4)] True c(2) Cons.prems(3) show ?thesis by (simp add: Let_def)
  next
    case False
    with m have "cl_over ?c" "\<exists>es. cl_events ?c = es @ [ErrorEvent (CouldNotReach 10), Status Idle]" by simp_all
    moreover have "client_loop own peer rs ?c = ?c" using \<open>cl_over ?c\<close> by (cases rs) simp_all
    ultimately show ?thesis using False Cons.prems(3) by (simp add: Let_def)
  qed
qed simp

text \<open>
  Property C28. Once connected, a dialer gives up after exactly nine failed rounds in a row: after a drop,
  and whatever happened before it, up to eight misses leave it reconnecting with the count of the drop
  and the misses, and the ninth ends the session with the message naming ten attempts. The drop itself
  is counted, so a recovered connection starts the count anew.
\<close>

theorem dialer_gives_up_after_nine:
  assumes "\<not> cl_over (client_loop own peer before c)" and "drops own d" and "list_all (misses own) rounds"
  shows "let e = client_loop own peer (before @ d # rounds) c in
     if length rounds < 9
     then \<not> cl_over e \<and> last (cl_events e) = Status (Reconnecting (length rounds + 1) 10)
     else cl_over e \<and> (\<exists>es. cl_events e = es @ [ErrorEvent (CouldNotReach 10), Status Idle])"
proof -
  let ?b = "client_loop own peer before c"
  let ?c = "client_round own peer d ?b"
  have "client_loop own peer (before @ d # rounds) c = client_loop own peer rounds ?c"
    using assms(1) by (simp add: client_loop_append)
  moreover have "cl_attempts ?c = 1" "cl_before ?c" "\<not> cl_over ?c"
    "last (cl_events ?c) = Status (Reconnecting 1 10)"
    using drop_round [OF assms(2), of peer ?b] assms(1) by simp_all
  ultimately show ?thesis
    using misses_reconnecting [OF assms(3), of ?c peer] by (simp add: Let_def)
qed

section \<open>Concrete sessions\<close>

definition demo_miss :: round where
  "demo_miss = \<lparr>rd_lookup = LookupFailed, rd_sleep_cancelled = False\<rparr>"

definition demo_drop :: round where
  "demo_drop = \<lparr>rd_lookup = LookupFound (NodeId [4]) (ConnectServed (NodeId [4]) [ItemSent] False),
     rd_sleep_cancelled = False\<rparr>"

lemma dialer_waits_for_first_connection_witness:
  "\<not> cl_over (run_client_session demo_crypto 2000 True (NodeId [3]) (kl_identity demo_listener) (PublicKey [7])
     (replicate 100 demo_miss))"
  using dialer_waits_for_first_connection [where own = "NodeId [3]" and rounds = "replicate 100 demo_miss"
      and ident = "kl_identity demo_listener" and peer = "PublicKey [7]" and now = 2000 and C = demo_crypto]
  by (simp add: list_all_iff misses_def demo_miss_def demo_peer Let_def is_valid_at_def is_not_yet_valid_at_def
      sample_card_def const_simps saturating_add_def)

lemma dialer_gives_up_after_nine_witness:
  "cl_over (client_loop (NodeId [3]) (PublicKey [7]) ([demo_miss] @ demo_drop # replicate 9 demo_miss)
     \<lparr>cl_attempts = 0, cl_before = False, cl_over = False, cl_events = [], cl_slept = []\<rparr>)"
  using dialer_gives_up_after_nine [of "NodeId [3]" "PublicKey [7]" "[demo_miss]"
      "\<lparr>cl_attempts = 0, cl_before = False, cl_over = False, cl_events = [], cl_slept = []\<rparr>" demo_drop
      "replicate 9 demo_miss"]
  by (simp add: list_all_iff misses_def drops_def demo_miss_def demo_drop_def Let_def client_round_def client_defs)

end
