(* ===== verification/Pump.thy ===== *)
theory Pump
  imports Net Sample
begin

text \<open>
  The clipboard pump (\<open>pump_clipboard\<close> in \<open>duocb-core/src/net/runtime.rs\<close>): a writer and a reader
  that share one stream. The interleaving the runtime chooses is a schedule of steps: taking the next
  text of the clipboard channel at a given time, answering a pull, reading a frame. A step whose
  trigger is absent does nothing.
\<close>

datatype pump_error = Unencodable wire_error | PumpWrite wire_error | StreamClosed wire_error | BadFrame wire_error

record pump =
  p_chan :: chan
  p_queue :: "ustring list"
  p_pulls :: nat
  p_last :: "(ustring \<times> u64) option"
  p_events :: "net_event list"

definition on_chan :: "(wire_error \<Rightarrow> pump_error) \<Rightarrow> (chan, wire_error, 'a) prog \<Rightarrow> (pump, pump_error, 'a) prog" where
  "on_chan g m p =
     (case m (p_chan p) of
        (Done a, c) \<Rightarrow> (Done a, p\<lparr>p_chan := c\<rparr>)
      | (Fail e, c) \<Rightarrow> (Fail (g e), p\<lparr>p_chan := c\<rparr>)
      | (Stall, c) \<Rightarrow> (Stall, p\<lparr>p_chan := c\<rparr>))"

definition modify :: "('s \<Rightarrow> 's) \<Rightarrow> ('s, 'e, unit) prog" where
  "modify f s = (Done (), f s)"

definition pump_emit :: "net_event \<Rightarrow> (pump, pump_error, unit) prog" where
  "pump_emit e = modify (\<lambda>p. p\<lparr>p_events := p_events p @ [e]\<rparr>)"

text \<open>Every opened stream begins with a pull.\<close>

definition writer_start :: "codecs \<Rightarrow> (pump, pump_error, unit) prog" where
  "writer_start J =
     (case encode_clip_msg J clip_pull_latest of
        Inl e \<Rightarrow> throw (Unencodable e)
      | Inr frame \<Rightarrow> on_chan PumpWrite (write_all frame))"

definition writer_item :: "codecs \<Rightarrow> u64 \<Rightarrow> (pump, pump_error, unit) prog" where
  "writer_item J now_ms p0 =
     (case p_queue p0 of
        [] \<Rightarrow> (Done (), p0)
      | text # queue \<Rightarrow>
          (let p = p0\<lparr>p_queue := queue\<rparr> in
           case encode_clip_msg J (clip_item text now_ms) of
             Inl e \<Rightarrow> pump_emit (ErrorEvent (NotSent e)) p
           | Inr frame \<Rightarrow>
               bindp (on_chan PumpWrite (write_all frame)) (\<lambda>_.
               bindp (pump_emit ItemSent) (\<lambda>_.
               modify (\<lambda>p. p\<lparr>p_last := Some (text, now_ms)\<rparr>))) p))"

definition writer_pull :: "codecs \<Rightarrow> (pump, pump_error, unit) prog" where
  "writer_pull J p0 =
     (if p_pulls p0 = 0 then (Done (), p0)
      else let p = p0\<lparr>p_pulls := p_pulls p0 - 1\<rparr> in
        case p_last p of
          None \<Rightarrow> (Done (), p)
        | Some (text, sent_at_ms) \<Rightarrow>
            (case encode_clip_msg J (clip_latest text sent_at_ms) of
               Inl e \<Rightarrow> (Done (), p)
             | Inr frame \<Rightarrow> on_chan PumpWrite (write_all frame) p))"

definition reader_step :: "codecs \<Rightarrow> (pump, pump_error, unit) prog" where
  "reader_step J =
     bindp (on_chan StreamClosed (read_length_prefixed MAX_CLIP_MESSAGE_SIZE)) (\<lambda>frame.
     case decode_clip_msg J frame of
       Inl e \<Rightarrow> throw (BadFrame e)
     | Inr msg \<Rightarrow>
         (case cm_body msg of
            Item text at \<Rightarrow> pump_emit (ItemReceived text False)
          | PullLatest \<Rightarrow> modify (\<lambda>p. p\<lparr>p_pulls := p_pulls p + 1\<rparr>)
          | Latest text at \<Rightarrow> pump_emit (ItemReceived text True)))"

datatype pump_action = SendNext u64 | AnswerPull | ReadNext

fun pump_steps :: "codecs \<Rightarrow> pump_action list \<Rightarrow> (pump, pump_error, unit) prog" where
  "pump_steps J [] = ret ()"
| "pump_steps J (a # as) =
     bindp (case a of SendNext t \<Rightarrow> writer_item J t | AnswerPull \<Rightarrow> writer_pull J | ReadNext \<Rightarrow> reader_step J)
       (\<lambda>_. pump_steps J as)"

definition pump_clipboard :: "codecs \<Rightarrow> pump_action list \<Rightarrow> (pump, pump_error, unit) prog" where
  "pump_clipboard J schedule = bindp (writer_start J) (\<lambda>_. pump_steps J schedule)"

section \<open>What one end writes, the other reads\<close>

definition clip_ok :: "codecs \<Rightarrow> clip_msg \<Rightarrow> bool" where
  "clip_ok J m \<longleftrightarrow> codec_at (clip_codec J) MAX_CLIP_MESSAGE_SIZE m \<and> cm_version m = DUOCB_PROTO_VERSION"

definition clip_frame :: "codecs \<Rightarrow> clip_msg \<Rightarrow> bytes" where
  "clip_frame J m = frame_of (clip_codec J) m"

definition clip_frames :: "codecs \<Rightarrow> clip_msg list \<Rightarrow> bytes" where
  "clip_frames J ms = concat (map (clip_frame J) ms)"

lemma clip_codec_ok:
  "clip_ok J m \<Longrightarrow> encode_clip_msg J m = Inr (clip_frame J m)"
  "clip_ok J m \<Longrightarrow> decode_clip_msg J (clip_frame J m) = Inr m"
  by (simp_all add: clip_ok_def clip_frame_def encode_defs decode_defs codec_at_encode codec_at_decode const_simps)

lemma clip_versions [simp]:
  "cm_version (clip_item x t) = DUOCB_PROTO_VERSION" "cm_version (clip_latest x t) = DUOCB_PROTO_VERSION"
  "cm_version clip_pull_latest = DUOCB_PROTO_VERSION"
  "cm_body (clip_item x t) = Item x t" "cm_body (clip_latest x t) = Latest x t" "cm_body clip_pull_latest = PullLatest"
  by (simp_all add: clip_item_def clip_latest_def clip_pull_latest_def clip_of_def)

lemma clip_frames_simps [simp]:
  "clip_frames J [] = []" "clip_frames J (m # ms) = clip_frame J m @ clip_frames J ms"
  "clip_frames J (ms @ ns) = clip_frames J ms @ clip_frames J ns"
  by (simp_all add: clip_frames_def)

definition wrote :: "bytes \<Rightarrow> pump \<Rightarrow> pump" where
  "wrote bs p = p\<lparr>p_chan := (p_chan p)\<lparr>tx := tx (p_chan p) @ bs, wcap := wcap (p_chan p) - length bs\<rparr>\<rparr>"

definition room :: "nat \<Rightarrow> pump \<Rightarrow> bool" where
  "room n p \<longleftrightarrow> \<not> fin (p_chan p) \<and> n \<le> wcap (p_chan p)"

lemma on_write: "room (length f) p \<Longrightarrow> on_chan PumpWrite (write_all f) p = (Done (), wrote f p)"
  by (simp add: on_chan_def write_all_def room_def wrote_def)

lemma writer_item_ok:
  assumes "clip_ok J (clip_item x t)" and "p_queue p = x # q" and "room (length (clip_frame J (clip_item x t))) p"
  shows "writer_item J t p = (Done (), (wrote (clip_frame J (clip_item x t)) p)
     \<lparr>p_queue := q, p_events := p_events p @ [ItemSent], p_last := Some (x, t)\<rparr>)"
  using assms
  by (simp add: writer_item_def clip_codec_ok bindp_def on_write room_def pump_emit_def modify_def)
     (simp add: wrote_def)

text \<open>What a received message does.\<close>

definition deliver :: "clip_msg \<Rightarrow> pump \<Rightarrow> pump" where
  "deliver m p =
     (case cm_body m of
        Item text at \<Rightarrow> p\<lparr>p_events := p_events p @ [ItemReceived text False]\<rparr>
      | PullLatest \<Rightarrow> p\<lparr>p_pulls := p_pulls p + 1\<rparr>
      | Latest text at \<Rightarrow> p\<lparr>p_events := p_events p @ [ItemReceived text True]\<rparr>)"

definition with_rx :: "bytes \<Rightarrow> pump \<Rightarrow> pump" where
  "with_rx bs p = p\<lparr>p_chan := (p_chan p)\<lparr>rx := bs\<rparr>\<rparr>"

lemma with_rx_simps [simp]:
  "p_queue (with_rx bs p) = p_queue p" "p_pulls (with_rx bs p) = p_pulls p" "p_last (with_rx bs p) = p_last p"
  "p_events (with_rx bs p) = p_events p" "with_rx bs (with_rx cs p) = with_rx bs p"
  "rx (p_chan (with_rx bs p)) = bs" "deliver m (with_rx bs p) = with_rx bs (deliver m p)"
  by (simp_all add: with_rx_def deliver_def split: clip_body.split)

lemma reader_step_ok:
  assumes "clip_ok J m"
  shows "reader_step J (with_rx (clip_frame J m @ rest) p) = (Done (), with_rx rest (deliver m p))"
proof -
  have c: "codec_at (clip_codec J) MAX_CLIP_MESSAGE_SIZE m" using assms by (simp add: clip_ok_def)
  have "MAX_CLIP_MESSAGE_SIZE < 256 ^ 4" by (simp add: const_simps)
  from read_frame [OF c this, of "p_chan (with_rx (clip_frame J m @ rest) p)" rest]
  have "on_chan StreamClosed (read_length_prefixed MAX_CLIP_MESSAGE_SIZE) (with_rx (clip_frame J m @ rest) p)
      = (Done (clip_frame J m), with_rx rest p)"
    by (simp add: on_chan_def clip_frame_def with_rx_def)
  with clip_codec_ok(2) [OF assms] show ?thesis
    by (simp add: reader_step_def bindp_def pump_emit_def modify_def deliver_def with_rx_def split: clip_body.split)
qed

lemma read_all:
  assumes "list_all (clip_ok J) ms"
  shows "pump_steps J (replicate (length ms) ReadNext) (with_rx (clip_frames J ms @ rest) p)
    = (Done (), with_rx rest (fold deliver ms p))"
  using assms
proof (induction ms arbitrary: p)
  case (Cons m ms)
  have f: "clip_frames J (m # ms) @ rest = clip_frame J m @ (clip_frames J ms @ rest)" by simp
  from Cons.prems have "reader_step J (with_rx (clip_frames J (m # ms) @ rest) p)
      = (Done (), with_rx (clip_frames J ms @ rest) (deliver m p))"
    unfolding f by (intro reader_step_ok) simp
  with Cons show ?case by (simp add: bindp_def)
qed (simp add: ret_def)

definition item_of :: "ustring \<times> u64 \<Rightarrow> clip_msg" where
  "item_of s = clip_item (fst s) (snd s)"

definition sent_all :: "codecs \<Rightarrow> (ustring \<times> u64) list \<Rightarrow> ustring list \<Rightarrow> pump \<Rightarrow> pump" where
  "sent_all J sends q p =
     (wrote (clip_frames J (map item_of sends)) p)
       \<lparr>p_queue := q, p_events := p_events p @ replicate (length sends) ItemSent,
        p_last := (if sends = [] then p_last p else Some (last sends))\<rparr>"

lemma send_all:
  assumes "list_all (\<lambda>s. clip_ok J (item_of s)) sends" and "p_queue p = map fst sends @ q"
    and "room (length (clip_frames J (map item_of sends))) p"
  shows "pump_steps J (map (SendNext \<circ> snd) sends) p = (Done (), sent_all J sends q p)"
  using assms
proof (induction sends arbitrary: p)
  case Nil
  then show ?case by (simp add: ret_def sent_all_def wrote_def)
next
  case (Cons s sends)
  let ?p = "(wrote (clip_frame J (item_of s)) p)
     \<lparr>p_queue := map fst sends @ q, p_events := p_events p @ [ItemSent], p_last := Some (fst s, snd s)\<rparr>"
  have "writer_item J (snd s) p = (Done (), ?p)"
    using Cons.prems writer_item_ok [of J "fst s" "snd s" p "map fst sends @ q"]
    by (simp add: item_of_def room_def)
  moreover have "pump_steps J (map (SendNext \<circ> snd) sends) ?p = (Done (), sent_all J sends q ?p)"
    using Cons.prems by (intro Cons.IH) (auto simp: room_def wrote_def)
  ultimately show ?case
    by (simp add: bindp_def sent_all_def wrote_def comp_def)
qed

lemma fold_items:
  "fold deliver (map item_of sends) p = p\<lparr>p_events := p_events p @ map (\<lambda>s. ItemReceived (fst s) False) sends\<rparr>"
  by (induction sends arbitrary: p) (simp_all add: deliver_def item_of_def)

text \<open>
  The plain case: the stream has room, one end sends its opening pull and then its texts, and the other
  end reads as many messages.
\<close>

lemma unbroken_texts_arrive:
  assumes "clip_ok J clip_pull_latest" and "list_all (\<lambda>s. clip_ok J (item_of s)) sends"
    and "p_queue a = map fst sends @ q" and "tx (p_chan a) = []"
    and "room (length (clip_frames J (clip_pull_latest # map item_of sends))) a"
  shows "case pump_clipboard J (map (SendNext \<circ> snd) sends) a of (r, a') \<Rightarrow>
     r = Done () \<and> p_queue a' = q \<and> p_events a' = p_events a @ replicate (length sends) ItemSent
     \<and> p_last a' = (if sends = [] then p_last a else Some (last sends))
     \<and> (case pump_steps J (replicate (1 + length sends) ReadNext) (with_rx (tx (p_chan a')) b) of (r', b') \<Rightarrow>
          r' = Done () \<and> p_events b' = p_events b @ map (\<lambda>s. ItemReceived (fst s) False) sends
          \<and> p_pulls b' = p_pulls b + 1 \<and> rx (p_chan b') = [])"
proof -
  let ?w = "wrote (clip_frame J clip_pull_latest) a"
  have s: "writer_start J a = (Done (), ?w)"
    using assms(1,5) by (simp add: writer_start_def clip_codec_ok on_write room_def)
  have "pump_steps J (map (SendNext \<circ> snd) sends) ?w = (Done (), sent_all J sends q ?w)"
    using assms by (intro send_all) (auto simp: wrote_def room_def)
  with s have run: "pump_clipboard J (map (SendNext \<circ> snd) sends) a = (Done (), sent_all J sends q ?w)"
    by (simp add: pump_clipboard_def bindp_def)
  let ?ms = "clip_pull_latest # map item_of sends"
  have tx: "tx (p_chan (sent_all J sends q ?w)) = clip_frames J ?ms @ []"
    using assms(4) by (simp add: sent_all_def wrote_def)
  have "list_all (clip_ok J) ?ms" using assms(1,2) by (auto simp: list_all_iff)
  from read_all [OF this, of "[]" b] have
    "pump_steps J (replicate (1 + length sends) ReadNext) (with_rx (tx (p_chan (sent_all J sends q ?w))) b)
       = (Done (), with_rx [] (fold deliver ?ms b))" unfolding tx by simp
  with run show ?thesis
    by (simp add: fold_items) (simp add: sent_all_def wrote_def deliver_def)
qed

section \<open>Any schedule, and a stream that may break\<close>















subsection \<open>The writing end\<close>


definition write_broke :: "(pump_error, unit) outcome \<Rightarrow> bool" where
  "write_broke r \<longleftrightarrow> (\<exists>e. r = Fail (PumpWrite e))"





lemma not_broke [simp]: "\<not> write_broke (Done ())" "\<not> write_broke Stall" "\<not> write_broke (Fail (StreamClosed e))"
    "\<not> write_broke (Fail (BadFrame e))"
  by (simp_all add: write_broke_def)









subsection \<open>The reading end\<close>











text \<open>
  An interruption loses nothing that was sent last. When a connection is resumed, the pull
  that opens the new stream makes the other end send again the last text of its session, which arrives
  marked as pulled; an end that has sent nothing answers nothing.
\<close>

theorem resume_redelivers:
  assumes "clip_ok J clip_pull_latest" and "p_pulls a = 0" and "tx (p_chan a) = []"
    and "case p_last a of None \<Rightarrow> True
       | Some (x, t) \<Rightarrow> clip_ok J (clip_latest x t) \<and> room (length (clip_frame J (clip_latest x t))) a"
    and "room (length (clip_frame J clip_pull_latest)) b" and "tx (p_chan b) = []"
  shows "case pump_clipboard J [] b of (_, b1) \<Rightarrow>
     case pump_steps J [ReadNext, AnswerPull] (with_rx (tx (p_chan b1)) a) of (r, a') \<Rightarrow>
       r = Done () \<and> p_pulls a' = 0 \<and> p_last a' = p_last a
       \<and> (case p_last a of
            None \<Rightarrow> tx (p_chan a') = []
          | Some (x, t) \<Rightarrow>
              (case reader_step J (with_rx (tx (p_chan a')) b1) of (r', b') \<Rightarrow>
                 r' = Done () \<and> p_events b' = p_events b1 @ [ItemReceived x True]))"
proof -
  let ?f = "clip_frame J clip_pull_latest"
  have b1: "pump_clipboard J [] b = (Done (), wrote ?f b)"
    using assms(1,5) by (simp add: pump_clipboard_def writer_start_def clip_codec_ok on_write bindp_def ret_def)
  have tx: "tx (p_chan (wrote ?f b)) = ?f" using assms(6) by (simp add: wrote_def)
  have rd: "reader_step J (with_rx ?f a) = (Done (), with_rx [] (a\<lparr>p_pulls := 1\<rparr>))"
    using reader_step_ok [OF assms(1), of "[]" a] assms(2) by (simp add: deliver_def)
  show ?thesis
  proof (cases "p_last a")
    case None
    with rd assms(3) show ?thesis
      by (simp add: b1 tx bindp_def writer_pull_def Let_def ret_def) (simp add: with_rx_def)
  next
    case (Some l)
    obtain x t where l: "l = (x, t)" by (cases l)
    let ?g = "clip_frame J (clip_latest x t)"
    let ?a = "(with_rx [] (a\<lparr>p_pulls := 1\<rparr>))\<lparr>p_pulls := 0\<rparr>"
    have ok: "clip_ok J (clip_latest x t)" and r: "room (length ?g) ?a"
      using assms(4) Some l by (simp_all add: room_def with_rx_def)
    have "pump_steps J [ReadNext, AnswerPull] (with_rx ?f a) = (Done (), wrote ?g ?a)"
      using Some l ok r
      by (simp add: bindp_def rd writer_pull_def Let_def ret_def clip_codec_ok on_write)
    moreover have "tx (p_chan (wrote ?g ?a)) = ?g @ []" using assms(3) by (simp add: wrote_def with_rx_def)
    moreover have "reader_step J (with_rx (?g @ []) (wrote ?f b)) = (Done (), with_rx [] (deliver (clip_latest x t) (wrote ?f b)))"
      by (rule reader_step_ok [OF ok])
    ultimately show ?thesis
      using Some l by (simp add: b1 tx) (simp add: wrote_def with_rx_def deliver_def)
  qed
qed

text \<open>A text over the cap is reported and costs nothing else: the session and the last item stay.\<close>

lemma oversize_reported:
  assumes "encode_clip_msg J (clip_item x t) = Inl e" and "p_queue p = x # q"
  shows "writer_item J t p = (Done (), p\<lparr>p_queue := q, p_events := p_events p @ [ErrorEvent (NotSent e)]\<rparr>)"
  using assms by (simp add: writer_item_def pump_emit_def modify_def)

section \<open>Concrete pumps\<close>

definition pump_codecs :: codecs where
  "pump_codecs =
     \<lparr>areq_codec = table_codec [], kchal_codec = table_codec [], kproof_codec = table_codec [],
      pchal_codec = table_codec [], presp_codec = table_codec [], pconf_codec = table_codec [],
      aresp_codec = table_codec [], offer_codec = table_codec [],
      clip_codec = table_codec [clip_pull_latest, clip_item [65] 1, clip_item [66] 2, clip_latest [66] 2]\<rparr>"

definition demo_pump :: pump where
  "demo_pump = \<lparr>p_chan = \<lparr>rx = [], rx_end = Silent, tx = [], fin = False, wcap = 1000\<rparr>,
     p_queue = [[65], [66]], p_pulls = 0, p_last = None, p_events = []\<rparr>"

lemma demo_clips:
  assumes "m \<in> set [clip_pull_latest, clip_item [65] 1, clip_item [66] 2, clip_latest [66] 2]"
  shows "clip_ok pump_codecs m" "length (clip_frame pump_codecs m) \<le> 5"
proof -
  have "codec_at (clip_codec pump_codecs) MAX_CLIP_MESSAGE_SIZE m" "codec_at (clip_codec pump_codecs) 1 m"
    using assms by (auto simp: pump_codecs_def intro!: table_codec_at) (simp_all add: const_simps)
  then show "clip_ok pump_codecs m" "length (clip_frame pump_codecs m) \<le> 5"
    using assms frame_of_length [of "clip_codec pump_codecs" 1 m] by (auto simp: clip_ok_def clip_frame_def)
qed




lemma resume_redelivers_witness:
  "case pump_clipboard pump_codecs [] demo_pump of (_, b1) \<Rightarrow>
     case pump_steps pump_codecs [ReadNext, AnswerPull]
       (with_rx (tx (p_chan b1)) (demo_pump\<lparr>p_last := Some ([66], 2)\<rparr>)) of (r, a') \<Rightarrow>
       r = Done () \<and> (case reader_step pump_codecs (with_rx (tx (p_chan a')) b1) of (r', b') \<Rightarrow>
                 p_events b' = p_events b1 @ [ItemReceived [66] True])"
proof -
  have "room (length (clip_frame pump_codecs clip_pull_latest)) demo_pump"
    "room (length (clip_frame pump_codecs (clip_latest [66] 2))) (demo_pump\<lparr>p_last := Some ([66], 2)\<rparr>)"
    using demo_clips(2) [of "clip_pull_latest"] demo_clips(2) [of "clip_latest [66] 2"]
    by (simp_all add: room_def demo_pump_def)
  then show ?thesis
    using resume_redelivers [of pump_codecs "demo_pump\<lparr>p_last := Some ([66], 2)\<rparr>" demo_pump]
    by (simp add: demo_clips case_prod_beta) (simp add: demo_pump_def)
qed

end
