(* ===== verification/Resolve.thy ===== *)
theory Resolve
  imports Lan Relays Dialer
begin

text \<open>
  Signalling from the runtime's side (\<open>duocb-core/src/net/runtime.rs\<close>): which transport stack a
  channel needs, how a dialer and a card-setup joiner look the other device up over the enabled
  channels, and the publisher that keeps a clipboard host findable.
\<close>

datatype readiness = LanDirect | RelayOnline | DirectAddr

definition channel_readiness :: "signal_channel \<Rightarrow> readiness" where
  "channel_readiness ch =
     (case ch of LanOnly \<Rightarrow> LanDirect | NostrOnly \<Rightarrow> RelayOnline | LanThenNostr \<Rightarrow> DirectAddr)"

section \<open>Looking up\<close>

text \<open>What a lookup meets: the browse's events, the relay client and what a query returns.\<close>

record surroundings =
  su_arrivals :: "service_event list option"
  su_net :: relay_net
  su_fetched :: "event list option"

datatype resolve_error =
  LanLookupFailed lan_error
| NostrLookupFailed relay_error
| NotHosting signal_channel
| CandidatesFailed
| NoDevice signal_channel bool

definition plain_target :: "node_id \<Rightarrow> endpoint_addr" where
  "plain_target n = \<lparr>ea_id = n, ea_addrs = []\<rparr>"

definition resolve_hosting ::
    "'z crypto_scheme \<Rightarrow> 's sealing_scheme \<Rightarrow> surroundings \<Rightarrow> key_identity \<Rightarrow> pubkey \<Rightarrow> signal_channel
       \<Rightarrow> resolve_error + endpoint_addr" where
  "resolve_hosting C S W ident peer channel =
     (let (lan_hit, err0) =
            (if ch_lan channel
             then case dnssd_lookup_hosting C S (su_arrivals W) (ki_identity ident) peer of
                    Inr (Some found) \<Rightarrow> (hosting_endpoint_addr S found, None)
                  | Inr None \<Rightarrow> (None, None)
                  | Inl e \<Rightarrow> (None, Some (LanLookupFailed e))
             else (None, None))
      in case lan_hit of
           Some addr \<Rightarrow> Inr addr
         | None \<Rightarrow>
             (let (relay_hit, err) =
                    (if ch_nostr channel
                     then case lookup_hosting C S (su_net W) (ki_identity ident) peer (ki_relays ident) (su_fetched W) of
                            Inr (Some addr) \<Rightarrow> (map_option plain_target (endpoint_id S addr), err0)
                          | Inr None \<Rightarrow> (None, None)
                          | Inl e \<Rightarrow> (None, case err0 of None \<Rightarrow> Some (NostrLookupFailed e) | Some _ \<Rightarrow> err0)
                     else (None, err0))
              in case relay_hit of
                   Some addr \<Rightarrow> Inr addr
                 | None \<Rightarrow> (case err of Some e \<Rightarrow> Inl e | None \<Rightarrow> Inl (NotHosting channel))))"

text \<open>
  The unicast probes that finish in time and what the ports answer ride along for a typed address.
\<close>

record side_channel =
  sc_net :: responder
  sc_finished :: "keys list"

definition resolve_card_setup ::
    "'z crypto_scheme \<Rightarrow> 's sealing_scheme \<Rightarrow> argon2 \<Rightarrow> unicast_record codec \<Rightarrow> surroundings \<Rightarrow> side_channel
       \<Rightarrow> u64 option \<Rightarrow> ustring \<Rightarrow> ip_addr option \<Rightarrow> signal_channel \<Rightarrow> ustring list
       \<Rightarrow> resolve_error + endpoint_addr" where
  "resolve_card_setup C S A U W sc clock canonical_pin target_ip channel relays =
     (case candidate_keys S A clock canonical_pin of
        None \<Rightarrow> Inl CandidatesFailed
      | Some candidates \<Rightarrow>
          (let (lan_hit, err0) =
                 (if ch_lan channel
                  then case (case target_ip of
                               Some ip \<Rightarrow> Inr (unicast_lookup C S U (sc_net sc) (sc_finished sc) ip candidates)
                             | None \<Rightarrow> dnssd_lookup_pin_record C S (su_arrivals W) candidates) of
                         Inr (Some found) \<Rightarrow> (Some (pin_endpoint_addr found), None)
                       | Inr None \<Rightarrow> (None, None)
                       | Inl e \<Rightarrow> (None, Some (LanLookupFailed e))
                  else (None, None))
           in case lan_hit of
                Some addr \<Rightarrow> Inr addr
              | None \<Rightarrow>
                  (let (relay_hit, err) =
                         (if ch_nostr channel
                          then case lookup_pin_record C S (su_net W) candidates relays (su_fetched W) of
                                 Inr (Some node) \<Rightarrow> (Some (plain_target node), err0)
                               | Inr None \<Rightarrow> (None, None)
                               | Inl e \<Rightarrow> (None, case err0 of None \<Rightarrow> Some (NostrLookupFailed e) | Some _ \<Rightarrow> err0)
                          else (None, err0))
                   in case relay_hit of
                        Some addr \<Rightarrow> Inr addr
                      | None \<Rightarrow>
                          (case err of Some e \<Rightarrow> Inl e
                           | None \<Rightarrow> Inl (NoDevice channel (channel = LanOnly \<and> target_ip \<noteq> None))))))"

section \<open>One policy for both lookups\<close>

text \<open>
  The answer of a channel, abstracted: switched off, a target this device can dial, a clean miss, a
  record of another transport, a failure. The policy: the first target in channel order; otherwise a
  clean miss on the relays decides, then the local failure, then the relay failure.
\<close>

datatype answer = Off | Target endpoint_addr | CleanMiss | Foreign | Broken resolve_error

fun fallback :: "resolve_error \<Rightarrow> answer \<Rightarrow> answer \<Rightarrow> resolve_error + endpoint_addr" where
  "fallback miss (Target a) relay = Inr a"
| "fallback miss lan (Target a) = Inr a"
| "fallback miss lan CleanMiss = Inl miss"
| "fallback miss (Broken e) relay = Inl e"
| "fallback miss lan (Broken e) = Inl e"
| "fallback miss lan relay = Inl miss"

definition hosting_on_lan where
  "hosting_on_lan C S W ident peer channel =
     (if \<not> ch_lan channel then Off
      else case dnssd_lookup_hosting C S (su_arrivals W) (ki_identity ident) peer of
        Inl e \<Rightarrow> Broken (LanLookupFailed e)
      | Inr None \<Rightarrow> CleanMiss
      | Inr (Some f) \<Rightarrow> (case hosting_endpoint_addr S f of None \<Rightarrow> Foreign | Some a \<Rightarrow> Target a))"

definition hosting_on_relays where
  "hosting_on_relays C S W ident peer channel =
     (if \<not> ch_nostr channel then Off
      else case lookup_hosting C S (su_net W) (ki_identity ident) peer (ki_relays ident) (su_fetched W) of
        Inl e \<Rightarrow> Broken (NostrLookupFailed e)
      | Inr None \<Rightarrow> CleanMiss
      | Inr (Some a) \<Rightarrow> (case endpoint_id S a of None \<Rightarrow> Foreign | Some n \<Rightarrow> Target (plain_target n)))"

definition pin_on_lan where
  "pin_on_lan C S U W sc ks target_ip channel =
     (if \<not> ch_lan channel then Off
      else case target_ip of
        Some ip \<Rightarrow> (case unicast_lookup C S U (sc_net sc) (sc_finished sc) ip ks of
            None \<Rightarrow> CleanMiss | Some f \<Rightarrow> Target (pin_endpoint_addr f))
      | None \<Rightarrow> (case dnssd_lookup_pin_record C S (su_arrivals W) ks of
            Inl e \<Rightarrow> Broken (LanLookupFailed e)
          | Inr None \<Rightarrow> CleanMiss
          | Inr (Some f) \<Rightarrow> Target (pin_endpoint_addr f)))"

definition pin_on_relays where
  "pin_on_relays C S W ks relays channel =
     (if \<not> ch_nostr channel then Off
      else case lookup_pin_record C S (su_net W) ks relays (su_fetched W) of
        Inl e \<Rightarrow> Broken (NostrLookupFailed e)
      | Inr None \<Rightarrow> CleanMiss
      | Inr (Some n) \<Rightarrow> Target (plain_target n))"

text \<open>
  The two lookups follow one policy. Resolving a host and resolving a PIN both return the
  local target if there is one, else the relay's; and when there is none, a clean miss on the relays
  wins over any failure, a local failure wins over a relay failure, and a record for a transport this
  build does not speak counts neither as a target nor as an answer.
\<close>

theorem lookups_follow_fallback:
  "resolve_hosting C S W ident peer channel =
     fallback (NotHosting channel) (hosting_on_lan C S W ident peer channel) (hosting_on_relays C S W ident peer channel)
   \<and> resolve_card_setup C S A U W sc clock pin target_ip channel relays =
     (case candidate_keys S A clock pin of
        None \<Rightarrow> Inl CandidatesFailed
      | Some ks \<Rightarrow> fallback (NoDevice channel (channel = LanOnly \<and> target_ip \<noteq> None))
          (pin_on_lan C S U W sc ks target_ip channel) (pin_on_relays C S W ks relays channel))"
proof
  show "resolve_hosting C S W ident peer channel =
     fallback (NotHosting channel) (hosting_on_lan C S W ident peer channel) (hosting_on_relays C S W ident peer channel)"
    unfolding resolve_hosting_def hosting_on_lan_def hosting_on_relays_def Let_def
    by (auto split: sum.split option.split)
  show "resolve_card_setup C S A U W sc clock pin target_ip channel relays =
     (case candidate_keys S A clock pin of
        None \<Rightarrow> Inl CandidatesFailed
      | Some ks \<Rightarrow> fallback (NoDevice channel (channel = LanOnly \<and> target_ip \<noteq> None))
          (pin_on_lan C S U W sc ks target_ip channel) (pin_on_relays C S W ks relays channel))"
    unfolding resolve_card_setup_def pin_on_lan_def pin_on_relays_def Let_def
    by (auto split: sum.split option.split)
qed

section \<open>Keeping a host findable\<close>

text \<open>The order in which \<open>SocketAddr\<close>s are sorted: by address, then by port.\<close>

definition sa_ord :: "socket_addr \<Rightarrow> nat list" where
  "sa_ord a = ip_ord (sa_ip a) @ [unat (sa_port a)]"

record publisher =
  pb_advert :: "advert option"
  pb_advertised :: "socket_addr list option"
  pb_reported :: bool
  pb_warned :: bool
  pb_posts :: "post list"
  pb_events :: "net_event list"

definition publisher_init :: publisher where
  "publisher_init = \<lparr>pb_advert = None, pb_advertised = None, pb_reported = False, pb_warned = False,
     pb_posts = [], pb_events = []\<rparr>"

text \<open>What one round meets: clock, the endpoint's addresses, the responder, the relays, a nonce.\<close>

record publish_round =
  pr_now :: u64
  pr_addrs :: "socket_addr list"
  pr_accepts :: "advert \<Rightarrow> bool"
  pr_net :: relay_net
  pr_nonce :: nat

definition warn_not_yet_valid :: "u64 \<Rightarrow> identity_card option \<Rightarrow> publisher \<Rightarrow> publisher" where
  "warn_not_yet_valid now held p =
     (if pb_warned p then p
      else case held of
        Some c \<Rightarrow>
          (if is_not_yet_valid_at c now
           then p\<lparr>pb_warned := True,
                  pb_events := pb_events p @ [ErrorEvent (CannotBeFoundUntilThen (expired_card_message now c))]\<rparr>
           else p)
      | None \<Rightarrow> p)"

definition refresh_advert ::
    "'z crypto_scheme \<Rightarrow> 's sealing_scheme \<Rightarrow> identity \<Rightarrow> pubkey \<Rightarrow> transport_addr \<Rightarrow> publish_round
       \<Rightarrow> publisher \<Rightarrow> publisher" where
  "refresh_advert C S i peer hosting_addr r p =
     (let addrs = sort_key sa_ord (pr_addrs r) in
      if pb_advertised p \<noteq> Some addrs
      then (case dnssd_advertise_hosting C S (pr_nonce r) (pr_accepts r) i peer hosting_addr addrs of
              Inr fresh \<Rightarrow> p\<lparr>pb_advert := Some fresh, pb_advertised := Some addrs\<rparr>
            | Inl e \<Rightarrow> p\<lparr>pb_advert := None, pb_advertised := None\<rparr>)
      else p)"

definition publisher_round ::
    "'z crypto_scheme \<Rightarrow> 's sealing_scheme \<Rightarrow> key_identity \<Rightarrow> pubkey \<Rightarrow> signal_channel \<Rightarrow> node_id
       \<Rightarrow> publish_round \<Rightarrow> publisher \<Rightarrow> publisher" where
  "publisher_round C S ident peer channel own r p0 =
     (let now = pr_now r;
          hosting_addr = rendezvous_addr S own;
          held = ki_peer ident peer;
          p1 = warn_not_yet_valid now held p0;
          live = (case held of Some c \<Rightarrow> if is_valid_at c now then Some c else None | None \<Rightarrow> None);
          p2 = (if live = None \<and> pb_advertised p1 \<noteq> None
                then p1\<lparr>pb_advert := None, pb_advertised := None\<rparr> else p1)
      in case live of
           None \<Rightarrow> p2
         | Some c \<Rightarrow>
             (let p3 = (if ch_lan channel then refresh_advert C S (ki_identity ident) peer hosting_addr r p2 else p2);
                  on_lan = ch_lan channel \<and> pb_advert p3 \<noteq> None;
                  posted = (if ch_nostr channel
                            then case publish_hosting C S (pr_nonce r) now (pr_net r) (ki_identity ident) peer
                                        hosting_addr (ki_relays ident) of
                                   Inr x \<Rightarrow> [x] | Inl e \<Rightarrow> []
                            else []);
                  published = (on_lan \<or> posted \<noteq> []);
                  p4 = p3\<lparr>pb_posts := pb_posts p3 @ posted\<rparr>;
                  p5 = (if \<not> published \<and> \<not> pb_reported p4
                        then p4\<lparr>pb_events := pb_events p4 @ [ErrorEvent CouldNotAnnounce]\<rparr> else p4)
              in p5\<lparr>pb_reported := \<not> published\<rparr>))"

definition run_hosting_publisher where
  "run_hosting_publisher C S ident peer channel own rounds =
     fold (publisher_round C S ident peer channel own) rounds publisher_init"

definition live_at :: "key_identity \<Rightarrow> pubkey \<Rightarrow> u64 \<Rightarrow> bool" where
  "live_at ident peer now \<longleftrightarrow> (case ki_peer ident peer of None \<Rightarrow> False | Some c \<Rightarrow> is_valid_at c now)"

definition pub_inv ::
    "'z crypto_scheme \<Rightarrow> 's sealing_scheme \<Rightarrow> key_identity \<Rightarrow> pubkey \<Rightarrow> node_id \<Rightarrow> publisher \<Rightarrow> bool" where
  "pub_inv C S ident peer own p \<longleftrightarrow>
     (case pb_advert p of
        None \<Rightarrow> pb_advertised p = None
      | Some ad \<Rightarrow> (\<exists>nonce accepts addrs. pb_advertised p = Some addrs \<and>
          dnssd_advertise_hosting C S nonce accepts (ki_identity ident) peer (rendezvous_addr S own) addrs = Inr ad))"

lemma refresh_inv:
  assumes "pub_inv C S ident peer own p"
  shows "pub_inv C S ident peer own (refresh_advert C S (ki_identity ident) peer (rendezvous_addr S own) r p)
     \<and> (pb_advert (refresh_advert C S (ki_identity ident) peer (rendezvous_addr S own) r p) \<noteq> None \<longrightarrow>
        pb_advertised (refresh_advert C S (ki_identity ident) peer (rendezvous_addr S own) r p)
          = Some (sort_key sa_ord (pr_addrs r)))"
proof (cases "pb_advertised p = Some (sort_key sa_ord (pr_addrs r))")
  case True
  with assms show ?thesis by (simp add: refresh_advert_def)
next
  case False
  then show ?thesis
    by (cases "dnssd_advertise_hosting C S (pr_nonce r) (pr_accepts r) (ki_identity ident) peer
        (rendezvous_addr S own) (sort_key sa_ord (pr_addrs r))")
      (auto simp: refresh_advert_def Let_def pub_inv_def)
qed

lemma pub_inv_fields:
  "pb_advert p = pb_advert q \<Longrightarrow> pb_advertised p = pb_advertised q \<Longrightarrow>
   pub_inv C S ident peer own p = pub_inv C S ident peer own q"
  unfolding pub_inv_def by (simp only:)

lemma warn_fields [simp]:
  "pb_advert (warn_not_yet_valid now held p) = pb_advert p"
  "pb_advertised (warn_not_yet_valid now held p) = pb_advertised p"
  by (simp_all add: warn_not_yet_valid_def split: option.split)

lemma publisher_round_inv:
  fixes r :: publish_round and channel :: signal_channel
  assumes inv: "pub_inv C S ident peer own p"
  defines "q \<equiv> publisher_round C S ident peer channel own r p"
  shows "pub_inv C S ident peer own q
     \<and> (pb_advert q \<noteq> None \<longrightarrow> live_at ident peer (pr_now r)
          \<and> (ch_lan channel \<longrightarrow> pb_advertised q = Some (sort_key sa_ord (pr_addrs r))))"
proof (cases "live_at ident peer (pr_now r)")
  case False
  then have l: "(case ki_peer ident peer of Some c \<Rightarrow> if is_valid_at c (pr_now r) then Some c else None | None \<Rightarrow> None) = None"
    by (auto simp: live_at_def split: option.splits)
  have "pb_advert q = None \<and> pb_advertised q = None"
    using inv by (auto simp: q_def publisher_round_def Let_def l pub_inv_def split: option.splits)
  then show ?thesis by (simp add: pub_inv_def)
next
  case True
  then obtain c where c: "ki_peer ident peer = Some c" "is_valid_at c (pr_now r)"
    by (auto simp: live_at_def split: option.splits)
  let ?p1 = "warn_not_yet_valid (pr_now r) (Some c) p"
  let ?p3 = "if ch_lan channel then refresh_advert C S (ki_identity ident) peer (rendezvous_addr S own) r ?p1 else ?p1"
  have f: "pb_advert q = pb_advert ?p3" "pb_advertised q = pb_advertised ?p3"
    using c by (simp_all add: q_def publisher_round_def Let_def)
  have "pub_inv C S ident peer own ?p1" using inv by (simp only: pub_inv_fields [OF warn_fields])
  from refresh_inv [OF this, of r] this show ?thesis
    unfolding pub_inv_fields [OF f] f using True by auto
qed

lemma publisher_holds:
  assumes "pb_advert (run_hosting_publisher C S ident peer channel own (rounds @ [r])) = Some ad"
  shows "live_at ident peer (pr_now r)
     \<and> (\<exists>nonce accepts addrs. dnssd_advertise_hosting C S nonce accepts (ki_identity ident) peer
            (rendezvous_addr S own) addrs = Inr ad
          \<and> (ch_lan channel \<longrightarrow> addrs = sort_key sa_ord (pr_addrs r)))"
proof -
  let ?run = "\<lambda>rounds. run_hosting_publisher C S ident peer channel own rounds"
  have inv: "pub_inv C S ident peer own (?run rounds)" for rounds
  proof (induction rounds rule: rev_induct)
    case Nil
    then show ?case by (simp add: run_hosting_publisher_def publisher_init_def pub_inv_def)
  next
    case (snoc r rounds)
    from publisher_round_inv [OF this, of channel r] show ?case by (simp add: run_hosting_publisher_def)
  qed
  have "?run (rounds @ [r]) = publisher_round C S ident peer channel own r (?run rounds)"
    by (simp add: run_hosting_publisher_def)
  with publisher_round_inv [OF inv, of channel r rounds] assms
  have live: "live_at ident peer (pr_now r)"
    and addrs: "ch_lan channel \<longrightarrow> pb_advertised (?run (rounds @ [r])) = Some (sort_key sa_ord (pr_addrs r))"
    by simp_all
  from inv [of "rounds @ [r]"] assms obtain nonce accepts addrs where
    "pb_advertised (?run (rounds @ [r])) = Some addrs"
    "dnssd_advertise_hosting C S nonce accepts (ki_identity ident) peer (rendezvous_addr S own) addrs = Inr ad"
    by (auto simp: pub_inv_def)
  with live addrs show ?thesis by (intro conjI exI [of _ nonce] exI [of _ accepts] exI [of _ addrs]) auto
qed

text \<open>
  Property C27. A host's local advertisement never outlives what it says. After every round of the
  publisher, if an advertisement stands then the peer's card was valid at that round, the
  advertisement is this node's for this peer, made for exactly the addresses the endpoint had in that
  round, whatever happened in the rounds before.
\<close>

theorem advertisement_current:
  assumes "pb_advert (run_hosting_publisher C S ident peer channel own (rounds @ [r])) = Some ad"
  shows "live_at ident peer (pr_now r)
     \<and> (\<exists>nonce accepts addrs. dnssd_advertise_hosting C S nonce accepts (ki_identity ident) peer
            (rendezvous_addr S own) addrs = Inr ad
          \<and> (ch_lan channel \<longrightarrow> addrs = sort_key sa_ord (pr_addrs r)))"
  by (rule publisher_holds [OF assms])

section \<open>A concrete publisher\<close>

definition demo_round :: "socket_addr list \<Rightarrow> publish_round" where
  "demo_round addrs = \<lparr>pr_now = 2000, pr_addrs = addrs, pr_accepts = (\<lambda>_. True), pr_net = demo_net, pr_nonce = 0\<rparr>"

lemma demo_live: "live_at (kl_identity demo_listener) (PublicKey [7]) 2000"
  by (simp add: live_at_def demo_peer is_valid_at_def is_not_yet_valid_at_def sample_card_def const_simps
      saturating_add_def)

lemma demo_sorted: "sort_key sa_ord demo_addrs = demo_addrs"
  by (simp add: demo_addrs_def sa_ord_def ip_ord_def)

lemma demo_published:
  "\<exists>ad. pb_advert (run_hosting_publisher demo_crypto demo_sealing (kl_identity demo_listener) (PublicKey [7]) LanOnly
     (NodeId [4]) ([demo_round []] @ [demo_round demo_addrs])) = Some ad"
proof -
  let ?i = "kl_identity demo_listener"
  let ?addr = "rendezvous_addr demo_sealing (NodeId [4])"
  obtain content where c: "hosting_encrypt demo_sealing 0 (ki_identity ?i) (PublicKey [7]) ?addr = Some content"
    by (simp add: hosting_encrypt_def demo_sealing_def)
  have "\<exists>ad. dnssd_advertise_hosting demo_crypto demo_sealing 0 (\<lambda>_. True) (ki_identity ?i) (PublicKey [7]) ?addr
      demo_addrs = Inr ad"
    by (simp add: dnssd_advertise_hosting_def c dnssd_advertise_def demo_split Let_def)
  then obtain ad where "dnssd_advertise_hosting demo_crypto demo_sealing 0 (\<lambda>_. True) (ki_identity ?i) (PublicKey [7])
      ?addr demo_addrs = Inr ad" by blast
  moreover have "dnssd_advertise acc st inst t [] = Inl NoDirectAddresses" for acc st inst t
    by (simp add: dnssd_advertise_def split_ports_def)
  ultimately show ?thesis
    using demo_live
    by (auto simp: run_hosting_publisher_def publisher_round_def Let_def demo_round_def live_at_def refresh_advert_def
        warn_not_yet_valid_def demo_sorted ch_lan_def ch_nostr_def publisher_init_def is_valid_at_def
        dnssd_advertise_hosting_def split: option.splits)
qed

lemma advertisement_current_witness:
  "\<exists>ad nonce accepts. pb_advert (run_hosting_publisher demo_crypto demo_sealing (kl_identity demo_listener) (PublicKey [7])
       LanOnly (NodeId [4]) ([demo_round []] @ [demo_round demo_addrs])) = Some ad
     \<and> dnssd_advertise_hosting demo_crypto demo_sealing nonce accepts (ki_identity (kl_identity demo_listener))
         (PublicKey [7]) (rendezvous_addr demo_sealing (NodeId [4])) demo_addrs = Inr ad"
proof -
  from demo_published obtain ad where ad: "pb_advert (run_hosting_publisher demo_crypto demo_sealing
      (kl_identity demo_listener) (PublicKey [7]) LanOnly (NodeId [4]) ([demo_round []] @ [demo_round demo_addrs])) = Some ad"
    by blast
  from advertisement_current [OF this] have "\<exists>nonce accepts. dnssd_advertise_hosting demo_crypto demo_sealing nonce
      accepts (ki_identity (kl_identity demo_listener)) (PublicKey [7]) (rendezvous_addr demo_sealing (NodeId [4]))
      demo_addrs = Inr ad"
    by (auto simp: ch_lan_def demo_round_def demo_sorted)
  with ad show ?thesis by blast
qed

end
