(* ===== verification/CardSetup.thy ===== *)
theory CardSetup
  imports CardExchange Resolve Simulation
begin

text \<open>
  Card-setup sessions (\<open>duocb-core/src/net/runtime.rs\<close>): the one-shot host that shows a rotating PIN,
  the publisher that runs beside it, and the joiner. Host and publisher are one step relation over
  the state they share: the pair claim, the cache of PIN passwords and the event stream.
\<close>

section \<open>The host\<close>

text \<open>
  What one handshake and the exchange that follows it draw from outside: the handshake's environment,
  the outcome of taking the stream, the peer's bytes and the wording of errors.
\<close>

record attempt_env =
  at_host :: host_env
  at_opened :: "(unit, unit) outcome"
  at_chan :: claim_chan
  at_say_auth :: "listener_error \<Rightarrow> ustring"
  at_say_exchange :: "exchange_error \<Rightarrow> ustring"

datatype attempt_result = Exchanged identity_card | NotExchanged message

text \<open>
  One connection: the result, the channel afterwards, the events sent on the way and the code the
  connection is closed with (a connection closes once: the first code counts).
\<close>

definition setup_attempt ::
    "attempt_env \<Rightarrow> 'z crypto_scheme \<Rightarrow> identity_card \<Rightarrow> recent_pins \<Rightarrow> node_id \<Rightarrow> node_id \<Rightarrow> pair_claim
       \<Rightarrow> attempt_result \<times> claim_chan \<times> net_event list \<times> nat" where
  "setup_attempt T C self_card pins remote own claim =
     (case auth_as_listener (at_host T) C (at_opened T) None (Some pins) remote own ((at_chan T)\<lparr>world := claim\<rparr>) of
        (Inl e, code, t) \<Rightarrow>
          (NotExchanged (Failure (at_say_auth T e)), t, [],
           case code of Some c \<Rightarrow> c | None \<Rightarrow> AUTH_FAILED_CODE)
      | (Inr _, code, t) \<Rightarrow>
          (let greeted = [PeerPaired remote None, Status Connected] in
           case exchange_cards (he_codecs (at_host T)) C self_card t of
             (Done peer_card, u) \<Rightarrow> (Exchanged peer_card, u, greeted, SHUTDOWN_CODE)
           | (Fail e, u) \<Rightarrow> (NotExchanged (Failure (at_say_exchange T e)), u, greeted, AUTH_FAILED_CODE)
           | (Stall, u) \<Rightarrow> (NotExchanged PeerStoppedResponding, u, greeted, AUTH_FAILED_CODE)))"

text \<open>
  Dialers that arrive in the grace period. A handshake that outlasts the deadline ends the period.
\<close>

datatype latecomer = Latecomer node_id | BrokenHandshake | SlowHandshake

fun refuse_latecomers :: "latecomer list \<Rightarrow> (node_id \<times> nat) list" where
  "refuse_latecomers [] = []"
| "refuse_latecomers (Latecomer n # ls) = (n, SERVER_BUSY_CODE) # refuse_latecomers ls"
| "refuse_latecomers (BrokenHandshake # ls) = refuse_latecomers ls"
| "refuse_latecomers (SlowHandshake # ls) = []"

text \<open>
  Where the host stands: waiting for a dialer, with a connection whose request has not been read, with
  the PIN passwords it compares against, over its loop, or gone.
\<close>

datatype host_phase = HostAccepting | HostTaken node_id | HostAuth node_id recent_pins | HostClosing | HostEnded

text \<open>
  Where the publisher stands: at the top of its loop, deriving the keys of the PIN on screen for the bucket it was minted in, waiting
  out the period, or done.
\<close>

datatype pub_phase = PubTop | PubDeriving ustring u64 | PubWaiting | PubDone

text \<open>Advertisements are represented by the DNS-SD record and by the side channel's port and body.\<close>

record setup_host =
  sh_phase :: host_phase
  sh_pub :: pub_phase
  sh_claim :: pair_claim
  sh_pins :: recent_pins
  sh_adverts :: "advert list"
  sh_unicast :: "(u16 \<times> bytes) list"
  sh_posts :: "post list"
  sh_events :: "net_event list"
  sh_closed :: "(node_id \<times> nat) list"

definition sh_emit :: "net_event list \<Rightarrow> setup_host \<Rightarrow> setup_host" where
  "sh_emit es s = s\<lparr>sh_events := sh_events s @ es\<rparr>"

definition setup_start :: "bool \<Rightarrow> node_id \<Rightarrow> pair_claim \<Rightarrow> recent_pins \<Rightarrow> setup_host" where
  "setup_start bound own claim pins =
     \<lparr>sh_phase = (if bound then HostAccepting else HostEnded), sh_pub = (if bound then PubTop else PubDone),
      sh_claim = claim, sh_pins = pins, sh_adverts = [], sh_unicast = [], sh_posts = [],
      sh_events = (if bound then [Status Starting, ServerReady own None, Status Waiting]
                   else [Status Starting, ErrorEvent FailedToStart, Status Idle]),
      sh_closed = []\<rparr>"

text \<open>The end of an attempt: the session is over after an exchange and after a failure past the claim.\<close>

definition settle ::
    "attempt_env \<Rightarrow> 'z crypto_scheme \<Rightarrow> identity_card \<Rightarrow> node_id \<Rightarrow> node_id \<Rightarrow> recent_pins \<Rightarrow> latecomer list
       \<Rightarrow> setup_host \<Rightarrow> setup_host" where
  "settle T C self_card own remote pins late s =
     (case setup_attempt T C self_card pins remote own (sh_claim s) of
        (result, u, greeted, code) \<Rightarrow>
          (let claim = world u;
               t = (sh_emit greeted s)\<lparr>sh_claim := claim, sh_closed := sh_closed s @ [(remote, code)]\<rparr> in
           case result of
             Exchanged peer_card \<Rightarrow>
               (sh_emit [PeerCardReceived peer_card] t)
                 \<lparr>sh_phase := HostClosing, sh_closed := sh_closed t @ refuse_latecomers late\<rparr>
           | NotExchanged m \<Rightarrow>
               (if (case pc_peer claim of None \<Rightarrow> False | Some c \<Rightarrow> cp_node c = Some remote)
                then (sh_emit [ErrorEvent m] t)\<lparr>sh_phase := HostClosing\<rparr>
                else (sh_emit [Status Waiting] t)\<lparr>sh_phase := HostAccepting\<rparr>)))"

section \<open>The publisher\<close>

fun pop_front_to :: "nat \<Rightarrow> 'a list \<Rightarrow> 'a list" where
  "pop_front_to n [] = []"
| "pop_front_to n (x # xs) = (if length (x # xs) > n then pop_front_to n xs else x # xs)"

definition LOOK_BACK :: nat where [const_simps]: "LOOK_BACK = 2"

definition keep_guard :: "'a \<Rightarrow> 'a list \<Rightarrow> 'a list" where
  "keep_guard x xs = pop_front_to LOOK_BACK (xs @ [x])"

text \<open>The publisher's task is over, by its own choice or aborted: its guards go out of scope.\<close>

definition pub_stop :: "setup_host \<Rightarrow> setup_host" where
  "pub_stop s = s\<lparr>sh_pub := PubDone, sh_adverts := [], sh_unicast := []\<rparr>"

text \<open>What a period meets: random draws, clock, the endpoint's addresses, threads, responder, relays.\<close>

record period =
  pe_rng :: "nat \<Rightarrow> byte"
  pe_clock :: "u64 option"
  pe_now :: u64
  pe_addrs :: "socket_addr list"
  pe_derives :: bool
  pe_accepts :: "advert \<Rightarrow> bool"
  pe_bind :: "u16 \<Rightarrow> bool"
  pe_net :: relay_net
  pe_nonce :: nat

text \<open>The first half of a turn ends with the PIN on screen; a panic would end the task.\<close>

definition show_pin :: "signal_channel \<Rightarrow> period \<Rightarrow> setup_host \<Rightarrow> setup_host" where
  "show_pin channel r s =
     (if pc_paired (sh_claim s) then pub_stop (sh_emit [PinCleared] s)
      else let pin = generate_pin (pe_rng r);
               host_lan_ip = (if ch_lan channel then preferred_lan_ipv4 (pe_addrs r) else None)
        in case format_pin pin of
             None \<Rightarrow> pub_stop s
           | Some display \<Rightarrow>
               (sh_emit [PinRotated display BUCKET_SECS host_lan_ip] s)
                 \<lparr>sh_pub := PubDeriving pin (current_bucket (pe_clock r))\<rparr>)"

text \<open>Publication on every enabled channel; the flags say whether a joiner can find the record.\<close>

definition publish_pin ::
    "'z crypto_scheme \<Rightarrow> 's sealing_scheme \<Rightarrow> unicast_record codec \<Rightarrow> signal_channel \<Rightarrow> ustring list \<Rightarrow> node_id
       \<Rightarrow> period \<Rightarrow> keys \<Rightarrow> setup_host \<Rightarrow> setup_host" where
  "publish_pin C S U channel relays own r ks s =
     (let local = (if ch_lan channel
                   then dnssd_advertise_pin_record C S (pe_nonce r) (pe_accepts r) ks own (pe_addrs r)
                   else Inl NoDirectAddresses);
          side = (if ch_lan channel
                  then unicast_advertise C S U (pe_bind r) (pe_nonce r) ks own (pe_addrs r)
                  else Inl BindFailed);
          relayed = (if ch_nostr channel
                     then publish_pin_record C S (pe_nonce r) (pe_now r) (pe_net r) ks own relays
                     else Inl RecordError);
          discoverable = (\<not> isl local \<or> \<not> isl relayed);
          typed_ip_only = (\<not> isl side);
          s1 = (case local of Inr a \<Rightarrow> s\<lparr>sh_adverts := keep_guard a (sh_adverts s)\<rparr> | Inl _ \<Rightarrow> s);
          s2 = (case side of Inr u \<Rightarrow> s1\<lparr>sh_unicast := keep_guard u (sh_unicast s1)\<rparr> | Inl _ \<Rightarrow> s1);
          s3 = (case relayed of Inr q \<Rightarrow> s2\<lparr>sh_posts := sh_posts s2 @ [q]\<rparr> | Inl _ \<Rightarrow> s2)
      in if \<not> discoverable \<and> typed_ip_only then sh_emit [ErrorEvent PinNeedsIp] s3
         else if \<not> discoverable then sh_emit [ErrorEvent PinNotPublished] s3
         else s3)"

definition announce_pin ::
    "'z crypto_scheme \<Rightarrow> 's sealing_scheme \<Rightarrow> argon2 \<Rightarrow> unicast_record codec \<Rightarrow> signal_channel \<Rightarrow> ustring list
       \<Rightarrow> node_id \<Rightarrow> period \<Rightarrow> ustring \<Rightarrow> u64 \<Rightarrow> setup_host \<Rightarrow> setup_host" where
  "announce_pin C S A U channel relays own r pin bucket s0 =
     (let s = s0\<lparr>sh_pub := PubWaiting\<rparr> in
      if \<not> pe_derives r then s
      else let s1 = (case derive_auth_key_material A pin of
                       None \<Rightarrow> s | Some password \<Rightarrow> s\<lparr>sh_pins := recent_push password (sh_pins s)\<rparr>)
        in case pin_keys S A pin bucket of
             None \<Rightarrow> s1
           | Some ks \<Rightarrow> publish_pin C S U channel relays own r ks s1)"

text \<open>A refresh revokes every PIN shown so far.\<close>

definition revoke_pins :: "setup_host \<Rightarrow> setup_host" where
  "revoke_pins s = s\<lparr>sh_pins := recent_clear (sh_pins s), sh_adverts := [], sh_unicast := [], sh_pub := PubTop\<rparr>"

section \<open>Host and publisher together\<close>

text \<open>
  The steps of a running session. \<open>Snapshot\<close> is the read of the PIN cache inside the handshake; the
  publisher may step at any point in between. A cancelled session ends both tasks; the publisher is
  aborted when the host returns.
\<close>

record setup_params =
  sp_card :: identity_card
  sp_own :: node_id
  sp_channel :: signal_channel
  sp_relays :: "ustring list"

inductive setup_step ::
    "'z crypto_scheme \<Rightarrow> 's sealing_scheme \<Rightarrow> argon2 \<Rightarrow> unicast_record codec \<Rightarrow> setup_params
       \<Rightarrow> setup_host \<Rightarrow> setup_host \<Rightarrow> bool"
  for C S A U G where
  Refused: "sh_phase s = HostAccepting \<Longrightarrow> \<not> serveable False (sh_claim s) r \<Longrightarrow>
    setup_step C S A U G s (s\<lparr>sh_closed := sh_closed s @ [(r, SERVER_BUSY_CODE)]\<rparr>)"
| Taken: "sh_phase s = HostAccepting \<Longrightarrow> serveable False (sh_claim s) r \<Longrightarrow>
    setup_step C S A U G s ((sh_emit [Status Authenticating] s)\<lparr>sh_phase := HostTaken r\<rparr>)"
| Snapshot: "sh_phase s = HostTaken r \<Longrightarrow>
    setup_step C S A U G s (s\<lparr>sh_phase := HostAuth r (sh_pins s)\<rparr>)"
| Settled: "sh_phase s = HostAuth r pins \<Longrightarrow>
    setup_step C S A U G s (settle T C (sp_card G) (sp_own G) r pins late s)"
| Cancelled: "sh_phase s = HostAccepting \<Longrightarrow> setup_step C S A U G s (s\<lparr>sh_phase := HostClosing\<rparr>)"
| Ended: "sh_phase s = HostClosing \<Longrightarrow>
    setup_step C S A U G s (pub_stop ((sh_emit [Status Idle] s)\<lparr>sh_phase := HostEnded\<rparr>))"
| Shown: "sh_pub s = PubTop \<Longrightarrow> setup_step C S A U G s (show_pin (sp_channel G) p s)"
| Announced: "sh_pub s = PubDeriving pin bucket \<Longrightarrow>
    setup_step C S A U G s (announce_pin C S A U (sp_channel G) (sp_relays G) (sp_own G) p pin bucket s)"
| Rotated: "sh_pub s = PubWaiting \<Longrightarrow> setup_step C S A U G s (s\<lparr>sh_pub := PubTop\<rparr>)"
| Refreshed: "sh_pub s = PubWaiting \<Longrightarrow> setup_step C S A U G s (revoke_pins s)"
| Paired: "sh_pub s = PubWaiting \<Longrightarrow> pc_paired (sh_claim s) \<Longrightarrow>
    setup_step C S A U G s (pub_stop (sh_emit [PinCleared] s))"
| PubCancelled: "sh_pub s = PubWaiting \<Longrightarrow>
    setup_step C S A U G s (pub_stop s)"

section \<open>One attempt\<close>

lemma keeps_exchange: "preserves I (exchange_cards J C own)"
proof -
  have "preserves I (shutdown NotFinished :: (_, exchange_error, unit) prog)" "preserves I (drain :: (_, exchange_error, unit) prog)"
    by (auto simp: preserves_def shutdown_def drain_def split: if_splits)
  then show ?thesis unfolding exchange_cards_def by (intro keeps)
qed

lemma exchange_world:
  fixes s :: "'w hchan"
  shows "exchange_cards J C own s = (r, t) \<Longrightarrow> world t = world s"
  by (drule preservesD [OF keeps_exchange [where I = "\<lambda>w. w = world s"]]) simp_all

definition held_by_node :: "node_id \<Rightarrow> pair_claim \<Rightarrow> bool" where
  "held_by_node n c \<longleftrightarrow> pc_peer c = Some \<lparr>cp_key = None, cp_node = Some n\<rparr> \<and> pc_paired c"

text \<open>
  From a free claim, an attempt leaves it free and greets nobody, or hands it to the dialer. A card
  comes only after the claim, and it verifies.
\<close>

definition greeting :: "node_id \<Rightarrow> net_event list" where
  "greeting n = [PeerPaired n None, Status Connected]"

lemma attempt_outcome:
  assumes "setup_attempt T C self_card pins remote own claim_default = (result, u, greeted, code)"
  shows "(world u = claim_default \<and> greeted = [] \<and> (\<exists>m. result = NotExchanged m))
     \<or> (held_by_node remote (world u)
         \<and> (greeted = [] \<and> (\<exists>m. result = NotExchanged m)
           \<or> greeted = greeting remote \<and> (\<forall>c. result = Exchanged c \<longrightarrow> card_wf C c)))"
proof -
  let ?s = "(at_chan T)\<lparr>world := claim_default\<rparr>"
  obtain res cd t where a: "auth_as_listener (at_host T) C (at_opened T) None (Some pins) remote own ?s = (res, cd, t)"
    by (cases "auth_as_listener (at_host T) C (at_opened T) None (Some pins) remote own ?s")
  have w: "world t = claim_default \<or> held_by_node remote (world t)"
    by (rule auth_world [where I = "\<lambda>w. w = claim_default \<or> held_by_node remote w", OF a])
      (auto simp: commit_pin_def claim_default_def held_by_node_def split: option.splits)
  show ?thesis
  proof (cases res)
    case (Inl e)
    with assms a w show ?thesis by (auto simp: setup_attempt_def)
  next
    case (Inr k)
    from auth_accepted [OF a [unfolded Inr]] w have h: "held_by_node remote (world t)"
      by (auto simp: claim_default_def)
    obtain r v where x: "exchange_cards (he_codecs (at_host T)) C self_card t = (r, v)"
      by (cases "exchange_cards (he_codecs (at_host T)) C self_card t")
    have "world v = world t" by (rule exchange_world [OF x])
    moreover have "card_wf C c" if "r = Done c" for c
      using exchange_outcome [where J = "he_codecs (at_host T)" and C = C and own = self_card and s = t] that by (auto simp: x failed_def)
    ultimately show ?thesis
      using assms a h by (auto simp: setup_attempt_def greeting_def Inr x Let_def split: outcome.splits)
  qed
qed

section \<open>The session as one pairing\<close>

text \<open>
  The contract of a card-setup host, without timing, PINs or messages: it proves dialers one at a
  time, binds to the first that succeeds, and ends with at most that device's card.
\<close>

datatype stage = Open | Proving node_id | Bound node_id | Holds node_id identity_card | Over

inductive stage_step :: "(identity_card \<Rightarrow> bool) \<Rightarrow> stage \<Rightarrow> stage \<Rightarrow> bool" for verifies where
  dial: "stage_step verifies Open (Proving n)"
| turn_away: "stage_step verifies (Proving n) Open"
| bind: "stage_step verifies (Proving n) (Bound n)"
| receive: "verifies c \<Longrightarrow> stage_step verifies (Proving n) (Holds n c)"
| close: "stage_step verifies Open Over"

inductive_simps stage_step_simps:
  "stage_step V Open st" "stage_step V (Proving n) st" "stage_step V (Bound n) st" "stage_step V (Holds n c) st"
  "stage_step V Over st"

definition open_phase :: "host_phase \<Rightarrow> bool" where
  "open_phase p \<longleftrightarrow> (case p of HostClosing \<Rightarrow> False | HostEnded \<Rightarrow> False | _ \<Rightarrow> True)"

text \<open>Events that report a pairing or carry content.\<close>

definition pairing_event :: "net_event \<Rightarrow> bool" where
  "pairing_event e \<longleftrightarrow>
     (case e of PeerPaired _ _ \<Rightarrow> True | PeerCardReceived _ \<Rightarrow> True | PeerDisconnected \<Rightarrow> True
      | ItemReceived _ _ \<Rightarrow> True | ItemSent \<Rightarrow> True | _ \<Rightarrow> False)"

definition pairing_log :: "setup_host \<Rightarrow> net_event list" where
  "pairing_log s = filter pairing_event (sh_events s)"

fun stage_by :: "host_phase \<Rightarrow> pair_claim \<Rightarrow> net_event list \<Rightarrow> stage" where
  "stage_by HostAccepting claim log = Open"
| "stage_by (HostTaken n) claim log = Proving n"
| "stage_by (HostAuth n pins) claim log = Proving n"
| "stage_by p claim [PeerPaired n k, PeerCardReceived c] = Holds n c"
| "stage_by p claim log =
     (case map_option cp_node (pc_peer claim) of Some (Some n) \<Rightarrow> Bound n | _ \<Rightarrow> Over)"

definition stage_of :: "setup_host \<Rightarrow> stage" where
  "stage_of s = stage_by (sh_phase s) (sh_claim s) (pairing_log s)"

definition setup_inv :: "'z crypto_scheme \<Rightarrow> setup_host \<Rightarrow> bool" where
  "setup_inv C s \<longleftrightarrow>
     (if open_phase (sh_phase s) then sh_claim s = claim_default \<and> pairing_log s = []
      else (sh_claim s = claim_default \<and> pairing_log s = [])
        \<or> (\<exists>n. held_by_node n (sh_claim s)
             \<and> (pairing_log s \<in> {[], [PeerPaired n None]}
                \<or> (\<exists>c. card_wf C c \<and> pairing_log s = [PeerPaired n None, PeerCardReceived c]))))"

lemma sh_emit_fields [simp]:
  "sh_phase (sh_emit es s) = sh_phase s" "sh_claim (sh_emit es s) = sh_claim s" "sh_pub (sh_emit es s) = sh_pub s"
  "sh_pins (sh_emit es s) = sh_pins s" "sh_closed (sh_emit es s) = sh_closed s" "sh_adverts (sh_emit es s) = sh_adverts s"
  "sh_unicast (sh_emit es s) = sh_unicast s" "sh_events (sh_emit es s) = sh_events s @ es"
  by (simp_all add: sh_emit_def)

lemma free_claim [simp]: "pc_peer claim_default = None" "\<not> pc_paired claim_default" "\<not> held_by_node n claim_default"
  by (simp_all add: claim_default_def held_by_node_def)

lemma pairing_log_emit [simp]: "pairing_log (sh_emit es s) = pairing_log s @ filter pairing_event es"
  by (simp add: pairing_log_def)

lemma pairing_log_fields [simp]:
  "pairing_log (s\<lparr>sh_phase := p\<rparr>) = pairing_log s" "pairing_log (s\<lparr>sh_claim := c\<rparr>) = pairing_log s"
  "pairing_log (s\<lparr>sh_closed := d\<rparr>) = pairing_log s" "pairing_log (s\<lparr>sh_pub := b\<rparr>) = pairing_log s"
  "pairing_log (s\<lparr>sh_pins := ps\<rparr>) = pairing_log s" "pairing_log (s\<lparr>sh_adverts := ads\<rparr>) = pairing_log s"
  "pairing_log (s\<lparr>sh_unicast := us\<rparr>) = pairing_log s" "pairing_log (s\<lparr>sh_posts := qs\<rparr>) = pairing_log s"
  by (simp_all add: pairing_log_def)

lemma pairing_event_simps [simp]:
  "pairing_event (PeerPaired n k)" "pairing_event (PeerCardReceived c)" "\<not> pairing_event (Status st)"
  "\<not> pairing_event (ErrorEvent m)" "\<not> pairing_event PinCleared" "\<not> pairing_event (PinRotated d secs ip)"
  by (simp_all add: pairing_event_def)

text \<open>The publisher touches neither the claim nor the phase nor the pairing log.\<close>

definition same_pairing :: "setup_host \<Rightarrow> setup_host \<Rightarrow> bool" where
  "same_pairing s t \<longleftrightarrow> sh_phase t = sh_phase s \<and> sh_claim t = sh_claim s \<and> pairing_log t = pairing_log s"

lemma publish_same: "same_pairing s (publish_pin C S U ch rl own p ks s)"
  unfolding same_pairing_def publish_pin_def Let_def by (simp split: sum.split)

lemma publisher_same:
  "same_pairing s (show_pin ch p s)" "same_pairing s (revoke_pins s)" "same_pairing s (pub_stop s)"
  "same_pairing s (pub_stop (sh_emit [PinCleared] s))" "same_pairing s (s\<lparr>sh_pub := b\<rparr>)"
  "same_pairing s (s\<lparr>sh_pins := ps\<rparr>)"
  by (simp_all add: same_pairing_def show_pin_def revoke_pins_def pub_stop_def Let_def split: option.split)

lemma same_pairing_trans: "same_pairing s t \<Longrightarrow> same_pairing t u \<Longrightarrow> same_pairing s u"
  by (simp add: same_pairing_def)

lemma announce_same: "same_pairing s (announce_pin C S A U ch rl own p pin b s)"
proof -
  have "same_pairing s (s\<lparr>sh_pub := PubWaiting, sh_pins := ps\<rparr>)" for ps
    by (simp add: same_pairing_def)
  then show ?thesis
    unfolding announce_pin_def Let_def
    by (auto split: option.split intro: publisher_same same_pairing_trans [OF _ publish_same])
qed

lemma same_pairingD:
  "same_pairing s t \<Longrightarrow> setup_inv C t = setup_inv C s" "same_pairing s t \<Longrightarrow> stage_of t = stage_of s"
  by (simp_all add: same_pairing_def setup_inv_def stage_of_def)

lemma settle_stage:
  assumes inv: "setup_inv C s" and ph: "sh_phase s = HostAuth n pins"
  shows "setup_inv C (settle T C mine own n pins late s)
    \<and> stage_step (card_wf C) (stage_of s) (stage_of (settle T C mine own n pins late s))"
proof -
  from inv ph have c: "sh_claim s = claim_default" and l: "pairing_log s = []"
    by (auto simp: setup_inv_def open_phase_def)
  obtain result u greeted code where
    a: "setup_attempt T C mine pins n own claim_default = (result, u, greeted, code)"
    by (cases "setup_attempt T C mine pins n own claim_default")
  have t: "settle T C mine own n pins late s =
      (let t = (sh_emit greeted s)\<lparr>sh_claim := world u, sh_closed := sh_closed s @ [(n, code)]\<rparr> in
       case result of
         Exchanged x \<Rightarrow> (sh_emit [PeerCardReceived x] t)
           \<lparr>sh_phase := HostClosing, sh_closed := sh_closed t @ refuse_latecomers late\<rparr>
       | NotExchanged m \<Rightarrow>
           (if (case pc_peer (world u) of None \<Rightarrow> False | Some c \<Rightarrow> cp_node c = Some n)
            then (sh_emit [ErrorEvent m] t)\<lparr>sh_phase := HostClosing\<rparr>
            else (sh_emit [Status Waiting] t)\<lparr>sh_phase := HostAccepting\<rparr>))"
    by (simp add: settle_def a c Let_def)
  note defs = t Let_def setup_inv_def stage_of_def open_phase_def l ph stage_step_simps greeting_def
  from attempt_outcome [OF a] show ?thesis
    by (elim disjE conjE exE; cases result) (auto simp: defs, auto simp: held_by_node_def)
qed

interpretation card_setup: simulation "setup_step C S A U G" "setup_inv C" "stage_step (card_wf C)" stage_of
proof
  fix s t assume inv: "setup_inv C s" and st: "setup_step C S A U G s t"
  have pub: "setup_inv C t \<and> stage_of t = stage_of s" if "same_pairing s t"
    using same_pairingD(1) [OF that, of C] same_pairingD(2) [OF that] inv by simp
  have both: "setup_inv C t \<and> (stage_of t = stage_of s \<or> stage_step (card_wf C) (stage_of s) (stage_of t))"
    using st
  proof cases
    case (Settled n pins T late)
    with settle_stage [OF inv] show ?thesis by simp
  next
    case (Shown p)
    with pub publisher_same show ?thesis by blast
  next
    case (Announced pin b p)
    with pub announce_same show ?thesis by blast
  next
    case Rotated
    with pub publisher_same show ?thesis by blast
  next
    case Refreshed
    with pub publisher_same show ?thesis by blast
  next
    case Paired
    with pub publisher_same show ?thesis by blast
  next
    case PubCancelled
    with pub publisher_same show ?thesis by blast
  next
    case (Refused r)
    with inv show ?thesis by (auto simp: setup_inv_def stage_of_def)
  next
    case (Taken r)
    with inv show ?thesis by (auto simp: setup_inv_def stage_of_def stage_step_simps open_phase_def)
  next
    case (Snapshot r)
    with inv show ?thesis by (auto simp: setup_inv_def stage_of_def open_phase_def)
  next
    case Cancelled
    with inv show ?thesis by (auto simp: setup_inv_def stage_of_def stage_step_simps open_phase_def)
  next
    case Ended
    have e: "sh_phase t = HostEnded" "sh_claim t = sh_claim s" "pairing_log t = pairing_log s"
      using Ended by (simp_all add: pub_stop_def)
    have "stage_by HostEnded c l = stage_by HostClosing c l" for c l
      by (cases "(HostClosing, c, l)" rule: stage_by.cases) auto
    with e Ended inv show ?thesis by (auto simp: setup_inv_def stage_of_def open_phase_def)
  qed
  then show "setup_inv C t" "stage_of t = stage_of s \<or> stage_step (card_wf C) (stage_of s) (stage_of t)"
    by simp_all
qed

lemma setup_start_inv: "setup_inv C (setup_start bound own claim_default pins)"
  by (simp add: setup_start_def setup_inv_def open_phase_def pairing_log_def pairing_event_def)

lemma stage_holds:
  assumes "setup_inv C s" and "PeerCardReceived c \<in> set (sh_events s)"
  shows "\<exists>n. stage_of s = Holds n c \<and> held_by_node n (sh_claim s)"
proof -
  from assms(2) have "PeerCardReceived c \<in> set (pairing_log s)" by (simp add: pairing_log_def)
  with assms(1) obtain n where n: "held_by_node n (sh_claim s)" "pairing_log s = [PeerPaired n None, PeerCardReceived c]"
    and "\<not> open_phase (sh_phase s)" by (auto simp: setup_inv_def split: if_splits)
  then show ?thesis by (cases "sh_phase s") (auto simp: stage_of_def open_phase_def)
qed

text \<open>
  Property C2. A card-setup host is one pairing and no more. Every run of a host that starts with a
  free claim, with its publisher and any dialers, refines the contract: it proves dialers one at a
  time and is bound for good to the first that succeeds. A card that reaches the user is the verified
  card of the device that holds the claim, it comes once, and the session never carries clipboard
  content.
\<close>

theorem card_setup_one_pairing:
  assumes "(setup_step C S A U G)\<^sup>*\<^sup>* (setup_start bound own claim_default pins) s"
  shows "(stage_step (card_wf C))\<^sup>*\<^sup>* (if bound then Open else Over) (stage_of s)
     \<and> (\<forall>c. PeerCardReceived c \<in> set (sh_events s) \<longrightarrow>
          (\<exists>n. stage_of s = Holds n c \<and> held_by_node n (sh_claim s)
             \<and> filter pairing_event (sh_events s) = [PeerPaired n None, PeerCardReceived c]))"
proof -
  have start: "stage_of (setup_start bound own claim_default pins) = (if bound then Open else Over)"
    by (simp add: setup_start_def stage_of_def pairing_log_def pairing_event_def)
  have inv: "setup_inv C s" by (rule card_setup.keeps_star [OF assms setup_start_inv])
  have "filter pairing_event (sh_events s) = [PeerPaired n None, PeerCardReceived c]"
    if "stage_of s = Holds n c" for n c
    using inv that
    by (cases "(sh_phase s, sh_claim s, pairing_log s)" rule: stage_by.cases)
      (auto simp: setup_inv_def stage_of_def pairing_log_def open_phase_def split: option.splits)
  with stage_holds [OF inv] have "\<forall>c. PeerCardReceived c \<in> set (sh_events s) \<longrightarrow>
      (\<exists>n. stage_of s = Holds n c \<and> held_by_node n (sh_claim s)
         \<and> filter pairing_event (sh_events s) = [PeerPaired n None, PeerCardReceived c])"
    by fast
  with card_setup.simulates [OF assms setup_start_inv] show ?thesis by (simp add: start)
qed

section \<open>Revocation\<close>

definition shown_pin :: "argon2 \<Rightarrow> net_event list \<Rightarrow> bytes \<Rightarrow> bool" where
  "shown_pin A es pw \<longleftrightarrow>
     (\<exists>pin d ip. derive_auth_key_material A pin = Some pw \<and> format_pin pin = Some d
        \<and> PinRotated d BUCKET_SECS ip \<in> set es)"

text \<open>Since the events \<open>before\<close>, only PINs shown later count; a handshake may still hold an old snapshot.\<close>

definition revoked_since :: "argon2 \<Rightarrow> setup_host \<Rightarrow> setup_host \<Rightarrow> bool" where
  "revoked_since A base u \<longleftrightarrow>
     (\<exists>es. sh_events u = sh_events base @ es
        \<and> list_all (shown_pin A es) (sh_pins u) \<and> length (sh_pins u) \<le> RECENT_PIN_CACHE
        \<and> (case sh_phase u of HostAuth n ps \<Rightarrow> sh_phase base = HostAuth n ps \<or> list_all (shown_pin A es) ps | _ \<Rightarrow> True)
        \<and> (case sh_pub u of PubDeriving pin b \<Rightarrow>
              (\<exists>d ip. format_pin pin = Some d \<and> PinRotated d BUCKET_SECS ip \<in> set es) | _ \<Rightarrow> True))"

lemma shown_more: "shown_pin A es pw \<Longrightarrow> shown_pin A (es @ fs) pw"
  by (auto simp: shown_pin_def)

lemma all_shown_more: "list_all (shown_pin A es) ps \<Longrightarrow> list_all (shown_pin A (es @ fs)) ps"
  by (auto simp: list_all_iff shown_more)

lemma announce_fields:
  "sh_phase (announce_pin C S A U ch rl own p pin b s) = sh_phase s"
  "sh_pub (announce_pin C S A U ch rl own p pin b s) = PubWaiting"
  "\<exists>es. sh_events (announce_pin C S A U ch rl own p pin b s) = sh_events s @ es"
  "sh_pins (announce_pin C S A U ch rl own p pin b s) \<in>
     {sh_pins s} \<union> (case derive_auth_key_material A pin of None \<Rightarrow> {} | Some pw \<Rightarrow> {recent_push pw (sh_pins s)})"
proof -
  have p: "sh_phase (publish_pin C S U ch rl own p ks t) = sh_phase t"
    "sh_pub (publish_pin C S U ch rl own p ks t) = sh_pub t"
    "sh_pins (publish_pin C S U ch rl own p ks t) = sh_pins t" for ks t
    unfolding publish_pin_def Let_def by (simp_all split: sum.split)
  have e: "\<exists>es. sh_events (publish_pin C S U ch rl own p ks t) = sh_events s @ es" if "sh_events t = sh_events s" for ks t
    using that unfolding publish_pin_def Let_def by (simp split: sum.split)
  note a = announce_pin_def Let_def
  show "sh_phase (announce_pin C S A U ch rl own p pin b s) = sh_phase s"
    "sh_pub (announce_pin C S A U ch rl own p pin b s) = PubWaiting"
    by (simp_all add: a p split: option.split)
  show "\<exists>es. sh_events (announce_pin C S A U ch rl own p pin b s) = sh_events s @ es"
    by (auto simp: a split: option.split intro!: e)
  show "sh_pins (announce_pin C S A U ch rl own p pin b s) \<in>
       {sh_pins s} \<union> (case derive_auth_key_material A pin of None \<Rightarrow> {} | Some pw \<Rightarrow> {recent_push pw (sh_pins s)})"
    by (simp add: a p split: option.split)
qed

lemma setup_events_grow:
  assumes "setup_step C S A U G s t"
  shows "\<exists>es. sh_events t = sh_events s @ es"
  using assms
proof cases
  case (Settled n pins T late)
  then show ?thesis
    by (cases "setup_attempt T C (sp_card G) pins n (sp_own G) (sh_claim s)")
      (auto simp: settle_def Let_def split: attempt_result.split)
next
  case (Announced pin b p)
  then show ?thesis using announce_fields(3) by simp
next
  case (Shown p)
  then show ?thesis by (auto simp: show_pin_def Let_def pub_stop_def split: option.split)
qed (auto simp: revoke_pins_def pub_stop_def)

lemma settle_fields:
  "sh_pub (settle T C mine own n pins late s) = sh_pub s" "sh_pins (settle T C mine own n pins late s) = sh_pins s"
  "sh_phase (settle T C mine own n pins late s) \<in> {HostClosing, HostAccepting}"
  by (cases "setup_attempt T C mine pins n own (sh_claim s)";
      simp add: settle_def Let_def split: attempt_result.split)+

text \<open>The parts of the invariant, so that each step needs to argue only about what it changes.\<close>

definition fresh_state :: "argon2 \<Rightarrow> setup_host \<Rightarrow> net_event list \<Rightarrow> setup_host \<Rightarrow> bool" where
  "fresh_state A base es u \<longleftrightarrow>
     list_all (shown_pin A es) (sh_pins u) \<and> length (sh_pins u) \<le> RECENT_PIN_CACHE
     \<and> (case sh_phase u of HostAuth n ps \<Rightarrow> sh_phase base = HostAuth n ps \<or> list_all (shown_pin A es) ps | _ \<Rightarrow> True)
     \<and> (case sh_pub u of PubDeriving pin b \<Rightarrow>
           (\<exists>d ip. format_pin pin = Some d \<and> PinRotated d BUCKET_SECS ip \<in> set es) | _ \<Rightarrow> True)"

lemma revoked_iff: "revoked_since A base u \<longleftrightarrow> (\<exists>es. sh_events u = sh_events base @ es \<and> fresh_state A base es u)"
  by (simp add: revoked_since_def fresh_state_def)

lemma fresh_more: "fresh_state A base es u \<Longrightarrow> fresh_state A base (es @ fs) u"
  by (auto simp: fresh_state_def all_shown_more split: host_phase.splits pub_phase.splits)

lemma recent_push_set: "set (recent_push pw ps) \<subseteq> insert pw (set ps)" "length (recent_push pw ps) \<le> RECENT_PIN_CACHE"
  using set_take_subset [of RECENT_PIN_CACHE "pw # ps"] by (auto simp: recent_push_def pop_back_to_take)

lemma fresh_step:
  assumes st: "setup_step C S A U G s t" and f: "fresh_state A base es s" and ev: "sh_events t = sh_events s @ fs"
  shows "fresh_state A base (es @ fs) t"
proof -
  note f' = fresh_more [OF f, of fs]
  from st show ?thesis
  proof cases
    case (Settled n pins T late)
    with f' settle_fields [of T C "sp_card G" "sp_own G" n pins late s] show ?thesis
      by (auto simp: fresh_state_def)
  next
    case (Announced pin b p)
    let ?t = "announce_pin C S A U (sp_channel G) (sp_relays G) (sp_own G) p pin b s"
    have "list_all (shown_pin A (es @ fs)) (sh_pins ?t) \<and> length (sh_pins ?t) \<le> RECENT_PIN_CACHE"
    proof (cases "sh_pins ?t = sh_pins s")
      case True
      with f' show ?thesis by (simp add: fresh_state_def)
    next
      case False
      with announce_fields(4) [of C S A U "sp_channel G" "sp_relays G" "sp_own G" p pin b s] obtain pw where
        pw: "derive_auth_key_material A pin = Some pw" "sh_pins ?t = recent_push pw (sh_pins s)"
        by (auto split: option.splits)
      then have "shown_pin A (es @ fs) pw" using f' Announced by (auto simp: fresh_state_def shown_pin_def)
      with pw f' recent_push_set [of pw "sh_pins s"] show ?thesis
        by (auto simp: fresh_state_def list_all_iff)
    qed
    with f' Announced show ?thesis by (simp add: fresh_state_def announce_fields)
  next
    case (Shown p)
    with f' ev show ?thesis
      by (auto simp: fresh_state_def show_pin_def pub_stop_def Let_def split: option.splits) blast+
  qed (use f' in \<open>auto simp: fresh_state_def revoke_pins_def pub_stop_def recent_clear_def split: host_phase.splits\<close>)
qed

lemma revoked_step: "revoked_since A base s \<Longrightarrow> setup_step C S A U G s t \<Longrightarrow> revoked_since A base t"
  using setup_events_grow [of C S A U G s t] fresh_step [of C S A U G s t base]
  unfolding revoked_iff by fastforce

interpretation revocation: step_invariant "setup_step C S A U G" "revoked_since A base"
  by unfold_locales (rule revoked_step)

lemma revoke_starts: "revoked_since A s (revoke_pins s)"
  by (auto simp: revoked_iff fresh_state_def revoke_pins_def recent_clear_def split: host_phase.splits)

text \<open>
  Property C25. Asking for a new PIN revokes every PIN shown before. From the state after a refresh,
  however the session continues, at most two passwords are honoured and each belongs to a PIN that was
  put on screen after the refresh; a handshake that compares passwords uses such ones only, unless it
  had read them before the refresh.
\<close>

theorem refresh_revokes:
  assumes "(setup_step C S A U G)\<^sup>*\<^sup>* (revoke_pins s) u"
  shows "\<exists>es. sh_events u = sh_events s @ es \<and> length (sh_pins u) \<le> 2
     \<and> (\<forall>pw \<in> set (sh_pins u). shown_pin A es pw)
     \<and> (\<forall>n ps. sh_phase u = HostAuth n ps \<longrightarrow> sh_phase s = HostAuth n ps \<or> (\<forall>pw \<in> set ps. shown_pin A es pw))"
proof -
  have "revoked_since A s u" by (rule revocation.keeps_star [OF assms revoke_starts])
  then obtain es where es: "sh_events u = sh_events s @ es" and f: "fresh_state A s es u"
    by (auto simp: revoked_iff)
  have "sh_phase s = HostAuth n ps \<or> (\<forall>pw \<in> set ps. shown_pin A es pw)" if "sh_phase u = HostAuth n ps" for n ps
    using f that by (simp add: fresh_state_def list_all_iff)
  with es f show ?thesis by (auto simp: fresh_state_def list_all_iff const_simps)
qed

section \<open>A second card setup in the same memory\<close>

lemma attempt_keeps_holder:
  assumes "held_by_node n claim" and "setup_attempt T C mine pins r own claim = (result, u, greeted, code)"
  shows "held_by_node n (world u)"
proof -
  let ?s = "(at_chan T)\<lparr>world := claim\<rparr>"
  obtain res cd t where a: "auth_as_listener (at_host T) C (at_opened T) None (Some pins) r own ?s = (res, cd, t)"
    by (cases "auth_as_listener (at_host T) C (at_opened T) None (Some pins) r own ?s")
  have t: "held_by_node n (world t)"
    by (rule auth_world [where I = "held_by_node n", OF a])
      (use assms(1) in \<open>auto simp: commit_pin_def held_by_node_def split: option.splits\<close>)
  have "world v = world t" if "exchange_cards (he_codecs (at_host T)) C mine t = (x, v)" for x v
    by (rule exchange_world [OF that])
  with assms(2) a t show ?thesis
    by (cases res; cases "exchange_cards (he_codecs (at_host T)) C mine t")
      (auto simp: setup_attempt_def Let_def split: outcome.splits)
qed

text \<open>A host whose claim is taken before it starts: no PIN appears and nobody else is listened to.\<close>

definition dark :: "node_id \<Rightarrow> setup_host \<Rightarrow> bool" where
  "dark n s \<longleftrightarrow> held_by_node n (sh_claim s) \<and> sh_pub s \<in> {PubTop, PubDone}
     \<and> (\<forall>d secs ip. PinRotated d secs ip \<notin> set (sh_events s))
     \<and> (case sh_phase s of HostTaken r \<Rightarrow> r = n | HostAuth r ps \<Rightarrow> r = n | _ \<Rightarrow> True)"

lemma dark_step:
  assumes "dark n s" and "setup_step C S A U G s t"
  shows "dark n t"
  using assms(2)
proof cases
  case (Settled r pins T late)
  with assms(1) have r: "r = n" by (simp add: dark_def)
  obtain result u greeted code where a: "setup_attempt T C (sp_card G) pins n (sp_own G) (sh_claim s) = (result, u, greeted, code)"
    by (cases "setup_attempt T C (sp_card G) pins n (sp_own G) (sh_claim s)")
  have g: "PinRotated d secs ip \<notin> set greeted" for d secs ip
    using a by (auto simp: setup_attempt_def Let_def split: prod.splits sum.splits outcome.splits)
  from assms(1) have "held_by_node n (world u)" using attempt_keeps_holder [OF _ a] by (simp add: dark_def)
  with assms(1) Settled g show ?thesis
    by (cases result) (auto simp: dark_def settle_def a r Let_def)
qed (use assms(1) in \<open>auto simp: dark_def show_pin_def revoke_pins_def pub_stop_def held_by_node_def serveable_def
    split: host_phase.splits\<close>)

interpretation darkness: step_invariant "setup_step C S A U G" "dark n"
  by unfold_locales (rule dark_step)

text \<open>
  A second card setup that reuses the memory of a completed one is stuck. A host that
  starts with the claim already taken never shows a PIN, and turns every device but the one of the
  first setup away as busy before it can prove anything.
\<close>

theorem second_setup_shows_no_pin:
  assumes "(setup_step C S A U G)\<^sup>*\<^sup>* (setup_start bound own claim pins) s" and "held_by_node n claim"
  shows "(\<forall>d secs ip. PinRotated d secs ip \<notin> set (sh_events s))
     \<and> (\<forall>r. sh_phase s = HostTaken r \<longrightarrow> r = n) \<and> held_by_node n (sh_claim s)"
proof -
  have "dark n (setup_start bound own claim pins)" using assms(2) by (simp add: dark_def setup_start_def)
  from darkness.keeps_star [OF assms(1) this] show ?thesis by (auto simp: dark_def)
qed

section \<open>The joiner\<close>

text \<open>
  What the joiner meets after the lookup: cancellation, the connection (its remote node or the wording
  of the failure), and on the connection the outcome of opening the stream, the host's close code and
  the host's bytes.
\<close>

record join_env =
  je_lookup_cancelled :: bool
  je_connect :: "(ustring + node_id) option"
  je_host :: host_env
  je_opened :: "(pin_error, unit) outcome"
  je_close :: "nat option"
  je_chan :: chan
  je_say_pin :: "pin_error \<Rightarrow> ustring"
  je_say_exchange :: "exchange_error \<Rightarrow> ustring"
  je_say_lookup :: "resolve_error \<Rightarrow> ustring"

text \<open>Everything past the connection: the result, the events and the channel.\<close>

definition join_connection ::
    "join_env \<Rightarrow> 'z crypto_scheme \<Rightarrow> argon2 \<Rightarrow> ustring \<Rightarrow> identity_card \<Rightarrow> node_id \<Rightarrow> node_id
       \<Rightarrow> (message + identity_card) \<times> net_event list \<times> chan" where
  "join_connection T C A canonical_pin self_card own remote =
     (case auth_as_dialer_pin (je_host T) A (je_say_pin T) (je_opened T) (je_close T) canonical_pin own remote (je_chan T) of
        (Inl m, t) \<Rightarrow> (Inl m, [Status Authenticating], t)
      | (Inr _, t) \<Rightarrow>
          (let told = Status Authenticating # greeting remote in
           case exchange_cards (he_codecs (je_host T)) C self_card t of
             (Done peer_card, u) \<Rightarrow> (Inr peer_card, told, u)
           | (Fail e, u) \<Rightarrow> (Inl (Failure (je_say_exchange T e)), told, u)
           | (Stall, u) \<Rightarrow> (Inl PeerStoppedResponding, told, u)))"

definition join_outcome ::
    "join_env \<Rightarrow> 'z crypto_scheme \<Rightarrow> argon2 \<Rightarrow> ustring \<Rightarrow> identity_card \<Rightarrow> node_id \<Rightarrow> resolve_error + endpoint_addr
       \<Rightarrow> (message + identity_card option) \<times> net_event list" where
  "join_outcome T C A canonical_pin self_card own found =
     (if je_lookup_cancelled T then (Inr None, [Status Resolving])
      else case found of
        Inl e \<Rightarrow> (Inl (Failure (je_say_lookup T e)), [Status Resolving])
      | Inr addr \<Rightarrow>
          (if ea_id addr = own then (Inl OwnPin, [Status Resolving])
           else case je_connect T of
             None \<Rightarrow> (Inr None, [Status Resolving, Status Connecting])
           | Some (Inl m) \<Rightarrow> (Inl (Failure m), [Status Resolving, Status Connecting])
           | Some (Inr remote) \<Rightarrow>
               (case join_connection T C A canonical_pin self_card own remote of
                  (r, told, t) \<Rightarrow> (map_sum id Some r, [Status Resolving, Status Connecting] @ told))))"

definition run_card_setup_joiner ::
    "join_env \<Rightarrow> 'z crypto_scheme \<Rightarrow> 's sealing_scheme \<Rightarrow> argon2 \<Rightarrow> unicast_record codec \<Rightarrow> surroundings
       \<Rightarrow> side_channel \<Rightarrow> u64 option \<Rightarrow> bool \<Rightarrow> ustring \<Rightarrow> identity_card \<Rightarrow> ip_addr option \<Rightarrow> signal_channel
       \<Rightarrow> ustring list \<Rightarrow> node_id \<Rightarrow> net_event list" where
  "run_card_setup_joiner T C S A U W sc clock bound canonical_pin self_card target_ip channel relays own =
     (if \<not> bound then [Status Starting, ErrorEvent FailedToStart, Status Idle]
      else (case join_outcome T C A canonical_pin self_card own
                   (resolve_card_setup C S A U W sc clock canonical_pin target_ip channel relays) of
              (outcome, told) \<Rightarrow>
                [Status Starting, ClientReady own None] @ told
                @ (case outcome of
                     Inr (Some peer_card) \<Rightarrow> [PeerCardReceived peer_card]
                   | Inr None \<Rightarrow> []
                   | Inl m \<Rightarrow> [ErrorEvent m])
                @ [Status Idle]))"

section \<open>Two honest devices\<close>

text \<open>The messages of the PIN handshake between two environments.\<close>

definition setup_laws ::
    "host_env \<Rightarrow> host_env \<Rightarrow> recent_pins \<Rightarrow> bytes \<Rightarrow> node_id \<Rightarrow> node_id \<Rightarrow> bool" where
  "setup_laws H D pins pw joiner host \<longleftrightarrow>
     he_codecs D = he_codecs H \<and> he_pake D = he_pake H \<and> he_show D = he_show H
     \<and> pin_laws (he_codecs H) (he_pake H) (he_rnd D) (he_rnd H) (he_dummy H) pins pw (he_show H joiner) (he_show H host)"

definition from_joiner where
  "from_joiner H D pins pw joiner host =
     frame_of (areq_codec (he_codecs H)) (pin_request_msg (he_pake H) (he_rnd D) pw (he_show H joiner) (he_show H host))
     @ frame_of (presp_codec (he_codecs H))
         (pin_response_msg (he_pake H) (he_rnd D) (he_rnd H) (he_dummy H) pins pw (he_show H joiner) (he_show H host))"

definition from_host where
  "from_host H D pins pw joiner host =
     frame_of (pchal_codec (he_codecs H))
       (pin_challenge_msg (he_pake H) (he_rnd H) (he_dummy H) pins (he_show H joiner) (he_show H host))
     @ frame_of (pconf_codec (he_codecs H))
         (pin_verdict_msg (he_pake H) (he_rnd D) (he_rnd H) (he_dummy H) pins pw (he_show H joiner) (he_show H host))"

lemma pin_dialer_accepted:
  assumes laws: "setup_laws H D pins pw joiner host" and kdf: "derive_auth_key_material A pin = Some pw"
    and pw: "pw \<in> set (take PAKE_SLOTS pins)"
    and ch: "\<not> fin s" "60000 \<le> wcap s" "rx s = from_host H D pins pw joiner host @ q"
  shows "\<exists>t. auth_as_dialer_pin D A wording (Done ()) close pin joiner host s = (Inr (), t)
     \<and> tx t = tx s @ from_joiner H D pins pw joiner host \<and> rx t = q \<and> rx_end t = rx_end s \<and> \<not> fin t
     \<and> 20000 \<le> wcap t"
proof -
  from laws have P: "pin_laws (he_codecs D) (he_pake D) (he_rnd D) (he_rnd H) (he_dummy H) pins pw (he_show D joiner) (he_show D host)"
    by (simp add: setup_laws_def)
  note C = pin_codecs_hold [OF P]
  note L = frame_of_length [OF C(1)] frame_of_length [OF C(3)]
  from laws ch(3) have rx: "rx s = frame_of (pchal_codec (he_codecs D))
         (pin_challenge_msg (he_pake D) (he_rnd H) (he_dummy H) pins (he_show D joiner) (he_show D host))
     @ frame_of (pconf_codec (he_codecs D))
         (pin_verdict_msg (he_pake D) (he_rnd D) (he_rnd H) (he_dummy H) pins pw (he_show D joiner) (he_show D host)) @ q"
    by (simp add: setup_laws_def from_host_def)
  obtain r t where h: "pin_dialer_handshake (he_codecs D) (he_pake D) A (he_rnd D) pin (he_show D joiner) (he_show D host) s = (r, t)"
    by fastforce
  have "runs (pin_dialer_handshake (he_codecs D) (he_pake D) A (he_rnd D) pin (he_show D joiner) (he_show D host)) s
     (\<lambda>r t. r = Done () \<and> tx t = tx s @ from_joiner H D pins pw joiner host \<and> rx t = q \<and> rx_end t = rx_end s \<and> \<not> fin t
        \<and> 20000 \<le> wcap t)"
    by (rule runs_conseq [OF pin_dialer_honest [OF P kdf rx ch(1)]])
      (use laws pw ch(2) L in \<open>auto simp: setup_laws_def from_joiner_def const_simps\<close>)
  with h show ?thesis
    by (simp add: auth_as_dialer_pin_def bindp_def runs_def)
qed

lemma pin_listener_accepts:
  assumes laws: "setup_laws H D pins pw joiner host" and pw: "pw \<in> set (take PAKE_SLOTS pins)"
    and ch: "\<not> fin s" "60000 \<le> wcap s" "rx s = from_joiner H D pins pw joiner host @ q" "world s = claim_default"
  shows "\<exists>t. auth_as_listener H C (Done ()) None (Some pins) joiner host s = (Inr None, None, t)
     \<and> tx t = tx s @ from_host H D pins pw joiner host \<and> rx t = q \<and> rx_end t = rx_end s \<and> \<not> fin t
     \<and> 20000 \<le> wcap t \<and> held_by_node joiner (world t)"
proof -
  let ?J = "he_codecs H" and ?d = "he_show H joiner" and ?l = "he_show H host"
  let ?m = "pin_request_msg (he_pake H) (he_rnd D) pw ?d ?l"
  let ?w = "\<lparr>pc_peer = Some \<lparr>cp_key = None, cp_node = Some joiner\<rparr>, pc_paired = True\<rparr>"
  from laws have P: "pin_laws ?J (he_pake H) (he_rnd D) (he_rnd H) (he_dummy H) pins pw ?d ?l"
    by (simp add: setup_laws_def)
  note C = pin_codecs_hold [OF P]
  note L = frame_of_length [OF C(2)] frame_of_length [OF C(4)]
  let ?resp = "frame_of (presp_codec ?J) (pin_response_msg (he_pake H) (he_rnd D) (he_rnd H) (he_dummy H) pins pw ?d ?l)"
  let ?s = "s\<lparr>rx := ?resp @ q\<rparr>"
  have rd: "read_length_prefixed MAX_CONTROL_MESSAGE_SIZE s = (Done (frame_of (areq_codec ?J) ?m), ?s)"
    by (rule read_frame [OF C(1)]) (use ch(3) in \<open>simp_all add: from_joiner_def const_simps\<close>)
  have dec: "decode_auth_request ?J (frame_of (areq_codec ?J) ?m) = Inr ?m"
    by (rule control_codec(5) [OF C(1)]) (simp add: pin_request_msg_def auth_request_pin_def)
  obtain v pk where m: "?m = Pin v pk" by (simp add: pin_request_msg_def auth_request_pin_def)
  then have pk: "pk = req_pakes ?m" by simp
  have commit: "commit_pin joiner (world ?s) = (True, ?w)" using ch(4) by (simp add: commit_pin_def claim_default_def)
  have "runs (pin_listener_handshake ?J (he_pake H) (he_rnd H) (he_dummy H) pins pk ?d ?l (commit_pin joiner)) ?s
     (\<lambda>r t. r = Done () \<and> tx t = tx s @ from_host H D pins pw joiner host \<and> rx t = q \<and> rx_end t = rx_end s \<and> \<not> fin t
        \<and> 20000 \<le> wcap t \<and> world t = ?w)"
    unfolding pk
    by (rule runs_conseq [OF pin_listener_honest [where commit = "commit_pin joiner" and q = q and w = ?w and s = ?s, OF P _ _ _ commit]])
      (use pw ch(1,2) L in \<open>auto simp: from_host_def const_simps\<close>)
  then obtain t where h: "pin_listener_handshake ?J (he_pake H) (he_rnd H) (he_dummy H) pins pk ?d ?l (commit_pin joiner) ?s = (Done (), t)"
    and t: "tx t = tx s @ from_host H D pins pw joiner host" "rx t = q" "rx_end t = rx_end s" "\<not> fin t" "20000 \<le> wcap t" "world t = ?w"
    by (auto simp: runs_def split: prod.splits)
  have "auth_as_listener H C (Done ()) None (Some pins) joiner host s = (Inr None, None, t)"
    using rd dec m h ch(4)
    by (simp add: auth_as_listener_def bindp_def map_err_def listener_body_def lift_sum_def ret_def
        pin_claimed_by_other_def Let_def)
  with t show ?thesis by (simp add: held_by_node_def)
qed

definition card_travels :: "codecs \<Rightarrow> 'z crypto_scheme \<Rightarrow> identity_card \<Rightarrow> bool" where
  "card_travels J C c \<longleftrightarrow>
     codec_at (offer_codec J) MAX_CONTROL_MESSAGE_SIZE (card_offer_new (card_encode C c))
     \<and> card_parse C (card_encode C c) = Inr c"

lemma exchange_accepts:
  assumes "card_travels J C own" "card_travels J C peer"
    and "\<not> fin s" "20000 \<le> wcap s" "rx s = offer_frame J C peer" "rx_end s = Eof"
  shows "\<exists>t. exchange_cards J C own s = (Done peer, t) \<and> tx t = tx s @ offer_frame J C own"
  using exchange_honest [of J C own peer s] assms
  by (auto simp: card_travels_def runs_def split: prod.splits)

lemma setup_completes:
  assumes laws: "setup_laws (at_host T) (je_host V) pins pw joiner host"
    and kdf: "derive_auth_key_material A pin = Some pw" and pw: "pw \<in> set (take PAKE_SLOTS pins)"
    and cards: "card_travels (he_codecs (at_host T)) C a" "card_travels (he_codecs (at_host T)) C b"
    and opened: "at_opened T = Done ()" "je_opened V = Done ()"
    and ends: "\<not> fin (at_chan T) \<and> tx (at_chan T) = [] \<and> 60000 \<le> wcap (at_chan T)"
      "\<not> fin (je_chan V) \<and> tx (je_chan V) = [] \<and> 60000 \<le> wcap (je_chan V)"
  shows "\<exists>to_host to_joiner.
     (case setup_attempt (T\<lparr>at_chan := (at_chan T)\<lparr>rx := to_host, rx_end := Eof\<rparr>\<rparr>) C a pins joiner host claim_default of
        (result, u, told, code) \<Rightarrow> result = Exchanged b \<and> held_by_node joiner (world u) \<and> tx u = to_joiner
           \<and> told = greeting joiner \<and> code = SHUTDOWN_CODE)
     \<and> (case join_connection (V\<lparr>je_chan := (je_chan V)\<lparr>rx := to_joiner, rx_end := Eof\<rparr>\<rparr>) C A pin b joiner host of
          (result, told, t) \<Rightarrow> result = Inr a \<and> tx t = to_host \<and> told = Status Authenticating # greeting host)"
proof -
  let ?H = "at_host T" and ?D = "je_host V"
  let ?J = "he_codecs ?H"
  let ?h = "from_joiner ?H ?D pins pw joiner host @ offer_frame ?J C b"
  let ?j = "from_host ?H ?D pins pw joiner host @ offer_frame ?J C a"
  let ?s = "(at_chan T)\<lparr>rx := ?h, rx_end := Eof, world := claim_default\<rparr>"
  let ?c = "(je_chan V)\<lparr>rx := ?j, rx_end := Eof\<rparr>"
  have J: "he_codecs ?D = ?J" using laws by (simp add: setup_laws_def)
  from pin_listener_accepts [OF laws pw, of ?s "offer_frame ?J C b" C] ends(1) obtain t where
    t: "auth_as_listener ?H C (Done ()) None (Some pins) joiner host ?s = (Inr None, None, t)"
      "tx t = from_host ?H ?D pins pw joiner host" "rx t = offer_frame ?J C b" "rx_end t = Eof" "\<not> fin t" "20000 \<le> wcap t"
      "held_by_node joiner (world t)"
    by auto
  from exchange_accepts [OF cards t(5,6,3,4)] t(2) obtain u where
    u: "exchange_cards ?J C a t = (Done b, u)" "tx u = ?j" by auto
  from pin_dialer_accepted [OF laws kdf pw, of ?c "offer_frame ?J C a" "je_say_pin V" "je_close V"] ends(2) obtain v where
    v: "auth_as_dialer_pin ?D A (je_say_pin V) (Done ()) (je_close V) pin joiner host ?c = (Inr (), v)"
      "tx v = from_joiner ?H ?D pins pw joiner host" "rx v = offer_frame ?J C a" "rx_end v = Eof" "\<not> fin v" "20000 \<le> wcap v"
    by auto
  from exchange_accepts [OF cards(2,1) v(5,6,3,4)] v(2) obtain x where
    x: "exchange_cards ?J C b v = (Done a, x)" "tx x = ?h" by auto
  have "setup_attempt (T\<lparr>at_chan := (at_chan T)\<lparr>rx := ?h, rx_end := Eof\<rparr>\<rparr>) C a pins joiner host claim_default
      = (Exchanged b, u, greeting joiner, SHUTDOWN_CODE)"
    using t(1) u(1) by (simp add: setup_attempt_def opened greeting_def Let_def)
  moreover have "held_by_node joiner (world u)" using exchange_world [OF u(1)] t(7) by simp
  moreover have "join_connection (V\<lparr>je_chan := ?c\<rparr>) C A pin b joiner host = (Inr a, Status Authenticating # greeting host, x)"
    using v(1) x(1) by (simp add: join_connection_def opened J Let_def)
  ultimately show ?thesis
    using u(2) x(2) by (intro exI [of _ ?h] exI [of _ ?j]) simp
qed
text \<open>
  Property C6. Card setup works: when the PIN typed on one device is one of the two newest shown on the
  other, each device, fed the bytes the other writes, ends up with exactly the other's card, the host's
  claim names the joiner, and the host closes the connection without an error.
\<close>

theorem card_setup_completes:
  assumes laws: "setup_laws (at_host T) (je_host V) pins pw joiner host"
    and kdf: "derive_auth_key_material A pin = Some pw" and pw: "pw \<in> set (take PAKE_SLOTS pins)"
    and cards: "card_travels (he_codecs (at_host T)) C a" "card_travels (he_codecs (at_host T)) C b"
    and opened: "at_opened T = Done ()" "je_opened V = Done ()"
    and ends: "\<not> fin (at_chan T) \<and> tx (at_chan T) = [] \<and> 60000 \<le> wcap (at_chan T)"
      "\<not> fin (je_chan V) \<and> tx (je_chan V) = [] \<and> 60000 \<le> wcap (je_chan V)"
  shows "\<exists>to_host to_joiner.
     (case setup_attempt (T\<lparr>at_chan := (at_chan T)\<lparr>rx := to_host, rx_end := Eof\<rparr>\<rparr>) C a pins joiner host claim_default of
        (result, u, told, code) \<Rightarrow> result = Exchanged b \<and> held_by_node joiner (world u) \<and> tx u = to_joiner
           \<and> told = greeting joiner \<and> code = SHUTDOWN_CODE)
     \<and> (case join_connection (V\<lparr>je_chan := (je_chan V)\<lparr>rx := to_joiner, rx_end := Eof\<rparr>\<rparr>) C A pin b joiner host of
          (result, told, t) \<Rightarrow> result = Inr a \<and> tx t = to_host \<and> told = Status Authenticating # greeting host)"
  by (rule setup_completes [OF assms])

section \<open>Concrete sessions\<close>

definition setup_codecs :: codecs where
  "setup_codecs = (toy_pin_codecs [[9], [5]] [5])\<lparr>offer_codec :=
     table_codec [card_offer_new [123, 1000, 125], card_offer_new [123, 1001, 125]]\<rparr>"

definition setup_env :: host_env where
  "setup_env = \<lparr>he_codecs = setup_codecs, he_pake = toy_pake, he_rnd = id, he_dummy = (\<lambda>_. []),
     he_show = (\<lambda>n. map unat (node_bytes n)), he_nonce = [2], he_now = 2000\<rparr>"

definition demo_attempt :: attempt_env where
  "demo_attempt = \<lparr>at_host = setup_env, at_opened = Done (), at_chan = demo_claim_end,
     at_say_auth = (\<lambda>_. []), at_say_exchange = (\<lambda>_. [])\<rparr>"

definition demo_join :: join_env where
  "demo_join = \<lparr>je_lookup_cancelled = False, je_connect = Some (Inr (NodeId [4])), je_host = setup_env,
     je_opened = Done (), je_close = None,
     je_chan = \<lparr>rx = [], rx_end = Silent, tx = [], fin = False, wcap = 100000\<rparr>,
     je_say_pin = (\<lambda>_. []), je_say_exchange = (\<lambda>_. []), je_say_lookup = (\<lambda>_. [])\<rparr>"

lemma demo_setup_laws: "setup_laws setup_env setup_env [[9], [5]] [5] (NodeId [3]) (NodeId [4])"
  using toy_pin_laws [of "[[9], [5]]" "[5]"]
  by (simp add: setup_laws_def setup_env_def setup_codecs_def pin_laws_def)

lemma demo_cards_travel: "card_travels setup_codecs sample_crypto (sample_card 7)" "card_travels setup_codecs sample_crypto (sample_card 9)"
proof -
  have enc: "card_encode sample_crypto (sample_card 7) = [123, 1000, 125]"
    "card_encode sample_crypto (sample_card 9) = [123, 1001, 125]"
    by (simp_all add: card_encode_def sample_card_def sample_events)
  have p: "card_parse sample_crypto (card_encode sample_crypto (sample_card k)) = Inr (sample_card k)"
    if "k = 7 \<or> k = 9" for k
    by (rule card_wf_reparse) (use that sample_card_wf enc sample_from_json in
      \<open>auto simp: sample_card_def str_trim_def is_whitespace_def\<close>)
  then show "card_travels setup_codecs sample_crypto (sample_card 7)" "card_travels setup_codecs sample_crypto (sample_card 9)"
    using p [of 7] p [of 9] by (simp_all add: card_travels_def setup_codecs_def enc table_codec_at const_simps)
qed

lemma demo_kdf: "derive_auth_key_material toy_argon2 [5] = Some [5]"
  by (simp add: derive_auth_key_material_def argon2_key_def WORK_FACTORS_def toy_argon2_def)

lemma demo_setup_ends:
  "setup_laws (at_host demo_attempt) (je_host demo_join) [[9], [5]] [5] (NodeId [3]) (NodeId [4])"
  "[5] \<in> set (take PAKE_SLOTS [[9], [5]])"
  "card_travels (he_codecs (at_host demo_attempt)) sample_crypto (sample_card 7)"
  "card_travels (he_codecs (at_host demo_attempt)) sample_crypto (sample_card 9)"
  "at_opened demo_attempt = Done ()" "je_opened demo_join = Done ()"
  "\<not> fin (at_chan demo_attempt) \<and> tx (at_chan demo_attempt) = [] \<and> 60000 \<le> wcap (at_chan demo_attempt)"
  "\<not> fin (je_chan demo_join) \<and> tx (je_chan demo_join) = [] \<and> 60000 \<le> wcap (je_chan demo_join)"
  using demo_setup_laws demo_cards_travel
  by (simp_all add: demo_attempt_def demo_join_def demo_claim_end_def setup_env_def slots_two)

lemma card_setup_completes_witness:
  "\<exists>to_host. case setup_attempt (demo_attempt\<lparr>at_chan := (at_chan demo_attempt)\<lparr>rx := to_host, rx_end := Eof\<rparr>\<rparr>) sample_crypto
       (sample_card 7) [[9], [5]] (NodeId [3]) (NodeId [4]) claim_default of
     (result, u, told, code) \<Rightarrow> result = Exchanged (sample_card 9) \<and> held_by_node (NodeId [3]) (world u)"
  using card_setup_completes [OF demo_setup_ends(1) demo_kdf demo_setup_ends(2-8)]
  by (elim exE conjE) (auto simp: case_prod_beta)

text \<open>A host whose memory already holds two passwords meets a joiner that knows the older one.\<close>

definition demo_start :: setup_host where
  "demo_start = setup_start True (NodeId [4]) claim_default [[9], [5]]"

definition demo_params :: setup_params where
  "demo_params = \<lparr>sp_card = sample_card 7, sp_own = NodeId [4], sp_channel = LanOnly, sp_relays = []\<rparr>"

definition demo_mute :: sealing where "demo_mute = demo_sealing\<lparr>seckey_of := (\<lambda>_. None)\<rparr>"

abbreviation demo_step :: "setup_host \<Rightarrow> setup_host \<Rightarrow> bool" where
  "demo_step \<equiv> setup_step sample_crypto demo_mute toy_argon2 (table_codec []) demo_params"

lemma generate_pin_formats: "\<exists>d. format_pin (generate_pin rng) = Some d"
  using generate_pin_canonical [of rng] canonical_ascii [OF generate_pin_canonical]
  by (simp add: format_pin_def canonical_def const_simps slice_at_ascii)

lemma demo_exchange_run:
  "\<exists>s. demo_step\<^sup>*\<^sup>* demo_start s \<and> PeerCardReceived (sample_card 9) \<in> set (sh_events s)"
proof -
  note R = setup_completes [OF demo_setup_ends(1) demo_kdf demo_setup_ends(2-8)]
  from R obtain h where "case setup_attempt (demo_attempt\<lparr>at_chan := (at_chan demo_attempt)\<lparr>rx := h, rx_end := Eof\<rparr>\<rparr>)
       sample_crypto (sample_card 7) [[9], [5]] (NodeId [3]) (NodeId [4]) claim_default of
     (result, u, told, code) \<Rightarrow> result = Exchanged (sample_card 9)"
    by (elim exE conjE) (auto simp: case_prod_beta)
  then obtain T u told code where
    a: "setup_attempt T sample_crypto (sample_card 7) [[9], [5]] (NodeId [3]) (NodeId [4]) claim_default
      = (Exchanged (sample_card 9), u, told, code)"
    by (cases "setup_attempt (demo_attempt\<lparr>at_chan := (at_chan demo_attempt)\<lparr>rx := h, rx_end := Eof\<rparr>\<rparr>)
       sample_crypto (sample_card 7) [[9], [5]] (NodeId [3]) (NodeId [4]) claim_default") simp
  let ?a = "(sh_emit [Status Authenticating] demo_start)\<lparr>sh_phase := HostTaken (NodeId [3])\<rparr>"
  let ?b = "?a\<lparr>sh_phase := HostAuth (NodeId [3]) (sh_pins ?a)\<rparr>"
  let ?c = "settle T sample_crypto (sp_card demo_params) (sp_own demo_params) (NodeId [3]) (sh_pins ?a) [] ?b"
  have "demo_step demo_start ?a"
    by (rule setup_step.Taken) (simp_all add: demo_start_def setup_start_def serveable_def)
  moreover have "demo_step ?a ?b" by (rule setup_step.Snapshot) simp
  moreover have "demo_step ?b ?c" by (rule setup_step.Settled) simp
  moreover have "PeerCardReceived (sample_card 9) \<in> set (sh_events ?c)"
    using a by (simp add: settle_def demo_start_def setup_start_def demo_params_def)
  ultimately show ?thesis by (blast intro: rtranclp.intros)
qed

lemma card_setup_one_pairing_witness:
  "\<exists>s n. demo_step\<^sup>*\<^sup>* demo_start s \<and> stage_of s = Holds n (sample_card 9) \<and> held_by_node n (sh_claim s)"
proof -
  from demo_exchange_run obtain s where s: "demo_step\<^sup>*\<^sup>* demo_start s" "PeerCardReceived (sample_card 9) \<in> set (sh_events s)"
    by blast
  from card_setup_one_pairing [OF s(1) [unfolded demo_start_def]] s show ?thesis by blast
qed

definition demo_period :: period where
  "demo_period = \<lparr>pe_rng = (\<lambda>_. 0), pe_clock = Some 600, pe_now = 600, pe_addrs = demo_addrs, pe_derives = True,
     pe_accepts = (\<lambda>_. True), pe_bind = (\<lambda>_. True), pe_net = demo_net, pe_nonce = 0\<rparr>"

lemma refresh_revokes_witness:
  "\<exists>u es. demo_step\<^sup>*\<^sup>* (revoke_pins demo_start) u \<and> sh_events u = sh_events demo_start @ es
     \<and> sh_pins u = [utf8 (generate_pin (\<lambda>_. 0))] \<and> shown_pin toy_argon2 es (utf8 (generate_pin (\<lambda>_. 0)))"
proof -
  let ?p = "generate_pin (\<lambda>_. 0)"
  obtain d where d: "format_pin ?p = Some d" using generate_pin_formats by blast
  let ?a = "show_pin LanOnly demo_period (revoke_pins demo_start)"
  let ?b = "announce_pin sample_crypto demo_mute toy_argon2 (table_codec []) LanOnly [] (NodeId [4]) demo_period ?p
     (current_bucket (Some 600)) ?a"
  have ch: "sp_channel demo_params = LanOnly" "sp_relays demo_params = []" "sp_own demo_params = NodeId [4]"
    by (simp_all add: demo_params_def)
  have a: "sh_pub ?a = PubDeriving ?p (current_bucket (Some 600))" "sh_pins ?a = []"
    using d by (simp_all add: show_pin_def revoke_pins_def demo_start_def setup_start_def demo_period_def recent_clear_def Let_def)
  have "demo_step (revoke_pins demo_start) ?a"
    using setup_step.Shown [of "revoke_pins demo_start" sample_crypto demo_mute toy_argon2 "table_codec []" demo_params demo_period]
    by (simp add: ch) (simp add: revoke_pins_def)
  moreover have "demo_step ?a ?b"
    using setup_step.Announced [OF a(1), of sample_crypto demo_mute toy_argon2 "table_codec []" demo_params demo_period]
    by (simp add: ch)
  ultimately have run: "demo_step\<^sup>*\<^sup>* (revoke_pins demo_start) ?b" by (blast intro: rtranclp.intros)
  have "pin_keys demo_mute toy_argon2 p q = None" for p q
    by (simp add: pin_keys_def demo_mute_def split: option.split)
  then have pins: "sh_pins ?b = [utf8 ?p]"
    using a(2) by (simp add: announce_pin_def demo_period_def derive_auth_key_material_def argon2_key_def WORK_FACTORS_def
        toy_argon2_def Let_def recent_push_def pop_back_to_take const_simps)
  from refresh_revokes [OF run] pins run show ?thesis by auto
qed

lemma second_setup_shows_no_pin_witness:
  "\<exists>s. demo_step\<^sup>*\<^sup>* (setup_start True (NodeId [4]) \<lparr>pc_peer = Some \<lparr>cp_key = None, cp_node = Some (NodeId [3])\<rparr>, pc_paired = True\<rparr> []) s
     \<and> PinCleared \<in> set (sh_events s) \<and> (\<forall>d secs ip. PinRotated d secs ip \<notin> set (sh_events s))"
proof -
  let ?c = "\<lparr>pc_peer = Some \<lparr>cp_key = None, cp_node = Some (NodeId [3])\<rparr>, pc_paired = True\<rparr>"
  let ?s = "setup_start True (NodeId [4]) ?c []"
  let ?t = "show_pin LanOnly demo_period ?s"
  have "demo_step ?s ?t"
    using setup_step.Shown [of ?s sample_crypto demo_mute toy_argon2 "table_codec []" demo_params demo_period]
    by (simp add: demo_params_def) (simp add: setup_start_def)
  then have run: "demo_step\<^sup>*\<^sup>* ?s ?t" by blast
  have "PinCleared \<in> set (sh_events ?t)" by (simp add: show_pin_def setup_start_def pub_stop_def)
  with second_setup_shows_no_pin [OF run] run show ?thesis by (auto simp: held_by_node_def)
qed

end
