(* ===== verification/Config.thy ===== *)
theory Config
  imports Net Text Sample
begin

text \<open>
  Persistence of the desktop app: the configuration file and the credential store
  (\<open>duocb/src/config.rs\<close>, \<open>keychain.rs\<close>), startup recovery (\<open>recovery.rs\<close>) and the command line
  (\<open>main.rs\<close>). A save is a sequence of primitive operations on the store; a crash or an I/O error
  leaves the effect of a prefix of it.
\<close>

section \<open>The store\<close>

definition CONFIG_VERSION :: u32 where [const_simps]: "CONFIG_VERSION = 5"

text \<open>The configuration, and the part of it that serde writes to the file.\<close>

record config_file =
  cf_version :: u32
  cf_suffix :: ustring
  cf_name :: "ustring option"
  cf_card :: "ustring option"
  cf_peers :: "ustring list"

record config = config_file +
  cfg_secret :: ustring

definition public_part :: "config \<Rightarrow> config_file" where
  "public_part cfg = config_file.truncate cfg"

definition with_secret :: "config_file \<Rightarrow> ustring \<Rightarrow> config" where
  "with_secret f s = \<lparr>cf_version = cf_version f, cf_suffix = cf_suffix f, cf_name = cf_name f, cf_card = cf_card f,
     cf_peers = cf_peers f, cfg_secret = s\<rparr>"

record config_json =
  cj_ser :: "config_file \<Rightarrow> ustring option"
  cj_de :: "ustring \<Rightarrow> config_file option"

definition config_default :: "'z crypto_scheme \<Rightarrow> seckey \<Rightarrow> (nat \<Rightarrow> nat) \<Rightarrow> config" where
  "config_default C fresh rng =
     \<lparr>cf_version = CONFIG_VERSION, cf_suffix = generate_suffix rng, cf_name = None, cf_card = None, cf_peers = [],
      cfg_secret = to_nsec C (identity_generate fresh)\<rparr>"

text \<open>
  A file: whether only its owner may read it, whether its bytes are on the disk or still in the system's
  memory, and the bytes. \<open>Unreadable\<close> is a file whose reading errs.
\<close>

record file_meta =
  fm_private :: bool
  fm_flushed :: bool

datatype contents = Absent | Unreadable | File file_meta bytes

text \<open>The files beside each other and the credential filed under the config path; \<open>NoStore\<close> is a store that errs.\<close>

datatype credential = NoStore | NoEntry | Entry ustring

record disk =
  d_config :: contents
  d_temp :: contents
  d_broken :: contents
  d_key :: credential

datatype config_error =
  ReadingConfig
| ParsingConfig
| UnsupportedVersion u32
| ReadingKey
| KeyMissing
| InvalidKey auth_error
| InvalidSuffix
| InvalidName name_error
| InvalidCard auth_error
| CardMismatch
| NameWithoutCard
| TooManyPeers
| InvalidPeer auth_error
| PeerIsSelf
| DuplicatePeer
| SaveFailed
| MovingAside

section \<open>Loading\<close>

definition load_identity :: "credential \<Rightarrow> config_error + ustring option" where
  "load_identity k = (case k of NoStore \<Rightarrow> Inl ReadingKey | NoEntry \<Rightarrow> Inr None | Entry s \<Rightarrow> Inr (Some s))"

fun check_peers :: "'z crypto_scheme \<Rightarrow> pubkey \<Rightarrow> pubkey list \<Rightarrow> ustring list \<Rightarrow> config_error + unit" where
  "check_peers C me seen [] = Inr ()"
| "check_peers C me seen (encoded # es) =
     (case card_parse C encoded of
        Inl e \<Rightarrow> Inl (InvalidPeer e)
      | Inr crd \<Rightarrow>
          (if card_public_key crd = me then Inl PeerIsSelf
           else if List.member seen (card_public_key crd) then Inl DuplicatePeer
           else check_peers C me (card_public_key crd # seen) es))"

definition check_name ::
    "'z crypto_scheme \<Rightarrow> identity \<Rightarrow> ustring \<Rightarrow> ustring option \<Rightarrow> ustring option \<Rightarrow> config_error + unit" where
  "check_name C i suffix my_name self_card =
     (case (my_name, self_card) of
        (None, None) \<Rightarrow> Inr ()
      | (Some name, Some encoded) \<Rightarrow>
          (case validate_name name of
             Inl e \<Rightarrow> Inl (InvalidName e)
           | Inr _ \<Rightarrow>
               (case card_parse C encoded of
                  Inl e \<Rightarrow> Inl (InvalidCard e)
                | Inr crd \<Rightarrow>
                    (if card_public_key crd \<noteq> identity_public C i \<or> card_name crd \<noteq> display_identity name suffix
                     then Inl CardMismatch else Inr ())))
      | _ \<Rightarrow> Inl NameWithoutCard)"

definition check_config :: "'z crypto_scheme \<Rightarrow> config \<Rightarrow> config_error + unit" where
  "check_config C cfg =
     (case parse_nsec C (cfg_secret cfg) of
        Inl e \<Rightarrow> Inl (InvalidKey e)
      | Inr i \<Rightarrow>
          (if \<not> is_valid_suffix (cf_suffix cfg) then Inl InvalidSuffix
           else case check_name C i (cf_suffix cfg) (cf_name cfg) (cf_card cfg) of
             Inl e \<Rightarrow> Inl e
           | Inr _ \<Rightarrow>
               (if length (cf_peers cfg) > MAX_TRUSTED_PEERS then Inl TooManyPeers
                else check_peers C (identity_public C i) [] (cf_peers cfg))))"

definition load_config ::
    "'z crypto_scheme \<Rightarrow> config_json \<Rightarrow> seckey \<Rightarrow> (nat \<Rightarrow> nat) \<Rightarrow> disk \<Rightarrow> config_error + config" where
  "load_config C J fresh rng d =
     (case d_config d of
        Absent \<Rightarrow> Inr (config_default C fresh rng)
      | Unreadable \<Rightarrow> Inl ReadingConfig
      | File _ bytes \<Rightarrow>
          (case utf8_decode bytes of
             None \<Rightarrow> Inl ReadingConfig
           | Some content \<Rightarrow>
               (case cj_de J content of
                  None \<Rightarrow> Inl ParsingConfig
                | Some f \<Rightarrow>
                    (if cf_version f \<noteq> CONFIG_VERSION then Inl (UnsupportedVersion (cf_version f))
                     else case load_identity (d_key d) of
                       Inl e \<Rightarrow> Inl e
                     | Inr None \<Rightarrow> Inl KeyMissing
                     | Inr (Some s) \<Rightarrow>
                         (case check_config C (with_secret f s) of
                            Inl e \<Rightarrow> Inl e
                          | Inr _ \<Rightarrow> Inr (with_secret f s))))))"

section \<open>Saving\<close>

text \<open>What the file operations do to one file; permissions outlive the content.\<close>

definition truncate_file :: "contents \<Rightarrow> contents" where
  "truncate_file c = (case c of File k _ \<Rightarrow> File (k\<lparr>fm_flushed := False\<rparr>) [] | _ \<Rightarrow> File \<lparr>fm_private = False, fm_flushed = False\<rparr> [])"

definition restrict_to_owner :: "contents \<Rightarrow> contents" where
  "restrict_to_owner c = (case c of File k bs \<Rightarrow> File (k\<lparr>fm_private := True\<rparr>) bs | _ \<Rightarrow> c)"

definition append_byte :: "byte \<Rightarrow> contents \<Rightarrow> contents" where
  "append_byte b c = (case c of File k bs \<Rightarrow> File (k\<lparr>fm_flushed := False\<rparr>) (bs @ [b]) | _ \<Rightarrow> c)"

definition sync_all :: "contents \<Rightarrow> contents" where
  "sync_all c = (case c of File k bs \<Rightarrow> File (k\<lparr>fm_flushed := True\<rparr>) bs | _ \<Rightarrow> c)"

lemmas file_ops = truncate_file_def restrict_to_owner_def append_byte_def sync_all_def

datatype disk_op = SetKey ustring | TruncateTemp | RestrictTemp | AppendTemp byte | FlushTemp | RenameTemp | MoveAside

definition apply_op :: "disk_op \<Rightarrow> disk \<Rightarrow> disk" where
  "apply_op p d =
     (case p of
        SetKey s \<Rightarrow> d\<lparr>d_key := Entry s\<rparr>
      | TruncateTemp \<Rightarrow> d\<lparr>d_temp := truncate_file (d_temp d)\<rparr>
      | RestrictTemp \<Rightarrow> d\<lparr>d_temp := restrict_to_owner (d_temp d)\<rparr>
      | AppendTemp b \<Rightarrow> d\<lparr>d_temp := append_byte b (d_temp d)\<rparr>
      | FlushTemp \<Rightarrow> d\<lparr>d_temp := sync_all (d_temp d)\<rparr>
      | RenameTemp \<Rightarrow> (if d_temp d = Absent then d else d\<lparr>d_config := d_temp d, d_temp := Absent\<rparr>)
      | MoveAside \<Rightarrow> (if d_config d = Absent then d else d\<lparr>d_broken := d_config d, d_config := Absent\<rparr>))"

definition apply_ops :: "disk_op list \<Rightarrow> disk \<Rightarrow> disk" where
  "apply_ops ops d = fold apply_op ops d"

definition write_private_file :: "bytes \<Rightarrow> disk_op list" where
  "write_private_file content = TruncateTemp # RestrictTemp # map AppendTemp content @ [FlushTemp]"

definition save_ops :: "config_json \<Rightarrow> config \<Rightarrow> disk_op list" where
  "save_ops J cfg =
     SetKey (cfg_secret cfg) #
       (case cj_ser J (public_part cfg) of
          None \<Rightarrow> []
        | Some content \<Rightarrow> write_private_file (utf8 content) @ [RenameTemp])"

text \<open>\<open>done\<close> counts the operations that succeed before one fails.\<close>

definition save_config :: "config_json \<Rightarrow> config \<Rightarrow> nat \<Rightarrow> disk \<Rightarrow> (config_error + unit) \<times> disk" where
  "save_config J cfg completed d =
     (if cj_ser J (public_part cfg) \<noteq> None \<and> length (save_ops J cfg) \<le> completed then Inr () else Inl SaveFailed,
      apply_ops (take completed (save_ops J cfg)) d)"

definition reset_config ::
    "'z crypto_scheme \<Rightarrow> config_json \<Rightarrow> seckey \<Rightarrow> (nat \<Rightarrow> nat) \<Rightarrow> nat \<Rightarrow> disk \<Rightarrow> (config_error + config) \<times> disk" where
  "reset_config C J fresh rng completed d =
     (if completed = 0 then (Inl MovingAside, d)
      else let cfg = config_default C fresh rng in
        case save_config J cfg (completed - 1) (apply_op MoveAside d) of
          (Inl e, d') \<Rightarrow> (Inl e, d')
        | (Inr _, d') \<Rightarrow> (Inr cfg, d'))"

text \<open>
  The recovery window: a list of answers (reset or quit), each reset with its fresh draws and how far it
  gets. The end of the list is the closed window.
\<close>

record reset_try =
  rt_fresh :: seckey
  rt_rng :: "nat \<Rightarrow> nat"
  rt_completed :: nat

fun recover ::
    "'z crypto_scheme \<Rightarrow> config_json \<Rightarrow> reset_try option list \<Rightarrow> disk \<Rightarrow> config option \<times> disk" where
  "recover C J [] d = (None, d)"
| "recover C J (None # answers) d = (None, d)"
| "recover C J (Some t # answers) d =
     (case reset_config C J (rt_fresh t) (rt_rng t) (rt_completed t) d of
        (Inr cfg, d') \<Rightarrow> (Some cfg, d')
      | (Inl e, d') \<Rightarrow> recover C J answers d')"

section \<open>What a loaded configuration satisfies\<close>

definition peers_ok :: "'z crypto_scheme \<Rightarrow> pubkey \<Rightarrow> ustring list \<Rightarrow> bool" where
  "peers_ok C me es \<longleftrightarrow>
     (\<exists>cs. traverse (card_parse C) es = Inr cs \<and> distinct (map card_public_key cs) \<and> me \<notin> card_public_key ` set cs)"

definition name_ok :: "'z crypto_scheme \<Rightarrow> identity \<Rightarrow> ustring \<Rightarrow> ustring option \<Rightarrow> ustring option \<Rightarrow> bool" where
  "name_ok C i suffix my_name self_card \<longleftrightarrow>
     (my_name = None \<and> self_card = None)
     \<or> (\<exists>name encoded crd. my_name = Some name \<and> self_card = Some encoded \<and> validate_name name = Inr ()
         \<and> card_parse C encoded = Inr crd \<and> card_public_key crd = identity_public C i
         \<and> card_name crd = display_identity name suffix)"

definition config_ok :: "'z crypto_scheme \<Rightarrow> config \<Rightarrow> bool" where
  "config_ok C cfg \<longleftrightarrow>
     cf_version cfg = CONFIG_VERSION
     \<and> (\<exists>i. parse_nsec C (cfg_secret cfg) = Inr i \<and> is_valid_suffix (cf_suffix cfg)
         \<and> name_ok C i (cf_suffix cfg) (cf_name cfg) (cf_card cfg)
         \<and> length (cf_peers cfg) \<le> MAX_TRUSTED_PEERS \<and> peers_ok C (identity_public C i) (cf_peers cfg))"

lemma check_peers_iff:
  "check_peers C me seen es = Inr () \<longleftrightarrow>
     (\<exists>cs. traverse (card_parse C) es = Inr cs \<and> distinct (map card_public_key cs) \<and> me \<notin> card_public_key ` set cs
        \<and> card_public_key ` set cs \<inter> set seen = {})"
proof (induction es arbitrary: seen)
  case (Cons e es)
  show ?case
  proof (cases "card_parse C e")
    case (Inr crd)
    show ?thesis
      by (cases "traverse (card_parse C) es") (auto simp: Inr Cons.IH)
  qed simp
qed simp

lemma check_name_iff: "check_name C i suffix n c = Inr () \<longleftrightarrow> name_ok C i suffix n c"
  by (cases n; cases c) (auto simp: check_name_def name_ok_def split: sum.splits)

lemma check_config_iff: "cf_version cfg = CONFIG_VERSION \<Longrightarrow> check_config C cfg = Inr () \<longleftrightarrow> config_ok C cfg"
  by (auto simp: check_config_def config_ok_def check_name_iff [symmetric] check_peers_iff peers_ok_def split: sum.splits)

lemma with_secret_simps [simp]:
  "public_part (with_secret f s) = f" "cfg_secret (with_secret f s) = s" "with_secret (public_part cfg) (cfg_secret cfg) = cfg"
  "cf_version (with_secret f s) = cf_version f" "cf_version (public_part cfg) = cf_version cfg"
  by (simp_all add: public_part_def with_secret_def config_file.truncate_def)

text \<open>serde_json at one configuration: it serialises to text that reads back.\<close>

definition json_at :: "config_json \<Rightarrow> config_file \<Rightarrow> bool" where
  "json_at J f \<longleftrightarrow> (case cj_ser J f of None \<Rightarrow> False | Some t \<Rightarrow> valid_text t \<and> cj_de J t = Some f)"

lemma load_file:
  assumes "json_at J (public_part cfg)" "cj_ser J (public_part cfg) = Some t" "config_ok C cfg"
    and "d_config d = File k (utf8 t)" "d_key d = Entry (cfg_secret cfg)"
  shows "load_config C J fresh rng d = Inr cfg"
proof -
  have v: "cf_version cfg = CONFIG_VERSION" using assms(3) by (simp add: config_ok_def)
  have "check_config C cfg = Inr ()" using check_config_iff [OF v] assms(3) by blast
  with assms v show ?thesis by (simp add: load_config_def json_at_def utf8_decode_utf8 load_identity_def)
qed

lemma load_InrD:
  assumes "load_config C J fresh rng d = Inr cfg" and "d_config d \<noteq> Absent"
  shows "\<exists>k bytes t. d_config d = File k bytes \<and> utf8_decode bytes = Some t \<and> cj_de J t = Some (public_part cfg)
     \<and> d_key d = Entry (cfg_secret cfg) \<and> config_ok C cfg"
proof (cases "d_config d")
  case (File k bytes)
  with assms obtain t f s where t: "utf8_decode bytes = Some t" "cj_de J t = Some f" "cf_version f = CONFIG_VERSION"
    "d_key d = Entry s" "check_config C (with_secret f s) = Inr ()" "cfg = with_secret f s"
    by (auto simp: load_config_def load_identity_def split: option.splits if_splits sum.splits credential.splits)
  have "config_ok C cfg" using check_config_iff [of cfg C] t by simp
  with t File show ?thesis by simp
qed (use assms in \<open>auto simp: load_config_def\<close>)

lemma load_same:
  assumes "d_config a = d_config b" "d_key a = d_key b"
  shows "load_config C J fresh rng a = load_config C J fresh rng b"
  unfolding load_config_def assms ..

section \<open>Crashes\<close>

lemma apply_append: "apply_ops (xs @ ys) d = apply_ops ys (apply_ops xs d)"
  by (simp add: apply_ops_def)

definition kept_file :: file_meta where "kept_file = \<lparr>fm_private = True, fm_flushed = True\<rparr>"

text \<open>A temporary file as a save leaves it on the way: empty, or readable by its owner only.\<close>

definition staged_file :: "contents \<Rightarrow> bool" where
  "staged_file c = (case c of File k bs \<Rightarrow> bs = [] \<or> fm_private k | _ \<Rightarrow> False)"

lemma append_temp:
  assumes "d_temp d = File k pre"
  shows "\<exists>k'. apply_ops (map AppendTemp bs) d = d\<lparr>d_temp := File k' (pre @ bs)\<rparr> \<and> fm_private k' = fm_private k"
  using assms
proof (induction bs arbitrary: d k pre)
  case Nil
  then have "d = d\<lparr>d_temp := File k pre\<rparr>" by simp
  then show ?case by (auto simp: apply_ops_def)
next
  case (Cons b bs)
  let ?d = "d\<lparr>d_temp := File (k\<lparr>fm_flushed := False\<rparr>) (pre @ [b])\<rparr>"
  have "apply_op (AppendTemp b) d = ?d" using Cons.prems by (simp add: apply_op_def append_byte_def)
  with Cons.IH [of ?d] show ?case by (auto simp: apply_ops_def)
qed

lemma write_parts:
  "take (Suc (Suc n)) (write_private_file bs) = [TruncateTemp, RestrictTemp] @ map AppendTemp (take n bs) @ take (n - length bs) [FlushTemp]"
  by (simp add: write_private_file_def take_map)

lemma write_prefix:
  assumes "0 < k"
  shows "\<exists>c. apply_ops (take k (write_private_file bs)) d = d\<lparr>d_temp := c\<rparr> \<and> staged_file c
     \<and> (length bs + 2 < k \<longrightarrow> c = File kept_file bs)"
proof -
  obtain m where m: "truncate_file (d_temp d) = File m []" by (cases "d_temp d") (auto simp: truncate_file_def)
  show ?thesis
  proof (cases "k = 1")
    case True
    then show ?thesis
      by (intro exI [of _ "File m []"]) (simp add: write_private_file_def apply_ops_def apply_op_def staged_file_def m)
  next
    case False
    with assms obtain n where n: "k = Suc (Suc n)" by (metis One_nat_def gr0_implies_Suc not0_implies_Suc)
    let ?d = "d\<lparr>d_temp := File (m\<lparr>fm_private := True\<rparr>) []\<rparr>"
    from append_temp [of ?d "m\<lparr>fm_private := True\<rparr>" "[]" "take n bs"] obtain j where
      j: "apply_ops (map AppendTemp (take n bs)) ?d = d\<lparr>d_temp := File j (take n bs)\<rparr>" "fm_private j" by auto
    have "apply_ops (take k (write_private_file bs)) d
        = apply_ops (take (n - length bs) [FlushTemp]) (d\<lparr>d_temp := File j (take n bs)\<rparr>)"
      unfolding n write_parts by (simp add: apply_append j(1) m [unfolded truncate_file_def] file_ops)
        (simp add: apply_ops_def apply_op_def restrict_to_owner_def m j(1) [unfolded apply_ops_def])
    then show ?thesis using j(2) n
      by (cases "n - length bs") (auto simp: apply_ops_def apply_op_def sync_all_def staged_file_def kept_file_def)
  qed
qed

text \<open>After a prefix: nothing, the key and some of the temporary file, or everything.\<close>

lemma save_steps:
  assumes "cj_ser J (public_part cfg) = Some t"
  shows "length (save_ops J cfg) = length (utf8 t) + 5"
  using assms by (simp add: save_ops_def write_private_file_def)

lemma save_prefix:
  assumes "cj_ser J (public_part cfg) = Some t" "0 < k"
  shows "k < length (save_ops J cfg) \<Longrightarrow>
      \<exists>c. apply_ops (take k (save_ops J cfg)) d = d\<lparr>d_key := Entry (cfg_secret cfg), d_temp := c\<rparr> \<and> (c = d_temp d \<or> staged_file c)"
    and "length (save_ops J cfg) \<le> k \<Longrightarrow> apply_ops (take k (save_ops J cfg)) d
      = d\<lparr>d_key := Entry (cfg_secret cfg), d_config := File kept_file (utf8 t), d_temp := Absent\<rparr>"
proof -
  let ?k = "d\<lparr>d_key := Entry (cfg_secret cfg)\<rparr>" and ?w = "write_private_file (utf8 t)"
  have ops: "save_ops J cfg = SetKey (cfg_secret cfg) # ?w @ [RenameTemp]" using assms(1) by (simp add: save_ops_def)
  have len: "length ?w = length (utf8 t) + 3" by (simp add: write_private_file_def)
  obtain n where n: "k = Suc n" using assms(2) by (metis gr0_implies_Suc)
  have step: "apply_ops (take k (save_ops J cfg)) d = apply_ops (take n (?w @ [RenameTemp])) ?k"
    by (simp add: ops n apply_ops_def apply_op_def)
  show "\<exists>c. apply_ops (take k (save_ops J cfg)) d = d\<lparr>d_key := Entry (cfg_secret cfg), d_temp := c\<rparr> \<and> (c = d_temp d \<or> staged_file c)"
    if "k < length (save_ops J cfg)"
  proof (cases "n = 0")
    case True
    then have "apply_ops (take k (save_ops J cfg)) d = ?k\<lparr>d_temp := d_temp d\<rparr>" using step by (simp add: apply_ops_def)
    then show ?thesis by (intro exI [of _ "d_temp d"]) simp
  next
    case False
    with that have "take n (?w @ [RenameTemp]) = take n ?w" by (simp add: ops n)
    with step write_prefix [of n "utf8 t" ?k] False show ?thesis by auto
  qed
  show "apply_ops (take k (save_ops J cfg)) d
      = d\<lparr>d_key := Entry (cfg_secret cfg), d_config := File kept_file (utf8 t), d_temp := Absent\<rparr>"
    if "length (save_ops J cfg) \<le> k"
  proof -
    have "apply_ops ?w ?k = ?k\<lparr>d_temp := File kept_file (utf8 t)\<rparr>"
      using write_prefix [of "length ?w" "utf8 t" ?k] len by auto
    moreover have "take n (?w @ [RenameTemp]) = ?w @ [RenameTemp]" using that by (simp add: ops n)
    ultimately show ?thesis using step by (simp add: apply_append) (simp add: apply_ops_def apply_op_def)
  qed
qed

text \<open>
  Property C11. A save is all or nothing for the file and never loses the key. Cut it at any point: the
  configuration file is the old one, byte for byte, until the save is complete, and from then on the
  store loads as exactly the new configuration; and when the key does not change, what the next launch
  loads is the old configuration or the new one, with nothing in between. The new file comes into place
  with its bytes flushed and readable by its owner only, and no byte of it is ever in a temporary file
  that others can read.
\<close>

theorem save_survives_crash:
  assumes new: "config_ok C new" "json_at J (public_part new)"
  shows "let d' = apply_ops (take k (save_ops J new)) d in
     (if k < length (save_ops J new) then d_config d' = d_config d
       else load_config C J fresh rng d' = Inr new \<and> fst (save_config J new k d) = Inr ())
     \<and> d_broken d' = d_broken d
     \<and> (d_key d = Entry (cfg_secret new) \<longrightarrow>
          load_config C J fresh rng d' \<in> {load_config C J fresh rng d, Inr new})
     \<and> (case d_config d' of File m bs \<Rightarrow> d_config d' = d_config d \<or> fm_private m \<and> fm_flushed m | c \<Rightarrow> c = d_config d)
     \<and> (case d_temp d' of File m bs \<Rightarrow> d_temp d' = d_temp d \<or> bs = [] \<or> fm_private m | _ \<Rightarrow> True)"
proof -
  let ?d = "apply_ops (take k (save_ops J new)) d"
  from new(2) obtain t where t: "cj_ser J (public_part new) = Some t" by (auto simp: json_at_def split: option.splits)
  have len: "0 < length (save_ops J new)" using save_steps [OF t] by simp
  have early: "\<exists>c. ?d = d\<lparr>d_key := d_key ?d, d_temp := c\<rparr> \<and> (k \<noteq> 0 \<longrightarrow> d_key ?d = Entry (cfg_secret new))
      \<and> (k = 0 \<longrightarrow> ?d = d) \<and> (c = d_temp d \<or> staged_file c)" if cut: "k < length (save_ops J new)"
  proof (cases "k = 0")
    case True
    then have "?d = d" by (simp add: apply_ops_def)
    then show ?thesis using True by (intro exI [of _ "d_temp d"]) simp
  next
    case False
    then obtain c where "?d = d\<lparr>d_key := Entry (cfg_secret new), d_temp := c\<rparr>" "c = d_temp d \<or> staged_file c"
      using save_prefix(1) [OF t _ cut, of d] by blast
    with False show ?thesis by (intro exI [of _ c]) simp
  qed
  have late: "?d = d\<lparr>d_key := Entry (cfg_secret new), d_config := File kept_file (utf8 t), d_temp := Absent\<rparr>"
    if "length (save_ops J new) \<le> k"
    using save_prefix(2) [OF t _ that, of d] that len by simp
  have full: "load_config C J fresh rng ?d = Inr new" "fst (save_config J new k d) = Inr ()" if "length (save_ops J new) \<le> k"
    using late [OF that] load_file [OF new(2) t new(1), of ?d kept_file] that t by (simp_all add: save_config_def)
  show ?thesis
  proof (cases "k < length (save_ops J new)")
    case True
    then obtain c where c: "?d = d\<lparr>d_key := d_key ?d, d_temp := c\<rparr>" "k \<noteq> 0 \<longrightarrow> d_key ?d = Entry (cfg_secret new)"
      "k = 0 \<longrightarrow> ?d = d" "c = d_temp d \<or> staged_file c" using early by blast
    have parts: "d_config ?d = d_config d" "d_broken ?d = d_broken d" "d_temp ?d = c" by (subst c(1), simp)+
    have "load_config C J fresh rng ?d = load_config C J fresh rng d" if "d_key d = Entry (cfg_secret new)"
      using that parts(1) c(2,3) by (intro load_same) auto
    then show ?thesis using True parts c(4) by (auto simp: Let_def staged_file_def split: contents.splits)
  next
    case False
    then have "length (save_ops J new) \<le> k" by simp
    from full [OF this] late [OF this] False show ?thesis by (simp add: Let_def kept_file_def)
  qed
qed

text \<open>
  A crash while the identity changes is not recoverable by itself. When a configuration
  with a card is stored and a save under another identity is cut after the credential is written and
  before the file is replaced, the next launch fails on the mismatch between the card and the key.
\<close>

theorem crash_between_key_and_file:
  assumes old: "load_config C J fresh rng d = Inr old" "d_config d \<noteq> Absent" "cf_card old \<noteq> None"
    and key: "parse_nsec C (cfg_secret old) = Inr i" "parse_nsec C (cfg_secret new) = Inr j"
      "identity_public C i \<noteq> identity_public C j"
    and cut: "0 < k" "k < length (save_ops J new)" "cj_ser J (public_part new) \<noteq> None"
  shows "load_config C J fresh' rng' (apply_ops (take k (save_ops J new)) d) = Inl CardMismatch"
proof -
  let ?d = "apply_ops (take k (save_ops J new)) d"
  from cut(3) obtain t where "cj_ser J (public_part new) = Some t" by blast
  from save_prefix(1) [OF this cut(1,2), of d] have d': "d_config ?d = d_config d" "d_key ?d = Entry (cfg_secret new)" by auto
  from load_InrD [OF old(1,2)] obtain k bytes u where f: "d_config d = File k bytes" "utf8_decode bytes = Some u"
    "cj_de J u = Some (public_part old)" "config_ok C old" by blast
  from f(4) key(1) old(3) obtain name encoded crd where n: "cf_name old = Some name" "cf_card old = Some encoded"
    "validate_name name = Inr ()" "card_parse C encoded = Inr crd" "card_public_key crd = identity_public C i"
    "cf_version old = CONFIG_VERSION" "is_valid_suffix (cf_suffix old)"
    by (auto simp: config_ok_def name_ok_def)
  have w: "cf_name (with_secret (public_part old) s) = cf_name old" "cf_card (with_secret (public_part old) s) = cf_card old"
    "cf_suffix (with_secret (public_part old) s) = cf_suffix old" for s
    by (simp_all add: with_secret_def public_part_def config_file.truncate_def)
  have "check_config C (with_secret (public_part old) (cfg_secret new)) = Inl CardMismatch"
    using n key by (simp add: check_config_def w check_name_def)
  with d' f n show ?thesis by (simp add: load_config_def load_identity_def)
qed

text \<open>A table in place of serde_json, and two configurations of it, for the witnesses.\<close>

definition table_json :: "config_file list \<Rightarrow> config_json" where
  "table_json fs =
     \<lparr>cj_ser = (\<lambda>f. map_option (\<lambda>i. [i]) (index_of f fs)),
      cj_de = (\<lambda>s. case s of [i] \<Rightarrow> if i < length fs then Some (fs ! i) else None | _ \<Rightarrow> None)\<rparr>"

definition sample_config :: "byte \<Rightarrow> nat \<Rightarrow> nat \<Rightarrow> config" where
  "sample_config k own peer =
     \<lparr>cf_version = CONFIG_VERSION, cf_suffix = [50, 51, 52, 53, 54, 55, 56, 57], cf_name = Some [97],
      cf_card = Some [123, own, 125], cf_peers = [[123, peer, 125]],
      cfg_secret = [110, 115, 101, 99, 49, 256 + unat k]\<rparr>"

definition sample_json :: config_json where
  "sample_json = table_json [public_part (sample_config 7 1000 1001), public_part (sample_config 9 1001 1000)]"

definition sample_disk :: disk where
  "sample_disk = \<lparr>d_config = File kept_file [0], d_temp = Absent, d_broken = Absent,
     d_key = Entry (cfg_secret (sample_config 7 1000 1001))\<rparr>"

lemma sample_config_parts:
  "parse_nsec sample_crypto (cfg_secret (sample_config 7 1000 1001)) = Inr \<lparr>secret = [7]\<rparr>"
  "parse_nsec sample_crypto (cfg_secret (sample_config 9 1001 1000)) = Inr \<lparr>secret = [9]\<rparr>"
proof -
  have "\<not> is_whitespace 110" "\<not> is_whitespace 115" "\<not> is_whitespace 101" "\<not> is_whitespace 99"
    "\<not> is_whitespace 49" "\<not> is_whitespace 263" "\<not> is_whitespace 265"
    by (simp_all add: is_whitespace_def)
  then show "parse_nsec sample_crypto (cfg_secret (sample_config 7 1000 1001)) = Inr \<lparr>secret = [7]\<rparr>"
    "parse_nsec sample_crypto (cfg_secret (sample_config 9 1001 1000)) = Inr \<lparr>secret = [9]\<rparr>"
    by (simp_all add: parse_nsec_def sample_config_def sample_crypto_def toy_crypto_def ascii_def)
qed

lemma sample_config_ok:
  "config_ok sample_crypto (sample_config 7 1000 1001)" "config_ok sample_crypto (sample_config 9 1001 1000)"
proof -
  have name: "validate_name [97] = Inr ()"
    by (simp add: validate_name_def name_char_def is_ascii_alphanumeric_def const_simps)
  have suffix: "is_valid_suffix [50, 51, 52, 53, 54, 55, 56, 57]"
    by (simp add: is_valid_suffix_def alphanum_values const_simps)
  have dn: "display_identity [97] [50, 51, 52, 53, 54, 55, 56, 57] = sample_name"
    by (simp add: display_identity_def sample_name_def const_simps)
  have c: "card_public_key (sample_card k) = PublicKey [k]" "card_name (sample_card k) = sample_name" for k
    by (simp_all add: card_public_key_def sample_card_def sample_event_def)
  have i: "identity_public sample_crypto \<lparr>secret = k\<rparr> = PublicKey k" for k
    by (simp add: identity_public_def sample_crypto_def toy_crypto_def)
  show "config_ok sample_crypto (sample_config 7 1000 1001)" "config_ok sample_crypto (sample_config 9 1001 1000)"
    unfolding config_ok_def sample_config_parts
    by (simp_all add: sample_config_def name_ok_def peers_ok_def sample_card_text name suffix dn c i const_simps)
qed

lemma sample_json_at:
  "cj_ser sample_json (public_part (sample_config 7 1000 1001)) = Some [0]"
  "cj_ser sample_json (public_part (sample_config 9 1001 1000)) = Some [Suc 0]"
  "cj_de sample_json [0] = Some (public_part (sample_config 7 1000 1001))"
  "cj_de sample_json [Suc 0] = Some (public_part (sample_config 9 1001 1000))"
  by (simp_all add: sample_json_def table_json_def sample_config_def public_part_def config_file.truncate_def)

lemma sample_disk_loads: "load_config sample_crypto sample_json fresh rng sample_disk = Inr (sample_config 7 1000 1001)"
  by (rule load_file [where t = "[0]"])
    (simp_all add: json_at_def sample_json_at sample_config_ok sample_disk_def valid_text_def valid_scalar_def)

lemma save_survives_crash_witness:
  "fst (save_config sample_json (sample_config 9 1001 1000) 6 sample_disk) = Inr ()
   \<and> d_config (apply_ops (take 5 (save_ops sample_json (sample_config 9 1001 1000))) sample_disk) = File kept_file [0]"
proof -
  let ?new = "sample_config 9 1001 1000"
  have l: "length (save_ops sample_json ?new) = 6"
    using save_steps [OF sample_json_at(2)] by simp
  have j: "json_at sample_json (public_part ?new)"
    by (simp add: json_at_def sample_json_at valid_text_def valid_scalar_def)
  show ?thesis
    using save_survives_crash [OF sample_config_ok(2) j, of 6 sample_disk]
      save_survives_crash [OF sample_config_ok(2) j, of 5 sample_disk]
    by (simp add: l Let_def sample_disk_def)
qed

lemma crash_between_key_and_file_witness:
  "load_config sample_crypto sample_json [] id
     (apply_ops (take 1 (save_ops sample_json (sample_config 9 1001 1000))) sample_disk) = Inl CardMismatch"
  by (rule crash_between_key_and_file [OF sample_disk_loads [of "[]" id] _ _ sample_config_parts])
    (simp_all add: sample_disk_def sample_config_def [of 7] identity_public_def sample_crypto_def toy_crypto_def
      sample_json_at save_steps [OF sample_json_at(2)])

section \<open>Starting over\<close>

lemma default_ok:
  assumes "parse_nsec C (to_nsec C (identity_generate fresh)) = Inr i" and "\<And>n. rng n < 56"
  shows "config_ok C (config_default C fresh rng)"
  using assms generate_suffix_valid [of rng]
  by (simp add: config_ok_def config_default_def name_ok_def peers_ok_def const_simps)

text \<open>A reset that completes keeps the old file aside and leaves a store that loads.\<close>

lemma reset_keeps_old_file:
  assumes "reset_config C J fresh rng k d = (Inr cfg, d')"
    and "parse_nsec C (to_nsec C (identity_generate fresh)) = Inr i" "\<And>n. rng n < 56"
    and "json_at J (public_part (config_default C fresh rng))"
  shows "load_config C J fresh' rng' d' = Inr cfg \<and> (d_config d \<noteq> Absent \<longrightarrow> d_broken d' = d_config d)"
proof -
  let ?cfg = "config_default C fresh rng"
  from assms(4) obtain t where t: "cj_ser J (public_part ?cfg) = Some t" by (auto simp: json_at_def split: option.splits)
  from assms(1) have k: "cfg = ?cfg" "d' = apply_ops (take (k - 1) (save_ops J ?cfg)) (apply_op MoveAside d)"
    "length (save_ops J ?cfg) \<le> k - 1"
    by (auto simp: reset_config_def save_config_def Let_def split: if_splits)
  moreover from k(3) have "0 < k - 1" using save_steps [OF t] by simp
  ultimately have d': "d' = (apply_op MoveAside d)
      \<lparr>d_key := Entry (cfg_secret ?cfg), d_config := File kept_file (utf8 t), d_temp := Absent\<rparr>"
    using save_prefix(2) [OF t, of "k - 1" "apply_op MoveAside d"] by simp
  have "load_config C J fresh' rng' d' = Inr ?cfg"
    by (rule load_file [OF assms(4) t default_ok [OF assms(2,3)]]) (simp_all add: d')
  moreover have "d_config d \<noteq> Absent \<longrightarrow> d_broken d' = d_config d" by (simp add: d' apply_op_def)
  ultimately show ?thesis using k(1) by simp
qed

lemma recover_quit: "recover C J answers d = (None, d') \<Longrightarrow> \<forall>a \<in> set answers. a = None \<Longrightarrow> d' = d"
  by (cases answers) auto

section \<open>The command line\<close>

text \<open>An argument is text or, on Unix, bytes that are not UTF-8; the latter matches no flag.\<close>

datatype os_string = Utf8 ustring | NotUtf8 bytes

datatype cli_error = ConfigNeedsPath | BothChannels

record cli =
  cli_config :: "os_string option"
  cli_channel :: signal_channel

definition os_empty :: "os_string \<Rightarrow> bool" where
  "os_empty a \<longleftrightarrow> (case a of Utf8 s \<Rightarrow> s = [] | NotUtf8 b \<Rightarrow> b = [])"

definition config_eq :: ustring where "config_eq = ascii ''--config=''"

fun parse_loop ::
    "os_string list \<Rightarrow> os_string option \<Rightarrow> bool \<Rightarrow> bool \<Rightarrow> cli_error + (os_string option \<times> bool \<times> bool)" where
  "parse_loop [] config lan_only nostr_only = Inr (config, lan_only, nostr_only)"
| "parse_loop (arg # args) config lan_only nostr_only =
     (if arg = Utf8 (ascii ''--config'') \<or> arg = Utf8 (ascii ''-c'')
      then (case args of
              [] \<Rightarrow> Inl ConfigNeedsPath
            | path # args' \<Rightarrow>
                (if os_empty path then Inl ConfigNeedsPath else parse_loop args' (Some path) lan_only nostr_only))
      else case arg of
        NotUtf8 b \<Rightarrow> parse_loop args config lan_only nostr_only
      | Utf8 s \<Rightarrow>
          (if take (length config_eq) s = config_eq
           then (if drop (length config_eq) s = [] then Inl ConfigNeedsPath
                 else parse_loop args (Some (Utf8 (drop (length config_eq) s))) lan_only nostr_only)
           else if s = ascii ''--lan-only'' then parse_loop args config True nostr_only
           else if s = ascii ''--nostr-only'' then parse_loop args config lan_only True
           else parse_loop args config lan_only nostr_only))"

definition parse_args :: "os_string list \<Rightarrow> cli_error + cli" where
  "parse_args args =
     (case parse_loop args None False False of
        Inl e \<Rightarrow> Inl e
      | Inr (config, lan_only, nostr_only) \<Rightarrow>
          (if lan_only \<and> nostr_only then Inl BothChannels
           else Inr \<lparr>cli_config = config,
                  cli_channel = (if lan_only then LanOnly else if nostr_only then NostrOnly else LanThenNostr)\<rparr>))"

definition parse_cli :: "os_string list \<Rightarrow> os_string option \<Rightarrow> cli_error + cli" where
  "parse_cli args env =
     (case parse_args args of
        Inl e \<Rightarrow> Inl e
      | Inr c \<Rightarrow> Inr (c\<lparr>cli_config := (case cli_config c of Some p \<Rightarrow> Some p | None \<Rightarrow> env)\<rparr>))"

text \<open>An explicit path is never empty, and an explicit path wins over the environment.\<close>

lemma parse_loop_nonempty:
  "parse_loop args config l n = Inr (c, l', n') \<Longrightarrow> pred_option (\<lambda>q. \<not> os_empty q) config
    \<Longrightarrow> pred_option (\<lambda>q. \<not> os_empty q) c"
proof (induction args config l n rule: parse_loop.induct)
  case (2 arg args config l n)
  show ?case
  proof (cases "arg = Utf8 (ascii ''--config'') \<or> arg = Utf8 (ascii ''-c'')")
    case True
    with 2 show ?thesis by (cases args) (auto split: if_split_asm)
  next
    case False
    note step = 2(2,3,4,5,6) [OF False]
    have e: "os_empty (Utf8 s) \<longleftrightarrow> s = []" for s by (simp add: os_empty_def)
    from 2(7,8) step show ?thesis
      unfolding parse_loop.simps if_not_P [OF False]
      by (cases arg) (simp_all only: os_string.case option.pred_inject e split: if_split_asm, simp_all)
  qed
qed simp

lemma parse_cli_path:
  assumes "parse_cli args env = Inr c" "cli_config c = Some p"
  shows "\<not> os_empty p \<or> env = Some p"
proof -
  from assms(1) obtain c' where c': "parse_args args = Inr c'"
      "c = c'\<lparr>cli_config := (case cli_config c' of Some p \<Rightarrow> Some p | None \<Rightarrow> env)\<rparr>"
    by (auto simp: parse_cli_def split: sum.splits)
  from c'(1) obtain l n where "parse_loop args None False False = Inr (cli_config c', l, n)"
    by (auto simp: parse_args_def split: sum.splits if_splits)
  from parse_loop_nonempty [OF this] c'(2) assms(2) show ?thesis by (auto split: option.splits)
qed

end
