(* ===== verification/Items.thy ===== *)
theory Items
  imports Text
begin

text \<open>
  Clipboard items of the desktop app and their peek view (\<open>duocb/src/app/item.rs\<close>). The checksum
  (crc32fast) is a parameter; instants are seconds of a monotonic clock, timestamps the wall clock.
\<close>

definition PEEK_LIMIT :: nat where [const_simps]: "PEEK_LIMIT = 4096"
definition PEEK_TIMEOUT :: nat where [const_simps]: "PEEK_TIMEOUT = 15"

record inbox_item =
  it_text :: ustring
  it_time :: u64
  it_crc :: u32
  it_peeked :: "nat option"

definition item_new :: "(bytes \<Rightarrow> u32) \<Rightarrow> u64 \<Rightarrow> ustring \<Rightarrow> inbox_item" where
  "item_new crc now text = \<lparr>it_text = text, it_time = now, it_crc = crc (utf8 text), it_peeked = None\<rparr>"

definition expanded :: "inbox_item \<Rightarrow> bool" where
  "expanded i \<longleftrightarrow> it_peeked i \<noteq> None"

definition toggle_peek :: "nat \<Rightarrow> inbox_item \<Rightarrow> inbox_item" where
  "toggle_peek instant i = i\<lparr>it_peeked := (if it_peeked i = None then Some instant else None)\<rparr>"

text \<open>\<open>elapsed\<close> saturates at zero, as the subtraction does.\<close>

definition tick_peek :: "nat \<Rightarrow> inbox_item \<Rightarrow> inbox_item" where
  "tick_peek instant i =
     (case it_peeked i of
        Some t \<Rightarrow> if PEEK_TIMEOUT \<le> instant - t then i\<lparr>it_peeked := None\<rparr> else i
      | None \<Rightarrow> i)"

text \<open>
  \<open>{:.1}\<close> of \<open>n / d\<close>: one decimal, ties to the even digit. The divisors are powers of two, so the
  floating-point quotient is exact for the sizes that fit a double (below 2^53 bytes).
\<close>

definition one_decimal :: "nat \<Rightarrow> nat \<Rightarrow> ustring" where
  "one_decimal n d =
     (let q = 10 * n div d; r = 10 * n mod d;
          t = (if d < 2 * r \<or> (2 * r = d \<and> odd q) then q + 1 else q)
      in dec (t div 10) @ [46] @ dec (t mod 10))"

definition size_hint :: "inbox_item \<Rightarrow> ustring" where
  "size_hint i =
     (let n = str_len (it_text i) in
      if n < 1024 then dec n @ ascii '' B''
      else if n < 1024 * 1024 then one_decimal n 1024 @ ascii '' KB''
      else one_decimal n (1024 * 1024) @ ascii '' MB'')"

definition crc32_display :: "inbox_item \<Rightarrow> ustring" where
  "crc32_display i =
     (let bs = be_bytes 4 (unat (it_crc i))
      in concat (map hex_upper (take 2 bs)) @ [45] @ concat (map hex_upper (drop 2 bs)))"

definition peek_text :: "inbox_item \<Rightarrow> ustring \<times> bool" where
  "peek_text i = (if PEEK_LIMIT < length (it_text i) then (take PEEK_LIMIT (it_text i), True) else (it_text i, False))"

section \<open>What the user sees of an item\<close>

lemma hex_upper_concat_inj:
  "concat (map hex_upper a) = concat (map hex_upper b) \<Longrightarrow> a = b"
proof (induction a arbitrary: b)
  case Nil
  then show ?case by (cases b) (auto simp: hex_upper_def hex_byte_def)
next
  case (Cons x a)
  from Cons.prems obtain y c where b: "b = y # c"
    by (cases b) (auto simp: hex_upper_def hex_byte_def)
  with Cons.prems have "hex_upper x = hex_upper y \<and> concat (map hex_upper a) = concat (map hex_upper c)"
    by (simp add: append_eq_append_conv del: hex_upper_inj)
  with b Cons.IH show ?case by simp
qed

lemma length_hex_upper [simp]: "length (concat (map hex_upper bs)) = 2 * length bs"
  by (induction bs) simp_all

text \<open>Two items show the same checksum line exactly when their checksums are equal; the line has nine characters.\<close>

lemma crc32_display_exact:
  "length (crc32_display i) = 9 \<and> (crc32_display i = crc32_display j \<longleftrightarrow> it_crc i = it_crc j)"
proof -
  have "it_crc i = it_crc j" if "crc32_display i = crc32_display j"
  proof -
    let ?b = "\<lambda>k. be_bytes 4 (unat (it_crc k))"
    from that have "concat (map hex_upper (take 2 (?b i))) = concat (map hex_upper (take 2 (?b j)))
        \<and> concat (map hex_upper (drop 2 (?b i))) = concat (map hex_upper (drop 2 (?b j)))"
      by (simp add: crc32_display_def Let_def append_eq_append_conv)
    then have "?b i = ?b j" by (metis append_take_drop_id hex_upper_concat_inj)
    moreover have "unat (it_crc k) < 256 ^ 4" for k
      using unsigned_less [of "it_crc k"] by simp
    ultimately show ?thesis using be_bytes_inj [of 4] by (metis word_unat_eq_iff)
  qed
  then show ?thesis by (auto simp: crc32_display_def Let_def)
qed

lemma peek_text_prefix: "fst (peek_text i) = take PEEK_LIMIT (it_text i)" "snd (peek_text i) \<longleftrightarrow> PEEK_LIMIT < length (it_text i)"
  by (simp_all add: peek_text_def)

lemma peek_closes: "it_peeked (tick_peek t i) = Some u \<Longrightarrow> it_peeked i = Some u \<and> t - u < PEEK_TIMEOUT"
  by (auto simp: tick_peek_def split: option.splits if_splits)

end
