(* ===== verification/App.thy ===== *)
theory App
  imports Config Subnet Relays Pin Items
begin

text \<open>
  The state of the desktop app and the operations on it (\<open>duocb/src/app/mod.rs\<close>). Commands to the
  runtime, texts written to the system clipboard and the persistent store are part of the state;
  clocks, fresh keys, clipboard contents and the fate of a save are the moment an operation runs at.
  Banner messages are symbolic.
\<close>

section \<open>State\<close>

datatype screen = Home | CardSetupScreen | CardPairing | CardConfirm | SessionScreen

datatype configure_step = SetupChoice | SetupImport | SetupName | Ready | ConnectStep

datatype copy_target = CopyCard | CopyPrivateKey | CopyPin | CopyOutbox | CopyInbox nat

datatype banner =
  ClipboardEmpty
| CannotReadClipboard
| CannotWriteClipboard
| CouldNotSave
| OwnCardEchoed
| PastedCardInvalid
| OwnCard
| CardUnusable bool ustring
| PeerLimit
| EnterFullPin
| IpOutOfRange ustring
| NotAnAddress
| NoCardToOffer
| PeerCardNotYet ustring ustring
| PeerCardLapsed ustring ustring
| FromRuntime message

definition SENT_FLASH :: nat where [const_simps]: "SENT_FLASH = 2"
definition MAX_INBOX_ITEMS :: nat where [const_simps]: "MAX_INBOX_ITEMS = 5"

text \<open>What the operations use of other libraries, fixed for the process.\<close>

record 'n deps =
  dp_crypto :: crypto
  dp_json :: config_json
  dp_ipnet :: "'n ipnet"
  dp_crc :: "bytes \<Rightarrow> u32"
  dp_date :: "u64 \<Rightarrow> ustring"

text \<open>What an operation reads of the world when it runs.\<close>

record 'n moment =
  at_unix :: u64
  at_instant :: nat
  at_fresh :: seckey
  at_completed :: nat
  at_clipboard :: "ustring option"
  at_clipboard_takes :: bool
  at_default_if :: "nat option"
  at_interfaces :: "'n interface list"

record 'n app =
  ap_disk :: disk
  ap_net :: "ui_command list"
  ap_copied :: "ustring list"
  ap_screen :: screen
  ap_status :: conn_status
  ap_error :: "banner option"
  ap_channel :: signal_channel
  ap_identity :: identity
  ap_saved_name :: "ustring option"
  ap_suffix :: ustring
  ap_self_card :: "identity_card option"
  ap_step :: configure_step
  ap_peers :: "identity_card list"
  ap_selected :: "ustring option"
  ap_session_peer :: "ustring option"
  ap_confirm_reset :: bool
  ap_active :: bool
  ap_hosting :: bool
  ap_node_id :: "node_id option"
  ap_host_ip :: "ipv4 option"
  ap_public_key :: "ustring option"
  ap_pin :: "ustring option"
  ap_pin_deadline :: "nat option"
  ap_pending_card :: "identity_card option"
  in_my_name :: ustring
  in_private_key :: ustring
  in_peer_card :: ustring
  in_pin_a :: ustring
  in_pin_b :: ustring
  in_join_ip :: ustring
  ap_ip_ctx :: "'n join_ip_constraint"
  in_compose :: ustring
  ap_peer_node :: "node_id option"
  ap_conn_path :: "conn_path list option"
  ap_inbox :: "inbox_item list"
  ap_outbox :: "inbox_item option"
  ap_box_peer :: "ustring option"
  ap_pending_out :: "ustring option"
  ap_sent_flash :: "nat option"
  ap_copied_flash :: "(copy_target \<times> nat) option"

definition net_send :: "ui_command \<Rightarrow> 'n app \<Rightarrow> 'n app" where
  "net_send c a = a\<lparr>ap_net := ap_net a @ [c]\<rparr>"

definition complain :: "banner \<Rightarrow> 'n app \<Rightarrow> 'n app" where
  "complain b a = a\<lparr>ap_error := Some b\<rparr>"

definition peer_key :: "'n deps \<Rightarrow> identity_card \<Rightarrow> ustring" where
  "peer_key D c = key_hex (dp_crypto D) (card_public_key c)"

definition own_key :: "'n deps \<Rightarrow> 'n app \<Rightarrow> pubkey" where
  "own_key D a = identity_public (dp_crypto D) (ap_identity a)"

definition ok :: "'e + 'a \<Rightarrow> 'a option" where
  "ok r = (case r of Inl _ \<Rightarrow> None | Inr x \<Rightarrow> Some x)"

section \<open>Persistence\<close>

definition app_config :: "'n deps \<Rightarrow> 'n app \<Rightarrow> config" where
  "app_config D a =
     \<lparr>cf_version = CONFIG_VERSION, cf_suffix = ap_suffix a, cf_name = ap_saved_name a,
      cf_card = map_option (card_encode (dp_crypto D)) (ap_self_card a),
      cf_peers = map (card_encode (dp_crypto D)) (ap_peers a),
      cfg_secret = to_nsec (dp_crypto D) (ap_identity a)\<rparr>"

definition save_configure_config :: "'n deps \<Rightarrow> 'n moment \<Rightarrow> 'n app \<Rightarrow> bool \<times> 'n app" where
  "save_configure_config D w a =
     (case save_config (dp_json D) (app_config D a) (at_completed w) (ap_disk a) of
        (Inr _, d) \<Rightarrow> (True, a\<lparr>ap_disk := d\<rparr>)
      | (Inl e, d) \<Rightarrow> (False, complain CouldNotSave (a\<lparr>ap_disk := d\<rparr>)))"

definition freshly_minted_self_card :: "'n deps \<Rightarrow> 'n moment \<Rightarrow> 'n app \<Rightarrow> identity_card option" where
  "freshly_minted_self_card D w a =
     (case (ap_self_card a, ap_saved_name a) of
        (Some crd, Some name) \<Rightarrow>
          (if remaining_secs_at crd (at_unix w) > CARD_RENEW_BEFORE_SECS then None
           else ok (card_mint (dp_crypto D) (at_unix w) (ap_identity a) name (ap_suffix a)))
      | _ \<Rightarrow> None)"

definition renew_self_card_if_stale :: "'n deps \<Rightarrow> 'n moment \<Rightarrow> 'n app \<Rightarrow> 'n app" where
  "renew_self_card_if_stale D w a =
     (case freshly_minted_self_card D w a of
        None \<Rightarrow> a
      | Some fresh \<Rightarrow> snd (save_configure_config D w (a\<lparr>ap_self_card := Some fresh\<rparr>)))"

text \<open>\<open>App::new\<close>; \<open>None\<close> is its panic on a key that does not parse.\<close>

definition loaded_app ::
    "'n deps \<Rightarrow> disk \<Rightarrow> config \<Rightarrow> signal_channel \<Rightarrow> identity \<Rightarrow> 'n app" where
  "loaded_app D d cfg channel i =
     (let saved_name = (case cf_name cfg of Some n \<Rightarrow> if isl (validate_name n) then None else Some n | None \<Rightarrow> None);
          expected = map_option (\<lambda>n. display_identity n (cf_suffix cfg)) saved_name;
          self_card = (case Option.bind (cf_card cfg) (\<lambda>s. ok (card_parse (dp_crypto D) s)) of
             Some crd \<Rightarrow> if card_public_key crd = identity_public (dp_crypto D) i \<and> expected = Some (card_name crd)
                        then Some crd else None
           | None \<Rightarrow> None);
          peers = take MAX_TRUSTED_PEERS
             (filter (\<lambda>c. card_public_key c \<noteq> identity_public (dp_crypto D) i)
               (List.map_filter (\<lambda>s. ok (card_parse (dp_crypto D) s)) (cf_peers cfg)))
      in \<lparr>ap_disk = d, ap_net = [], ap_copied = [], ap_screen = Home, ap_status = Idle, ap_error = None,
          ap_channel = channel, ap_identity = i, ap_saved_name = saved_name, ap_suffix = cf_suffix cfg,
          ap_self_card = self_card,
          ap_step = (if saved_name \<noteq> None \<and> self_card \<noteq> None then Ready else SetupChoice),
          ap_peers = peers, ap_selected = None, ap_session_peer = None, ap_confirm_reset = False,
          ap_active = False, ap_hosting = False, ap_node_id = None, ap_host_ip = None, ap_public_key = None,
          ap_pin = None, ap_pin_deadline = None, ap_pending_card = None,
          in_my_name = (case saved_name of Some n \<Rightarrow> n | None \<Rightarrow> []), in_private_key = [], in_peer_card = [],
          in_pin_a = [], in_pin_b = [], in_join_ip = [], ap_ip_ctx = [], in_compose = [],
          ap_peer_node = None, ap_conn_path = None, ap_inbox = [], ap_outbox = None, ap_box_peer = None,
          ap_pending_out = None, ap_sent_flash = None, ap_copied_flash = None\<rparr>)"

definition app_new :: "'n deps \<Rightarrow> 'n moment \<Rightarrow> disk \<Rightarrow> config \<Rightarrow> signal_channel \<Rightarrow> 'n app option" where
  "app_new D w d cfg channel =
     (case parse_nsec (dp_crypto D) (cfg_secret cfg) of
        Inl e \<Rightarrow> None
      | Inr i \<Rightarrow> Some (renew_self_card_if_stale D w (loaded_app D d cfg channel i)))"

section \<open>Runtime events\<close>

definition apply_event :: "'n deps \<Rightarrow> 'n moment \<Rightarrow> net_event \<Rightarrow> 'n app \<Rightarrow> 'n app" where
  "apply_event D w e a =
     (case e of
        ServerReady node pk \<Rightarrow> a\<lparr>ap_node_id := Some node, ap_public_key := pk\<rparr>
      | ClientReady node pk \<Rightarrow> a\<lparr>ap_node_id := Some node, ap_public_key := pk\<rparr>
      | PinRotated display left ip \<Rightarrow>
          a\<lparr>ap_pin := Some display, ap_pin_deadline := Some (at_instant w + unat left), ap_host_ip := ip\<rparr>
      | PinCleared \<Rightarrow> a\<lparr>ap_pin := None, ap_pin_deadline := None\<rparr>
      | PeerCardReceived crd \<Rightarrow>
          (if card_public_key crd = own_key D a
           then (complain OwnCardEchoed a)\<lparr>ap_screen := CardSetupScreen\<rparr>
           else a\<lparr>ap_pending_card := Some crd, ap_screen := CardConfirm\<rparr>)
      | Status st \<Rightarrow>
          ((if st = Idle
            then a\<lparr>ap_active := False, ap_node_id := None, ap_host_ip := None, ap_public_key := None,
                   ap_pin := None, ap_pin_deadline := None, ap_peer_node := None, ap_conn_path := None,
                   ap_pending_out := None\<rparr>
            else a)\<lparr>ap_status := st\<rparr>)
      | PeerPaired node pk \<Rightarrow> a\<lparr>ap_peer_node := Some node\<rparr>
      | PeerDisconnected \<Rightarrow> a\<lparr>ap_peer_node := None, ap_conn_path := None, ap_pending_out := None\<rparr>
      | ConnPaths paths \<Rightarrow> a\<lparr>ap_conn_path := Some paths\<rparr>
      | ItemReceived text pulled \<Rightarrow>
          (if pulled \<and> list_ex (\<lambda>i. it_text i = text) (ap_inbox a) then a
           else a\<lparr>ap_inbox := take MAX_INBOX_ITEMS (item_new (dp_crc D) (at_unix w) text # ap_inbox a)\<rparr>)
      | ItemSent \<Rightarrow>
          (case ap_pending_out a of
             Some text \<Rightarrow> a\<lparr>ap_outbox := Some (item_new (dp_crc D) (at_unix w) text), ap_pending_out := None\<rparr>
           | None \<Rightarrow> a)\<lparr>ap_sent_flash := Some (at_instant w)\<rparr>
      | ErrorEvent m \<Rightarrow> complain (FromRuntime m) (a\<lparr>ap_pending_out := None\<rparr>))"

definition drain_events :: "'n deps \<Rightarrow> 'n moment \<Rightarrow> net_event list \<Rightarrow> 'n app \<Rightarrow> bool \<times> 'n app" where
  "drain_events D w events a = (events \<noteq> [], fold (apply_event D w) events a)"

definition tick :: "'n moment \<Rightarrow> 'n app \<Rightarrow> 'n app" where
  "tick w a = a\<lparr>ap_inbox := map (tick_peek (at_instant w)) (ap_inbox a),
                ap_outbox := map_option (tick_peek (at_instant w)) (ap_outbox a)\<rparr>"

section \<open>Sending and copying\<close>

definition send_text :: "ustring \<Rightarrow> 'n app \<Rightarrow> 'n app" where
  "send_text text a =
     (if text = [] \<or> ap_pending_out a \<noteq> None then a
      else net_send (SendClipboard text) (a\<lparr>ap_pending_out := Some text\<rparr>))"

definition send_clipboard :: "'n moment \<Rightarrow> 'n app \<Rightarrow> 'n app" where
  "send_clipboard w a =
     (case at_clipboard w of
        Some text \<Rightarrow>
          (if text = [] then complain ClipboardEmpty a
           else if ap_pending_out a \<noteq> None then a
           else send_text text a)
      | None \<Rightarrow> complain CannotReadClipboard a)"

definition compose_send :: "'n app \<Rightarrow> 'n app" where
  "compose_send a =
     (if in_compose a = [] \<or> ap_pending_out a \<noteq> None then a
      else send_text (in_compose a) (a\<lparr>in_compose := []\<rparr>))"

definition copy_to_clipboard :: "'n moment \<Rightarrow> ustring \<Rightarrow> 'n app \<Rightarrow> bool \<times> 'n app" where
  "copy_to_clipboard w text a =
     (if at_clipboard_takes w then (True, a\<lparr>ap_copied := ap_copied a @ [text]\<rparr>)
      else (False, complain CannotWriteClipboard a))"

definition copy_with_flash :: "'n moment \<Rightarrow> ustring \<Rightarrow> copy_target \<Rightarrow> 'n app \<Rightarrow> 'n app" where
  "copy_with_flash w text target a =
     (case copy_to_clipboard w text a of
        (True, a') \<Rightarrow> a'\<lparr>ap_copied_flash := Some (target, at_instant w)\<rparr>
      | (False, a') \<Rightarrow> a')"

definition copied_target :: "nat \<Rightarrow> 'n app \<Rightarrow> copy_target option" where
  "copied_target instant a =
     (case ap_copied_flash a of
        Some (target, t) \<Rightarrow> if instant - t < SENT_FLASH then Some target else None
      | None \<Rightarrow> None)"

definition sent_flash_active :: "nat \<Rightarrow> 'n app \<Rightarrow> bool" where
  "sent_flash_active instant a \<longleftrightarrow>
     (case ap_sent_flash a of Some t \<Rightarrow> instant - t < SENT_FLASH | None \<Rightarrow> False)"

definition query_conn_path :: "'n app \<Rightarrow> 'n app" where
  "query_conn_path a = net_send QueryConnPath a"

section \<open>Identity and peers\<close>

definition app_key_identity :: "'n app \<Rightarrow> key_identity option" where
  "app_key_identity a =
     map_option (\<lambda>crd. \<lparr>ki_identity = ap_identity a, ki_self_card = crd, ki_peers = ap_peers a,
        ki_relays = DEFAULT_NOSTR_RELAYS\<rparr>) (ap_self_card a)"

definition app_display_identity :: "'n app \<Rightarrow> ustring" where
  "app_display_identity a = (case ap_saved_name a of Some n \<Rightarrow> display_identity n (ap_suffix a) | None \<Rightarrow> [])"

definition has_saved_identity :: "'n app \<Rightarrow> bool" where
  "has_saved_identity a \<longleftrightarrow> ap_saved_name a \<noteq> None \<and> ap_self_card a \<noteq> None"

definition reset_name_field :: "'n app \<Rightarrow> 'n app" where
  "reset_name_field a = a\<lparr>in_my_name := (case ap_saved_name a of Some n \<Rightarrow> n | None \<Rightarrow> [])\<rparr>"

definition begin_generate_identity :: "'n moment \<Rightarrow> 'n app \<Rightarrow> 'n app" where
  "begin_generate_identity w a =
     (reset_name_field (a\<lparr>ap_identity := identity_generate (at_fresh w), ap_saved_name := None, ap_self_card := None,
        ap_peers := []\<rparr>))\<lparr>ap_step := SetupName\<rparr>"

definition use_imported_identity :: "'n deps \<Rightarrow> 'n moment \<Rightarrow> 'n app \<Rightarrow> 'n app" where
  "use_imported_identity D w a =
     (case parse_nsec (dp_crypto D) (in_private_key a) of
        Inr i \<Rightarrow> snd (save_configure_config D w
          (a\<lparr>ap_identity := i, ap_saved_name := None, ap_self_card := None, ap_peers := [], in_private_key := [],
             ap_step := SetupName\<rparr>))
      | Inl e \<Rightarrow> a)"

definition cancel_setup :: "'n app \<Rightarrow> 'n app" where
  "cancel_setup a = a\<lparr>in_private_key := [], ap_step := SetupChoice\<rparr>"

definition save_name :: "'n deps \<Rightarrow> 'n moment \<Rightarrow> 'n app \<Rightarrow> 'n app" where
  "save_name D w a =
     (let name = str_trim (in_my_name a) in
      if isl (validate_name name) then a
      else case card_mint (dp_crypto D) (at_unix w) (ap_identity a) name (ap_suffix a) of
        Inl e \<Rightarrow> a
      | Inr crd \<Rightarrow>
          (case save_configure_config D w (a\<lparr>ap_saved_name := Some name, ap_self_card := Some crd\<rparr>) of
             (True, a') \<Rightarrow> a'\<lparr>ap_step := Ready\<rparr>
           | (False, a') \<Rightarrow> a'))"

definition cancel_name :: "'n app \<Rightarrow> 'n app" where
  "cancel_name a = (if has_saved_identity a then (reset_name_field a)\<lparr>ap_step := Ready\<rparr> else a)"

definition clear_peer_boxes :: "'n app \<Rightarrow> 'n app" where
  "clear_peer_boxes a = a\<lparr>ap_inbox := [], ap_outbox := None, ap_pending_out := None, ap_box_peer := None\<rparr>"

definition reset_identity :: "'n deps \<Rightarrow> 'n moment \<Rightarrow> 'n app \<Rightarrow> 'n app" where
  "reset_identity D w a =
     (snd (save_configure_config D w
       ((clear_peer_boxes (a\<lparr>ap_identity := identity_generate (at_fresh w), ap_saved_name := None, ap_self_card := None,
          ap_peers := [], ap_selected := None\<rparr>))\<lparr>in_private_key := [], in_peer_card := []\<rparr>)))\<lparr>ap_step := SetupChoice\<rparr>"

definition selected_peer_card :: "'n deps \<Rightarrow> 'n app \<Rightarrow> identity_card option" where
  "selected_peer_card D a =
     Option.bind (ap_selected a) (\<lambda>key. find (\<lambda>c. peer_key D c = key) (ap_peers a))"

definition open_connect_picker :: "'n app \<Rightarrow> 'n app" where
  "open_connect_picker a = a\<lparr>ap_step := ConnectStep\<rparr>"

definition close_connect_picker :: "'n app \<Rightarrow> 'n app" where
  "close_connect_picker a = a\<lparr>ap_step := Ready\<rparr>"

definition toggle_peer :: "ustring \<Rightarrow> 'n app \<Rightarrow> 'n app" where
  "toggle_peer key a = a\<lparr>ap_selected := (if ap_selected a = Some key then None else Some key)\<rparr>"

definition position_of :: "('a \<Rightarrow> bool) \<Rightarrow> 'a list \<Rightarrow> nat option" where
  "position_of P xs = (let n = length (takeWhile (\<lambda>x. \<not> P x) xs) in if n < length xs then Some n else None)"

definition move_peer_selection :: "'n deps \<Rightarrow> int \<Rightarrow> 'n app \<Rightarrow> 'n app" where
  "move_peer_selection D delta a =
     (if ap_peers a = [] then a
      else let current = Option.bind (ap_selected a) (\<lambda>key. position_of (\<lambda>c. peer_key D c = key) (ap_peers a));
               next_row = (case current of
                  None \<Rightarrow> if delta > 0 then 0 else length (ap_peers a) - 1
                | Some i \<Rightarrow> nat ((int i + delta) mod int (length (ap_peers a))))
           in a\<lparr>ap_selected := Some (peer_key D (ap_peers a ! next_row))\<rparr>)"

definition unusable_card :: "'n deps \<Rightarrow> 'n moment \<Rightarrow> identity_card \<Rightarrow> banner" where
  "unusable_card D w crd =
     (if is_not_yet_valid_at crd (at_unix w) then CardUnusable True (dp_date D (card_not_before crd))
      else CardUnusable False (dp_date D (card_not_after crd)))"

text \<open>\<open>*existing = card\<close> replaces the first entry of the same key.\<close>

fun replace_first :: "('a \<Rightarrow> bool) \<Rightarrow> 'a \<Rightarrow> 'a list \<Rightarrow> 'a list" where
  "replace_first P y [] = []"
| "replace_first P y (x # xs) = (if P x then y # xs else x # replace_first P y xs)"

definition store_peer_card :: "'n deps \<Rightarrow> 'n moment \<Rightarrow> identity_card \<Rightarrow> 'n app \<Rightarrow> bool \<times> 'n app" where
  "store_peer_card D w crd a =
     (if card_public_key crd = own_key D a then (False, complain OwnCard a)
      else if card_is_expired (at_unix w) crd then (False, complain (unusable_card D w crd) a)
      else if list_ex (\<lambda>c. card_public_key c = card_public_key crd) (ap_peers a)
      then (True, snd (save_configure_config D w
             (a\<lparr>ap_peers := replace_first (\<lambda>c. card_public_key c = card_public_key crd) crd (ap_peers a)\<rparr>)))
      else if length (ap_peers a) \<ge> MAX_TRUSTED_PEERS then (False, complain PeerLimit a)
      else (True, snd (save_configure_config D w (a\<lparr>ap_peers := ap_peers a @ [crd]\<rparr>))))"

definition import_peer_card :: "'n deps \<Rightarrow> 'n moment \<Rightarrow> 'n app \<Rightarrow> 'n app" where
  "import_peer_card D w a =
     (case card_parse (dp_crypto D) (in_peer_card a) of
        Inl e \<Rightarrow> complain PastedCardInvalid a
      | Inr crd \<Rightarrow>
          (case store_peer_card D w crd a of
             (True, a') \<Rightarrow> a'\<lparr>in_peer_card := []\<rparr>
           | (False, a') \<Rightarrow> a'))"

definition remove_peer :: "'n deps \<Rightarrow> 'n moment \<Rightarrow> ustring \<Rightarrow> 'n app \<Rightarrow> 'n app" where
  "remove_peer D w key a =
     (let peers = filter (\<lambda>c. peer_key D c \<noteq> key) (ap_peers a); a1 = a\<lparr>ap_peers := peers\<rparr> in
      if length peers = length (ap_peers a) then a1
      else let a2 = (if ap_selected a1 = Some key then a1\<lparr>ap_selected := None\<rparr> else a1);
               a3 = (if ap_box_peer a2 = Some key then clear_peer_boxes a2 else a2)
           in snd (save_configure_config D w a3))"

section \<open>Sessions\<close>

definition retry_available :: "'n app \<Rightarrow> bool" where
  "retry_available a \<longleftrightarrow> \<not> ap_active a \<and> ap_session_peer a \<noteq> None"

definition session_live :: "'n app \<Rightarrow> bool" where
  "session_live a \<longleftrightarrow> ap_active a \<or> retry_available a"

datatype plan = PlanHost server_mode | PlanDial dial_spec

definition session_plan :: "'n deps \<Rightarrow> 'n app \<Rightarrow> plan option" where
  "session_plan D a =
     (case (app_key_identity a, selected_peer_card D a) of
        (Some i, Some crd) \<Rightarrow>
          Some (case session_role (own_key D a) (card_public_key crd) of
                  Host \<Rightarrow> PlanHost (ServeKey i (card_public_key crd) (ap_channel a))
                | Dial \<Rightarrow> PlanDial (DialKey i (card_public_key crd) (ap_channel a)))
      | _ \<Rightarrow> None)"

definition plan_command :: "plan \<Rightarrow> ui_command" where
  "plan_command p = (case p of PlanHost mode \<Rightarrow> StartServer mode | PlanDial spec \<Rightarrow> Connect spec)"

definition start_clipboard_session :: "'n deps \<Rightarrow> 'n moment \<Rightarrow> 'n app \<Rightarrow> bool \<times> 'n app" where
  "start_clipboard_session D w a =
     (case session_plan D a of
        None \<Rightarrow> (False, a)
      | Some plan \<Rightarrow>
          (case selected_peer_card D a of
             None \<Rightarrow> (False, a)
           | Some peer \<Rightarrow>
               (if card_is_expired (at_unix w) peer
                then (False, complain
                  (if is_not_yet_valid_at peer (at_unix w)
                   then PeerCardNotYet (card_name peer) (dp_date D (card_not_before peer))
                   else PeerCardLapsed (card_name peer) (dp_date D (card_not_after peer))) a)
                else let a1 = (if ap_box_peer a \<noteq> Some (peer_key D peer) then clear_peer_boxes a else a)
                     in (True, net_send (plan_command plan)
                          (a1\<lparr>ap_box_peer := Some (peer_key D peer), ap_session_peer := Some (card_name peer),
                              ap_active := True,
                              ap_hosting := (case plan of PlanHost _ \<Rightarrow> True | PlanDial _ \<Rightarrow> False)\<rparr>)))))"

definition connect_selected_peer :: "'n deps \<Rightarrow> 'n moment \<Rightarrow> 'n app \<Rightarrow> 'n app" where
  "connect_selected_peer D w a =
     (case start_clipboard_session D w a of
        (True, a') \<Rightarrow> a'\<lparr>ap_screen := SessionScreen\<rparr>
      | (False, a') \<Rightarrow> a')"

definition retry_connection :: "'n deps \<Rightarrow> 'n moment \<Rightarrow> 'n app \<Rightarrow> 'n app" where
  "retry_connection D w a =
     (if retry_available a then snd (start_clipboard_session D w (a\<lparr>ap_error := None\<rparr>)) else a)"

definition stop_running :: "'n app \<Rightarrow> 'n app" where
  "stop_running a = (if \<not> ap_active a then a else net_send (if ap_hosting a then StopServer else Disconnect) a)"

definition go_back :: "'n app \<Rightarrow> 'n app" where
  "go_back a =
     (let a1 = (stop_running a)\<lparr>ap_session_peer := None\<rparr>;
          a2 = (case ap_screen a1 of
                  CardPairing \<Rightarrow> a1\<lparr>ap_screen := CardSetupScreen\<rparr>
                | CardConfirm \<Rightarrow> a1\<lparr>ap_pending_card := None, ap_screen := CardSetupScreen\<rparr>
                | _ \<Rightarrow> a1\<lparr>ap_screen := Home\<rparr>)
      in if ap_step a2 = ConnectStep then a2\<lparr>ap_step := Ready\<rparr> else a2)"

section \<open>Card setup\<close>

definition open_card_setup :: "'n deps \<Rightarrow> 'n moment \<Rightarrow> 'n app \<Rightarrow> 'n app" where
  "open_card_setup D w a =
     (if ap_self_card a = None then a
      else (renew_self_card_if_stale D w a)
        \<lparr>ap_screen := CardSetupScreen,
         ap_ip_ctx := local_private_ipv4_subnets (dp_ipnet D) (at_default_if w) (at_interfaces w)\<rparr>)"

definition card_setup_host_mode :: "'n app \<Rightarrow> server_mode option" where
  "card_setup_host_mode a =
     map_option (\<lambda>crd. ServeCardSetup crd (ap_channel a) DEFAULT_NOSTR_RELAYS) (ap_self_card a)"

definition host_card_setup :: "'n app \<Rightarrow> 'n app" where
  "host_card_setup a =
     (case card_setup_host_mode a of
        None \<Rightarrow> a
      | Some mode \<Rightarrow>
          net_send (StartServer mode) (a\<lparr>ap_screen := CardPairing, ap_active := True, ap_hosting := True\<rparr>))"

definition host_ip_outcome :: "'n deps \<Rightarrow> 'n app \<Rightarrow> join_ip_outcome" where
  "host_ip_outcome D a = resolve_entry (dp_ipnet D) (ap_ip_ctx a) (in_join_ip a)"

definition card_setup_dial_spec :: "'n deps \<Rightarrow> 'n app \<Rightarrow> dial_spec option" where
  "card_setup_dial_spec D a =
     (case normalize_pin (in_pin_a a @ in_pin_b a) of
        None \<Rightarrow> None
      | Some canonical_pin \<Rightarrow>
          (case (case host_ip_outcome D a of
                   Empty \<Rightarrow> Some None
                 | InRange ip \<Rightarrow> Some (Some (V4 ip))
                 | OutOfRange \<Rightarrow> None
                 | Malformed \<Rightarrow> None) of
             None \<Rightarrow> None
           | Some target_ip \<Rightarrow>
               map_option (\<lambda>crd. DialCardSetup canonical_pin crd target_ip (ap_channel a) DEFAULT_NOSTR_RELAYS)
                 (ap_self_card a)))"

definition card_setup_dial_problem :: "'n deps \<Rightarrow> 'n app \<Rightarrow> banner" where
  "card_setup_dial_problem D a =
     (if normalize_pin (in_pin_a a @ in_pin_b a) = None then EnterFullPin
      else case host_ip_outcome D a of
        OutOfRange \<Rightarrow> IpOutOfRange (constraint_label (dp_ipnet D) (ap_ip_ctx a))
      | Malformed \<Rightarrow> NotAnAddress
      | _ \<Rightarrow> NoCardToOffer)"

definition join_card_setup :: "'n deps \<Rightarrow> 'n app \<Rightarrow> 'n app" where
  "join_card_setup D a =
     (case card_setup_dial_spec D a of
        None \<Rightarrow> complain (card_setup_dial_problem D a) a
      | Some spec \<Rightarrow>
          (net_send (Connect spec) (a\<lparr>ap_active := True, ap_hosting := False\<rparr>))\<lparr>ap_screen := CardPairing\<rparr>)"

definition import_received_card :: "'n deps \<Rightarrow> 'n moment \<Rightarrow> 'n app \<Rightarrow> 'n app" where
  "import_received_card D w a =
     (case ap_pending_card a of
        None \<Rightarrow> a
      | Some crd \<Rightarrow>
          (case store_peer_card D w crd (a\<lparr>ap_pending_card := None\<rparr>) of
             (True, a') \<Rightarrow> a'\<lparr>ap_screen := Home, ap_step := Ready\<rparr>
           | (False, a') \<Rightarrow> a'\<lparr>ap_screen := CardSetupScreen\<rparr>))"

definition cancel_received_card :: "'n app \<Rightarrow> 'n app" where
  "cancel_received_card a = a\<lparr>ap_pending_card := None, ap_screen := CardSetupScreen\<rparr>"

section \<open>What the screens show\<close>

definition peer_row_line :: "'n deps \<Rightarrow> 'n app \<Rightarrow> nat \<Rightarrow> ustring option" where
  "peer_row_line D a index =
     (if index < length (ap_peers a)
      then Some (card_name (ap_peers a ! index) @ [32, 32, 183, 32] @ card_fingerprint (dp_crypto D) (ap_peers a ! index))
      else None)"

definition DAY :: u64 where [const_simps]: "DAY = 24 * 60 * 60"

definition card_expiry_note :: "'n deps \<Rightarrow> u64 \<Rightarrow> identity_card \<Rightarrow> ustring" where
  "card_expiry_note D now crd =
     (let date = dp_date D (card_not_after crd); remaining = remaining_secs_at crd now in
      if is_not_yet_valid_at crd now then ascii ''NOT YET VALID '' @ [8212] @ ascii '' check clock''
      else if remaining = 0 then ascii ''EXPIRED '' @ date
      else if remaining > CARD_RENEW_BEFORE_SECS then ascii ''expires '' @ date
      else ascii ''expires '' @ date @
        (if remaining div DAY = 0 then ascii '' (today)''
         else if remaining div DAY = 1 then ascii '' (1 day)''
         else ascii '' ('' @ dec (unat (remaining div DAY)) @ ascii '' days)''))"

definition incoming_card_display :: "'n deps \<Rightarrow> u64 \<Rightarrow> 'n app \<Rightarrow> ustring \<times> ustring \<times> ustring" where
  "incoming_card_display D now a =
     (case ap_pending_card a of
        Some crd \<Rightarrow>
          (card_name crd,
           (case pairing_code (dp_crypto D) (own_key D a) (card_public_key crd) of Some code \<Rightarrow> code | None \<Rightarrow> []),
           card_expiry_note D now crd)
      | None \<Rightarrow> ([], [], []))"

definition status_text :: "'n app \<Rightarrow> ustring" where
  "status_text a =
     (case ap_status a of
        Idle \<Rightarrow> if retry_available a then ascii ''Disconnected'' else ascii ''Idle''
      | Starting \<Rightarrow> ascii ''Starting'' @ [8230]
      | Waiting \<Rightarrow>
          (case ap_session_peer a of
             Some peer \<Rightarrow> ascii ''Waiting for '' @ peer @ ascii '' to connect too'' @ [8230]
           | None \<Rightarrow> ascii ''Waiting for the other device'' @ [8230])
      | Resolving \<Rightarrow> ascii ''Looking for the other device'' @ [8230]
      | Connecting \<Rightarrow> ascii ''Connecting'' @ [8230]
      | Authenticating \<Rightarrow> ascii ''Authenticating'' @ [8230]
      | Connected \<Rightarrow> ascii ''Connected''
      | Reconnecting attempt limit \<Rightarrow>
          ascii ''Reconnecting'' @ [8230] @ ascii '' (attempt '' @ dec attempt @ ascii '' of '' @ dec limit @ ascii '')'')"

definition session_role_note :: "'n app \<Rightarrow> ustring" where
  "session_role_note a =
     (if \<not> ap_active a \<or> ap_screen a \<noteq> SessionScreen then []
      else let peer = (case ap_session_peer a of Some p \<Rightarrow> p | None \<Rightarrow> ascii ''the other device'') in
        if ap_hosting a then ascii ''This device is hosting the link; '' @ peer @ ascii '' connects to it.''
        else peer @ ascii '' is hosting the link; this device connects to it.'')"

end
