(* ===== verification/Keys.thy ===== *)
theory Keys
  imports App Simulation
begin

text \<open>
  The actions of the user interface (\<open>duocb/src/app/callbacks.rs\<close>) and the global keyboard
  shortcuts (\<open>keys.rs\<close>), the steps of the app, and its invariant. The codes of the special keys are
  the window toolkit's and a parameter.
\<close>

record key_codes =
  kc_escape :: uchar
  kc_return :: uchar
  kc_up :: uchar
  kc_down :: uchar

text \<open>The first character of the key's text, compared ignoring ASCII case, or exactly.\<close>

definition key_letter :: "ustring \<Rightarrow> char \<Rightarrow> bool" where
  "key_letter text c \<longleftrightarrow> (case text of [] \<Rightarrow> False | k # _ \<Rightarrow> to_ascii_uppercase k = to_ascii_uppercase (of_char c))"

definition key_code :: "ustring \<Rightarrow> uchar \<Rightarrow> bool" where
  "key_code text code \<longleftrightarrow> (case text of [] \<Rightarrow> False | k # _ \<Rightarrow> k = code)"

section \<open>Shortcuts\<close>

definition handle_session_key ::
    "'n moment \<Rightarrow> bool \<Rightarrow> (char \<Rightarrow> bool) \<Rightarrow> 'n app \<Rightarrow> bool \<times> 'n app" where
  "handle_session_key w focus_free command a =
     (if ap_status a \<noteq> Connected \<or> \<not> focus_free then (False, a)
      else if command CHR ''s'' then (True, send_clipboard w a)
      else if command CHR ''p'' then
        (True, case ap_inbox a of [] \<Rightarrow> a | i # is \<Rightarrow> a\<lparr>ap_inbox := toggle_peek (at_instant w) i # is\<rparr>)
      else if command CHR ''y'' then
        (True, case ap_inbox a of [] \<Rightarrow> a | i # _ \<Rightarrow> copy_with_flash w (it_text i) (CopyInbox 0) a)
      else if command CHR ''o'' then
        (True, case ap_outbox a of None \<Rightarrow> a | Some i \<Rightarrow> copy_with_flash w (it_text i) CopyOutbox a)
      else if command CHR ''d'' then (True, net_send QueryConnPath a)
      else if command CHR ''l'' then (True, a\<lparr>ap_inbox := []\<rparr>)
      else (False, a))"

definition handle_configure_key ::
    "'n deps \<Rightarrow> 'n moment \<Rightarrow> bool \<Rightarrow> bool \<Rightarrow> bool \<Rightarrow> bool \<Rightarrow> (char \<Rightarrow> bool) \<Rightarrow> (char \<Rightarrow> bool) \<Rightarrow> 'n app \<Rightarrow> bool \<times> 'n app" where
  "handle_configure_key D w esc enter up down letter command a =
     (case ap_step a of
        SetupChoice \<Rightarrow>
          (if letter CHR ''g'' then (True, begin_generate_identity w a)
           else if letter CHR ''i'' then (True, a\<lparr>ap_step := SetupImport\<rparr>)
           else (False, a))
      | SetupImport \<Rightarrow>
          (if letter CHR ''u'' then (True, use_imported_identity D w a)
           else if esc then (True, cancel_setup a)
           else (False, a))
      | SetupName \<Rightarrow>
          (if enter then (True, save_name D w a)
           else if esc \<and> has_saved_identity a then (True, cancel_name a)
           else (False, a))
      | Ready \<Rightarrow>
          (if letter CHR ''q'' then (True, open_card_setup D w a)
           else if letter CHR ''c'' then (True, open_connect_picker a)
           else if letter CHR ''r'' then (True, (reset_name_field a)\<lparr>ap_step := SetupName\<rparr>)
           else if letter CHR ''b'' then
             (True, copy_with_flash w (to_nsec (dp_crypto D) (ap_identity a)) CopyPrivateKey a)
           else if letter CHR ''x'' then (True, a\<lparr>ap_confirm_reset := True\<rparr>)
           else if letter CHR ''i'' then (True, import_peer_card D w a)
           else if command CHR ''t'' \<or> letter CHR ''t'' then
             (case map_option (card_encode (dp_crypto D)) (ap_self_card a) of
                None \<Rightarrow> (False, a)
              | Some encoded \<Rightarrow> (True, copy_with_flash w encoded CopyCard a))
           else (False, a))
      | ConnectStep \<Rightarrow>
          (if letter CHR ''c'' \<or> enter then (True, connect_selected_peer D w a)
           else if down then (True, move_peer_selection D 1 a)
           else if up then (True, move_peer_selection D (- 1) a)
           else if esc then (True, close_connect_picker a)
           else (False, a)))"

text \<open>The shortcuts of the screens, before the session shortcuts; \<open>None\<close> when the screen returns at once.\<close>

definition handle_screen_key ::
    "'n deps \<Rightarrow> 'n moment \<Rightarrow> bool \<Rightarrow> bool \<Rightarrow> bool \<Rightarrow> bool \<Rightarrow> bool \<Rightarrow> (char \<Rightarrow> bool) \<Rightarrow> (char \<Rightarrow> bool) \<Rightarrow> 'n app
       \<Rightarrow> (bool \<times> 'n app) option" where
  "handle_screen_key D w focus_free esc enter up down letter command a =
     (case ap_screen a of
        Home \<Rightarrow>
          Some (if focus_free then handle_configure_key D w esc enter up down letter command a else (False, a))
      | CardSetupScreen \<Rightarrow>
          Some (if focus_free \<and> letter CHR ''s'' then (True, host_card_setup a)
                else if focus_free \<and> letter CHR ''c'' then (True, join_card_setup D a)
                else (False, a))
      | CardPairing \<Rightarrow>
          Some (case ap_pin a of
             Some pin \<Rightarrow>
               (if command CHR ''t'' \<or> focus_free \<and> letter CHR ''t'' then (True, copy_with_flash w pin CopyPin a)
                else if focus_free \<and> letter CHR ''r'' then (True, net_send RefreshPin a)
                else (False, a))
           | None \<Rightarrow> (False, a))
      | CardConfirm \<Rightarrow>
          (if focus_free
           then if enter \<or> letter CHR ''i'' then Some (True, import_received_card D w a)
                else if letter CHR ''c'' then Some (True, cancel_received_card a)
                else None
           else Some (False, a))
      | SessionScreen \<Rightarrow>
          Some (if focus_free \<and> retry_available a \<and> letter CHR ''r'' then (True, retry_connection D w a)
                else (False, a)))"

definition handle_global_key ::
    "'n deps \<Rightarrow> key_codes \<Rightarrow> 'n moment \<Rightarrow> ustring \<Rightarrow> bool \<Rightarrow> bool \<Rightarrow> bool \<Rightarrow> 'n app \<Rightarrow> bool \<times> 'n app" where
  "handle_global_key D K w text plain cmd field_focused a =
     (let focus_free = \<not> field_focused;
          esc = plain \<and> key_code text (kc_escape K);
          enter = plain \<and> key_code text (kc_return K);
          up = plain \<and> key_code text (kc_up K);
          down = plain \<and> key_code text (kc_down K);
          letter = (\<lambda>c. plain \<and> key_letter text c);
          command = (\<lambda>c. cmd \<and> key_letter text c)
      in if ap_confirm_reset a
         then if enter then (True, (reset_identity D w a)\<lparr>ap_confirm_reset := False\<rparr>)
              else if esc then (True, a\<lparr>ap_confirm_reset := False\<rparr>)
              else (False, a)
         else if ap_conn_path a \<noteq> None
         then if esc then (True, a\<lparr>ap_conn_path := None\<rparr>)
              else if letter CHR ''r'' then (True, net_send QueryConnPath a)
              else (False, a)
         else if focus_free \<and> ap_screen a \<noteq> Home \<and> esc then (True, go_back a)
         else case handle_screen_key D w focus_free esc enter up down letter command a of
            None \<Rightarrow> (False, a)
          | Some (True, a') \<Rightarrow> (True, a')
          | Some (False, a') \<Rightarrow> handle_session_key w focus_free command a')"

section \<open>Actions\<close>

record fields =
  fd_my_name :: ustring
  fd_private_key :: ustring
  fd_peer_card :: ustring
  fd_pin_a :: ustring
  fd_pin_b :: ustring
  fd_join_ip :: ustring
  fd_compose :: ustring

definition fields_edited :: "fields \<Rightarrow> 'n app \<Rightarrow> 'n app" where
  "fields_edited f a =
     (case split_pin_groups (sanitize_pin_chars (fd_pin_a f)) (sanitize_pin_chars (fd_pin_b f)) of
        (p, q) \<Rightarrow> a\<lparr>in_my_name := fd_my_name f, in_private_key := fd_private_key f, in_peer_card := fd_peer_card f,
          in_pin_a := p, in_pin_b := q, in_join_ip := fd_join_ip f, in_compose := fd_compose f\<rparr>)"

text \<open>\<open>index as usize\<close> of a 32-bit index.\<close>

definition row_index :: "int \<Rightarrow> nat" where
  "row_index i = nat (i mod 2 ^ 64)"

datatype ui_action =
  GoBack | OpenCardSetup | DismissError | BeginGenerate | OpenImport | CancelSetup | UseImported | SaveName
| CancelName | Rename | PressCopyCard | PressCopyPrivateKey | RequestReset | ConfirmReset | CancelReset
| OpenPicker | ClosePicker | ImportPeerCard | ConnectSelected | TogglePeer ustring | RemovePeer ustring
| HostCardSetup | JoinCardSetup | ImportReceived | CancelReceived | PressDisconnect | RetryConnect
| PressCopyPin | PressRefreshPin | PressSendClipboard | ComposeSend | ClearInbox | PressQueryPath
| CloseConnPath | OutboxCopy | OutboxPeek | InboxCopy int | InboxPeek int | FieldsEdited fields
| GlobalKey ustring bool bool bool

definition perform :: "'n deps \<Rightarrow> key_codes \<Rightarrow> 'n moment \<Rightarrow> ui_action \<Rightarrow> 'n app \<Rightarrow> 'n app" where
  "perform D K w act a =
     (case act of
        GoBack \<Rightarrow> go_back a
      | OpenCardSetup \<Rightarrow> open_card_setup D w a
      | DismissError \<Rightarrow> a\<lparr>ap_error := None\<rparr>
      | BeginGenerate \<Rightarrow> begin_generate_identity w a
      | OpenImport \<Rightarrow> a\<lparr>ap_step := SetupImport\<rparr>
      | CancelSetup \<Rightarrow> cancel_setup a
      | UseImported \<Rightarrow> use_imported_identity D w a
      | SaveName \<Rightarrow> save_name D w a
      | CancelName \<Rightarrow> cancel_name a
      | Rename \<Rightarrow> (reset_name_field a)\<lparr>ap_step := SetupName\<rparr>
      | PressCopyCard \<Rightarrow>
          (let a1 = renew_self_card_if_stale D w a in
           case map_option (card_encode (dp_crypto D)) (ap_self_card a1) of
             Some encoded \<Rightarrow> copy_with_flash w encoded CopyCard a1
           | None \<Rightarrow> a1)
      | PressCopyPrivateKey \<Rightarrow> copy_with_flash w (to_nsec (dp_crypto D) (ap_identity a)) CopyPrivateKey a
      | RequestReset \<Rightarrow> a\<lparr>ap_confirm_reset := True\<rparr>
      | ConfirmReset \<Rightarrow> (reset_identity D w a)\<lparr>ap_confirm_reset := False\<rparr>
      | CancelReset \<Rightarrow> a\<lparr>ap_confirm_reset := False\<rparr>
      | OpenPicker \<Rightarrow> open_connect_picker a
      | ClosePicker \<Rightarrow> close_connect_picker a
      | ImportPeerCard \<Rightarrow> import_peer_card D w a
      | ConnectSelected \<Rightarrow> connect_selected_peer D w a
      | TogglePeer key \<Rightarrow> toggle_peer key a
      | RemovePeer key \<Rightarrow> remove_peer D w key a
      | HostCardSetup \<Rightarrow> host_card_setup a
      | JoinCardSetup \<Rightarrow> join_card_setup D a
      | ImportReceived \<Rightarrow> import_received_card D w a
      | CancelReceived \<Rightarrow> cancel_received_card a
      | PressDisconnect \<Rightarrow> go_back a
      | RetryConnect \<Rightarrow> retry_connection D w a
      | PressCopyPin \<Rightarrow> (case ap_pin a of Some pin \<Rightarrow> copy_with_flash w pin CopyPin a | None \<Rightarrow> a)
      | PressRefreshPin \<Rightarrow> net_send RefreshPin a
      | PressSendClipboard \<Rightarrow> send_clipboard w a
      | ComposeSend \<Rightarrow> compose_send a
      | ClearInbox \<Rightarrow> a\<lparr>ap_inbox := []\<rparr>
      | PressQueryPath \<Rightarrow> query_conn_path a
      | CloseConnPath \<Rightarrow> a\<lparr>ap_conn_path := None\<rparr>
      | OutboxCopy \<Rightarrow>
          (case ap_outbox a of Some i \<Rightarrow> copy_with_flash w (it_text i) CopyOutbox a | None \<Rightarrow> a)
      | OutboxPeek \<Rightarrow> a\<lparr>ap_outbox := map_option (toggle_peek (at_instant w)) (ap_outbox a)\<rparr>
      | InboxCopy i \<Rightarrow>
          (if row_index i < length (ap_inbox a)
           then copy_with_flash w (it_text (ap_inbox a ! row_index i)) (CopyInbox (row_index i)) a else a)
      | InboxPeek i \<Rightarrow>
          (if row_index i < length (ap_inbox a)
           then a\<lparr>ap_inbox := (ap_inbox a)[row_index i := toggle_peek (at_instant w) (ap_inbox a ! row_index i)]\<rparr>
           else a)
      | FieldsEdited f \<Rightarrow> fields_edited f a
      | GlobalKey text plain cmd focused \<Rightarrow> snd (handle_global_key D K w text plain cmd focused a))"

text \<open>A step: the user acts, the runtime reports, or the timer ticks. The runtime hands over verified cards only.\<close>

definition event_ok :: "'n deps \<Rightarrow> net_event \<Rightarrow> bool" where
  "event_ok D e \<longleftrightarrow> (case e of PeerCardReceived crd \<Rightarrow> card_wf (dp_crypto D) crd | _ \<Rightarrow> True)"

inductive app_step :: "'n deps \<Rightarrow> key_codes \<Rightarrow> 'n app \<Rightarrow> 'n app \<Rightarrow> bool" for D K where
  Act: "app_step D K a (perform D K w act a)"
| Event: "event_ok D e \<Longrightarrow> app_step D K a (apply_event D w e a)"
| Tick: "app_step D K a (tick w a)"

inductive_cases app_stepE: "app_step D K a b"

end
