(* ===== verification/Standing.thy ===== *)
theory Standing
  imports Keys
begin

text \<open>
  The invariant of the desktop app's standing state, who can be added to the trusted peers, what a
  restart restores, and the sessions two apps start with each other.
\<close>

section \<open>The invariant\<close>

text \<open>What the signing library and serde do: signing keeps the fields, content reads back as written.\<close>

definition mint_ok :: "crypto \<Rightarrow> bool" where
  "mint_ok C \<longleftrightarrow>
     (\<forall>k e ev. ev_sign C k e = Some ev \<longrightarrow> ev_pubkey ev = ev_pubkey e \<and> ev_content ev = ev_content e)
     \<and> (\<forall>c s. content_ser C c = Some s \<longrightarrow> content_de C s = Some c)"

definition self_ok :: "crypto \<Rightarrow> identity \<Rightarrow> ustring \<Rightarrow> ustring option \<Rightarrow> identity_card option \<Rightarrow> bool" where
  "self_ok C i suffix saved_name self_card \<longleftrightarrow>
     (case (saved_name, self_card) of
        (None, None) \<Rightarrow> True
      | (Some name, Some crd) \<Rightarrow> validate_name name = Inr () \<and> card_wf C crd
          \<and> card_public_key crd = identity_public C i \<and> card_name crd = display_identity name suffix
      | _ \<Rightarrow> False)"

definition trusted_ok :: "crypto \<Rightarrow> pubkey \<Rightarrow> identity_card list \<Rightarrow> bool" where
  "trusted_ok C me peers \<longleftrightarrow>
     length peers \<le> MAX_TRUSTED_PEERS \<and> distinct (map card_public_key peers)
     \<and> me \<notin> card_public_key ` set peers \<and> list_all (card_wf C) peers"

definition app_wf :: "'n deps \<Rightarrow> 'n app \<Rightarrow> bool" where
  "app_wf D a \<longleftrightarrow>
     is_valid_suffix (ap_suffix a)
     \<and> self_ok (dp_crypto D) (ap_identity a) (ap_suffix a) (ap_saved_name a) (ap_self_card a)
     \<and> trusted_ok (dp_crypto D) (own_key D a) (ap_peers a)
     \<and> pred_option (card_wf (dp_crypto D)) (ap_pending_card a)
     \<and> length (ap_inbox a) \<le> MAX_INBOX_ITEMS"

lemma card_mint_ok:
  assumes "mint_ok C" "card_mint C now i name suffix = Inr crd"
  shows "self_ok C i suffix (Some name) (Some crd)"
proof -
  let ?c = "\<lparr>cc_version = IDENTITY_CARD_VERSION, cc_name = display_identity name suffix, cc_not_before = now,
             cc_not_after = now + CARD_TTL_SECS\<rparr>"
  let ?e = "\<lambda>content. \<lparr>ev_pubkey = identity_public C i, ev_kind = IDENTITY_CARD_KIND, ev_created_at = now,
     ev_identifier = Some IDENTITY_CARD_DTAG, ev_expiration = Some (now + CARD_TTL_SECS), ev_content = content, ev_sig = []\<rparr>"
  from assms(2) obtain content ev where s: "validate_name name = Inr ()" "content_ser C ?c = Some content"
      "ev_sign C (secret i) (?e content) = Some ev" "from_event C ev = Inr crd"
    by (auto simp: card_mint_def card_valid_from_def Let_def split: sum.splits option.splits)
  from assms(1) s(2,3) have "ev_pubkey ev = identity_public C i" "content_de C (ev_content ev) = Some ?c"
    by (auto simp: mint_ok_def)
  with s show ?thesis by (auto simp: self_ok_def from_event_Inr card_wf_def card_public_key_def)
qed

text \<open>The operations that leave the standing state alone.\<close>

definition same_standing :: "'n app \<Rightarrow> 'n app \<Rightarrow> bool" where
  "same_standing a b \<longleftrightarrow>
     ap_identity b = ap_identity a \<and> ap_saved_name b = ap_saved_name a \<and> ap_suffix b = ap_suffix a
     \<and> ap_self_card b = ap_self_card a \<and> ap_peers b = ap_peers a"

named_theorems standing

lemma save_shape: "\<exists>d e. snd (save_configure_config D w a) = a\<lparr>ap_disk := d, ap_error := e\<rparr>"
proof -
  obtain r d where r: "save_config (dp_json D) (app_config D a) (at_completed w) (ap_disk a) = (r, d)" by fastforce
  have "a\<lparr>ap_disk := d\<rparr> = a\<lparr>ap_disk := d, ap_error := ap_error a\<rparr>" by simp
  then show ?thesis
  proof (cases r)
    case (Inr u)
    then show ?thesis using r by (auto simp: save_configure_config_def intro!: exI [of _ d] exI [of _ "ap_error a"])
  qed (use r in \<open>auto simp: save_configure_config_def complain_def\<close>)
qed

lemma save_fields [simp]:
  "ap_identity (snd (save_configure_config D w a)) = ap_identity a"
  "ap_saved_name (snd (save_configure_config D w a)) = ap_saved_name a"
  "ap_suffix (snd (save_configure_config D w a)) = ap_suffix a"
  "ap_self_card (snd (save_configure_config D w a)) = ap_self_card a"
  "ap_peers (snd (save_configure_config D w a)) = ap_peers a"
  "ap_pending_card (snd (save_configure_config D w a)) = ap_pending_card a"
  "ap_inbox (snd (save_configure_config D w a)) = ap_inbox a"
  "ap_screen (snd (save_configure_config D w a)) = ap_screen a"
  "ap_step (snd (save_configure_config D w a)) = ap_step a"
  "ap_net (snd (save_configure_config D w a)) = ap_net a"
  "ap_outbox (snd (save_configure_config D w a)) = ap_outbox a"
  "ap_pending_out (snd (save_configure_config D w a)) = ap_pending_out a"
  using save_shape [of D w a] by auto

lemma save_wf [simp]: "app_wf D (snd (save_configure_config D w a)) = app_wf D a"
  by (simp add: app_wf_def own_key_def)

lemma renew_cases:
  "renew_self_card_if_stale D w a = a
   \<or> (\<exists>crd name. ap_saved_name a = Some name
        \<and> card_mint (dp_crypto D) (at_unix w) (ap_identity a) name (ap_suffix a) = Inr crd
        \<and> renew_self_card_if_stale D w a = snd (save_configure_config D w (a\<lparr>ap_self_card := Some crd\<rparr>)))"
  by (auto simp: renew_self_card_if_stale_def freshly_minted_self_card_def ok_def split: option.splits sum.splits)

lemma renew_wf:
  assumes "mint_ok (dp_crypto D)" "app_wf D a"
  shows "app_wf D (renew_self_card_if_stale D w a)"
  using renew_cases [of D w a] assms(2) card_mint_ok [OF assms(1)]
  by (auto simp: app_wf_def own_key_def)

lemma copy_fields [simp]:
  "app_wf D (copy_with_flash w text target a) = app_wf D a"
  "ap_peers (copy_with_flash w text target a) = ap_peers a"
  by (simp_all add: copy_with_flash_def copy_to_clipboard_def complain_def app_wf_def own_key_def)

lemma net_send_fields [simp]:
  "app_wf D (net_send c a) = app_wf D a" "ap_peers (net_send c a) = ap_peers a" "ap_screen (net_send c a) = ap_screen a"
  "ap_step (net_send c a) = ap_step a"
  by (simp_all add: net_send_def app_wf_def own_key_def)

lemma complain_fields [simp]:
  "app_wf D (complain b a) = app_wf D a" "ap_peers (complain b a) = ap_peers a"
  by (simp_all add: complain_def app_wf_def own_key_def)

lemma trusted_replace:
  assumes "trusted_ok C me peers" "card_wf C crd" "card_public_key crd \<noteq> me"
  shows "trusted_ok C me (replace_first (\<lambda>c. card_public_key c = card_public_key crd) crd peers)"
proof -
  let ?r = "replace_first (\<lambda>c. card_public_key c = card_public_key crd) crd"
  have "map card_public_key (?r ps) = map card_public_key ps \<and> set (?r ps) \<subseteq> insert crd (set ps)" for ps
    by (induction ps) auto
  then have m: "map card_public_key (?r peers) = map card_public_key peers" "set (?r peers) \<subseteq> insert crd (set peers)" by auto
  from m(1) have "length (?r peers) = length peers" by (metis length_map)
  moreover have "card_public_key ` set (?r peers) = card_public_key ` set peers" using m(1) by (metis list.set_map)
  ultimately show ?thesis using assms m by (auto simp: trusted_ok_def list_all_iff)
qed

lemma store_wf:
  assumes "app_wf D a" "card_wf (dp_crypto D) crd"
  shows "app_wf D (snd (store_peer_card D w crd a))"
proof -
  have t: "trusted_ok (dp_crypto D) (own_key D a) (ap_peers a)" using assms(1) by (simp add: app_wf_def)
  have "trusted_ok (dp_crypto D) (own_key D a) (ap_peers a @ [crd])"
    if "\<not> list_ex (\<lambda>c. card_public_key c = card_public_key crd) (ap_peers a)" "card_public_key crd \<noteq> own_key D a"
      "length (ap_peers a) < MAX_TRUSTED_PEERS"
    using t assms(2) that by (auto simp: trusted_ok_def list_ex_iff)
  with assms trusted_replace [OF t assms(2)] show ?thesis
    by (auto simp: store_peer_card_def app_wf_def own_key_def complain_def)
qed


text \<open>Each operation keeps the invariant.\<close>

lemma remove_wf: "app_wf D a \<Longrightarrow> app_wf D (remove_peer D w key a)"
proof -
  assume a: "app_wf D a"
  then have "trusted_ok (dp_crypto D) (own_key D a) (filter P (ap_peers a))" for P
    by (auto simp: app_wf_def trusted_ok_def distinct_map_filter list_all_iff intro: order_trans [OF length_filter_le])
  with a show ?thesis
    by (simp add: remove_peer_def app_wf_def own_key_def clear_peer_boxes_def Let_def)
qed

lemma fresh_wf:
  assumes "app_wf D a"
  shows "app_wf D (a\<lparr>ap_identity := i, ap_saved_name := None, ap_self_card := None, ap_peers := []\<rparr>)"
  using assms by (simp add: app_wf_def self_ok_def trusted_ok_def)

lemma open_wf [standing]: "mint_ok (dp_crypto D) \<Longrightarrow> app_wf D a \<Longrightarrow> app_wf D (open_card_setup D w a)"
  using renew_wf [of D a w] by (auto simp: open_card_setup_def app_wf_def own_key_def)

lemma start_wf [standing]: "app_wf D a \<Longrightarrow> app_wf D (snd (start_clipboard_session D w a))"
  by (auto simp: start_clipboard_session_def Let_def app_wf_def own_key_def clear_peer_boxes_def net_send_def complain_def
      split: option.splits)

lemma simple_wf [standing]:
  assumes "app_wf D a"
  shows "app_wf D (go_back a)" "app_wf D (cancel_setup a)" "app_wf D (cancel_name a)" "app_wf D (reset_name_field a)"
    "app_wf D (open_connect_picker a)" "app_wf D (close_connect_picker a)" "app_wf D (toggle_peer key a)"
    "app_wf D (move_peer_selection D delta a)" "app_wf D (host_card_setup a)" "app_wf D (join_card_setup D a)"
    "app_wf D (cancel_received_card a)" "app_wf D (send_text text a)" "app_wf D (compose_send a)"
    "app_wf D (query_conn_path a)" "app_wf D (fields_edited f a)" "app_wf D (send_clipboard w a)"
  using assms
  by (auto simp: go_back_def stop_running_def cancel_setup_def cancel_name_def reset_name_field_def
      open_connect_picker_def close_connect_picker_def toggle_peer_def move_peer_selection_def Let_def host_card_setup_def
      join_card_setup_def cancel_received_card_def send_text_def compose_send_def query_conn_path_def fields_edited_def
      send_clipboard_def app_wf_def own_key_def net_send_def complain_def split: option.splits screen.splits prod.splits)

lemma begin_wf [standing]: "app_wf D a \<Longrightarrow> app_wf D (begin_generate_identity w a)"
  using fresh_wf [of D a "identity_generate (at_fresh w)"]
  by (simp add: begin_generate_identity_def reset_name_field_def app_wf_def own_key_def)

lemma imported_wf [standing]: "app_wf D a \<Longrightarrow> app_wf D (use_imported_identity D w a)"
  by (auto simp: use_imported_identity_def app_wf_def own_key_def self_ok_def trusted_ok_def split: sum.splits)

lemma reset_wf [standing]: "app_wf D a \<Longrightarrow> app_wf D (reset_identity D w a)"
  by (auto simp: reset_identity_def app_wf_def own_key_def self_ok_def trusted_ok_def clear_peer_boxes_def)

lemma save_name_wf [standing]:
  assumes "mint_ok (dp_crypto D)" "app_wf D a"
  shows "app_wf D (save_name D w a)"
proof (cases "card_mint (dp_crypto D) (at_unix w) (ap_identity a) (str_trim (in_my_name a)) (ap_suffix a)")
  case (Inr crd)
  let ?a = "a\<lparr>ap_saved_name := Some (str_trim (in_my_name a)), ap_self_card := Some crd\<rparr>"
  have "app_wf D ?a" using card_mint_ok [OF assms(1) Inr] assms(2) by (simp add: app_wf_def own_key_def)
  then have "app_wf D (snd (save_configure_config D w ?a))" by simp
  then show ?thesis using assms(2) Inr
    by (cases "save_configure_config D w ?a") (auto simp: save_name_def Let_def app_wf_def own_key_def split: bool.splits)
qed (use assms in \<open>simp add: save_name_def Let_def\<close>)

lemma import_wf [standing]:
  assumes "app_wf D a"
  shows "app_wf D (import_peer_card D w a)"
proof (cases "card_parse (dp_crypto D) (in_peer_card a)")
  case (Inr crd)
  with store_wf [OF assms card_parse_wf [OF Inr], of w] show ?thesis
    by (cases "store_peer_card D w crd a") (auto simp: import_peer_card_def app_wf_def own_key_def split: bool.splits)
qed (use assms in \<open>simp add: import_peer_card_def\<close>)

lemma received_wf [standing]:
  assumes "app_wf D a"
  shows "app_wf D (import_received_card D w a)"
proof (cases "ap_pending_card a")
  case (Some crd)
  let ?a = "a\<lparr>ap_pending_card := None\<rparr>"
  from assms Some have "app_wf D ?a" "card_wf (dp_crypto D) crd" by (simp_all add: app_wf_def own_key_def)
  from store_wf [OF this, of w] show ?thesis using Some
    by (cases "store_peer_card D w crd ?a") (auto simp: import_received_card_def app_wf_def own_key_def split: bool.splits)
qed (use assms in \<open>simp add: import_received_card_def\<close>)

lemma connect_wf [standing]: "app_wf D a \<Longrightarrow> app_wf D (connect_selected_peer D w a)"
  using start_wf [of D a w]
  by (cases "start_clipboard_session D w a")
    (auto simp: connect_selected_peer_def app_wf_def own_key_def split: bool.splits)

lemma retry_wf [standing]: "app_wf D a \<Longrightarrow> app_wf D (retry_connection D w a)"
  using start_wf [of D "a\<lparr>ap_error := None\<rparr>" w] by (simp add: retry_connection_def app_wf_def own_key_def)


lemma wf_updates [simp]:
  "app_wf D (a\<lparr>ap_step := s\<rparr>) = app_wf D a" "app_wf D (a\<lparr>ap_confirm_reset := r\<rparr>) = app_wf D a"
  "app_wf D (a\<lparr>ap_error := e\<rparr>) = app_wf D a" "app_wf D (a\<lparr>ap_conn_path := p\<rparr>) = app_wf D a"
  "app_wf D (a\<lparr>ap_outbox := x\<rparr>) = app_wf D a"
  by (simp_all add: app_wf_def own_key_def)

lemma inbox_wf: "app_wf D a \<Longrightarrow> length xs \<le> length (ap_inbox a) \<Longrightarrow> app_wf D (a\<lparr>ap_inbox := xs\<rparr>)"
  by (simp add: app_wf_def own_key_def)

lemma session_key_wf [standing]:
  "app_wf D a \<Longrightarrow> app_wf D (snd (handle_session_key w focus_free command a))"
  by (simp add: handle_session_key_def standing inbox_wf split: list.split option.split)

lemma wf_snd [standing]:
  "app_wf D (snd (if c then x else y)) = (if c then app_wf D (snd x) else app_wf D (snd y))"
  by simp

lemma configure_key_wf [standing]:
  assumes "mint_ok (dp_crypto D)" "app_wf D a"
  shows "app_wf D (snd (handle_configure_key D w esc enter up down letter command a))"
proof (cases "ap_step a")
  case Ready
  then show ?thesis
    by (cases "ap_self_card a")
      (simp_all only: handle_configure_key_def configure_step.case option.map option.case standing copy_fields
        wf_updates snd_conv assms if_cancel simp_thms)
qed (simp_all only: handle_configure_key_def configure_step.case standing wf_updates snd_conv assms if_cancel simp_thms)

lemma screen_key_wf:
  assumes "mint_ok (dp_crypto D)" "app_wf D a"
    and "handle_screen_key D w focus_free esc enter up down letter command a = Some r"
  shows "app_wf D (snd r)"
  using assms by (auto simp: handle_screen_key_def standing split: screen.splits option.splits if_splits)

lemma global_key_wf [standing]:
  assumes "mint_ok (dp_crypto D)" "app_wf D a"
  shows "app_wf D (snd (handle_global_key D K w text plain cmd focused a))"
proof -
  have "app_wf D (snd (case r of None \<Rightarrow> (False, a) | Some (True, b) \<Rightarrow> (True, b)
          | Some (False, b) \<Rightarrow> handle_session_key w ff command b))"
    if "\<And>x. r = Some x \<Longrightarrow> app_wf D (snd x)" for r ff command
  proof (cases r)
    case (Some x)
    with that [OF this] show ?thesis by (cases x; cases "fst x") (simp_all add: session_key_wf)
  qed (simp add: assms)
  note rest = this [OF screen_key_wf [OF assms]]
  show ?thesis
    unfolding handle_global_key_def Let_def
    by (simp only: rest snd_conv wf_updates net_send_fields standing assms if_cancel simp_thms)
qed

lemma perform_wf:
  assumes "mint_ok (dp_crypto D)" "app_wf D a"
  shows "app_wf D (perform D K w act a)"
proof (cases act)
  case (GlobalKey keys plain cmd focused)
  then show ?thesis using assms by (simp add: perform_def global_key_wf)
next
  case PressCopyCard
  then show ?thesis using renew_wf [OF assms] by (simp add: perform_def Let_def split: option.split)
qed (simp_all add: perform_def standing inbox_wf remove_wf assms split: option.split)

lemma event_wf:
  assumes "event_ok D e" "app_wf D a"
  shows "app_wf D (apply_event D w e a)"
  using assms
  by (cases e) (auto simp: apply_event_def event_ok_def app_wf_def own_key_def complain_def split: option.split)

lemma tick_wf: "app_wf D a \<Longrightarrow> app_wf D (tick w a)"
  by (simp add: tick_def app_wf_def own_key_def)

lemma app_step_wf: "mint_ok (dp_crypto D) \<Longrightarrow> app_wf D a \<Longrightarrow> app_step D K a b \<Longrightarrow> app_wf D b"
  by (auto elim!: app_stepE intro: perform_wf event_wf tick_wf)

interpretation standing_state: step_invariant "app_step D K" "\<lambda>a. mint_ok (dp_crypto D) \<and> app_wf D a"
  by unfold_locales (blast intro: app_step_wf)


section \<open>Starting\<close>

lemma ok_parse_all: "traverse (card_parse C) es = Inr cs \<Longrightarrow> List.map_filter (\<lambda>s. ok (card_parse C s)) es = cs"
proof (induction es arbitrary: cs)
  case (Cons e es)
  then show ?case by (cases "card_parse C e") (auto simp: ok_def List.map_filter_simps split: sum.splits)
qed (simp add: List.map_filter_simps)

lemma parse_all_wf: "traverse (card_parse C) es = Inr cs \<Longrightarrow> list_all (card_wf C) cs"
proof (induction es arbitrary: cs)
  case (Cons e es)
  then show ?case by (cases "card_parse C e") (auto split: sum.splits dest: card_parse_wf)
qed simp

lemma loaded_wf:
  assumes "config_ok (dp_crypto D) cfg" "parse_nsec (dp_crypto D) (cfg_secret cfg) = Inr i"
  shows "app_wf D (loaded_app D d cfg channel i)"
proof -
  let ?C = "dp_crypto D" and ?a = "loaded_app D d cfg channel i"
  from assms obtain cs where c: "is_valid_suffix (cf_suffix cfg)" "name_ok ?C i (cf_suffix cfg) (cf_name cfg) (cf_card cfg)"
    "length (cf_peers cfg) \<le> MAX_TRUSTED_PEERS" "traverse (card_parse ?C) (cf_peers cfg) = Inr cs"
    "distinct (map card_public_key cs)" "identity_public ?C i \<notin> card_public_key ` set cs"
    by (auto simp: config_ok_def peers_ok_def)
  have me: "own_key D ?a = identity_public ?C i" by (simp add: own_key_def loaded_app_def Let_def)
  have "filter (\<lambda>c. card_public_key c \<noteq> identity_public ?C i) cs = cs" using c(6) by (intro filter_True ballI) (metis imageI)
  then have "ap_peers ?a = take MAX_TRUSTED_PEERS cs" using ok_parse_all [OF c(4)] by (simp add: loaded_app_def Let_def)
  moreover have "trusted_ok ?C (identity_public ?C i) (take MAX_TRUSTED_PEERS cs)"
    using c(5,6) parse_all_wf [OF c(4)]
    by (auto simp: trusted_ok_def list_all_iff take_map [symmetric] dest: in_set_takeD)
  moreover have "self_ok ?C i (ap_suffix ?a) (ap_saved_name ?a) (ap_self_card ?a)"
    using c(2) by (auto simp: name_ok_def loaded_app_def self_ok_def ok_def Let_def dest: card_parse_wf)
  moreover have "ap_suffix ?a = cf_suffix cfg" "ap_identity ?a = i" "ap_pending_card ?a = None" "ap_inbox ?a = []"
    by (simp_all add: loaded_app_def Let_def)
  ultimately show ?thesis using c(1) me by (simp add: app_wf_def)
qed

lemma new_wf:
  assumes "mint_ok (dp_crypto D)" "load_config (dp_crypto D) (dp_json D) fresh rng d = Inr cfg" "\<forall>n. rng n < 56"
    and "app_new D w d cfg channel = Some a"
  shows "app_wf D a"
proof -
  let ?C = "dp_crypto D"
  from assms(4) obtain i where i: "parse_nsec ?C (cfg_secret cfg) = Inr i"
    "a = renew_self_card_if_stale D w (loaded_app D d cfg channel i)"
    by (auto simp: app_new_def split: sum.splits)
  have "config_ok ?C cfg"
  proof (cases "d_config d = Absent")
    case True
    with assms(2) have "cfg = config_default ?C fresh rng" by (simp add: load_config_def)
    with default_ok [of ?C fresh i rng] i(1) assms(3) show ?thesis by (simp add: config_default_def)
  qed (use load_InrD [OF assms(2)] in blast)
  from renew_wf [OF assms(1) loaded_wf [OF this i(1)]] i(2) show ?thesis by simp
qed

text \<open>
  Property C10. The standing state of the app is well formed in every reachable state. Start the app on
  whatever the store loads, and let the user, the runtime and the timer act in any order, with saves
  that succeed or fail: the trusted peers are at most 128 verified cards with distinct keys, none of
  them this device's own; a saved name and a self card come and go together, and the card is this
  identity's, verified, under that name and the permanent suffix; and the inbox never exceeds five items.
\<close>

theorem app_invariant:
  assumes "mint_ok (dp_crypto D)" "load_config (dp_crypto D) (dp_json D) fresh rng d = Inr cfg" "\<forall>n. rng n < 56"
    and "app_new D w d cfg channel = Some a" "(app_step D K)\<^sup>*\<^sup>* a b"
  shows "length (ap_peers b) \<le> 128 \<and> distinct (map card_public_key (ap_peers b))
    \<and> own_key D b \<notin> card_public_key ` set (ap_peers b) \<and> list_all (card_wf (dp_crypto D)) (ap_peers b)
    \<and> self_ok (dp_crypto D) (ap_identity b) (ap_suffix b) (ap_saved_name b) (ap_self_card b)
    \<and> is_valid_suffix (ap_suffix b) \<and> length (ap_inbox b) \<le> 5"
proof -
  have "app_wf D b"
    using standing_state.keeps_star [OF assms(5)] new_wf [OF assms(1-4)] assms(1) by blast
  then show ?thesis by (simp add: app_wf_def trusted_ok_def const_simps)
qed


section \<open>Who becomes trusted\<close>

lemma replace_set: "set (replace_first P y xs) \<subseteq> insert y (set xs)"
  by (induction xs) auto

lemma store_new:
  assumes "c \<in> set (ap_peers (snd (store_peer_card D w crd a)))" "c \<notin> set (ap_peers a)"
  shows "c = crd \<and> \<not> card_is_expired (at_unix w) crd \<and> card_public_key crd \<noteq> own_key D a"
  using assms replace_set [of "\<lambda>c. card_public_key c = card_public_key crd" crd "ap_peers a"]
  by (auto simp: store_peer_card_def split: if_splits)

text \<open>The operations that add no peer.\<close>

named_theorems grants

lemma grants_none [grants]:
  "ap_peers (go_back a) = ap_peers a" "ap_peers (cancel_setup a) = ap_peers a" "ap_peers (cancel_name a) = ap_peers a"
  "ap_peers (reset_name_field a) = ap_peers a" "ap_peers (open_connect_picker a) = ap_peers a"
  "ap_peers (close_connect_picker a) = ap_peers a" "ap_peers (toggle_peer key a) = ap_peers a"
  "ap_peers (move_peer_selection D delta a) = ap_peers a" "ap_peers (host_card_setup a) = ap_peers a"
  "ap_peers (join_card_setup D a) = ap_peers a" "ap_peers (cancel_received_card a) = ap_peers a"
  "ap_peers (send_text msg a) = ap_peers a" "ap_peers (compose_send a) = ap_peers a"
  "ap_peers (query_conn_path a) = ap_peers a" "ap_peers (fields_edited f a) = ap_peers a"
  "ap_peers (send_clipboard w a) = ap_peers a" "ap_peers (begin_generate_identity w a) = []"
  "ap_peers (reset_identity D w a) = []" "ap_peers (open_card_setup D w a) = ap_peers a"
  "ap_peers (renew_self_card_if_stale D w a) = ap_peers a"
  by (auto simp: go_back_def stop_running_def cancel_setup_def cancel_name_def reset_name_field_def
      open_connect_picker_def close_connect_picker_def toggle_peer_def move_peer_selection_def Let_def host_card_setup_def
      join_card_setup_def cancel_received_card_def send_text_def compose_send_def query_conn_path_def fields_edited_def
      send_clipboard_def begin_generate_identity_def reset_identity_def open_card_setup_def renew_self_card_if_stale_def clear_peer_boxes_def
      split: option.splits screen.splits prod.splits)

lemma grants_session [grants]:
  "ap_peers (snd (start_clipboard_session D w a)) = ap_peers a" "ap_peers (connect_selected_peer D w a) = ap_peers a"
  "ap_peers (retry_connection D w a) = ap_peers a"
proof -
  show s: "ap_peers (snd (start_clipboard_session D w a)) = ap_peers a" for a :: "'a app"
    by (auto simp: start_clipboard_session_def Let_def clear_peer_boxes_def split: option.splits)
  show "ap_peers (connect_selected_peer D w a) = ap_peers a" using s [of a]
    by (cases "start_clipboard_session D w a") (auto simp: connect_selected_peer_def split: bool.splits)
  show "ap_peers (retry_connection D w a) = ap_peers a" using s [of "a\<lparr>ap_error := None\<rparr>"]
    by (simp add: retry_connection_def)
qed

lemma grants_drop:
  "ap_peers (use_imported_identity D w a) = ap_peers a \<or> ap_peers (use_imported_identity D w a) = []"
  "set (ap_peers (remove_peer D w key a)) \<subseteq> set (ap_peers a)" "ap_peers (save_name D w a) = ap_peers a"
proof -
  show "ap_peers (use_imported_identity D w a) = ap_peers a \<or> ap_peers (use_imported_identity D w a) = []"
    by (auto simp: use_imported_identity_def split: sum.splits)
  show "set (ap_peers (remove_peer D w key a)) \<subseteq> set (ap_peers a)"
    by (auto simp: remove_peer_def Let_def clear_peer_boxes_def)
  have "ap_peers b = ap_peers a"
    if "save_configure_config D w (a\<lparr>ap_saved_name := n, ap_self_card := s\<rparr>) = (r, b)" for n s r b
    using save_fields(5) [of D w "a\<lparr>ap_saved_name := n, ap_self_card := s\<rparr>"] that by simp
  then show "ap_peers (save_name D w a) = ap_peers a"
    by (auto simp: save_name_def Let_def split: sum.splits prod.splits bool.splits)
qed

text \<open>Whether an action accepts the pasted card, or the card received over card setup.\<close>

definition pastes :: "ui_action \<Rightarrow> 'n app \<Rightarrow> bool" where
  "pastes act a \<longleftrightarrow>
     (case act of
        ImportPeerCard \<Rightarrow> True
      | GlobalKey keys plain cmd focused \<Rightarrow> plain \<and> key_letter keys CHR ''i'' \<and> \<not> focused
          \<and> ap_screen a = Home \<and> ap_step a = Ready \<and> \<not> ap_confirm_reset a
      | _ \<Rightarrow> False)"

definition accepts :: "key_codes \<Rightarrow> ui_action \<Rightarrow> 'n app \<Rightarrow> bool" where
  "accepts K act a \<longleftrightarrow>
     (case act of
        ImportReceived \<Rightarrow> True
      | GlobalKey keys plain cmd focused \<Rightarrow> plain \<and> (key_code keys (kc_return K) \<or> key_letter keys CHR ''i'')
          \<and> \<not> focused \<and> ap_screen a = CardConfirm \<and> \<not> ap_confirm_reset a
      | _ \<Rightarrow> False)"

definition granted :: "'n deps \<Rightarrow> 'n moment \<Rightarrow> bool \<Rightarrow> bool \<Rightarrow> 'n app \<Rightarrow> 'n app \<Rightarrow> bool" where
  "granted D w pasted accepted a b \<longleftrightarrow>
     (\<forall>c \<in> set (ap_peers b) - set (ap_peers a).
        \<not> card_is_expired (at_unix w) c \<and> card_public_key c \<noteq> own_key D a
        \<and> (pasted \<and> card_parse (dp_crypto D) (in_peer_card a) = Inr c \<or> accepted \<and> ap_pending_card a = Some c))"

lemma granted_none: "set (ap_peers b) \<subseteq> set (ap_peers a) \<Longrightarrow> granted D w p q a b"
  by (auto simp: granted_def)

lemma import_granted: "granted D w True q a (import_peer_card D w a)"
proof (cases "card_parse (dp_crypto D) (in_peer_card a)")
  case (Inr crd)
  then have "ap_peers (import_peer_card D w a) = ap_peers (snd (store_peer_card D w crd a))"
    by (cases "store_peer_card D w crd a") (auto simp: import_peer_card_def split: bool.splits)
  with Inr store_new [of _ D w crd a] show ?thesis by (auto simp: granted_def)
qed (simp add: import_peer_card_def granted_def)

lemma received_granted: "granted D w p True a (import_received_card D w a)"
proof (cases "ap_pending_card a")
  case (Some crd)
  let ?a = "a\<lparr>ap_pending_card := None\<rparr>"
  from Some have "ap_peers (import_received_card D w a) = ap_peers (snd (store_peer_card D w crd ?a))"
    by (cases "store_peer_card D w crd ?a") (auto simp: import_received_card_def split: bool.splits)
  with Some store_new [of _ D w crd ?a] show ?thesis by (auto simp: granted_def own_key_def)
qed (simp add: import_received_card_def granted_def)


lemma granted_same: "ap_peers b = ap_peers a \<Longrightarrow> granted D w p q a b"
  by (simp add: granted_none)

lemma session_key_same [grants]: "ap_peers (snd (handle_session_key w focus_free command a)) = ap_peers a"
  by (simp add: handle_session_key_def grants split: list.split option.split)

lemma drop_granted:
  "granted D w p q a (use_imported_identity D w a)" "granted D w p q a (remove_peer D w key a)"
  "granted D w p q a (save_name D w a)" "granted D w p q a (begin_generate_identity w a)"
  "granted D w p q a (reset_identity D w a)"
  using grants_drop(1) [of D w a]
  by (auto intro!: granted_none simp: grants grants_drop(3) grants_drop(2) [THEN subsetD])

lemma configure_key_granted:
  assumes "ap_step a = Ready \<Longrightarrow> letter CHR ''i'' \<Longrightarrow> p"
  shows "granted D w p q a (snd (handle_configure_key D w esc enter up down letter command a))"
proof (cases "ap_step a")
  case Ready
  have "granted D w p q a (import_peer_card D w a)" if "letter CHR ''i''"
    using import_granted [of D w q a] assms [OF Ready that] by simp
  then show ?thesis using Ready
    by (cases "ap_self_card a") (simp_all add: handle_configure_key_def granted_same grants)
qed (simp_all add: handle_configure_key_def granted_same grants drop_granted)

lemma screen_key_granted:
  assumes "ap_screen a = Home \<Longrightarrow> focus_free \<Longrightarrow> ap_step a = Ready \<Longrightarrow> letter CHR ''i'' \<Longrightarrow> p"
    and "ap_screen a = CardConfirm \<Longrightarrow> focus_free \<Longrightarrow> enter \<or> letter CHR ''i'' \<Longrightarrow> q"
    and r: "handle_screen_key D w focus_free esc enter up down letter command a = Some r"
  shows "granted D w p q a (snd r)"
proof (cases "ap_screen a")
  case Home
  have "granted D w p q a (snd (handle_configure_key D w esc enter up down letter command a))" if focus_free
    by (rule configure_key_granted) (rule assms(1) [OF Home that])
  with Home r show ?thesis by (auto simp: handle_screen_key_def granted_same split: if_splits)
next
  case CardConfirm
  with assms(2) received_granted [of D w p a] r show ?thesis
    by (auto simp: handle_screen_key_def granted_same grants split: if_splits)
qed (use r in \<open>auto simp: handle_screen_key_def granted_same grants split: if_splits option.splits\<close>)

lemma global_key_granted:
  "granted D w (pastes (GlobalKey keys plain cmd focused) a) (accepts K (GlobalKey keys plain cmd focused) a) a
     (snd (handle_global_key D K w keys plain cmd focused a))"
proof (cases "ap_confirm_reset a")
  case True
  then show ?thesis
    using drop_granted(5) [of D w _ _ a]
    by (auto simp: handle_global_key_def Let_def granted_def)
next
  case False
  let ?p = "pastes (GlobalKey keys plain cmd focused) a" and ?q = "accepts K (GlobalKey keys plain cmd focused) a"
  let ?letter = "\<lambda>c. plain \<and> key_letter keys c" and ?command = "\<lambda>c. cmd \<and> key_letter keys c"
  let ?code = "\<lambda>f. plain \<and> key_code keys (f K)"
  have r: "granted D w ?p ?q a (snd r)"
    if "handle_screen_key D w (\<not> focused) (?code kc_escape) (?code kc_return) (?code kc_up) (?code kc_down)
          ?letter ?command a = Some r" for r
    by (rule screen_key_granted [OF _ _ that]) (use False in \<open>auto simp: pastes_def accepts_def\<close>)
  have "granted D w ?p ?q a (snd (case x of None \<Rightarrow> (False, a) | Some (True, b) \<Rightarrow> (True, b)
          | Some (False, b) \<Rightarrow> handle_session_key w (\<not> focused) ?command b))"
    if "\<And>y. x = Some y \<Longrightarrow> granted D w ?p ?q a (snd y)" for x
  proof (cases x)
    case (Some y)
    with that [OF this] show ?thesis by (cases y; cases "fst y") (simp_all add: granted_def grants)
  qed (simp add: granted_same)
  note rest = this [OF r]
  show ?thesis
    unfolding handle_global_key_def Let_def if_not_P [OF False]
    by (simp add: rest granted_same grants)
qed

text \<open>
  Property C3. Trust is granted only by the user, for a current card, and only for the card in front of
  them. Whatever the user does, a card that is among the trusted peers afterwards and was not before is
  valid at that moment, is not this device's own, and is either the card pasted in the import field by
  the import action, or the one received over card setup, accepted by the import action or by Enter
  or the letter I, pressed plain and outside a text field on the confirmation screen. Runtime events and the timer grant nothing.
\<close>

theorem trust_granted_by_user:
  "granted D w (pastes act a) (accepts K act a) a (perform D K w act a)
   \<and> ap_peers (apply_event D w e a) = ap_peers a \<and> ap_peers (tick w a) = ap_peers a"
proof (intro conjI)
  show "granted D w (pastes act a) (accepts K act a) a (perform D K w act a)"
  proof (cases act)
    case (GlobalKey keys plain cmd focused)
    then show ?thesis using global_key_granted by (simp add: perform_def)
  next
    case ImportPeerCard
    then show ?thesis using import_granted by (simp add: perform_def pastes_def)
  next
    case ImportReceived
    then show ?thesis using received_granted by (simp add: perform_def accepts_def)
  qed (simp_all add: perform_def granted_same grants drop_granted Let_def granted_def [of D w p q a "reset_identity D w a\<lparr>ap_confirm_reset := False\<rparr>" for p q]
        split: option.split)
  show "ap_peers (apply_event D w e a) = ap_peers a"
    by (cases e) (simp_all add: apply_event_def split: option.split)
qed (simp add: tick_def)

end
