(* ===== verification/View.thy ===== *)
theory View
  imports App
begin

text \<open>
  The projection of the app's state into the window (\<open>duocb/src/app/sync.rs\<close>): what decides which
  buttons are enabled and what the fields and rows say, and the in-place update of list models. The
  sentences of the field errors are symbolic.
\<close>

section \<open>Fields\<close>

datatype field_error =
  BadName name_error
| BadKey auth_error
| BadCard auth_error
| ItsOwnCard
| NotUsable banner

definition name_field :: "'n app \<Rightarrow> bool \<times> ustring \<times> field_error option" where
  "name_field a =
     (let name = str_trim (in_my_name a) in
      case validate_name name of
        Inr _ \<Rightarrow> (True, display_identity name (ap_suffix a), None)
      | Inl e \<Rightarrow> (False, [], if name = [] then None else Some (BadName e)))"

definition import_field :: "'n deps \<Rightarrow> 'n app \<Rightarrow> bool \<times> ustring \<times> field_error option" where
  "import_field D a =
     (case parse_nsec (dp_crypto D) (in_private_key a) of
        Inr i \<Rightarrow> (True, to_npub (dp_crypto D) i, None)
      | Inl e \<Rightarrow> (False, [], if str_trim (in_private_key a) = [] then None else Some (BadKey e)))"

definition peer_card_field :: "'n deps \<Rightarrow> 'n moment \<Rightarrow> 'n app \<Rightarrow> bool \<times> field_error option" where
  "peer_card_field D w a =
     (case card_parse (dp_crypto D) (in_peer_card a) of
        Inr crd \<Rightarrow>
          (if card_public_key crd = own_key D a then (False, Some ItsOwnCard)
           else if card_is_expired (at_unix w) crd then (False, Some (NotUsable (unusable_card D w crd)))
           else (True, None))
      | Inl e \<Rightarrow> (False, if str_trim (in_peer_card a) = [] then None else Some (BadCard e)))"

definition pin_progress :: "'n app \<Rightarrow> ustring \<times> bool \<times> bool" where
  "pin_progress a =
     (let combined = in_pin_a a @ in_pin_b a; pin_len = pin_input_len combined; pin_full = (pin_len = PIN_LEN) in
      (if pin_len > 0 \<and> \<not> pin_full
       then ascii ''Keep typing '' @ [8212, 32] @ dec pin_len @ ascii '' of '' @ dec PIN_LEN @ ascii '' characters''
       else [],
       pin_full \<and> normalize_pin combined = None,
       pin_input_len (in_pin_a a) = PIN_GROUP_LEN))"

definition join_ip_error :: "'n deps \<Rightarrow> 'n app \<Rightarrow> banner option" where
  "join_ip_error D a =
     (case host_ip_outcome D a of
        OutOfRange \<Rightarrow> Some (IpOutOfRange (constraint_label (dp_ipnet D) (ap_ip_ctx a)))
      | Malformed \<Rightarrow> Some NotAnAddress
      | _ \<Rightarrow> None)"

definition connect_ready :: "'n deps \<Rightarrow> 'n app \<Rightarrow> bool" where
  "connect_ready D a \<longleftrightarrow> selected_peer_card D a \<noteq> None"

definition dial_ready :: "'n deps \<Rightarrow> 'n app \<Rightarrow> bool" where
  "dial_ready D a \<longleftrightarrow> card_setup_dial_spec D a \<noteq> None"

definition pin_countdown :: "'n moment \<Rightarrow> 'n app \<Rightarrow> ustring" where
  "pin_countdown w a =
     (case (ap_pin a, ap_pin_deadline a) of
        (Some _, Some deadline) \<Rightarrow> ascii ''refreshes in '' @ dec (deadline - at_instant w) @ ascii ''s''
      | _ \<Rightarrow> [])"

definition session_public_key :: "'n deps \<Rightarrow> 'n app \<Rightarrow> ustring" where
  "session_public_key D a = (case ap_public_key a of Some k \<Rightarrow> k | None \<Rightarrow> to_npub (dp_crypto D) (ap_identity a))"

section \<open>Rows\<close>

record peer_row =
  pr_public_key :: ustring
  pr_line :: ustring
  pr_note :: ustring
  pr_expired :: bool
  pr_selected :: bool

definition peer_rows :: "'n deps \<Rightarrow> 'n moment \<Rightarrow> 'n app \<Rightarrow> peer_row list" where
  "peer_rows D w a =
     map (\<lambda>(i, p). \<lparr>pr_public_key = peer_key D p,
            pr_line = (case peer_row_line D a i of Some l \<Rightarrow> l | None \<Rightarrow> []),
            pr_note = card_expiry_note D (at_unix w) p, pr_expired = card_is_expired (at_unix w) p,
            pr_selected = (ap_selected a = Some (peer_key D p))\<rparr>) (enumerate 0 (ap_peers a))"

text \<open>The number of lines as \<open>str::lines\<close> counts them.\<close>

definition line_count :: "ustring \<Rightarrow> nat" where
  "line_count s = length (filter (\<lambda>c. c = 10) s) + (if s = [] \<or> last s = 10 then 0 else 1)"

record clip_row =
  cr_time :: ustring
  cr_size :: ustring
  cr_crc :: ustring
  cr_expanded :: bool
  cr_peek_text :: ustring
  cr_peek_lines :: nat
  cr_note :: ustring
  cr_copied :: bool

text \<open>\<open>clock\<close> is the local time of day of a timestamp (\<open>strftime\<close>).\<close>

definition clip_row_of :: "(u64 \<Rightarrow> ustring) \<Rightarrow> inbox_item \<Rightarrow> clip_row" where
  "clip_row_of clock i =
     (case (if expanded i
            then case peek_text i of (shown, truncated) \<Rightarrow>
              (shown, max 2 (min 14 (line_count shown)),
               if truncated
               then [8230] @ ascii '' truncated '' @ [8212] @ ascii '' showing the first '' @ dec PEEK_LIMIT @
                 ascii '' characters. Use Copy for the full '' @ size_hint i @ ascii ''.''
               else [])
            else ([], 0, [])) of
        (shown, shown_lines, note) \<Rightarrow>
          \<lparr>cr_time = clock (it_time i), cr_size = size_hint i, cr_crc = crc32_display i, cr_expanded = expanded i,
           cr_peek_text = shown, cr_peek_lines = shown_lines, cr_note = note, cr_copied = False\<rparr>)"

definition inbox_rows :: "(u64 \<Rightarrow> ustring) \<Rightarrow> 'n moment \<Rightarrow> 'n app \<Rightarrow> clip_row list" where
  "inbox_rows clock w a =
     map (\<lambda>(i, item). (clip_row_of clock item)\<lparr>cr_copied := (copied_target (at_instant w) a = Some (CopyInbox i))\<rparr>)
       (enumerate 0 (ap_inbox a))"

section \<open>List models\<close>

text \<open>
  \<open>diffed_model\<close> on the model it made before: drop the surplus rows, then push or replace row by row.
\<close>

definition remove_row :: "nat \<Rightarrow> 'r list \<Rightarrow> 'r list" where
  "remove_row i rows = take i rows @ drop (Suc i) rows"

function drop_surplus :: "nat \<Rightarrow> 'r list \<Rightarrow> 'r list" where
  "drop_surplus n vec = (if length vec > n then drop_surplus n (remove_row n vec) else vec)"
  by pat_completeness auto
termination
  by (relation "measure (\<lambda>(n, vec). length vec)") (auto simp: remove_row_def)

declare drop_surplus.simps [simp del]

fun place_rows :: "nat \<Rightarrow> 'r list \<Rightarrow> 'r list \<Rightarrow> 'r list" where
  "place_rows i [] vec = vec"
| "place_rows i (row # rows) vec =
     place_rows (Suc i) rows
       (if i \<ge> length vec then vec @ [row] else if vec ! i \<noteq> row then vec[i := row] else vec)"

definition diffed_model :: "'r list \<Rightarrow> 'r list \<Rightarrow> 'r list" where
  "diffed_model vec rows = place_rows 0 rows (drop_surplus (length rows) vec)"

lemma drop_surplus_take: "drop_surplus n vec = take n vec"
proof (induction n vec rule: drop_surplus.induct)
  case (1 n vec)
  show ?case
  proof (cases "n < length vec")
    case True
    with 1 [OF True] show ?thesis
      by (subst drop_surplus.simps) (simp add: remove_row_def min_def)
  qed (simp add: drop_surplus.simps)
qed

lemma place_rows_all:
  "length vec \<le> i + length rows \<Longrightarrow> i \<le> length vec \<Longrightarrow> place_rows i rows vec = take i vec @ rows"
proof (induction i rows vec rule: place_rows.induct)
  case (2 i row rows vec)
  let ?vec = "if i \<ge> length vec then vec @ [row] else if vec ! i \<noteq> row then vec[i := row] else vec"
  have "length ?vec \<le> Suc i + length rows" "Suc i \<le> length ?vec" using 2(2,3) by auto
  moreover have "take (Suc i) ?vec = take i vec @ [row]"
    using 2(2,3) by (auto simp: take_Suc_conv_app_nth nth_list_update)
  ultimately show ?case using 2(1) by simp
qed simp

text \<open>However the model differed, after the update it holds exactly the rows.\<close>

lemma diffed_model_exact: "diffed_model vec rows = rows"
  by (simp add: diffed_model_def drop_surplus_take place_rows_all)

section \<open>What the buttons promise\<close>

lemma dial_ready_sends:
  "dial_ready D a \<longleftrightarrow> (\<exists>spec. ap_net (join_card_setup D a) = ap_net a @ [Connect spec])"
  by (auto simp: dial_ready_def join_card_setup_def net_send_def complain_def split: option.splits)

lemma connect_starts:
  "fst (start_clipboard_session D w a) \<longleftrightarrow>
     connect_ready D a \<and> ap_self_card a \<noteq> None
     \<and> (\<forall>peer. selected_peer_card D a = Some peer \<longrightarrow> \<not> card_is_expired (at_unix w) peer)"
  by (auto simp: start_clipboard_session_def session_plan_def app_key_identity_def connect_ready_def Let_def split: option.splits)

lemma peer_card_stored:
  assumes "length (ap_peers a) < MAX_TRUSTED_PEERS"
  shows "fst (peer_card_field D w a) \<longleftrightarrow>
     (\<exists>crd. card_parse (dp_crypto D) (in_peer_card a) = Inr crd \<and> fst (store_peer_card D w crd a))"
  using assms
  by (auto simp: peer_card_field_def store_peer_card_def split: sum.splits)

lemma name_field_saves: "fst (name_field a) \<longleftrightarrow> \<not> isl (validate_name (str_trim (in_my_name a)))"
  by (auto simp: name_field_def Let_def split: sum.splits)

text \<open>
  The buttons promise what the actions do. The join button is enabled exactly when joining
  sends the runtime a dial; when it is disabled, joining sends nothing and raises a banner. With room
  in the trusted list, the import button is enabled exactly when importing stores the pasted card and
  empties the field. Connect is enabled exactly when a trusted device is selected, and then it starts a
  session or raises a banner, unless this device has no card of its own.
\<close>

theorem buttons_match_actions:
  "(dial_ready D a \<longleftrightarrow> (\<exists>spec. ap_net (join_card_setup D a) = ap_net a @ [Connect spec]))
   \<and> (\<not> dial_ready D a \<longrightarrow> ap_net (join_card_setup D a) = ap_net a
        \<and> ap_error (join_card_setup D a) = Some (card_setup_dial_problem D a))
   \<and> (length (ap_peers a) < MAX_TRUSTED_PEERS \<and> in_peer_card a \<noteq> [] \<longrightarrow>
        (fst (peer_card_field D w a) \<longleftrightarrow> in_peer_card (import_peer_card D w a) = []))
   \<and> (connect_ready D a \<and> ap_self_card a \<noteq> None \<longrightarrow>
        (\<exists>c. ap_net (connect_selected_peer D w a) = ap_net a @ [c]) \<or> ap_error (connect_selected_peer D w a) \<noteq> None)
   \<and> (\<not> connect_ready D a \<longrightarrow> connect_selected_peer D w a = a)"
proof (intro conjI impI)
  show "dial_ready D a \<longleftrightarrow> (\<exists>spec. ap_net (join_card_setup D a) = ap_net a @ [Connect spec])"
    by (rule dial_ready_sends)
  show "ap_net (join_card_setup D a) = ap_net a" if "\<not> dial_ready D a"
    using that by (simp add: dial_ready_def join_card_setup_def complain_def)
  show "ap_error (join_card_setup D a) = Some (card_setup_dial_problem D a)" if "\<not> dial_ready D a"
    using that by (simp add: dial_ready_def join_card_setup_def complain_def)
  show "fst (peer_card_field D w a) \<longleftrightarrow> in_peer_card (import_peer_card D w a) = []"
    if "length (ap_peers a) < MAX_TRUSTED_PEERS \<and> in_peer_card a \<noteq> []"
  proof (cases "card_parse (dp_crypto D) (in_peer_card a)")
    case (Inr crd)
    have "in_peer_card (snd (store_peer_card D w crd a)) = in_peer_card a"
      by (auto simp: store_peer_card_def complain_def save_configure_config_def split: sum.splits prod.splits)
    with Inr that show ?thesis
      using peer_card_stored [of a D w]
      by (cases "store_peer_card D w crd a") (auto simp: import_peer_card_def split: bool.splits)
  qed (use that in \<open>simp add: peer_card_field_def import_peer_card_def complain_def\<close>)
  show "(\<exists>c. ap_net (connect_selected_peer D w a) = ap_net a @ [c]) \<or> ap_error (connect_selected_peer D w a) \<noteq> None"
    if "connect_ready D a \<and> ap_self_card a \<noteq> None"
    using that
    by (auto simp: connect_ready_def connect_selected_peer_def start_clipboard_session_def session_plan_def
        app_key_identity_def net_send_def complain_def clear_peer_boxes_def Let_def split: option.splits)
  show "connect_selected_peer D w a = a" if "\<not> connect_ready D a"
    using that
    by (auto simp: connect_ready_def connect_selected_peer_def start_clipboard_session_def session_plan_def
        split: option.splits)
qed

end
