(* ===== verification/Desktop.thy ===== *)
theory Desktop
  imports Standing View
begin

text \<open>
  What a restart of the desktop app restores, the session two apps start when each selects the other,
  and the limits of the outbox.
\<close>

section \<open>Restart\<close>

text \<open>The events of the cards in the state print as text that reads back.\<close>

definition card_text_ok :: "crypto \<Rightarrow> identity_card \<Rightarrow> bool" where
  "card_text_ok C c \<longleftrightarrow>
     ev_from_json C (card_encode C c) = Some (card_event c) \<and> str_trim (card_encode C c) = card_encode C c"

definition cards_text :: "'n deps \<Rightarrow> 'n app \<Rightarrow> bool" where
  "cards_text D a \<longleftrightarrow> list_all (card_text_ok (dp_crypto D)) (ap_peers a) \<and> pred_option (card_text_ok (dp_crypto D)) (ap_self_card a)"

lemma reparse: "card_wf C c \<Longrightarrow> card_text_ok C c \<Longrightarrow> card_parse C (card_encode C c) = Inr c"
  by (simp add: card_text_ok_def card_wf_reparse)

lemma reparse_all:
  "list_all (card_wf C) cs \<Longrightarrow> list_all (card_text_ok C) cs \<Longrightarrow> traverse (card_parse C) (map (card_encode C) cs) = Inr cs"
  by (induction cs) (simp_all add: reparse)

lemma app_config_ok:
  assumes "app_wf D a" "cards_text D a" "parse_nsec (dp_crypto D) (to_nsec (dp_crypto D) (ap_identity a)) = Inr (ap_identity a)"
  shows "config_ok (dp_crypto D) (app_config D a)"
proof -
  let ?C = "dp_crypto D"
  from assms have "traverse (card_parse ?C) (map (card_encode ?C) (ap_peers a)) = Inr (ap_peers a)"
    by (simp add: reparse_all app_wf_def trusted_ok_def cards_text_def)
  moreover have "name_ok ?C (ap_identity a) (ap_suffix a) (ap_saved_name a) (map_option (card_encode ?C) (ap_self_card a))"
    using assms(1,2) by (auto simp: app_wf_def self_ok_def name_ok_def cards_text_def reparse split: option.splits)
  ultimately show ?thesis using assms(1,3)
    by (simp add: config_ok_def app_config_def peers_ok_def app_wf_def trusted_ok_def own_key_def)
qed

lemma loaded_same:
  assumes "app_wf D a" "cards_text D a"
  shows "same_standing a (loaded_app D d (app_config D a) channel (ap_identity a))"
    "ap_step (loaded_app D d (app_config D a) channel (ap_identity a)) = (if has_saved_identity a then Ready else SetupChoice)"
proof -
  let ?C = "dp_crypto D" and ?b = "loaded_app D d (app_config D a) channel (ap_identity a)"
  from assms have t: "trusted_ok ?C (own_key D a) (ap_peers a)" "list_all (card_text_ok ?C) (ap_peers a)"
    by (simp_all add: app_wf_def cards_text_def)
  from t have "traverse (card_parse ?C) (map (card_encode ?C) (ap_peers a)) = Inr (ap_peers a)"
    by (simp add: trusted_ok_def reparse_all)
  note p = ok_parse_all [OF this]
  have "filter (\<lambda>c. card_public_key c \<noteq> own_key D a) (ap_peers a) = ap_peers a"
    using t(1) by (intro filter_True ballI) (metis imageI trusted_ok_def)
  then have peers: "ap_peers ?b = ap_peers a"
    using p t(1) by (simp add: loaded_app_def app_config_def Let_def own_key_def trusted_ok_def)
  have "ap_saved_name ?b = ap_saved_name a \<and> ap_self_card ?b = ap_self_card a"
    using assms by (auto simp: app_wf_def self_ok_def cards_text_def reparse loaded_app_def app_config_def ok_def Let_def
        split: option.splits)
  moreover have "ap_step ?b = (if ap_saved_name ?b \<noteq> None \<and> ap_self_card ?b \<noteq> None then Ready else SetupChoice)"
    "ap_identity ?b = ap_identity a" "ap_suffix ?b = ap_suffix a"
    by (simp_all add: loaded_app_def app_config_def Let_def)
  ultimately show "same_standing a ?b" "ap_step ?b = (if has_saved_identity a then Ready else SetupChoice)"
    using peers by (simp_all add: same_standing_def has_saved_identity_def)
qed

lemma fresh_same: "same_standing a b \<Longrightarrow> freshly_minted_self_card D w b = freshly_minted_self_card D w a"
  unfolding same_standing_def freshly_minted_self_card_def by (elim conjE) (simp split: option.split)

lemma renew_shape:
  "renew_self_card_if_stale D w a = (case freshly_minted_self_card D w a of None \<Rightarrow> a
     | Some c \<Rightarrow> snd (save_configure_config D w (a\<lparr>ap_self_card := Some c\<rparr>)))"
  by (simp add: renew_self_card_if_stale_def)

text \<open>
  Property C12. A restart restores the standing state. Whenever a save of a well-formed app succeeds, the
  next launch loads exactly what was saved, without error, and comes up with the same identity, name,
  suffix and trusted peers, at the hub if a name and card exist and at the first setup step otherwise;
  the self card is the same one, or its replacement if it was close to expiry.
\<close>

theorem restart_restores:
  assumes "app_wf D a" "cards_text D a" "json_at (dp_json D) (public_part (app_config D a))"
    and "parse_nsec (dp_crypto D) (to_nsec (dp_crypto D) (ap_identity a)) = Inr (ap_identity a)"
    and "save_configure_config D w a = (True, a')"
  shows "load_config (dp_crypto D) (dp_json D) fresh rng (ap_disk a') = Inr (app_config D a)
    \<and> (case app_new D w' (ap_disk a') (app_config D a) channel of
         None \<Rightarrow> False
       | Some b \<Rightarrow>
           ap_identity b = ap_identity a \<and> ap_saved_name b = ap_saved_name a \<and> ap_suffix b = ap_suffix a
           \<and> ap_peers b = ap_peers a \<and> ap_step b = (if has_saved_identity a then Ready else SetupChoice)
           \<and> ap_self_card b = (case freshly_minted_self_card D w' a of Some c \<Rightarrow> Some c | None \<Rightarrow> ap_self_card a))"
proof
  let ?J = "dp_json D" and ?cfg = "app_config D a" and ?d = "ap_disk a'"
  note cfg = app_config_ok [OF assms(1,2,4)]
  from assms(5) have s: "save_config ?J ?cfg (at_completed w) (ap_disk a) = (Inr (), ?d)"
    by (auto simp: save_configure_config_def split: prod.splits sum.splits)
  from assms(3) obtain t where t: "cj_ser ?J (public_part ?cfg) = Some t" by (auto simp: json_at_def split: option.splits)
  from s have "length (save_ops ?J ?cfg) \<le> at_completed w" "?d = apply_ops (take (at_completed w) (save_ops ?J ?cfg)) (ap_disk a)"
    by (auto simp: save_config_def split: if_splits)
  with save_prefix(2) [OF t, of "at_completed w" "ap_disk a"] save_steps [OF t]
  have "d_config ?d = File kept_file (utf8 t)" "d_key ?d = Entry (cfg_secret ?cfg)" by auto
  from load_file [OF assms(3) t cfg this] show "load_config (dp_crypto D) ?J fresh rng ?d = Inr ?cfg" .
  let ?b = "loaded_app D ?d ?cfg channel (ap_identity a)"
  have n: "app_new D w' ?d ?cfg channel = Some (renew_self_card_if_stale D w' ?b)"
    using assms(4) by (simp add: app_new_def app_config_def)
  have "freshly_minted_self_card D w' ?b = freshly_minted_self_card D w' a"
    using loaded_same(1) [OF assms(1,2), of ?d channel] by (rule fresh_same)
  then show "case app_new D w' ?d ?cfg channel of None \<Rightarrow> False
       | Some b \<Rightarrow>
           ap_identity b = ap_identity a \<and> ap_saved_name b = ap_saved_name a \<and> ap_suffix b = ap_suffix a
           \<and> ap_peers b = ap_peers a \<and> ap_step b = (if has_saved_identity a then Ready else SetupChoice)
           \<and> ap_self_card b = (case freshly_minted_self_card D w' a of Some c \<Rightarrow> Some c | None \<Rightarrow> ap_self_card a)"
    using loaded_same [OF assms(1,2), of ?d channel]
    by (simp add: n renew_shape same_standing_def split: option.split)
qed

section \<open>Selecting each other\<close>

lemma connect_selected:
  assumes "selected_peer_card D a = Some peer" "ap_self_card a = Some own" "\<not> card_is_expired (at_unix w) peer"
  shows "connect_selected_peer D w a =
     (let i = \<lparr>ki_identity = ap_identity a, ki_self_card = own, ki_peers = ap_peers a, ki_relays = DEFAULT_NOSTR_RELAYS\<rparr>;
          host = (session_role (own_key D a) (card_public_key peer) = Host);
          a1 = (if ap_box_peer a \<noteq> Some (peer_key D peer) then clear_peer_boxes a else a)
      in a1\<lparr>ap_net := ap_net a @ [if host then StartServer (ServeKey i (card_public_key peer) (ap_channel a))
                                 else Connect (DialKey i (card_public_key peer) (ap_channel a))],
            ap_box_peer := Some (peer_key D peer), ap_session_peer := Some (card_name peer), ap_active := True,
            ap_hosting := host, ap_screen := SessionScreen\<rparr>)"
  using assms
  by (auto simp: connect_selected_peer_def start_clipboard_session_def session_plan_def app_key_identity_def plan_command_def
      net_send_def Let_def clear_peer_boxes_def split: role.splits)

text \<open>
  Property C14. Two devices that select each other start the two halves of one session. When each has the
  other's current card selected, connecting sends exactly one command on each side: one serves and the
  other dials, each naming the other's key, whichever side acts first and without any exchange between
  them; and content kept from an earlier session with another device is gone from the boxes.
\<close>

theorem selecting_each_other:
  assumes "dp_crypto E = dp_crypto D" "own_key D a \<noteq> own_key E b"
    and "selected_peer_card D a = Some cb" "card_public_key cb = own_key E b" "\<not> card_is_expired (at_unix w) cb"
    and "selected_peer_card E b = Some ca" "card_public_key ca = own_key D a" "\<not> card_is_expired (at_unix v) ca"
    and "app_key_identity a = Some ia" "app_key_identity b = Some ib"
  shows "let a' = connect_selected_peer D w a; b' = connect_selected_peer E v b in
     (if to_bytes (own_key D a) \<le> to_bytes (own_key E b)
      then ap_net a' = ap_net a @ [StartServer (ServeKey ia (own_key E b) (ap_channel a))]
        \<and> ap_net b' = ap_net b @ [Connect (DialKey ib (own_key D a) (ap_channel b))]
      else ap_net a' = ap_net a @ [Connect (DialKey ia (own_key E b) (ap_channel a))]
        \<and> ap_net b' = ap_net b @ [StartServer (ServeKey ib (own_key D a) (ap_channel b))])
     \<and> ap_hosting a' = (\<not> ap_hosting b') \<and> ap_active a' \<and> ap_active b'
     \<and> (ap_box_peer a \<noteq> Some (peer_key D cb) \<longrightarrow> ap_inbox a' = [] \<and> ap_outbox a' = None \<and> ap_pending_out a' = None)"
proof -
  obtain oa ob where s: "ap_self_card a = Some oa" "ap_self_card b = Some ob"
    using assms(9,10) by (auto simp: app_key_identity_def)
  note A = connect_selected [OF assms(3) s(1) assms(5)] and B = connect_selected [OF assms(6) s(2) assms(8)]
  have i: "ia = \<lparr>ki_identity = ap_identity a, ki_self_card = oa, ki_peers = ap_peers a, ki_relays = DEFAULT_NOSTR_RELAYS\<rparr>"
    "ib = \<lparr>ki_identity = ap_identity b, ki_self_card = ob, ki_peers = ap_peers b, ki_relays = DEFAULT_NOSTR_RELAYS\<rparr>"
    using assms(9,10) s by (simp_all add: app_key_identity_def)
  have "to_bytes (own_key D a) \<le> to_bytes (own_key E b) \<longleftrightarrow> \<not> to_bytes (own_key E b) \<le> to_bytes (own_key D a)"
    using assms(2) by (auto simp: pubkey.expand)
  then show ?thesis
    by (simp add: A B assms(4,7) i Let_def session_role_def) (simp add: clear_peer_boxes_def)
qed


section \<open>Sample devices\<close>

definition sample_deps :: "(ipv4 \<times> nat) deps" where
  "sample_deps = \<lparr>dp_crypto = sample_crypto, dp_json = sample_json, dp_ipnet = demo_ipnet, dp_crc = (\<lambda>_. 0), dp_date = (\<lambda>_. [])\<rparr>"

definition sample_moment :: "(ipv4 \<times> nat) moment" where
  "sample_moment = \<lparr>at_unix = 2000, at_instant = 0, at_fresh = [3], at_completed = 6, at_clipboard = None,
     at_clipboard_takes = True, at_default_if = None, at_interfaces = []\<rparr>"

definition sample_app :: "byte \<Rightarrow> nat \<Rightarrow> nat \<Rightarrow> (ipv4 \<times> nat) app" where
  "sample_app k own peer = loaded_app sample_deps sample_disk (sample_config k own peer) LanThenNostr \<lparr>secret = [k]\<rparr>"

lemma sample_deps_simps: "dp_crypto sample_deps = sample_crypto" "dp_json sample_deps = sample_json"
  by (simp_all add: sample_deps_def)

lemma index_of_Some: "index_of x ys = Some i \<Longrightarrow> i < length ys \<and> ys ! i = x"
  by (induction ys arbitrary: i) (auto split: if_splits)

lemma sample_mint_ok: "mint_ok sample_crypto"
  using index_of_Some [of _ "[sample_content 1000]"]
  by (auto simp: mint_ok_def sample_crypto_def toy_crypto_def)

lemma sample_fields:
  "ap_identity (sample_app k own peer) = \<lparr>secret = [k]\<rparr>" "ap_suffix (sample_app k own peer) = [50, 51, 52, 53, 54, 55, 56, 57]"
  "ap_net (sample_app k own peer) = []" "ap_disk (sample_app k own peer) = sample_disk" "ap_box_peer (sample_app k own peer) = None"
  "ap_channel (sample_app k own peer) = LanThenNostr"
  by (simp_all add: sample_app_def loaded_app_def sample_config_def Let_def)

lemma sample_keys:
  "card_public_key (sample_card k) = PublicKey [k]" "identity_public sample_crypto \<lparr>secret = [k]\<rparr> = PublicKey [k]"
  "own_key sample_deps (sample_app k own peer) = PublicKey [k]"
  by (simp_all add: card_public_key_def sample_card_def sample_event_def own_key_def sample_deps_def sample_fields
      identity_public_def sample_crypto_def toy_crypto_def)

lemma sample_standing:
  "ap_saved_name (sample_app 7 1000 1001) = Some [97]" "ap_self_card (sample_app 7 1000 1001) = Some (sample_card 7)"
  "ap_peers (sample_app 7 1000 1001) = [sample_card 9]"
  "ap_saved_name (sample_app 9 1001 1000) = Some [97]" "ap_self_card (sample_app 9 1001 1000) = Some (sample_card 9)"
  "ap_peers (sample_app 9 1001 1000) = [sample_card 7]"
proof -
  have n: "validate_name [97] = Inr ()"
    by (simp add: validate_name_def name_char_def is_ascii_alphanumeric_def const_simps)
  have d: "display_identity [97] [50, 51, 52, 53, 54, 55, 56, 57] = sample_name" "card_name (sample_card k) = sample_name" for k
    by (simp_all add: display_identity_def sample_name_def sample_card_def const_simps)
  show "ap_saved_name (sample_app 7 1000 1001) = Some [97]" "ap_self_card (sample_app 7 1000 1001) = Some (sample_card 7)"
    "ap_peers (sample_app 7 1000 1001) = [sample_card 9]"
    "ap_saved_name (sample_app 9 1001 1000) = Some [97]" "ap_self_card (sample_app 9 1001 1000) = Some (sample_card 9)"
    "ap_peers (sample_app 9 1001 1000) = [sample_card 7]"
    by (simp_all add: sample_app_def loaded_app_def sample_config_def sample_deps_def Let_def n d ok_def sample_card_text
        sample_keys(1,2) List.map_filter_simps const_simps)
qed

lemma sample_app_wf: "app_wf sample_deps (sample_app 7 1000 1001)"
  unfolding sample_app_def
  by (rule loaded_wf) (simp_all add: sample_deps_def sample_config_ok sample_config_parts)

lemma sample_valid: "\<not> card_is_expired 2000 (sample_card k)" "remaining_secs_at (sample_card k) 2000 > CARD_RENEW_BEFORE_SECS"
  by (simp_all add: card_is_expired_def is_valid_at_def is_not_yet_valid_at_def remaining_secs_at_def sample_card_def
      saturating_add_def const_simps)

lemma sample_new: "app_new sample_deps sample_moment sample_disk (sample_config 7 1000 1001) LanThenNostr = Some (sample_app 7 1000 1001)"
  using sample_valid(2) [of 7] sample_standing(1,2)
  by (simp add: app_new_def sample_deps_def sample_config_parts renew_self_card_if_stale_def
      freshly_minted_self_card_def sample_moment_def sample_app_def)

lemma sample_cards_text: "cards_text sample_deps (sample_app 7 1000 1001)"
proof -
  have "card_text_ok sample_crypto (sample_card k)" if "k = 7 \<or> k = 9" for k
    using that sample_from_json sample_events
    by (auto simp: card_text_ok_def card_encode_def sample_card_def str_trim_def is_whitespace_def)
  then show ?thesis by (simp add: cards_text_def sample_standing sample_deps_def)
qed

lemma sample_app_config: "app_config sample_deps (sample_app 7 1000 1001) = sample_config 7 1000 1001"
proof -
  have "card_encode sample_crypto (sample_card 7) = [123, 1000, 125]" "card_encode sample_crypto (sample_card 9) = [123, 1001, 125]"
    by (simp_all add: card_encode_def sample_card_def sample_events)
  moreover have "to_nsec sample_crypto \<lparr>secret = [7]\<rparr> = [110, 115, 101, 99, 49, 256 + unat (7 :: byte)]"
    by (simp add: to_nsec_def sample_crypto_def toy_crypto_def ascii_def)
  ultimately show ?thesis
    by (simp add: app_config_def sample_fields sample_standing sample_deps_def sample_config_def)
qed

definition slint_keys :: key_codes where
  "slint_keys = \<lparr>kc_escape = 27, kc_return = 10, kc_up = 63232, kc_down = 63233\<rparr>"

lemma app_invariant_witness:
  "length (ap_peers (perform sample_deps slint_keys sample_moment BeginGenerate (sample_app 7 1000 1001))) \<le> 128
   \<and> is_valid_suffix (ap_suffix (perform sample_deps slint_keys sample_moment BeginGenerate (sample_app 7 1000 1001)))"
proof -
  have "(app_step sample_deps slint_keys)\<^sup>*\<^sup>* (sample_app 7 1000 1001) (perform sample_deps slint_keys sample_moment BeginGenerate (sample_app 7 1000 1001))"
    by (intro r_into_rtranclp app_step.Act)
  from app_invariant [OF _ _ _ sample_new this, of "[]" "\<lambda>_. 0"] show ?thesis
    using sample_mint_ok sample_disk_loads [of "[]" "\<lambda>_. 0"] by (simp add: sample_deps_def)
qed

lemma restart_restores_witness:
  "\<exists>a'. save_configure_config sample_deps sample_moment (sample_app 7 1000 1001) = (True, a')
     \<and> load_config sample_crypto sample_json [] id (ap_disk a') = Inr (sample_config 7 1000 1001)"
proof -
  have "length (save_ops sample_json (sample_config 7 1000 1001)) = 6"
    using save_steps [OF sample_json_at(1)] by simp
  then have "fst (save_config sample_json (sample_config 7 1000 1001) 6 sample_disk) = Inr ()"
    by (simp add: save_config_def sample_json_at)
  moreover have "dp_json sample_deps = sample_json" "at_completed sample_moment = 6"
    by (simp_all add: sample_deps_def sample_moment_def)
  ultimately have "fst (save_configure_config sample_deps sample_moment (sample_app 7 1000 1001))"
    by (cases "save_config sample_json (sample_config 7 1000 1001) 6 sample_disk")
      (simp add: save_configure_config_def sample_app_config sample_fields)
  then obtain a' where a': "save_configure_config sample_deps sample_moment (sample_app 7 1000 1001) = (True, a')"
    by (cases "save_configure_config sample_deps sample_moment (sample_app 7 1000 1001)") auto
  have "json_at (dp_json sample_deps) (public_part (app_config sample_deps (sample_app 7 1000 1001)))"
    by (simp add: sample_app_config sample_deps_simps json_at_def sample_json_at valid_text_def valid_scalar_def)
  moreover have "parse_nsec (dp_crypto sample_deps) (to_nsec (dp_crypto sample_deps) (ap_identity (sample_app 7 1000 1001)))
      = Inr (ap_identity (sample_app 7 1000 1001))"
    using arg_cong [OF sample_app_config, of cfg_secret] sample_config_parts(1)
    by (simp add: app_config_def sample_deps_simps sample_fields)
  ultimately show ?thesis
    using a' restart_restores [OF sample_app_wf sample_cards_text _ _ a', of "[]" id] sample_app_config
    by (simp add: sample_deps_simps)
qed

lemma selecting_each_other_witness:
  "\<exists>ia ib. ap_net (connect_selected_peer sample_deps sample_moment ((sample_app 7 1000 1001)\<lparr>ap_selected := Some [9]\<rparr>))
       = [StartServer (ServeKey ia (PublicKey [9]) LanThenNostr)]
     \<and> ap_net (connect_selected_peer sample_deps sample_moment ((sample_app 9 1001 1000)\<lparr>ap_selected := Some [7]\<rparr>))
       = [Connect (DialKey ib (PublicKey [7]) LanThenNostr)]"
proof -
  let ?a = "(sample_app 7 1000 1001)\<lparr>ap_selected := Some [9]\<rparr>" and ?b = "(sample_app 9 1001 1000)\<lparr>ap_selected := Some [7]\<rparr>"
  have own: "own_key sample_deps ?a = PublicKey [7]" "own_key sample_deps ?b = PublicKey [9]"
    using sample_keys(3) by (simp_all add: own_key_def)
  have sel: "selected_peer_card sample_deps ?a = Some (sample_card 9)" "selected_peer_card sample_deps ?b = Some (sample_card 7)"
    by (simp_all add: selected_peer_card_def sample_standing peer_key_def sample_keys(1) sample_deps_def sample_crypto_def
        toy_crypto_def)
  obtain ia ib where i: "app_key_identity ?a = Some ia" "app_key_identity ?b = Some ib"
    by (simp add: app_key_identity_def sample_standing)
  have now: "\<not> card_is_expired (at_unix sample_moment) (sample_card k)" for k
    by (simp add: sample_moment_def sample_valid(1))
  show ?thesis
    using selecting_each_other [OF refl _ sel(1) _ now sel(2) _ now i] own
    by (simp add: sample_keys(1) Let_def sample_fields)
qed

lemma buttons_match_actions_witness:
  "let a = (sample_app 7 1000 1001)\<lparr>in_peer_card := [123, 1001, 125]\<rparr> in
     fst (peer_card_field sample_deps sample_moment a)
     \<and> in_peer_card (import_peer_card sample_deps sample_moment a) = []
     \<and> ap_error (join_card_setup sample_deps a) = Some EnterFullPin
     \<and> connect_selected_peer sample_deps sample_moment a = a"
proof -
  let ?a = "(sample_app 7 1000 1001)\<lparr>in_peer_card := [123, 1001, 125]\<rparr>"
  have own: "own_key sample_deps ?a = PublicKey [7]" using sample_keys(3) by (simp add: own_key_def)
  have v: "\<not> card_is_expired (at_unix sample_moment) (sample_card 9)" by (simp add: sample_moment_def sample_valid(1))
  have f: "fst (peer_card_field sample_deps sample_moment ?a)"
    using v by (simp add: peer_card_field_def sample_deps_simps sample_card_text sample_keys(1) own)
  have len: "length (ap_peers ?a) < MAX_TRUSTED_PEERS \<and> in_peer_card ?a \<noteq> []"
    by (simp add: sample_standing const_simps)
  have p: "in_pin_a ?a = []" "in_pin_b ?a = []" "ap_selected ?a = None"
    by (simp_all add: sample_app_def loaded_app_def Let_def)
  have n: "normalize_pin [] = None" by (simp add: normalize_pin_def const_simps)
  have r: "\<not> dial_ready sample_deps ?a" "\<not> connect_ready sample_deps ?a"
    "card_setup_dial_problem sample_deps ?a = EnterFullPin"
    using p n
    by (simp_all only: dial_ready_def card_setup_dial_spec_def card_setup_dial_problem_def connect_ready_def
        selected_peer_card_def append_Nil option.case if_True bind.simps simp_thms)
  from buttons_match_actions [of sample_deps ?a sample_moment, unfolded r(3)] r f len show ?thesis
    unfolding Let_def by blast
qed

section \<open>Limits\<close>

text \<open>
  The outbox does not always name what was sent. An error report drops the pending text while it may
  still be queued in the runtime; a second text can then be sent, and the confirmation of the first one
  is taken for the second.
\<close>

lemma outbox_names_unconfirmed_text:
  assumes "s \<noteq> []" "t \<noteq> []" "ap_pending_out a = None"
  shows "let b = apply_event D w ItemSent (send_text t (apply_event D w (ErrorEvent m) (send_text s a))) in
     ap_net b = ap_net a @ [SendClipboard s, SendClipboard t] \<and> map_option it_text (ap_outbox b) = Some t
     \<and> ap_pending_out b = None"
  using assms by (simp add: send_text_def net_send_def apply_event_def complain_def item_new_def)

text \<open>With no report in between, what the outbox shows is what was handed over, and nothing else is in flight.\<close>

lemma outbox_confirmed:
  assumes "s \<noteq> []" "ap_pending_out a = None"
  shows "let b = send_text s a in
     ap_net b = ap_net a @ [SendClipboard s] \<and> send_text t b = b \<and> ap_outbox b = ap_outbox a
     \<and> map_option it_text (ap_outbox (apply_event D w ItemSent b)) = Some s"
  using assms by (simp add: send_text_def net_send_def apply_event_def item_new_def)

text \<open>Generating a new identity forgets the peers but not the content traded with them.\<close>

lemma generate_keeps_boxes:
  "ap_peers (begin_generate_identity w a) = [] \<and> ap_inbox (begin_generate_identity w a) = ap_inbox a
   \<and> ap_outbox (begin_generate_identity w a) = ap_outbox a \<and> ap_selected (begin_generate_identity w a) = ap_selected a
   \<and> ap_box_peer (begin_generate_identity w a) = ap_box_peer a"
  by (simp add: begin_generate_identity_def reset_name_field_def)

text \<open>The keyboard copies the self card as it is; the button renews it first.\<close>

lemma keyboard_copies_stale_card:
  assumes "ap_confirm_reset a = False" "ap_conn_path a = None" "ap_screen a = Home" "ap_step a = Ready"
    and "ap_self_card a = Some crd" "at_clipboard_takes w"
  shows "ap_copied (perform D K w (GlobalKey (ascii ''t'') True False False) a) = ap_copied a @ [card_encode (dp_crypto D) crd]"
  using assms
  by (simp add: perform_def handle_global_key_def handle_screen_key_def handle_configure_key_def Let_def key_letter_def
      ascii_def to_ascii_uppercase_def copy_with_flash_def copy_to_clipboard_def)

end
