(* ===== verification/Ffi.thy ===== *)
theory Ffi
  imports Runtime Subnet Relays Pin Sample
begin

text \<open>
  The C surface for the mobile apps (\<open>duocb-ffi/src/lib.rs\<close>): C strings and buffers, the pure
  helpers, the start plan, the process-wide session slot and transport key, and the draining of
  events. \<open>None\<close> is a NULL pointer; a buffer is the bytes it holds. Parsing and printing JSON,
  hexadecimal decoding and error sentences are parameters.
\<close>

section \<open>C strings and buffers\<close>

definition cstr_arg :: "bytes option \<Rightarrow> ustring option" where
  "cstr_arg ptr = Option.bind ptr (\<lambda>b. utf8_decode (takeWhile (\<lambda>x. x \<noteq> 0) b))"

definition is_char_boundary :: "ustring \<Rightarrow> nat \<Rightarrow> bool" where
  "is_char_boundary s n \<longleftrightarrow> slice_at n s \<noteq> None"

fun back_off :: "ustring \<Rightarrow> nat \<Rightarrow> nat" where
  "back_off s 0 = 0"
| "back_off s (Suc n) = (if \<not> is_char_boundary s (Suc n) then back_off s n else Suc n)"

definition write_cstr :: "bytes option \<Rightarrow> ustring \<Rightarrow> bool \<times> bytes option" where
  "write_cstr buf s =
     (case buf of
        None \<Rightarrow> (False, None)
      | Some b \<Rightarrow>
          (if length b = 0 then (False, Some b)
           else let copy = back_off s (min (str_len s) (length b - 1))
                in (copy = str_len s, Some (take copy (utf8 s) @ [0] @ drop (Suc copy) b))))"

definition write_result :: "bytes option \<Rightarrow> ustring \<Rightarrow> int \<times> bytes option" where
  "write_result buf s =
     (if buf = None then (- 1, None)
      else case write_cstr buf s of (fits, b) \<Rightarrow> (if fits then 1 else 0, b))"

section \<open>JSON and configuration\<close>

datatype json =
  JNull | JBool bool | JNum nat | JStr ustring | JList "json list" | JObj "(ustring \<times> json) list"

datatype channel = ChLanThenNostr | ChLanOnly | ChNostrOnly

definition to_core :: "channel \<Rightarrow> signal_channel" where
  "to_core c = (case c of ChLanThenNostr \<Rightarrow> LanThenNostr | ChLanOnly \<Rightarrow> LanOnly | ChNostrOnly \<Rightarrow> NostrOnly)"

datatype ffi_role = RoleConnect | RoleCardHost | RoleCardJoin

record ffi_config =
  fc_role :: ffi_role
  fc_iroh_secret :: "ustring option"
  fc_identity_secret :: "ustring option"
  fc_self_card :: "ustring option"
  fc_peers :: "ustring list"
  fc_peer_public_key :: "ustring option"
  fc_pin :: "ustring option"
  fc_ip :: "ustring option"
  fc_channel :: "channel option"
  fc_relays :: "ustring list"

record 'n ffi =
  fx_crypto :: crypto
  fx_ipnet :: "'n ipnet"
  fx_config :: "ustring \<Rightarrow> ffi_config option"
  fx_hex_decode :: "ustring \<Rightarrow> bytes option"
  fx_json :: "json \<Rightarrow> ustring"
  fx_auth_error :: "auth_error \<Rightarrow> ustring"
  fx_name_error :: "name_error \<Rightarrow> ustring"
  fx_message :: "message \<Rightarrow> ustring"
  fx_node :: "node_id \<Rightarrow> ustring"

datatype ffi_error =
  AlreadyRunning
| InvalidConfigJson
| SecretRequired
| InvalidSecret
| SecretDiffers
| SelfCardRequired
| InvalidSelfCard auth_error
| CardSetupExtraFields
| PinOnlyForJoin
| PeerOnlyForConnect
| InvalidPinText
| IpNeedsLan
| InvalidHostIp
| IdentityRequired
| InvalidIdentity auth_error
| SelfCardNotSigned
| PeersExceedLimit
| InvalidPeerCard auth_error
| PeersContainSelf
| PeersDuplicate
| PeerRequired
| PeerNotTrusted
| RuntimeBuildFailed

section \<open>The start plan\<close>

record start_plan =
  sp_secret :: bytes
  sp_session :: ui_command
  sp_disconnect :: ui_command

definition plan_host :: "bytes \<Rightarrow> ui_command \<Rightarrow> start_plan" where
  "plan_host iroh cmd = \<lparr>sp_secret = iroh, sp_session = cmd, sp_disconnect = StopServer\<rparr>"

definition plan_dial :: "bytes \<Rightarrow> ui_command \<Rightarrow> start_plan" where
  "plan_dial iroh cmd = \<lparr>sp_secret = iroh, sp_session = cmd, sp_disconnect = Disconnect\<rparr>"

definition parse_iroh_secret :: "'n ffi \<Rightarrow> ustring option \<Rightarrow> ffi_error + bytes" where
  "parse_iroh_secret X value =
     (case value of
        None \<Rightarrow> Inl SecretRequired
      | Some v \<Rightarrow>
          (case fx_hex_decode X (str_trim v) of
             Some b \<Rightarrow> if length b = 32 then Inr b else Inl InvalidSecret
           | None \<Rightarrow> Inl InvalidSecret))"

fun collect_peers :: "crypto \<Rightarrow> pubkey \<Rightarrow> pubkey list \<Rightarrow> ustring list \<Rightarrow> ffi_error + identity_card list" where
  "collect_peers C me seen [] = Inr []"
| "collect_peers C me seen (encoded # es) =
     (case card_parse C encoded of
        Inl e \<Rightarrow> Inl (InvalidPeerCard e)
      | Inr crd \<Rightarrow>
          (if card_public_key crd = me then Inl PeersContainSelf
           else if List.member seen (card_public_key crd) then Inl PeersDuplicate
           else case collect_peers C me (card_public_key crd # seen) es of
             Inl e \<Rightarrow> Inl e
           | Inr cs \<Rightarrow> Inr (crd # cs)))"

definition nonblank :: "ustring option \<Rightarrow> ustring option" where
  "nonblank v = Option.bind v (\<lambda>s. if str_trim s = [] then None else Some (str_trim s))"

definition join_plan ::
    "bytes \<Rightarrow> signal_channel \<Rightarrow> ustring list \<Rightarrow> identity_card \<Rightarrow> ffi_config \<Rightarrow> ffi_error + start_plan" where
  "join_plan iroh channel relays self_card cfg =
     (case normalize_pin (case fc_pin cfg of Some s \<Rightarrow> s | None \<Rightarrow> []) of
        None \<Rightarrow> Inl InvalidPinText
      | Some canonical_pin \<Rightarrow>
          (case (case nonblank (fc_ip cfg) of
                   Some ip \<Rightarrow>
                     (if \<not> ch_lan channel then Inl IpNeedsLan
                      else case parse_ipv4 ip of None \<Rightarrow> Inl InvalidHostIp | Some a \<Rightarrow> Inr (Some (V4 a)))
                 | None \<Rightarrow> Inr None) of
             Inl e \<Rightarrow> Inl e
           | Inr target_ip \<Rightarrow>
               Inr (plan_dial iroh (Connect (DialCardSetup canonical_pin self_card target_ip channel relays)))))"

definition connect_plan ::
    "'n ffi \<Rightarrow> bytes \<Rightarrow> signal_channel \<Rightarrow> ustring list \<Rightarrow> identity_card \<Rightarrow> ffi_config \<Rightarrow> ffi_error + start_plan" where
  "connect_plan X iroh channel relays self_card cfg =
     (let C = fx_crypto X in
      case fc_identity_secret cfg of
        None \<Rightarrow> Inl IdentityRequired
      | Some key \<Rightarrow>
      (case parse_nsec C key of
        Inl e \<Rightarrow> Inl (InvalidIdentity e)
      | Inr i \<Rightarrow>
      (if card_public_key self_card \<noteq> identity_public C i then Inl SelfCardNotSigned
       else if length (fc_peers cfg) > MAX_TRUSTED_PEERS then Inl PeersExceedLimit
       else case collect_peers C (identity_public C i) [] (fc_peers cfg) of
         Inl e \<Rightarrow> Inl e
       | Inr peers \<Rightarrow>
           (let ki = \<lparr>ki_identity = i, ki_self_card = self_card, ki_peers = peers, ki_relays = relays\<rparr> in
            case nonblank (fc_peer_public_key cfg) of
              None \<Rightarrow> Inl PeerRequired
            | Some selected \<Rightarrow>
                (case find (\<lambda>p. key_hex C (card_public_key p) = selected \<or> card_npub C p = selected) peers of
                   None \<Rightarrow> Inl PeerNotTrusted
                 | Some p \<Rightarrow>
                     Inr (case session_role (identity_public C i) (card_public_key p) of
                            Host \<Rightarrow> plan_host iroh (StartServer (ServeKey ki (card_public_key p) channel))
                          | Dial \<Rightarrow> plan_dial iroh (Connect (DialKey ki (card_public_key p) channel))))))))"

definition build_start_plan :: "'n ffi \<Rightarrow> ffi_config \<Rightarrow> ffi_error + start_plan" where
  "build_start_plan X cfg =
     (let relays = (if fc_relays cfg = [] then DEFAULT_NOSTR_RELAYS else fc_relays cfg);
          channel = to_core (case fc_channel cfg of Some c \<Rightarrow> c | None \<Rightarrow> ChLanThenNostr) in
      case parse_iroh_secret X (fc_iroh_secret cfg) of
        Inl e \<Rightarrow> Inl e
      | Inr iroh \<Rightarrow>
      (case fc_self_card cfg of
        None \<Rightarrow> Inl SelfCardRequired
      | Some encoded \<Rightarrow>
      (case card_parse (fx_crypto X) encoded of
        Inl e \<Rightarrow> Inl (InvalidSelfCard e)
      | Inr self_card \<Rightarrow>
      (if fc_role cfg \<noteq> RoleConnect \<and> (fc_identity_secret cfg \<noteq> None \<or> fc_peers cfg \<noteq> []) then Inl CardSetupExtraFields
       else if fc_role cfg \<noteq> RoleCardJoin \<and> (fc_pin cfg \<noteq> None \<or> fc_ip cfg \<noteq> None) then Inl PinOnlyForJoin
       else if fc_role cfg \<noteq> RoleConnect \<and> fc_peer_public_key cfg \<noteq> None then Inl PeerOnlyForConnect
       else case fc_role cfg of
         RoleCardHost \<Rightarrow> Inr (plan_host iroh (StartServer (ServeCardSetup self_card channel relays)))
       | RoleCardJoin \<Rightarrow> join_plan iroh channel relays self_card cfg
       | RoleConnect \<Rightarrow> connect_plan X iroh channel relays self_card cfg))))"

section \<open>Sessions\<close>

record handle =
  h_commands :: "ui_command list"
  h_events :: "net_event list"
  h_pending :: "ustring option"
  h_alive :: bool
  h_session :: ui_command
  h_disconnect :: ui_command

text \<open>The process-wide slot and key.\<close>

record process =
  pr_running :: bool
  pr_secret :: "bytes option"

definition pin_iroh_secret :: "bytes \<Rightarrow> bytes option \<Rightarrow> (ffi_error + bytes) \<times> bytes option" where
  "pin_iroh_secret iroh slot =
     (let pinned = (case slot of Some p \<Rightarrow> p | None \<Rightarrow> iroh)
      in (if pinned \<noteq> iroh then Inl SecretDiffers else Inr pinned, Some pinned))"

definition start_inner :: "'n ffi \<Rightarrow> bool \<Rightarrow> ustring \<Rightarrow> bytes option \<Rightarrow> (ffi_error + bytes \<times> handle) \<times> bytes option" where
  "start_inner X runtime_builds json slot =
     (case fx_config X json of
        None \<Rightarrow> (Inl InvalidConfigJson, slot)
      | Some cfg \<Rightarrow>
          (case build_start_plan X cfg of
             Inl e \<Rightarrow> (Inl e, slot)
           | Inr p \<Rightarrow>
               (case pin_iroh_secret (sp_secret p) slot of
                  (Inl e, slot') \<Rightarrow> (Inl e, slot')
                | (Inr iroh, slot') \<Rightarrow>
                    (if \<not> runtime_builds then (Inl RuntimeBuildFailed, slot')
                     else (Inr (iroh, \<lparr>h_commands = [sp_session p], h_events = [], h_pending = None, h_alive = True,
                                h_session = sp_session p, h_disconnect = sp_disconnect p\<rparr>), slot')))))"

definition start_ffi_session :: "'n ffi \<Rightarrow> bool \<Rightarrow> ustring \<Rightarrow> process \<Rightarrow> (ffi_error + bytes \<times> handle) \<times> process" where
  "start_ffi_session X runtime_builds json p =
     (if pr_running p then (Inl AlreadyRunning, p)
      else case start_inner X runtime_builds json (pr_secret p) of
        (Inl e, slot) \<Rightarrow> (Inl e, p\<lparr>pr_running := False, pr_secret := slot\<rparr>)
      | (Inr r, slot) \<Rightarrow> (Inr r, p\<lparr>pr_running := True, pr_secret := slot\<rparr>))"

definition h_send :: "ui_command \<Rightarrow> handle \<Rightarrow> handle" where
  "h_send cmd h = (if h_alive h then h\<lparr>h_commands := h_commands h @ [cmd]\<rparr> else h)"

definition h_reconnect :: "handle \<Rightarrow> bool \<times> handle" where
  "h_reconnect h = (if h_alive h then (True, h_send (h_session h) h) else (False, h))"

definition h_shutdown :: "handle \<Rightarrow> process \<Rightarrow> handle \<times> process" where
  "h_shutdown h p = (h_send Shutdown h, p\<lparr>pr_running := False\<rparr>)"

text \<open>The two entry points; \<open>explain\<close> words an error. Stopping frees the handle: what is left is the process.\<close>

definition duocb_start ::
    "'n ffi \<Rightarrow> (ffi_error \<Rightarrow> ustring) \<Rightarrow> bool \<Rightarrow> bytes option \<Rightarrow> bytes option \<Rightarrow> process
     \<Rightarrow> handle option \<times> bytes option \<times> process" where
  "duocb_start X explain runtime_builds config_json err_buf p =
     (case cstr_arg config_json of
        None \<Rightarrow> (None, snd (write_cstr err_buf (ascii ''config_json is NULL or not UTF-8'')), p)
      | Some json \<Rightarrow>
          (case start_ffi_session X runtime_builds json p of
             (Inr (_, h), p') \<Rightarrow> (Some h, err_buf, p')
           | (Inl e, p') \<Rightarrow> (None, snd (write_cstr err_buf (explain e)), p')))"

definition duocb_stop :: "handle option \<Rightarrow> process \<Rightarrow> process" where
  "duocb_stop hp p = (case hp of None \<Rightarrow> p | Some h \<Rightarrow> snd (h_shutdown h p))"

section \<open>Events\<close>

definition jstr :: "string \<Rightarrow> json" where
  "jstr s = JStr (ascii s)"

definition jobj :: "(string \<times> json) list \<Rightarrow> json" where
  "jobj kvs = JObj (map (\<lambda>(k, v). (ascii k, v)) kvs)"

fun jopt :: "ustring option \<Rightarrow> json" where
  "jopt None = JNull"
| "jopt (Some s) = JStr s"

text \<open>\<open>None\<close> is the panic of the accessors of a card whose name does not split.\<close>

definition identity_card_json :: "crypto \<Rightarrow> u64 \<Rightarrow> identity_card \<Rightarrow> json option" where
  "identity_card_json C now crd =
     (let remaining = remaining_secs_at crd now in
      case (card_short_name crd, card_suffix crd) of
        (Some short, Some suffix) \<Rightarrow>
          Some (jobj
            [(''name'', JStr (card_name crd)), (''short_name'', JStr short), (''suffix'', JStr suffix),
             (''public_key'', JStr (key_hex C (card_public_key crd))), (''npub'', JStr (card_npub C crd)),
             (''fingerprint'', JStr (card_fingerprint C crd)), (''not_before'', JNum (unat (card_not_before crd))),
             (''not_after'', JNum (unat (card_not_after crd))), (''remaining_secs'', JNum (unat remaining)),
             (''expired'', JBool (\<not> is_valid_at crd now)), (''not_yet_valid'', JBool (is_not_yet_valid_at crd now)),
             (''needs_renewal'', JBool (remaining < CARD_RENEW_BEFORE_SECS))])
      | _ \<Rightarrow> None)"

definition status_json :: "conn_status \<Rightarrow> json" where
  "status_json st =
     jobj ([(''type'', jstr ''status''),
       (''state'', jstr (case st of Idle \<Rightarrow> ''idle'' | Starting \<Rightarrow> ''starting'' | Waiting \<Rightarrow> ''waiting''
          | Resolving \<Rightarrow> ''resolving'' | Connecting \<Rightarrow> ''connecting'' | Authenticating \<Rightarrow> ''authenticating''
          | Connected \<Rightarrow> ''connected'' | Reconnecting _ _ \<Rightarrow> ''reconnecting''))]
       @ (case st of Reconnecting attempt limit \<Rightarrow> [(''attempt'', JNum attempt), (''max'', JNum limit)] | _ \<Rightarrow> []))"

definition path_json :: "conn_path \<Rightarrow> json" where
  "path_json p =
     jobj [(''kind'', jstr (case path_kind p of PathDirect \<Rightarrow> ''direct'' | PathRelay \<Rightarrow> ''relay'' | PathOther \<Rightarrow> ''other'')),
       (''display'', JStr (path_display p)), (''selected'', JBool (path_selected p))]"

definition event_json :: "'n ffi \<Rightarrow> u64 \<Rightarrow> net_event \<Rightarrow> json option" where
  "event_json X now e =
     (case e of
        ServerReady node pk \<Rightarrow>
          Some (jobj [(''type'', jstr ''server_ready''), (''node_id'', JStr (fx_node X node)), (''identity_public_key'', jopt pk)])
      | ClientReady node pk \<Rightarrow>
          Some (jobj [(''type'', jstr ''client_ready''), (''node_id'', JStr (fx_node X node)), (''identity_public_key'', jopt pk)])
      | PinRotated display left ip \<Rightarrow>
          Some (jobj [(''type'', jstr ''pin_rotated''), (''pin_display'', JStr display), (''seconds_left'', JNum (unat left)),
            (''host_lan_ip'', jopt (map_option show_ipv4 ip))])
      | PinCleared \<Rightarrow> Some (jobj [(''type'', jstr ''pin_cleared'')])
      | Status st \<Rightarrow> Some (status_json st)
      | PeerPaired node pk \<Rightarrow>
          Some (jobj [(''type'', jstr ''peer_paired''), (''peer_node_id'', JStr (fx_node X node)),
            (''peer_public_key'', jopt (map_option (key_hex (fx_crypto X)) pk))])
      | PeerCardReceived crd \<Rightarrow>
          map_option (\<lambda>info. jobj [(''type'', jstr ''peer_card_received''), (''card'', JStr (card_encode (fx_crypto X) crd)),
            (''info'', info)]) (identity_card_json (fx_crypto X) now crd)
      | PeerDisconnected \<Rightarrow> Some (jobj [(''type'', jstr ''peer_disconnected'')])
      | ConnPaths ps \<Rightarrow> Some (jobj [(''type'', jstr ''conn_path''), (''paths'', JList (map path_json ps))])
      | ItemReceived item pulled \<Rightarrow>
          Some (jobj [(''type'', jstr ''item_received''), (''text'', JStr item), (''pulled'', JBool pulled)])
      | ItemSent \<Rightarrow> Some (jobj [(''type'', jstr ''item_sent'')])
      | ErrorEvent m \<Rightarrow> Some (jobj [(''type'', jstr ''error''), (''message'', JStr (fx_message X m))]))"

definition event_text :: "'n ffi \<Rightarrow> u64 \<Rightarrow> net_event \<Rightarrow> ustring option" where
  "event_text X now e = map_option (fx_json X) (event_json X now e)"

text \<open>Draining; \<open>None\<close> is a panic. Taking and retaining are two steps, between which another thread may act.\<close>

definition take_event :: "'n ffi \<Rightarrow> u64 \<Rightarrow> handle \<Rightarrow> (ustring option \<times> handle) option" where
  "take_event X now h =
     (case h_pending h of
        Some json \<Rightarrow> Some (Some json, h\<lparr>h_pending := None\<rparr>)
      | None \<Rightarrow>
          (case h_events h of
             [] \<Rightarrow> Some (None, h)
           | e # es \<Rightarrow> map_option (\<lambda>json. (Some json, h\<lparr>h_events := es\<rparr>)) (event_text X now e)))"

definition retain_event :: "ustring \<Rightarrow> handle \<Rightarrow> handle" where
  "retain_event json h = h\<lparr>h_pending := Some json\<rparr>"

definition duocb_next_event ::
    "'n ffi \<Rightarrow> u64 \<Rightarrow> handle option \<Rightarrow> bytes option \<Rightarrow> (int \<times> bytes option \<times> handle option) option" where
  "duocb_next_event X now hp out =
     (case hp of
        None \<Rightarrow> Some (- 1, out, None)
      | Some h \<Rightarrow>
          (if out = None then Some (- 1, None, hp)
           else case take_event X now h of
             None \<Rightarrow> None
           | Some (None, h') \<Rightarrow> Some (0, out, Some h')
           | Some (Some json, h') \<Rightarrow>
               (case write_cstr out json of
                  (True, out') \<Rightarrow> Some (1, out', Some h')
                | (False, out') \<Rightarrow> Some (- 2, out', Some (retain_event json h')))))"

section \<open>Commands on a handle\<close>

definition duocb_send_clipboard :: "handle option \<Rightarrow> bytes option \<Rightarrow> int \<times> handle option" where
  "duocb_send_clipboard hp msg =
     (case hp of
        None \<Rightarrow> (- 1, None)
      | Some h \<Rightarrow> (case cstr_arg msg of None \<Rightarrow> (- 1, hp) | Some s \<Rightarrow> (0, Some (h_send (SendClipboard s) h))))"

definition duocb_refresh_pin :: "handle option \<Rightarrow> int \<times> handle option" where
  "duocb_refresh_pin hp = (case hp of None \<Rightarrow> (- 1, None) | Some h \<Rightarrow> (0, Some (h_send RefreshPin h)))"

definition duocb_query_conn_path :: "handle option \<Rightarrow> int \<times> handle option" where
  "duocb_query_conn_path hp = (case hp of None \<Rightarrow> (- 1, None) | Some h \<Rightarrow> (0, Some (h_send QueryConnPath h)))"

definition duocb_disconnect :: "handle option \<Rightarrow> int \<times> handle option" where
  "duocb_disconnect hp = (case hp of None \<Rightarrow> (- 1, None) | Some h \<Rightarrow> (0, Some (h_send (h_disconnect h) h)))"

definition duocb_is_running :: "handle option \<Rightarrow> int" where
  "duocb_is_running hp = (case hp of None \<Rightarrow> - 1 | Some h \<Rightarrow> if h_alive h then 1 else 0)"

definition duocb_reconnect :: "handle option \<Rightarrow> int \<times> handle option" where
  "duocb_reconnect hp =
     (case hp of
        None \<Rightarrow> (- 1, None)
      | Some h \<Rightarrow> (case h_reconnect h of (issued, h') \<Rightarrow> (if issued then 0 else - 2, Some h')))"

section \<open>Pure helpers\<close>

definition duocb_generate_identity :: "crypto \<Rightarrow> seckey \<Rightarrow> bytes option \<Rightarrow> int \<times> bytes option" where
  "duocb_generate_identity C fresh out = write_result out (to_nsec C (identity_generate fresh))"

definition duocb_generate_suffix :: "(nat \<Rightarrow> nat) \<Rightarrow> bytes option \<Rightarrow> int \<times> bytes option" where
  "duocb_generate_suffix rng out = write_result out (generate_suffix rng)"

definition duocb_generate_iroh_secret :: "bytes \<Rightarrow> bytes option \<Rightarrow> int \<times> bytes option" where
  "duocb_generate_iroh_secret fresh out = write_result out (hex fresh)"

text \<open>The validators: 1, or 0 with the reason, or -1 for a bad argument.\<close>

definition validator :: "('e \<Rightarrow> ustring) \<Rightarrow> (ustring \<Rightarrow> 'e + 'a) \<Rightarrow> bytes option \<Rightarrow> bytes option \<Rightarrow> int \<times> bytes option" where
  "validator explain check arg err =
     (case cstr_arg arg of
        None \<Rightarrow> (- 1, err)
      | Some s \<Rightarrow> (case check s of Inr _ \<Rightarrow> (1, err) | Inl e \<Rightarrow> (0, snd (write_cstr err (explain e)))))"

definition duocb_validate_identity :: "'n ffi \<Rightarrow> bytes option \<Rightarrow> bytes option \<Rightarrow> int \<times> bytes option" where
  "duocb_validate_identity X = validator (fx_auth_error X) (parse_nsec (fx_crypto X))"

definition duocb_validate_name :: "'n ffi \<Rightarrow> bytes option \<Rightarrow> bytes option \<Rightarrow> int \<times> bytes option" where
  "duocb_validate_name X = validator (fx_name_error X) validate_name"

definition duocb_validate_identity_card :: "'n ffi \<Rightarrow> bytes option \<Rightarrow> bytes option \<Rightarrow> int \<times> bytes option" where
  "duocb_validate_identity_card X = validator (fx_auth_error X) (card_parse (fx_crypto X))"

text \<open>The printers: the outcome of writing the result, or -1 when there is none.\<close>

definition printed :: "bytes option \<Rightarrow> ustring option \<Rightarrow> int \<times> bytes option" where
  "printed out r = (case r of None \<Rightarrow> (- 1, out) | Some s \<Rightarrow> write_result out s)"

definition parsed :: "(ustring \<Rightarrow> 'e + 'a) \<Rightarrow> bytes option \<Rightarrow> 'a option" where
  "parsed f arg = Option.bind (cstr_arg arg) (\<lambda>s. case f s of Inl _ \<Rightarrow> None | Inr x \<Rightarrow> Some x)"

definition duocb_identity_public_key :: "crypto \<Rightarrow> bytes option \<Rightarrow> bytes option \<Rightarrow> int \<times> bytes option" where
  "duocb_identity_public_key C key out = printed out (map_option (to_npub C) (parsed (parse_nsec C) key))"

definition duocb_identity_fingerprint :: "crypto \<Rightarrow> bytes option \<Rightarrow> bytes option \<Rightarrow> int \<times> bytes option" where
  "duocb_identity_fingerprint C key out =
     printed out (map_option (\<lambda>i. key_fingerprint C (identity_public C i)) (parsed (parse_nsec C) key))"

definition duocb_display_identity :: "bytes option \<Rightarrow> bytes option \<Rightarrow> bytes option \<Rightarrow> int \<times> bytes option" where
  "duocb_display_identity name suffix out =
     printed out (case (cstr_arg name, cstr_arg suffix) of (Some n, Some s) \<Rightarrow> Some (display_identity n s) | _ \<Rightarrow> None)"

definition duocb_create_identity_card ::
    "crypto \<Rightarrow> u64 \<Rightarrow> bytes option \<Rightarrow> bytes option \<Rightarrow> bytes option \<Rightarrow> bytes option \<Rightarrow> int \<times> bytes option" where
  "duocb_create_identity_card C now key name suffix out =
     printed out (case (parsed (parse_nsec C) key, cstr_arg name, cstr_arg suffix) of
        (Some i, Some n, Some s) \<Rightarrow> (case card_mint C now i n s of Inl _ \<Rightarrow> None | Inr c \<Rightarrow> Some (card_encode C c))
      | _ \<Rightarrow> None)"

definition duocb_identity_card_info ::
    "'n ffi \<Rightarrow> u64 \<Rightarrow> bytes option \<Rightarrow> bytes option \<Rightarrow> (int \<times> bytes option) option" where
  "duocb_identity_card_info X now arg out =
     (case parsed (card_parse (fx_crypto X)) arg of
        None \<Rightarrow> Some (- 1, out)
      | Some c \<Rightarrow> map_option (\<lambda>j. write_result out (fx_json X j)) (identity_card_json (fx_crypto X) now c))"

definition duocb_pairing_code :: "crypto \<Rightarrow> bytes option \<Rightarrow> bytes option \<Rightarrow> bytes option \<Rightarrow> int \<times> bytes option" where
  "duocb_pairing_code C a b out =
     printed out (case (parsed (card_parse C) a, parsed (card_parse C) b) of
        (Some ca, Some cb) \<Rightarrow> pairing_code C (card_public_key ca) (card_public_key cb)
      | _ \<Rightarrow> None)"

definition duocb_session_role :: "crypto \<Rightarrow> bytes option \<Rightarrow> bytes option \<Rightarrow> int" where
  "duocb_session_role C mine theirs =
     (case (parsed (card_parse C) mine, parsed (card_parse C) theirs) of
        (Some m, Some t) \<Rightarrow>
          (if card_public_key m = card_public_key t then - 1
           else case session_role (card_public_key m) (card_public_key t) of Host \<Rightarrow> 1 | Dial \<Rightarrow> 0)
      | _ \<Rightarrow> - 1)"

definition duocb_normalize_pin :: "bytes option \<Rightarrow> bytes option \<Rightarrow> int \<times> bytes option" where
  "duocb_normalize_pin pin out =
     (case cstr_arg pin of
        None \<Rightarrow> (- 1, out)
      | Some p \<Rightarrow>
          (case normalize_pin p of
             None \<Rightarrow> (0, out)
           | Some accepted \<Rightarrow> (case write_cstr out accepted of (fits, out') \<Rightarrow> (if fits then 1 else - 1, out'))))"

text \<open>\<open>None\<close> is the panic of \<open>format_pin\<close>, which aborts the app.\<close>

definition duocb_format_pin :: "bytes option \<Rightarrow> bytes option \<Rightarrow> (int \<times> bytes option) option" where
  "duocb_format_pin pin out =
     (case cstr_arg pin of None \<Rightarrow> Some (- 1, out) | Some p \<Rightarrow> map_option (write_result out) (format_pin p))"

definition duocb_sanitize_pin_chars :: "bytes option \<Rightarrow> bytes option \<Rightarrow> int \<times> bytes option" where
  "duocb_sanitize_pin_chars arg out = printed out (map_option sanitize_pin_chars (cstr_arg arg))"

definition duocb_split_pin_groups :: "'n ffi \<Rightarrow> bytes option \<Rightarrow> bytes option \<Rightarrow> bytes option \<Rightarrow> int \<times> bytes option" where
  "duocb_split_pin_groups X first second out =
     printed out (case (cstr_arg first, cstr_arg second) of
        (Some a, Some b) \<Rightarrow>
          (case split_pin_groups a b of (p, q) \<Rightarrow>
             Some (fx_json X (jobj [(''first'', JStr p), (''second'', JStr q)])))
      | _ \<Rightarrow> None)"

definition duocb_pin_progress :: "'n ffi \<Rightarrow> bytes option \<Rightarrow> bytes option \<Rightarrow> int \<times> bytes option" where
  "duocb_pin_progress X arg out =
     printed out (map_option (\<lambda>s. fx_json X (jobj [(''entered'', JNum (pin_input_len s)), (''total'', JNum PIN_LEN),
        (''group'', JNum PIN_GROUP_LEN)])) (cstr_arg arg))"

definition duocb_join_ip_context ::
    "'n ffi \<Rightarrow> nat option \<Rightarrow> 'n interface list \<Rightarrow> bytes option \<Rightarrow> int \<times> bytes option" where
  "duocb_join_ip_context X default_if ifaces out =
     (let N = fx_ipnet X; c = local_private_ipv4_subnets N default_if ifaces in
      write_result out (fx_json X (jobj [(''prefix'', JStr (locked_prefix N c)),
        (''placeholder'', JStr (host_placeholder N c)), (''hint'', JStr (hint N c)), (''label'', JStr (constraint_label N c))])))"

definition duocb_resolve_join_ip ::
    "'n ffi \<Rightarrow> nat option \<Rightarrow> 'n interface list \<Rightarrow> bytes option \<Rightarrow> bytes option \<Rightarrow> int \<times> bytes option" where
  "duocb_resolve_join_ip X default_if ifaces entry out =
     (case cstr_arg entry of
        None \<Rightarrow> (- 1, out)
      | Some e \<Rightarrow>
          (case resolve_entry (fx_ipnet X) (local_private_ipv4_subnets (fx_ipnet X) default_if ifaces) e of
             InRange addr \<Rightarrow> (case write_cstr out (show_ipv4 addr) of (fits, out') \<Rightarrow> (if fits then 1 else - 1, out'))
           | OutOfRange \<Rightarrow> (0, out)
           | Empty \<Rightarrow> (2, out)
           | Malformed \<Rightarrow> (- 1, out)))"

section \<open>Strings survive the boundary\<close>

lemma slice_at_prefix: "slice_at (str_len p) (p @ t) = Some (p, t)"
proof (induction p)
  case (Cons c p)
  have "str_len (c # p) \<noteq> 0" using utf8_char_length(1) [of c] by simp
  then show ?case by (subst slice_at.simps) (simp add: Cons.IH)
qed simp

lemma slice_at_SomeD: "slice_at n s = Some (p, q) \<Longrightarrow> s = p @ q \<and> str_len p = n"
proof (induction n s arbitrary: p q rule: slice_at.induct)
  case (1 n s)
  show ?case
  proof (cases "n = 0")
    case False
    with 1(2) obtain c t a where s: "s = c # t" "length (utf8_char c) \<le> n"
      "slice_at (n - length (utf8_char c)) t = Some (a, q)" "p = c # a"
      by (subst (asm) slice_at.simps) (auto split: list.splits if_splits)
    from 1(1) [OF False s(1,2,3)] s show ?thesis by simp
  qed (use 1(2) in simp)
qed

lemma boundary_prefix: "is_char_boundary s n \<longleftrightarrow> (\<exists>p q. s = p @ q \<and> str_len p = n)"
  unfolding is_char_boundary_def using slice_at_SomeD slice_at_prefix by fastforce

lemma char_floor_most: "s = p @ q \<Longrightarrow> str_len p \<le> n \<Longrightarrow> str_len p \<le> str_len (char_floor n s)"
proof (induction p arbitrary: n s)
  case (Cons c p)
  then have "str_len p \<le> n - length (utf8_char c)" "length (utf8_char c) \<le> n" by simp_all
  with Cons show ?case by simp
qed simp

lemma back_off_most:
  "is_char_boundary s (back_off s n) \<and> back_off s n \<le> n \<and> (\<forall>k \<le> n. is_char_boundary s k \<longrightarrow> k \<le> back_off s n)"
proof (induction n)
  case 0
  have "is_char_boundary s 0" by (simp add: is_char_boundary_def)
  then show ?case by simp
next
  case (Suc n)
  then show ?case by (auto simp: le_Suc_eq)
qed

lemma back_off_floor: "back_off s (min (str_len s) n) = str_len (char_floor n s)"
proof (rule antisym)
  obtain t where t: "s = char_floor n s @ t" using char_floor_prefix by blast
  then have "is_char_boundary s (str_len (char_floor n s))" by (auto simp: boundary_prefix)
  moreover have "str_len (char_floor n s) \<le> str_len s" by (subst (2) t) simp
  ultimately show "str_len (char_floor n s) \<le> back_off s (min (str_len s) n)"
    using back_off_most [of s "min (str_len s) n"] char_floor_len [of n s] by simp
  obtain p q where p: "s = p @ q" "str_len p = back_off s (min (str_len s) n)"
    using back_off_most [of s "min (str_len s) n"] boundary_prefix [of s] by metis
  moreover have "back_off s (min (str_len s) n) \<le> n" using back_off_most [of s "min (str_len s) n"] by simp
  ultimately show "back_off s (min (str_len s) n) \<le> str_len (char_floor n s)"
    using char_floor_most [OF p(1), of n] by simp
qed

lemma take_floor: "take (str_len (char_floor n s)) (utf8 s) = utf8 (char_floor n s)"
proof -
  obtain t where "s = char_floor n s @ t" using char_floor_prefix by blast
  then have "utf8 s = utf8 (char_floor n s) @ utf8 t" by (metis utf8_append)
  then show ?thesis by (simp add: str_len_def)
qed

lemma write_cstr_eq:
  assumes "b \<noteq> []"
  shows "write_cstr (Some b) s =
     (str_len s < length b,
      Some (utf8 (char_floor (length b - 1) s) @ [0] @ drop (Suc (str_len (char_floor (length b - 1) s))) b))"
proof -
  let ?f = "char_floor (length b - 1) s"
  have "str_len ?f = str_len s \<longleftrightarrow> str_len s < length b"
    using assms char_floor_len [of "length b - 1" s] char_floor_all [of s "length b - 1"] by (cases b) auto
  with assms show ?thesis by (simp add: write_cstr_def Let_def back_off_floor take_floor)
qed

lemma small_nonzero: "n < 256 \<Longrightarrow> 0 < n \<Longrightarrow> (of_nat n :: byte) \<noteq> 0"
  using unat_small_byte by fastforce

lemma utf8_char_no_nul:
  assumes "valid_scalar c" "c \<noteq> 0"
  shows "0 \<notin> set (utf8_char c)"
proof -
  have m: "x mod 64 < 64" for x :: nat by simp
  have c: "(of_nat (128 + x mod 64) :: byte) \<noteq> 0" for x using m [of x] by (intro small_nonzero) auto
  consider "c < 128" | "\<not> c < 128" "c < 2048" | "\<not> c < 2048" "c < 65536" | "\<not> c < 65536" "c < 1114112"
    using assms(1) by (fastforce simp: valid_scalar_def)
  then show ?thesis
  proof cases
    case 1
    then show ?thesis using assms(2) small_nonzero [of c] by simp
  next
    case 2
    then have "(of_nat (192 + c div 64) :: byte) \<noteq> 0" by (intro small_nonzero) auto
    with 2 c show ?thesis by (simp add: utf8_char_def del: of_nat_add)
  next
    case 3
    then have "(of_nat (224 + c div 4096) :: byte) \<noteq> 0" by (intro small_nonzero) auto
    with 3 c show ?thesis by (simp add: utf8_char_def del: of_nat_add)
  next
    case 4
    then have "(of_nat (240 + c div 262144) :: byte) \<noteq> 0" by (intro small_nonzero) auto
    with 4 c show ?thesis by (simp add: utf8_char_def del: of_nat_add)
  qed
qed

lemma utf8_no_nul: "valid_text s \<Longrightarrow> 0 \<notin> set s \<Longrightarrow> 0 \<notin> set (utf8 s)"
  by (induction s) (auto simp: valid_text_def dest: utf8_char_no_nul)

lemma nul_ends: "0 \<notin> set a \<Longrightarrow> takeWhile (\<lambda>x. x \<noteq> 0) (a @ 0 # r) = a"
  by (induction a) auto

lemma write_reads_back:
  assumes "valid_text s" "0 \<notin> set s" "b \<noteq> []"
  shows "case write_cstr (Some b) s of (fits, out) \<Rightarrow>
     (fits \<longleftrightarrow> str_len s < length b) \<and> map_option length out = Some (length b)
     \<and> cstr_arg out = Some (char_floor (length b - 1) s) \<and> (fits \<longrightarrow> cstr_arg out = Some s)"
proof -
  let ?f = "char_floor (length b - 1) s"
  obtain t where t: "s = ?f @ t" using char_floor_prefix by blast
  have len: "str_len ?f < length b" using assms(3) char_floor_len [of "length b - 1" s] by (cases b) auto
  from t have "valid_text ?f" "0 \<notin> set ?f"
    using assms(1,2) by (metis list_all_append valid_text_def) (metis UnI1 assms(2) set_append t)
  then have "cstr_arg (Some (utf8 ?f @ [0] @ drop (Suc (str_len ?f)) b)) = Some ?f"
    using utf8_no_nul [of ?f]
    by (simp add: cstr_arg_def utf8_decode_utf8 nul_ends)
  moreover have "length (utf8 ?f @ [0] @ drop (Suc (str_len ?f)) b) = length b"
    using len by (simp add: str_len_def)
  moreover have "?f = s" if "str_len s < length b" using that by (intro char_floor_all) simp
  ultimately show ?thesis using write_cstr_eq [OF assms(3), of s] by auto
qed

text \<open>
  Property C39. A string written to a buffer reads back. Writing text without NUL characters into a
  non-empty buffer never changes the buffer's length and leaves a C string that decodes to the longest
  prefix of whole characters that fits beside the terminator; the function reports success exactly when
  the whole text fits, and then the text reads back unchanged.
\<close>

theorem cstr_roundtrip:
  assumes "valid_text s" "0 \<notin> set s" "b \<noteq> []"
  shows "case write_cstr (Some b) s of (fits, out) \<Rightarrow>
     (fits \<longleftrightarrow> str_len s < length b) \<and> map_option length out = Some (length b)
     \<and> cstr_arg out = Some (char_floor (length b - 1) s) \<and> (fits \<longrightarrow> cstr_arg out = Some s)"
  by (rule write_reads_back [OF assms])

lemma cstr_roundtrip_witness:
  "cstr_arg (snd (write_cstr (Some (replicate 3 7)) [233])) = Some [233]
   \<and> cstr_arg (snd (write_cstr (Some (replicate 3 7)) [97, 233])) = Some [97]"
proof -
  have v: "valid_text [233]" "valid_text [97, 233]" by (simp_all add: valid_text_def valid_scalar_def)
  have f: "char_floor 2 [97, 233] = [97]" "str_len [233] = 2" by (simp_all add: utf8_char_def)
  show ?thesis
    using cstr_roundtrip [OF v(1), of "replicate 3 7"] cstr_roundtrip [OF v(2), of "replicate 3 7"] f
    by (auto split: prod.splits)
qed

section \<open>Plans\<close>

lemma collect_peers_ok:
  "collect_peers C me seen es = Inr cs \<Longrightarrow>
     traverse (card_parse C) es = Inr cs \<and> length cs = length es \<and> list_all (card_wf C) cs
     \<and> distinct (map card_public_key cs) \<and> me \<notin> card_public_key ` set cs \<and> card_public_key ` set cs \<inter> set seen = {}"
proof (induction es arbitrary: seen cs)
  case (Cons e es)
  then obtain crd rest where c: "card_parse C e = Inr crd" "card_public_key crd \<noteq> me" "card_public_key crd \<notin> set seen"
    "collect_peers C me (card_public_key crd # seen) es = Inr rest" "cs = crd # rest"
    by (auto split: sum.splits if_splits)
  from Cons.IH [OF c(4)] c card_parse_wf [OF c(1)] show ?case by auto
qed simp

definition relays_of :: "ffi_config \<Rightarrow> ustring list" where
  "relays_of cfg = (if fc_relays cfg = [] then DEFAULT_NOSTR_RELAYS else fc_relays cfg)"

text \<open>What a start plan promises, by role.\<close>

definition host_plan_ok :: "crypto \<Rightarrow> ffi_config \<Rightarrow> start_plan \<Rightarrow> bool" where
  "host_plan_ok C cfg p \<longleftrightarrow>
     (case sp_session p of
        StartServer (ServeCardSetup own ch relays) \<Rightarrow>
          card_wf C own \<and> relays = relays_of cfg \<and> sp_disconnect p = StopServer
      | _ \<Rightarrow> False)"

definition join_plan_ok :: "crypto \<Rightarrow> ffi_config \<Rightarrow> start_plan \<Rightarrow> bool" where
  "join_plan_ok C cfg p \<longleftrightarrow>
     (case sp_session p of
        Connect (DialCardSetup pin own ip ch relays) \<Rightarrow>
          Option.bind (fc_pin cfg) normalize_pin = Some pin \<and> card_wf C own \<and> relays = relays_of cfg
          \<and> (ip = None \<or> ch_lan ch) \<and> sp_disconnect p = Disconnect
      | _ \<Rightarrow> False)"

definition peers_plan_ok :: "crypto \<Rightarrow> key_identity \<Rightarrow> pubkey \<Rightarrow> bool" where
  "peers_plan_ok C ki peer \<longleftrightarrow>
     (let me = identity_public C (ki_identity ki) in
      card_public_key (ki_self_card ki) = me \<and> card_wf C (ki_self_card ki) \<and> length (ki_peers ki) \<le> MAX_TRUSTED_PEERS
      \<and> distinct (map card_public_key (ki_peers ki)) \<and> me \<notin> card_public_key ` set (ki_peers ki)
      \<and> list_all (card_wf C) (ki_peers ki) \<and> peer \<in> card_public_key ` set (ki_peers ki))"

definition connect_plan_ok :: "crypto \<Rightarrow> start_plan \<Rightarrow> bool" where
  "connect_plan_ok C p \<longleftrightarrow>
     (case sp_session p of
        StartServer (ServeKey ki peer ch) \<Rightarrow>
          peers_plan_ok C ki peer \<and> session_role (identity_public C (ki_identity ki)) peer = Host \<and> sp_disconnect p = StopServer
      | Connect (DialKey ki peer ch) \<Rightarrow>
          peers_plan_ok C ki peer \<and> session_role (identity_public C (ki_identity ki)) peer = Dial \<and> sp_disconnect p = Disconnect
      | _ \<Rightarrow> False)"

lemma join_plan_sound:
  assumes "join_plan iroh ch relays own cfg = Inr p" "card_wf C own" "relays = relays_of cfg"
  shows "join_plan_ok C cfg p \<and> sp_secret p = iroh"
proof -
  have "normalize_pin [] = None" by (simp add: normalize_pin_def const_simps)
  with assms show ?thesis
    by (auto simp: join_plan_def join_plan_ok_def plan_dial_def split: option.splits sum.splits if_splits)
qed

lemma connect_plan_sound:
  assumes "connect_plan X iroh ch relays own cfg = Inr p" "card_wf (fx_crypto X) own"
  shows "connect_plan_ok (fx_crypto X) p \<and> sp_secret p = iroh"
proof -
  let ?C = "fx_crypto X"
  from assms(1) obtain key i peers selected q where c: "fc_identity_secret cfg = Some key" "parse_nsec ?C key = Inr i"
    "card_public_key own = identity_public ?C i" "length (fc_peers cfg) \<le> MAX_TRUSTED_PEERS"
    "collect_peers ?C (identity_public ?C i) [] (fc_peers cfg) = Inr peers"
    "find (\<lambda>p. key_hex ?C (card_public_key p) = selected \<or> card_npub ?C p = selected) peers = Some q"
    "p = (case session_role (identity_public ?C i) (card_public_key q) of
            Host \<Rightarrow> plan_host iroh (StartServer (ServeKey \<lparr>ki_identity = i, ki_self_card = own, ki_peers = peers, ki_relays = relays\<rparr>
              (card_public_key q) ch))
          | Dial \<Rightarrow> plan_dial iroh (Connect (DialKey \<lparr>ki_identity = i, ki_self_card = own, ki_peers = peers, ki_relays = relays\<rparr>
              (card_public_key q) ch)))"
    by (auto simp: connect_plan_def Let_def not_less split: option.splits sum.splits if_splits)
  from collect_peers_ok [OF c(5)] find_Some_set [OF c(6)] c(3,4) assms(2)
  have "peers_plan_ok ?C \<lparr>ki_identity = i, ki_self_card = own, ki_peers = peers, ki_relays = relays\<rparr> (card_public_key q)"
    by (auto simp: peers_plan_ok_def)
  with c(7) show ?thesis
    by (auto simp: connect_plan_ok_def plan_host_def plan_dial_def split: role.splits)
qed

text \<open>
  Property C26. An accepted configuration yields the plan of its role. Whatever JSON the app passes, a plan
  comes with a 32-byte transport key and: a card-setup host serves its verified card and stops serving on
  disconnect; a joiner dials exactly the normalised PIN, with an address only on a channel that uses the
  local network; and a clipboard session names one of at most 128 verified trusted cards of distinct
  foreign keys, under the self card of its own key, as the half the two keys decide.
\<close>

theorem start_plan_sound:
  assumes "build_start_plan X cfg = Inr p"
  shows "length (sp_secret p) = 32
    \<and> (case fc_role cfg of
         RoleCardHost \<Rightarrow> host_plan_ok (fx_crypto X) cfg p
       | RoleCardJoin \<Rightarrow> join_plan_ok (fx_crypto X) cfg p
       | RoleConnect \<Rightarrow> connect_plan_ok (fx_crypto X) p)"
proof -
  let ?ch = "to_core (case fc_channel cfg of Some c \<Rightarrow> c | None \<Rightarrow> ChLanThenNostr)"
  from assms obtain iroh encoded own where c: "parse_iroh_secret X (fc_iroh_secret cfg) = Inr iroh"
    "card_parse (fx_crypto X) encoded = Inr own"
    "(case fc_role cfg of
         RoleCardHost \<Rightarrow> Inr (plan_host iroh (StartServer (ServeCardSetup own ?ch (relays_of cfg))))
       | RoleCardJoin \<Rightarrow> join_plan iroh ?ch (relays_of cfg) own cfg
       | RoleConnect \<Rightarrow> connect_plan X iroh ?ch (relays_of cfg) own cfg) = Inr p"
    unfolding build_start_plan_def Let_def relays_of_def [symmetric]
    by (auto split: sum.splits option.splits if_split_asm)
  from c(1) have "length iroh = 32" by (auto simp: parse_iroh_secret_def split: option.splits if_splits)
  moreover note card_parse_wf [OF c(2)]
  ultimately show ?thesis
    using c(3) join_plan_sound [where C = "fx_crypto X" and cfg = cfg and own = own] connect_plan_sound [of X iroh ?ch _ own cfg]
    by (cases "fc_role cfg") (auto simp: host_plan_ok_def plan_host_def)
qed

text \<open>A sample of the other libraries and a configuration of it, for the witnesses.\<close>

definition sample_ffi :: "(ipv4 \<times> nat) ffi" where
  "sample_ffi = \<lparr>fx_crypto = sample_crypto, fx_ipnet = demo_ipnet, fx_config = (\<lambda>_. None),
     fx_hex_decode = (\<lambda>_. Some (replicate 32 1)), fx_json = (\<lambda>_. [123, 125]), fx_auth_error = (\<lambda>_. []),
     fx_name_error = (\<lambda>_. []), fx_message = (\<lambda>_. []), fx_node = (\<lambda>_. [])\<rparr>"

definition sample_connect :: ffi_config where
  "sample_connect = \<lparr>fc_role = RoleConnect, fc_iroh_secret = Some [49], fc_identity_secret = Some [110, 115, 101, 99, 49, 265],
     fc_self_card = Some [123, 1001, 125], fc_peers = [[123, 1000, 125]], fc_peer_public_key = Some [7], fc_pin = None,
     fc_ip = None, fc_channel = None, fc_relays = []\<rparr>"

lemma start_plan_sound_witness:
  "\<exists>p. build_start_plan sample_ffi sample_connect = Inr p \<and> length (sp_secret p) = 32
     \<and> connect_plan_ok sample_crypto p"
proof -
  have "\<not> is_whitespace 110" "\<not> is_whitespace 115" "\<not> is_whitespace 101" "\<not> is_whitespace 99"
    "\<not> is_whitespace 49" "\<not> is_whitespace 265" "\<not> is_whitespace 7"
    by (simp_all add: is_whitespace_def)
  then have key: "parse_nsec sample_crypto [110, 115, 101, 99, 49, 265] = Inr \<lparr>secret = [9]\<rparr>" "str_trim [7] = [7]"
    by (simp_all add: parse_nsec_def sample_crypto_def toy_crypto_def ascii_def str_trim_def)
  have pub: "card_public_key (sample_card k) = PublicKey [k]" "identity_public sample_crypto \<lparr>secret = [k]\<rparr> = PublicKey [k]" for k
    by (simp_all add: card_public_key_def sample_card_def sample_event_def identity_public_def sample_crypto_def toy_crypto_def)
  have "key_hex sample_crypto (PublicKey [7]) = [7]" by (simp add: sample_crypto_def toy_crypto_def)
  with key pub have "\<not> isl (build_start_plan sample_ffi sample_connect)"
    by (simp add: build_start_plan_def sample_ffi_def sample_connect_def parse_iroh_secret_def connect_plan_def
        sample_card_text nonblank_def const_simps Let_def)
  then obtain p where p: "build_start_plan sample_ffi sample_connect = Inr p"
    by (cases "build_start_plan sample_ffi sample_connect") auto
  from start_plan_sound [OF p] p show ?thesis by (simp add: sample_connect_def sample_ffi_def)
qed

text \<open>Two devices whose configurations name each other get opposite halves.\<close>

lemma mirrored_plans_opposite:
  assumes "connect_plan_ok C p" "connect_plan_ok C q"
    and "sp_session p = StartServer (ServeKey ki peer ch)"
    and "sp_session q = StartServer (ServeKey kj (identity_public C (ki_identity ki)) ch')"
  shows "identity_public C (ki_identity kj) \<noteq> peer"
  using assms
  by (auto simp: connect_plan_ok_def peers_plan_ok_def session_role_def Let_def pubkey.expand dest!: pubkey.expand
      split: if_splits)

section \<open>One node id per process\<close>

datatype call = Start ustring bool | Stop

fun run_calls :: "'n ffi \<Rightarrow> call list \<Rightarrow> process \<Rightarrow> bytes list \<times> process" where
  "run_calls X [] p = ([], p)"
| "run_calls X (Start json builds # calls) p =
     (case start_ffi_session X builds json p of
        (r, p') \<Rightarrow> (case run_calls X calls p' of (ks, p'') \<Rightarrow> (case r of Inl _ \<Rightarrow> ks | Inr (k, _) \<Rightarrow> k # ks, p'')))"
| "run_calls X (Stop # calls) p = run_calls X calls (p\<lparr>pr_running := False\<rparr>)"

lemma start_ffi_key:
  assumes "start_ffi_session X builds json p = (r, p')"
  shows "(case pr_secret p of None \<Rightarrow> True | Some k \<Rightarrow> pr_secret p' = Some k)
    \<and> (case r of Inl _ \<Rightarrow> True | Inr (k, h) \<Rightarrow> pr_secret p' = Some k \<and> \<not> pr_running p \<and> pr_running p')"
  using assms
  by (auto simp: start_ffi_session_def start_inner_def pin_iroh_secret_def Let_def
      split: option.splits sum.splits if_splits prod.splits)

lemma run_calls_key:
  "run_calls X calls p = (ks, p') \<Longrightarrow> pr_secret p = Some k \<Longrightarrow> set ks \<subseteq> {k} \<and> pr_secret p' = Some k"
proof (induction calls arbitrary: p ks p')
  case (Cons c calls)
  show ?case
  proof (cases c)
    case (Start json builds)
    obtain r q where r: "start_ffi_session X builds json p = (r, q)" by fastforce
    obtain ks' q' where q: "run_calls X calls q = (ks', q')" by fastforce
    from start_ffi_key [OF r] Cons.prems(2) have k: "pr_secret q = Some k"
      "\<And>k' h. r = Inr (k', h) \<Longrightarrow> k' = k" by auto
    from Cons.IH [OF q k(1)] Cons.prems(1) k(2) r q show ?thesis
      by (auto simp: Start split: sum.splits prod.splits)
  qed (use Cons in auto)
qed simp

lemma one_node_id:
  assumes "run_calls X calls \<lparr>pr_running = False, pr_secret = None\<rparr> = (ks, p)"
  shows "\<exists>k. set ks \<subseteq> {k}"
  using assms
proof (induction calls arbitrary: ks p)
  case (Cons c calls)
  show ?case
  proof (cases c)
    case (Start json builds)
    let ?p = "\<lparr>pr_running = False, pr_secret = None\<rparr>"
    obtain r q where r: "start_ffi_session X builds json ?p = (r, q)" by fastforce
    obtain ks' q' where q: "run_calls X calls q = (ks', q')" by fastforce
    show ?thesis
    proof (cases "pr_secret q")
      case None
      with start_ffi_key [OF r] obtain e where "r = Inl e" by (cases r) auto
      moreover have "q = ?p" using r None
        by (auto simp: start_ffi_session_def start_inner_def pin_iroh_secret_def Let_def
            split: option.splits sum.splits if_splits prod.splits)
      ultimately show ?thesis using Cons r q by (auto simp: Start)
    next
      case (Some k)
      from run_calls_key [OF q Some] start_ffi_key [OF r] Some Cons.prems r q show ?thesis
        by (auto simp: Start split: sum.splits prod.splits)
    qed
  qed (use Cons in auto)
qed simp

section \<open>Draining\<close>

text \<open>The app polls with buffers of its choice while the runtime appends events.\<close>

datatype drain_op = Poll u64 bytes | Arrive net_event

fun drain :: "'n ffi \<Rightarrow> drain_op list \<Rightarrow> handle \<Rightarrow> (ustring list \<times> handle) option" where
  "drain X [] h = Some ([], h)"
| "drain X (Arrive e # ops) h = drain X ops (h\<lparr>h_events := h_events h @ [e]\<rparr>)"
| "drain X (Poll now buf # ops) h =
     (case duocb_next_event X now (Some h) (Some buf) of
        Some (code, out, Some h') \<Rightarrow>
          (case drain X ops h' of
             None \<Rightarrow> None
           | Some (ds, h'') \<Rightarrow>
               Some (if code = 1 then (case cstr_arg out of Some t \<Rightarrow> t # ds | None \<Rightarrow> ds) else ds, h''))
      | _ \<Rightarrow> None)"

definition arrivals :: "drain_op list \<Rightarrow> net_event list" where
  "arrivals ops = List.map_filter (\<lambda>p. case p of Arrive e \<Rightarrow> Some e | Poll _ _ \<Rightarrow> None) ops"

lemma arrivals_simps [simp]:
  "arrivals [] = []" "arrivals (Arrive e # ops) = e # arrivals ops" "arrivals (Poll now buf # ops) = arrivals ops"
  by (simp_all add: arrivals_def List.map_filter_simps)

definition kept :: "handle \<Rightarrow> ustring list" where
  "kept h = (case h_pending h of None \<Rightarrow> [] | Some t \<Rightarrow> [t])"

text \<open>What serde_json prints: text without NUL characters, since it escapes control characters.\<close>

definition json_clean :: "'n ffi \<Rightarrow> bool" where
  "json_clean X \<longleftrightarrow> (\<forall>j. valid_text (fx_json X j) \<and> 0 \<notin> set (fx_json X j))"

definition text_of :: "'n ffi \<Rightarrow> ustring \<Rightarrow> net_event \<Rightarrow> bool" where
  "text_of X t e \<longleftrightarrow> (\<exists>now. event_text X now e = Some t)"

lemma text_clean: "json_clean X \<Longrightarrow> text_of X t e \<Longrightarrow> valid_text t \<and> 0 \<notin> set t"
  by (auto simp: text_of_def event_text_def json_clean_def)

text \<open>One poll: it delivers the oldest event and forgets it, keeps it for a retry, or finds none.\<close>

lemma poll_cases:
  assumes "duocb_next_event X now (Some h) (Some buf) = Some (code, out, Some h')"
  obtains (empty) "h_pending h = None" "h_events h = []" "h' = h" "code = 0"
  | (retained) j where "h_pending h = Some j" "write_cstr (Some buf) j = (code = 1, out)" "h_events h' = h_events h"
      "h_pending h' = (if code = 1 then None else Some j)"
  | (fresh) j e es where "h_pending h = None" "h_events h = e # es" "event_text X now e = Some j"
      "write_cstr (Some buf) j = (code = 1, out)" "h_events h' = es" "h_pending h' = (if code = 1 then None else Some j)"
  using assms
  by (auto simp: duocb_next_event_def take_event_def retain_event_def
      split: option.splits list.splits prod.splits bool.splits)

lemma write_read:
  assumes "write_cstr (Some buf) t = (True, out)" "valid_text t" "0 \<notin> set t"
  shows "cstr_arg out = Some t"
proof -
  have "buf \<noteq> []" using assms(1) by (auto simp: write_cstr_def)
  from write_reads_back [OF assms(2,3) this] assms(1) show ?thesis by auto
qed

lemma drain_order:
  assumes "json_clean X" "drain X ops h = Some (ds, h')" "list_all2 (text_of X) (kept h) P"
  shows "\<exists>n. h_events h' = drop n (h_events h @ arrivals ops)
     \<and> list_all2 (text_of X) (ds @ kept h') (P @ take n (h_events h @ arrivals ops))"
  using assms(2,3)
proof (induction ops arbitrary: h ds P)
  case Nil
  then show ?case by (intro exI [of _ 0]) simp
next
  case (Cons p ops)
  show ?case
  proof (cases p)
    case (Arrive e)
    with Cons.IH [of "h\<lparr>h_events := h_events h @ [e]\<rparr>" ds P] Cons.prems show ?thesis by (simp add: kept_def)
  next
    case (Poll now buf)
    with Cons.prems(1) obtain code out h1 ds1 where s: "duocb_next_event X now (Some h) (Some buf) = Some (code, out, Some h1)"
      "drain X ops h1 = Some (ds1, h')"
      "ds = (if code = 1 then (case cstr_arg out of Some t \<Rightarrow> t # ds1 | None \<Rightarrow> ds1) else ds1)"
      by (auto split: option.splits)
    from s(1) show ?thesis
    proof (cases rule: poll_cases)
      case empty
      with Cons.IH [OF s(2)] Cons.prems(2) s(3) Poll show ?thesis by (simp add: kept_def)
    next
      case (retained j)
      from Cons.prems(2) retained(1) obtain e where P: "P = [e]" "text_of X j e"
        by (auto simp: kept_def list_all2_Cons1)
      show ?thesis
      proof (cases "code = 1")
        case True
        with retained write_read text_clean [OF assms(1) P(2)] have "cstr_arg out = Some j" by simp
        with Cons.IH [OF s(2), of "[]"] retained True s(3) P Poll show ?thesis by (auto simp: kept_def)
      next
        case False
        with Cons.IH [OF s(2), of P] retained P s(3) Poll show ?thesis by (simp add: kept_def)
      qed
    next
      case (fresh j e es)
      then have t: "text_of X j e" by (auto simp: text_of_def)
      from Cons.prems(2) fresh(1) have P: "P = []" by (simp add: kept_def)
      have shift: "\<exists>n. h_events h' = drop n (e # es @ arrivals ops) \<and> list_all2 (text_of X) L (take n (e # es @ arrivals ops))"
        if "h_events h' = drop m (es @ arrivals ops)" "list_all2 (text_of X) L (e # take m (es @ arrivals ops))" for m L
        using that by (intro exI [of _ "Suc m"]) simp
      show ?thesis
      proof (cases "code = 1")
        case True
        with fresh write_read text_clean [OF assms(1) t] have "cstr_arg out = Some j" by simp
        with Cons.IH [OF s(2), of "[]"] fresh True s(3) P Poll t shift show ?thesis by (fastforce simp: kept_def)
      next
        case False
        with Cons.IH [OF s(2), of "[e]"] fresh P s(3) Poll t shift show ?thesis by (fastforce simp: kept_def)
      qed
    qed
  qed
qed

text \<open>
  Property C38. Polling delivers every event exactly once and in order. However the app chooses its
  buffers, too small ones included, and however arrivals interleave with its polls, the texts delivered
  so far, with the one kept for a retry, are the texts of a prefix of the events emitted, in order; the
  rest is still queued.
\<close>

theorem events_delivered_once:
  assumes "json_clean X" "h_pending h = None" "drain X ops h = Some (ds, h')"
  shows "\<exists>n. h_events h' = drop n (h_events h @ arrivals ops)
     \<and> list_all2 (text_of X) (ds @ kept h') (take n (h_events h @ arrivals ops))"
  using drain_order [OF assms(1,3), of "[]"] assms(2) by (simp add: kept_def)

lemma events_delivered_once_witness:
  "\<exists>ds h'. drain sample_ffi [Poll 0 [0], Arrive ItemSent, Poll 0 (replicate 8 0), Poll 0 (replicate 8 0)]
       \<lparr>h_commands = [], h_events = [PinCleared], h_pending = None, h_alive = True, h_session = StopServer, h_disconnect = StopServer\<rparr>
       = Some (ds, h')
     \<and> list_all2 (text_of sample_ffi) (ds @ kept h') [PinCleared, ItemSent]"
proof -
  let ?h = "\<lparr>h_commands = [], h_events = [PinCleared], h_pending = None, h_alive = True, h_session = StopServer, h_disconnect = StopServer\<rparr>"
  let ?ops = "[Poll 0 [0], Arrive ItemSent, Poll 0 (replicate 8 0), Poll 0 (replicate 8 0)]"
  have clean: "json_clean sample_ffi" by (simp add: json_clean_def sample_ffi_def valid_text_def valid_scalar_def)
  have w: "write_cstr (Some [0]) [123, 125] = (False, Some [0])"
    "\<exists>out. write_cstr (Some (replicate 8 0)) [123, 125] = (True, out)"
    by (simp_all add: write_cstr_eq)
  have e: "event_text sample_ffi 0 PinCleared = Some [123, 125]" "event_text sample_ffi 0 ItemSent = Some [123, 125]"
    by (simp_all add: event_text_def event_json_def sample_ffi_def)
  from w(2) obtain out where out: "write_cstr (Some (replicate 8 0)) [123, 125] = (True, out)" by blast
  obtain ds h' where d: "drain sample_ffi ?ops ?h = Some (ds, h')" "h_events h' = []"
    using w(1) out e by (auto simp: duocb_next_event_def take_event_def retain_event_def split: option.splits)
  from events_delivered_once [OF clean _ d(1)] obtain n where n: "h_events h' = drop n [PinCleared, ItemSent]"
    "list_all2 (text_of sample_ffi) (ds @ kept h') (take n [PinCleared, ItemSent])" by auto
  with d(2) have "take n [PinCleared, ItemSent] = [PinCleared, ItemSent]" by (metis drop_eq_Nil take_all)
  with n(2) d(1) show ?thesis by auto
qed

section \<open>Limits\<close>

text \<open>Two threads that drain at once with short buffers lose an event: the second one kept overwrites the first.\<close>

lemma concurrent_drain_loses:
  assumes "take_event X now h = Some (Some s, h1)" "take_event X now h1 = Some (Some t, h2)" "h_pending h = None"
  shows "h_pending (retain_event t (retain_event s h2)) = Some t \<and> h_events h = take 2 (h_events h) @ h_events (retain_event t (retain_event s h2))"
  using assms by (auto simp: take_event_def retain_event_def split: list.splits option.splits)

text \<open>A refresh on a card-setup session that has ended is accepted silently.\<close>

lemma refresh_after_end_is_silent:
  assumes "rt_session s = Some x" "s_refresh x = Some r" "s_ended x"
  shows "rt_events (net_command C RefreshPin s) = rt_events s"
  using assms by (simp add: net_command_def)

end
