(* ===== verification/Bonjour.thy ===== *)
theory Bonjour
  imports Txt
begin

text \<open>
  The iOS half of \<open>duocb-core/src/lan/dnssd.rs\<close>: advertising and looking up a record through the
  system daemon. The daemon is a C library: the codes its calls return, the readiness \<open>poll\<close>
  reports and the callbacks \<open>DNSServiceProcessResult\<close> runs are inputs, one round of polling at a
  time; the callbacks themselves, the bookkeeping of the browse and every loop are the code's. Time is
  in nanoseconds. A result \<open>None\<close> means that the rounds given did not bring the loop to an end.
\<close>

unbundle bit_operations_syntax

section \<open>Byte order, C strings and service types\<close>

text \<open>\<open>to_be\<close> and \<open>from_be\<close> on a little-endian processor, which every iOS device has.\<close>

definition swap16 :: "u16 \<Rightarrow> u16" where
  "swap16 w = push_bit 8 w OR drop_bit 8 w"

definition swap32 :: "u32 \<Rightarrow> u32" where
  "swap32 w = push_bit 24 (w AND 0xff) OR push_bit 8 (w AND 0xff00) OR (drop_bit 8 w AND 0xff00) OR drop_bit 24 w"

definition ipv4_from_u32 :: "u32 \<Rightarrow> ipv4" where
  "ipv4_from_u32 w = IPv4 (ucast (drop_bit 24 w)) (ucast (drop_bit 16 w)) (ucast (drop_bit 8 w)) (ucast w)"

fun ipv6_from_octets :: "bytes \<Rightarrow> u16 list" where
  "ipv6_from_octets (a # b # bs) = (push_bit 8 (ucast a) OR ucast b) # ipv6_from_octets bs"
| "ipv6_from_octets _ = []"

definition cstring_new :: "ustring \<Rightarrow> bytes option" where
  "cstring_new s = (if List.member (utf8 s) 0 then None else Some (utf8 s))"

definition c_str :: "bytes \<Rightarrow> bytes" where
  "c_str memory = takeWhile (\<lambda>b. b \<noteq> 0) memory"

datatype bonjour_error =
  NoDomainLabel
| InteriorNul
| NoAddressToAdvertise
| DoesNotFitTxt
| RegisterCall int
| BrowseCall int
| AddrInfoCall int
| PollBroken
| ProcessResult int
| PermissionDenied bool
| RegistrationFailed int
| PayloadFailed

definition rsplit_dot :: "ustring \<Rightarrow> (ustring \<times> ustring) option" where
  "rsplit_dot s =
     (if List.member s 46
      then Some (rev (tl (dropWhile (\<lambda>c. c \<noteq> 46) (rev s))), rev (takeWhile (\<lambda>c. c \<noteq> 46) (rev s)))
      else None)"

definition split_service_type :: "ustring \<Rightarrow> bonjour_error + bytes \<times> bytes" where
  "split_service_type service_type =
     (case rsplit_dot (rev (dropWhile (\<lambda>c. c = 46) (rev service_type))) of
        None \<Rightarrow> Inl NoDomainLabel
      | Some (regtype, domain) \<Rightarrow>
          (case (cstring_new regtype, cstring_new (domain @ [46])) of
             (Some r, Some d) \<Rightarrow> Inr (r, d)
           | _ \<Rightarrow> Inl InteriorNul))"

section \<open>Pumping the daemon's sockets\<close>

text \<open>What one descriptor shows after \<open>poll\<close>, and what processing it would run and return.\<close>

record 'f fd_state =
  fd_dead :: bool
  fd_in :: bool
  fd_calls :: "'f list"
  fd_result :: int

text \<open>The outcome of \<open>poll\<close>: a signal, an error, nothing within the timeout, or descriptors to look at.\<close>

datatype 'p poll_outcome = Interrupted | PollError | NothingReady | Ready 'p

record 'p poll_round =
  rd_now :: nat
  rd_poll :: "nat \<Rightarrow> 'p poll_outcome"

definition poll_timeout_ms :: "nat \<Rightarrow> nat \<Rightarrow> nat" where
  "poll_timeout_ms deadline now = min (max 1 ((deadline - now) div 1000000)) (2 ^ 31 - 1)"

text \<open>Handing a descriptor's callbacks to the state they write to.\<close>

definition on_fd :: "('c \<Rightarrow> 's \<Rightarrow> 's) \<Rightarrow> 'c fd_state \<Rightarrow> ('s \<Rightarrow> 's) fd_state" where
  "on_fd cb f = \<lparr>fd_dead = fd_dead f, fd_in = fd_in f, fd_calls = map cb (fd_calls f), fd_result = fd_result f\<rparr>"

fun process_fds :: "('s \<Rightarrow> 's) fd_state list \<Rightarrow> 's \<Rightarrow> (bonjour_error + bool) \<times> 's" where
  "process_fds [] s = (Inr True, s)"
| "process_fds (f # fs) s =
     (if fd_dead f then (Inr False, s)
      else if fd_in f then
        (let s' = fold (\<lambda>run. run) (fd_calls f) s
         in if fd_result f \<noteq> 0 then (Inl (ProcessResult (fd_result f)), s') else process_fds fs s')
      else process_fds fs s)"

definition poll_and_process ::
    "nat \<Rightarrow> nat \<Rightarrow> (nat \<Rightarrow> 'p poll_outcome) \<Rightarrow> ('p \<Rightarrow> ('s \<Rightarrow> 's) fd_state list) \<Rightarrow> 's \<Rightarrow> (bonjour_error + bool) \<times> 's" where
  "poll_and_process deadline now poll fds s =
     (if deadline < now then (Inr False, s)
      else case poll (poll_timeout_ms deadline now) of
        Interrupted \<Rightarrow> (Inr True, s)
      | PollError \<Rightarrow> (Inl PollBroken, s)
      | NothingReady \<Rightarrow> (Inr False, s)
      | Ready p \<Rightarrow> process_fds (fds p) s)"

section \<open>Advertising\<close>

definition ERR_POLICY_DENIED :: int where [const_simps]: "ERR_POLICY_DENIED = - 65570"
definition REGISTER_VERDICT_WAIT :: nat where [const_simps]: "REGISTER_VERDICT_WAIT = 2000000000"
definition ADDR_GRACE :: nat where [const_simps]: "ADDR_GRACE = 700000000"
definition ADDR_RESERVE :: nat where [const_simps]: "ADDR_RESERVE = 1500000000"
definition LOOKUP_TIMEOUT_NS :: nat where [const_simps]: "LOOKUP_TIMEOUT_NS = 5000000000"
definition MORE_COMING :: u32 where [const_simps]: "MORE_COMING = 1"
definition FLAG_ADD :: u32 where [const_simps]: "FLAG_ADD = 2"

text \<open>The arguments of \<open>DNSServiceRegister\<close> that vary, and the verdict its callback writes.\<close>

record registration =
  rg_name :: bytes
  rg_regtype :: bytes
  rg_domain :: bytes
  rg_port :: u16
  rg_txt_len :: u16
  rg_txt :: bytes

record register_outcome =
  ro_err :: "int option"

definition register_cb :: "int \<Rightarrow> register_outcome \<Rightarrow> register_outcome" where
  "register_cb err outcome = outcome\<lparr>ro_err := Some err\<rparr>"

fun await_verdict ::
    "nat \<Rightarrow> int fd_state poll_round list \<Rightarrow> register_outcome \<Rightarrow> (bonjour_error + register_outcome) option" where
  "await_verdict deadline rounds outcome =
     (if ro_err outcome \<noteq> None then Some (Inr outcome)
      else case rounds of
        [] \<Rightarrow> None
      | r # rs \<Rightarrow>
          (case poll_and_process deadline (rd_now r) (rd_poll r) (\<lambda>f. [on_fd register_cb f]) outcome of
             (Inl e, _) \<Rightarrow> Some (Inl e)
           | (Inr True, outcome') \<Rightarrow> await_verdict deadline rs outcome'
           | (Inr False, outcome') \<Rightarrow> Some (Inr outcome')))"

declare await_verdict.simps [simp del]

text \<open>Whether the browse that makes the system ask was held.\<close>

definition trigger_local_network_prompt :: "(bytes \<times> bytes \<Rightarrow> int) \<Rightarrow> bytes \<Rightarrow> bytes \<Rightarrow> bool" where
  "trigger_local_network_prompt browse regtype domain = (browse (regtype, domain) = 0)"

record register_env =
  re_start :: nat
  re_register :: "registration \<Rightarrow> int"
  re_rounds :: "int fd_state poll_round list"
  re_browse :: "bytes \<times> bytes \<Rightarrow> int"

definition verdict :: "register_env \<Rightarrow> registration \<Rightarrow> register_outcome \<Rightarrow> bonjour_error + registration" where
  "verdict E reg outcome =
     (case ro_err outcome of
        None \<Rightarrow> Inr reg
      | Some err \<Rightarrow>
          (if err = 0 then Inr reg
           else if err = ERR_POLICY_DENIED
           then Inl (PermissionDenied (trigger_local_network_prompt (re_browse E) (rg_regtype reg) (rg_domain reg)))
           else Inl (RegistrationFailed err)))"

definition blocking_advertise ::
    "register_env \<Rightarrow> ustring \<Rightarrow> ustring \<Rightarrow> ustring \<Rightarrow> socket_addr list \<Rightarrow> (bonjour_error + registration) option" where
  "blocking_advertise E service_type inst content addrs =
     (case split_ports addrs of
        None \<Rightarrow> Some (Inl NoAddressToAdvertise)
      | Some (srv_port, port6) \<Rightarrow>
      (case advert_txt content port6 of
        None \<Rightarrow> Some (Inl DoesNotFitTxt)
      | Some record_txt \<Rightarrow>
      (case cstring_new inst of
        None \<Rightarrow> Some (Inl InteriorNul)
      | Some name \<Rightarrow>
      (case split_service_type service_type of
        Inl e \<Rightarrow> Some (Inl e)
      | Inr (regtype, domain) \<Rightarrow>
          (let reg = \<lparr>rg_name = name, rg_regtype = regtype, rg_domain = domain, rg_port = swap16 srv_port,
                      rg_txt_len = of_nat (length record_txt), rg_txt = record_txt\<rparr>
           in if re_register E reg \<noteq> 0 then Some (Inl (RegisterCall (re_register E reg)))
              else map_option (\<lambda>r. case r of Inl e \<Rightarrow> Inl e | Inr outcome \<Rightarrow> verdict E reg outcome)
                (await_verdict (re_start E + REGISTER_VERDICT_WAIT) (re_rounds E) \<lparr>ro_err = None\<rparr>))))))"

section \<open>The browse\<close>

record browse_reply =
  bp_flags :: u32
  bp_err :: int
  bp_name :: "bytes option"
  bp_regtype :: "bytes option"
  bp_domain :: "bytes option"

type_synonym instance_id = "bytes \<times> bytes \<times> bytes"

definition browse_cb :: "browse_reply \<Rightarrow> instance_id list \<Rightarrow> instance_id list" where
  "browse_cb r instances =
     (if bp_err r \<noteq> 0 \<or> bp_flags r AND FLAG_ADD = 0 then instances
      else case (bp_name r, bp_regtype r, bp_domain r) of
        (Some name, Some regtype, Some domain) \<Rightarrow> instances @ [(c_str name, c_str regtype, c_str domain)]
      | _ \<Rightarrow> instances)"

record resolve_reply =
  rp_err :: int
  rp_host :: "bytes option"
  rp_port :: u16
  rp_txt :: "bytes option"

type_synonym resolved_txt = "bytes \<times> u16 \<times> (ustring \<Rightarrow> ustring option)"

definition resolve_cb :: "resolve_reply \<Rightarrow> resolved_txt option \<Rightarrow> resolved_txt option" where
  "resolve_cb r answer =
     (case rp_host r of
        None \<Rightarrow> answer
      | Some host \<Rightarrow>
          (if rp_err r \<noteq> 0 then answer
           else Some (c_str host, swap16 (rp_port r), parse_txt (case rp_txt r of None \<Rightarrow> [] | Some t \<Rightarrow> t))))"

text \<open>An in-flight resolve; \<open>rv_op\<close> is its operation handle, named by the instance it was started for.\<close>

record resolve =
  rv_op :: bytes
  rv_instance :: ustring
  rv_answer :: "resolved_txt option"

record bonjour_answer =
  an_instance :: ustring
  an_content :: ustring
  an_host :: bytes
  an_port :: u16
  an_port6 :: "u16 option"

record browse =
  br_instances :: "instance_id list"
  br_resolves :: "resolve list"
  br_started :: "bytes list"

text \<open>\<open>call\<close> is the code \<open>DNSServiceResolve\<close> returns for an instance.\<close>

definition start_resolve :: "(instance_id \<Rightarrow> int) \<Rightarrow> instance_id \<Rightarrow> browse \<Rightarrow> browse" where
  "start_resolve call i b =
     (case i of (name, regtype, domain) \<Rightarrow>
        if List.member (br_started b) name then b
        else case utf8_decode name of
          None \<Rightarrow> b
        | Some inst \<Rightarrow>
            (if call i \<noteq> 0 then b
             else b\<lparr>br_started := br_started b @ [name],
                    br_resolves := br_resolves b @ [\<lparr>rv_op = name, rv_instance = make_ascii_lowercase inst, rv_answer = None\<rparr>]\<rparr>))"

definition start_new_resolves :: "(instance_id \<Rightarrow> int) \<Rightarrow> browse \<Rightarrow> browse" where
  "start_new_resolves call b = fold (start_resolve call) (br_instances b) (b\<lparr>br_instances := []\<rparr>)"

definition to_answer :: "resolve \<Rightarrow> bonjour_answer option" where
  "to_answer r =
     (case rv_answer r of
        None \<Rightarrow> None
      | Some (host, srv_port, attrs) \<Rightarrow>
          (case attrs TXT_KEY of
             None \<Rightarrow> None
           | Some content \<Rightarrow>
               Some \<lparr>an_instance = rv_instance r, an_content = content, an_host = host, an_port = srv_port,
                      an_port6 = Option.bind (attrs TXT_KEY_PORT6) parse_u16\<rparr>))"

definition take_answers :: "browse \<Rightarrow> bonjour_answer list \<times> browse" where
  "take_answers b =
     (List.map_filter to_answer (br_resolves b), b\<lparr>br_resolves := map (\<lambda>r. r\<lparr>rv_answer := None\<rparr>) (br_resolves b)\<rparr>)"

text \<open>One poll covers the browse and every resolve, in that order.\<close>

type_synonym browse_poll = "browse_reply fd_state \<times> (bytes \<Rightarrow> resolve_reply fd_state)"

definition answer_at :: "nat \<Rightarrow> resolve_reply \<Rightarrow> browse \<Rightarrow> browse" where
  "answer_at i reply b =
     b\<lparr>br_resolves := (br_resolves b)[i := (br_resolves b ! i)\<lparr>rv_answer := resolve_cb reply (rv_answer (br_resolves b ! i))\<rparr>]\<rparr>"

definition browse_fds :: "browse \<Rightarrow> browse_poll \<Rightarrow> (browse \<Rightarrow> browse) fd_state list" where
  "browse_fds b p =
     on_fd (\<lambda>reply s. s\<lparr>br_instances := browse_cb reply (br_instances s)\<rparr>) (fst p)
     # map (\<lambda>(i, r). on_fd (answer_at i) (snd p (rv_op r))) (List.enumerate 0 (br_resolves b))"

record browse_round = "browse_poll poll_round" +
  rd_resolve :: "instance_id \<Rightarrow> int"

fun browse_pump ::
    "nat \<Rightarrow> browse_round list \<Rightarrow> browse \<Rightarrow> ((bonjour_error + bonjour_answer list) \<times> browse \<times> browse_round list) option" where
  "browse_pump deadline [] b = None"
| "browse_pump deadline (r # rs) b =
     (case take_answers (start_new_resolves (rd_resolve r) b) of (answers, b') \<Rightarrow>
        if answers \<noteq> [] then Some (Inr answers, b', r # rs)
        else case poll_and_process deadline (rd_now r) (rd_poll r) (browse_fds b') b' of
          (Inl e, b'') \<Rightarrow> Some (Inl e, b'', rs)
        | (Inr False, b'') \<Rightarrow> Some (Inr [], b'', rs)
        | (Inr True, b'') \<Rightarrow> browse_pump deadline rs b'')"

definition judge :: "(ustring \<Rightarrow> ustring \<Rightarrow> 'p option) \<Rightarrow> bonjour_answer list \<Rightarrow> ('p \<times> bonjour_answer) option" where
  "judge decode answers =
     find_map (\<lambda>a. map_option (\<lambda>payload. (payload, a)) (decode (an_instance a) (an_content a))) answers"

text \<open>Every pump either ends the browse, consumes a round, or hands over answers that were waiting.\<close>

definition pending :: "browse \<Rightarrow> bool" where
  "pending b \<longleftrightarrow> list_ex (\<lambda>r. rv_answer r \<noteq> None) (br_resolves b)"

lemma start_resolve_frame:
  "br_instances (start_resolve call i b) = br_instances b"
  "pending (start_resolve call i b) = pending b"
  by (auto simp: start_resolve_def pending_def split: prod.split option.split)

lemma start_resolves_frame:
  "br_instances (fold (start_resolve call) is b) = br_instances b"
  "pending (fold (start_resolve call) is b) = pending b"
  by (induction "is" arbitrary: b) (simp_all add: start_resolve_frame)

lemma start_new_resolves_frame [simp]:
  "br_instances (start_new_resolves call b) = []"
  "pending (start_new_resolves call b) = pending b"
  by (simp_all add: start_new_resolves_def start_resolves_frame) (simp add: pending_def)

lemma take_answers_frame:
  assumes "take_answers b = (answers, b')"
  shows "\<not> pending b'" "answers \<noteq> [] \<Longrightarrow> pending b" "br_instances b' = br_instances b"
    "br_started b' = br_started b" "map rv_op (br_resolves b') = map rv_op (br_resolves b)"
proof -
  from assms have b': "b' = b\<lparr>br_resolves := map (\<lambda>r. r\<lparr>rv_answer := None\<rparr>) (br_resolves b)\<rparr>"
    and a: "answers = List.map_filter to_answer (br_resolves b)" by (simp_all add: take_answers_def)
  show "\<not> pending b'" "br_instances b' = br_instances b" "br_started b' = br_started b"
    "map rv_op (br_resolves b') = map rv_op (br_resolves b)"
    by (auto simp: b' pending_def list_ex_iff)
  show "pending b" if ne: "answers \<noteq> []"
  proof -
    from ne obtain x where "x \<in> set answers" by (cases answers) auto
    then obtain r where "r \<in> set (br_resolves b)" "to_answer r \<noteq> None" by (auto simp: a map_filter_set)
    then show ?thesis by (auto simp: pending_def list_ex_iff to_answer_def split: option.splits)
  qed
qed

lemma pump_progress:
  "browse_pump deadline rounds b = Some (Inr answers, b', rounds') \<Longrightarrow> answers \<noteq> [] \<Longrightarrow>
     \<not> pending b' \<and> (length rounds' < length rounds \<or> rounds' = rounds \<and> pending b)"
proof (induction deadline rounds b rule: browse_pump.induct)
  case (2 deadline r rs b)
  obtain as b1 where t: "take_answers (start_new_resolves (rd_resolve r) b) = (as, b1)" by fastforce
  show ?case
  proof (cases "as = []")
    case False
    with 2(2) t have "answers = as" "b' = b1" "rounds' = r # rs" by auto
    with take_answers_frame(1,2) [OF t] False show ?thesis by simp
  next
    case True
    obtain q b2 where q: "poll_and_process deadline (rd_now r) (rd_poll r) (browse_fds b1) b1 = (q, b2)" by fastforce
    from 2(2,3) t True q have "q = Inr True" "browse_pump deadline rs b2 = Some (Inr answers, b', rounds')"
      by (auto split: sum.splits bool.splits)
    with 2 t True q show ?thesis by fastforce
  qed
qed simp

function browse_loop ::
    "(ustring \<Rightarrow> ustring \<Rightarrow> 'p option) \<Rightarrow> nat \<Rightarrow> browse_round list \<Rightarrow> browse \<Rightarrow> (bonjour_error + ('p \<times> bonjour_answer) option) option" where
  "browse_loop decode deadline rounds b =
     (case browse_pump deadline rounds b of
        None \<Rightarrow> None
      | Some (Inl e, _, _) \<Rightarrow> Some (Inl e)
      | Some (Inr answers, b', rounds') \<Rightarrow>
          (if answers = [] then Some (Inr None)
           else case judge decode answers of
             Some hit \<Rightarrow> Some (Inr (Some hit))
           | None \<Rightarrow> browse_loop decode deadline rounds' b'))"
  by pat_completeness auto
termination
proof (relation "measure (\<lambda>(decode, deadline, rounds, b). 2 * length rounds + (if pending b then 1 else 0))")
  fix decode :: "ustring \<Rightarrow> ustring \<Rightarrow> 'p option" and deadline rounds b x t answers rest b' rounds'
  assume "browse_pump deadline rounds b = Some x" "(t, rest) = x" "t = Inr answers" "(b', rounds') = rest" "answers \<noteq> []"
  then show "((decode, deadline, rounds', b'), decode, deadline, rounds, b)
      \<in> measure (\<lambda>(decode, deadline, rounds, b). 2 * length rounds + (if pending b then 1 else 0))"
    using pump_progress [of deadline rounds b answers b' rounds'] by auto
qed simp

declare browse_loop.simps [simp del]

section \<open>Addresses and the whole lookup\<close>

datatype sockaddr = AfInet u32 | AfInet6 bytes | AfOther

record addr_reply =
  ap_flags :: u32
  ap_err :: int
  ap_address :: "sockaddr option"

record addr_outcome =
  ao_ips :: "ip_addr list"
  ao_done :: bool

definition sockaddr_ip :: "sockaddr \<Rightarrow> ip_addr option" where
  "sockaddr_ip a =
     (case a of
        AfInet s_addr \<Rightarrow> Some (V4 (ipv4_from_u32 (swap32 s_addr)))
      | AfInet6 bs \<Rightarrow> Some (V6 (ipv6_from_octets bs))
      | AfOther \<Rightarrow> None)"

definition reply_ips :: "addr_reply \<Rightarrow> ip_addr list" where
  "reply_ips r =
     (case ap_address r of
        None \<Rightarrow> []
      | Some a \<Rightarrow>
          (if ap_err r = 0 \<and> ap_flags r AND FLAG_ADD \<noteq> 0
           then (case sockaddr_ip a of Some ip \<Rightarrow> [ip] | None \<Rightarrow> []) else []))"

definition addr_cb :: "addr_reply \<Rightarrow> addr_outcome \<Rightarrow> addr_outcome" where
  "addr_cb r outcome =
     (let pushed = outcome\<lparr>ao_ips := ao_ips outcome @ reply_ips r\<rparr>
      in if ap_flags r AND MORE_COMING = 0 then pushed\<lparr>ao_done := True\<rparr> else pushed)"

record addr_round = "addr_reply fd_state poll_round" +
  rd_after :: nat

fun addr_loop :: "nat \<Rightarrow> addr_round list \<Rightarrow> addr_outcome \<Rightarrow> (bonjour_error + ip_addr list) option" where
  "addr_loop window rounds outcome =
     (if ao_done outcome \<and> ao_ips outcome \<noteq> [] then Some (Inr (ao_ips outcome))
      else case rounds of
        [] \<Rightarrow> None
      | r # rs \<Rightarrow>
          (case poll_and_process window (rd_now r) (rd_poll r) (\<lambda>f. [on_fd addr_cb f]) outcome of
             (Inl e, _) \<Rightarrow> Some (Inl e)
           | (Inr False, outcome') \<Rightarrow> Some (Inr (ao_ips outcome'))
           | (Inr True, outcome') \<Rightarrow>
               addr_loop (if ao_ips outcome' \<noteq> [] then min window (rd_after r + ADDR_GRACE) else window) rs outcome'))"

declare addr_loop.simps [simp del]

record lookup_env =
  le_now :: nat
  le_browse :: "bytes \<times> bytes \<Rightarrow> int"
  le_rounds :: "browse_round list"
  le_addr :: "bytes \<Rightarrow> int"
  le_addr_rounds :: "bytes \<Rightarrow> addr_round list"

definition resolve_addresses :: "lookup_env \<Rightarrow> bytes \<Rightarrow> nat \<Rightarrow> (bonjour_error + ip_addr list) option" where
  "resolve_addresses E host deadline =
     (if le_addr E host \<noteq> 0 then Some (Inl (AddrInfoCall (le_addr E host)))
      else addr_loop deadline (le_addr_rounds E host) \<lparr>ao_ips = [], ao_done = False\<rparr>)"

definition browse_start :: "lookup_env \<Rightarrow> ustring \<Rightarrow> bonjour_error + browse" where
  "browse_start E service_type =
     (case split_service_type service_type of
        Inl e \<Rightarrow> Inl e
      | Inr rd \<Rightarrow>
          (if le_browse E rd \<noteq> 0 then Inl (BrowseCall (le_browse E rd))
           else Inr \<lparr>br_instances = [], br_resolves = [], br_started = []\<rparr>))"

definition bonjour_lookup ::
    "lookup_env \<Rightarrow> ustring \<Rightarrow> (ustring \<Rightarrow> ustring \<Rightarrow> 'p option) \<Rightarrow> (bonjour_error + 'p lan_found option) option" where
  "bonjour_lookup E service_type decode =
     (let deadline = le_now E + LOOKUP_TIMEOUT_NS; browse_deadline = deadline - ADDR_RESERVE in
      case browse_start E service_type of
        Inl e \<Rightarrow> Some (Inl e)
      | Inr b \<Rightarrow>
      (case browse_loop decode browse_deadline (le_rounds E) b of
        None \<Rightarrow> None
      | Some (Inl e) \<Rightarrow> Some (Inl e)
      | Some (Inr None) \<Rightarrow> Some (Inr None)
      | Some (Inr (Some (payload, a))) \<Rightarrow>
      (case resolve_addresses E (an_host a) deadline of
        None \<Rightarrow> None
      | Some (Inl e) \<Rightarrow> Some (Inl e)
      | Some (Inr ips) \<Rightarrow>
          (let addrs = assemble_addrs ips (an_port a) (an_port6 a)
           in if addrs = [] then Some (Inr None)
              else Some (Inr (Some \<lparr>lf_payload = payload, lf_addrs = addrs\<rparr>))))))"

end
