(* ===== verification/BonjourLookup.thy ===== *)
theory BonjourLookup
  imports Bonjour
begin

text \<open>
  What a lookup through the system daemon promises: whatever it returns was reported and answered by the
  daemon for one instance, it ends once its clock passes the deadlines, and while the daemon stays
  healthy an instance that is reported and answered is found.
\<close>

section \<open>Callbacks keep what they all keep\<close>

definition keeps :: "('s \<Rightarrow> bool) \<Rightarrow> ('s \<Rightarrow> 's) \<Rightarrow> bool" where
  "keeps I f \<longleftrightarrow> (\<forall>s. I s \<longrightarrow> I (f s))"

lemma keepsD: "keeps I f \<Longrightarrow> I s \<Longrightarrow> I (f s)"
  by (simp add: keeps_def)

lemma fold_run_inv: "list_all (keeps I) calls \<Longrightarrow> I s \<Longrightarrow> I (fold (\<lambda>run. run) calls s)"
proof (induction calls arbitrary: s)
  case (Cons f fs)
  from Cons.prems have "I (f s)" by (intro keepsD [of I f]) simp_all
  from Cons.IH [OF _ this] Cons.prems(1) show ?case by simp
qed simp

lemma process_fds_inv:
  "list_all (\<lambda>f. list_all (keeps I) (fd_calls f)) fs \<Longrightarrow> I s \<Longrightarrow> I (snd (process_fds fs s))"
proof (induction fs s rule: process_fds.induct)
  case (2 f fs s)
  then have a: "list_all (keeps I) (fd_calls f)" and fs: "list_all (\<lambda>f. list_all (keeps I) (fd_calls f)) fs" by simp_all
  from fold_run_inv [OF a 2(4)] have s': "I (fold (\<lambda>run. run) (fd_calls f) s)" .
  consider "fd_dead f" | "\<not> fd_dead f" "fd_in f" "fd_result f \<noteq> 0" | "\<not> fd_dead f" "fd_in f" "fd_result f = 0"
    | "\<not> fd_dead f" "\<not> fd_in f" by blast
  then show ?case
  proof cases
    case 3
    from 2(1) [OF 3(1,2) refl _ fs s'] 3 show ?thesis by (simp add: Let_def)
  next
    case 4
    from 2(2) [OF 4 fs 2(4)] 4 show ?thesis by simp
  qed (use 2(4) s' in \<open>simp_all add: Let_def\<close>)
qed simp

lemma poll_inv:
  assumes "\<And>p. poll (poll_timeout_ms deadline now) = Ready p \<Longrightarrow> list_all (\<lambda>f. list_all (keeps I) (fd_calls f)) (fds p)"
    and "I s"
  shows "I (snd (poll_and_process deadline now poll fds s))"
  using assms process_fds_inv [of I] by (simp add: poll_and_process_def split: poll_outcome.split)

text \<open>The timeout handed to \<open>poll\<close> never asks it to wait for ever or to return at once.\<close>

lemma poll_timeout_range: "1 \<le> poll_timeout_ms deadline now \<and> poll_timeout_ms deadline now < 2 ^ 31"
  by (simp add: poll_timeout_ms_def)

section \<open>Where answers come from\<close>

definition browsed :: "browse_round list \<Rightarrow> bytes \<Rightarrow> bool" where
  "browsed rounds name \<longleftrightarrow>
     (\<exists>r \<in> set rounds. \<exists>t p reply i. rd_poll r t = Ready p \<and> reply \<in> set (fd_calls (fst p))
        \<and> browse_cb reply [] = [i] \<and> fst i = name)"

definition answered :: "browse_round list \<Rightarrow> bytes \<Rightarrow> resolved_txt \<Rightarrow> bool" where
  "answered rounds name a \<longleftrightarrow>
     (\<exists>r \<in> set rounds. \<exists>t p reply. rd_poll r t = Ready p \<and> reply \<in> set (fd_calls (snd p name))
        \<and> resolve_cb reply None = Some a)"

definition resolve_ok :: "browse_round list \<Rightarrow> resolve \<Rightarrow> bool" where
  "resolve_ok R r \<longleftrightarrow>
     browsed R (rv_op r) \<and> (\<exists>s. utf8_decode (rv_op r) = Some s \<and> rv_instance r = make_ascii_lowercase s)
     \<and> (\<forall>a. rv_answer r = Some a \<longrightarrow> answered R (rv_op r) a)"

definition browse_inv :: "browse_round list \<Rightarrow> browse \<Rightarrow> bool" where
  "browse_inv R b \<longleftrightarrow>
     (\<forall>i \<in> set (br_instances b). browsed R (fst i)) \<and> map rv_op (br_resolves b) = br_started b
     \<and> distinct (br_started b) \<and> (\<forall>r \<in> set (br_resolves b). resolve_ok R r)"

lemma browse_cb_cases: "browse_cb reply is = is @ browse_cb reply []"
  by (auto simp: browse_cb_def split: option.split)

lemma browse_cb_single: "i \<in> set (browse_cb reply []) \<Longrightarrow> browse_cb reply [] = [i]"
  by (cases "bp_name reply"; cases "bp_regtype reply"; cases "bp_domain reply")
    (simp_all add: browse_cb_def split: if_splits)

lemma resolve_cb_cases: "resolve_cb reply a = (case resolve_cb reply None of None \<Rightarrow> a | Some x \<Rightarrow> Some x)"
  by (auto simp: resolve_cb_def split: option.split)

lemma start_resolve_inv:
  assumes "browse_inv R b" "browsed R (fst i)"
  shows "browse_inv R (start_resolve call i b)"
proof -
  obtain name regtype domain where i: "i = (name, regtype, domain)" by (cases i)
  show ?thesis
  proof (cases "utf8_decode name")
    case None
    with assms i show ?thesis by (simp add: start_resolve_def)
  next
    case (Some s)
    then have "resolve_ok R \<lparr>rv_op = name, rv_instance = make_ascii_lowercase s, rv_answer = None\<rparr>"
      using assms(2) i by (simp add: resolve_ok_def)
    with assms(1) i Some show ?thesis by (simp add: start_resolve_def browse_inv_def)
  qed
qed

lemma start_resolves_inv:
  "browse_inv R b \<Longrightarrow> \<forall>i \<in> set is. browsed R (fst i) \<Longrightarrow> browse_inv R (fold (start_resolve call) is b)"
  by (induction "is" arbitrary: b) (simp_all add: start_resolve_inv)

lemma start_new_resolves_inv: "browse_inv R b \<Longrightarrow> browse_inv R (start_new_resolves call b)"
  unfolding start_new_resolves_def by (rule start_resolves_inv) (simp_all add: browse_inv_def)

definition from_daemon :: "browse_round list \<Rightarrow> bonjour_answer \<Rightarrow> bool" where
  "from_daemon R a \<longleftrightarrow>
     (\<exists>name s attrs. browsed R name \<and> utf8_decode name = Some s \<and> an_instance a = make_ascii_lowercase s
        \<and> answered R name (an_host a, an_port a, attrs) \<and> attrs TXT_KEY = Some (an_content a)
        \<and> an_port6 a = Option.bind (attrs TXT_KEY_PORT6) parse_u16)"

lemma take_answers_inv:
  assumes "browse_inv R b" "take_answers b = (answers, b')"
  shows "browse_inv R b'" "\<forall>a \<in> set answers. from_daemon R a"
proof -
  from assms(2) have b': "b' = b\<lparr>br_resolves := map (\<lambda>r. r\<lparr>rv_answer := None\<rparr>) (br_resolves b)\<rparr>"
    and a: "answers = List.map_filter to_answer (br_resolves b)" by (simp_all add: take_answers_def)
  have "map rv_op (br_resolves b') = map rv_op (br_resolves b)" by (simp add: b')
  with assms(1) show "browse_inv R b'" by (auto simp: b' browse_inv_def resolve_ok_def)
  show "\<forall>a \<in> set answers. from_daemon R a"
  proof
    fix x assume "x \<in> set answers"
    then obtain r where r: "r \<in> set (br_resolves b)" "to_answer r = Some x" by (auto simp: a map_filter_set)
    with assms(1) have "resolve_ok R r" by (simp add: browse_inv_def)
    moreover from r(2) obtain host port attrs content where "rv_answer r = Some (host, port, attrs)"
      "attrs TXT_KEY = Some content" "x = \<lparr>an_instance = rv_instance r, an_content = content, an_host = host,
         an_port = port, an_port6 = Option.bind (attrs TXT_KEY_PORT6) parse_u16\<rparr>"
      by (auto simp: to_answer_def split: option.splits)
    ultimately show "from_daemon R x" unfolding from_daemon_def resolve_ok_def by fastforce
  qed
qed

lemma answer_at_inv:
  assumes b: "browse_inv R b" and i: "i < length (br_resolves b)"
    and a: "\<And>x. resolve_cb reply None = Some x \<Longrightarrow> answered R (br_started b ! i) x"
  shows "browse_inv R (answer_at i reply b) \<and> br_started (answer_at i reply b) = br_started b"
proof -
  let ?r = "br_resolves b ! i"
  let ?r' = "?r\<lparr>rv_answer := resolve_cb reply (rv_answer ?r)\<rparr>"
  from b i have op: "br_started b ! i = rv_op ?r" by (metis browse_inv_def nth_map)
  from b i have "resolve_ok R ?r" by (simp add: browse_inv_def)
  with a op have ok: "resolve_ok R ?r'"
    by (auto simp: resolve_ok_def resolve_cb_cases [of reply "rv_answer ?r"] split: option.splits)
  have "map rv_op ((br_resolves b)[i := ?r']) = map rv_op (br_resolves b)"
    using i by (simp add: map_update list_update_same_conv)
  moreover have "\<forall>x \<in> set ((br_resolves b)[i := ?r']). resolve_ok R x"
    using b ok by (auto simp: browse_inv_def dest!: set_update_subset_insert [THEN subsetD])
  ultimately show ?thesis using b by (simp add: answer_at_def browse_inv_def)
qed

lemma browse_call_inv:
  assumes "browse_inv R s" "r \<in> set R" "rd_poll r t = Ready p" "reply \<in> set (fd_calls (fst p))"
  shows "browse_inv R (s\<lparr>br_instances := browse_cb reply (br_instances s)\<rparr>)"
proof -
  have "browsed R (fst i)" if "i \<in> set (browse_cb reply [])" for i
    using browse_cb_single [OF that] assms(2,3,4) unfolding browsed_def by blast
  moreover have "set (browse_cb reply (br_instances s)) = set (br_instances s) \<union> set (browse_cb reply [])"
    by (subst browse_cb_cases) simp
  ultimately show ?thesis using assms(1) by (auto simp: browse_inv_def)
qed

lemma browse_fds_inv:
  assumes b: "browse_inv R b" and r: "r \<in> set R" "rd_poll r t = Ready p"
  shows "list_all (\<lambda>f. list_all (keeps (\<lambda>s. browse_inv R s \<and> br_started s = br_started b)) (fd_calls f)) (browse_fds b p)"
proof -
  let ?I = "\<lambda>s. browse_inv R s \<and> br_started s = br_started b"
  have "keeps ?I (\<lambda>s. s\<lparr>br_instances := browse_cb reply (br_instances s)\<rparr>)" if "reply \<in> set (fd_calls (fst p))" for reply
    using browse_call_inv [OF _ r that] by (simp add: keeps_def)
  moreover have "keeps ?I (answer_at i reply)"
    if q: "(i, q) \<in> set (List.enumerate 0 (br_resolves b))" and reply: "reply \<in> set (fd_calls (snd p (rv_op q)))" for i q reply
    unfolding keeps_def
  proof (intro allI impI)
    fix s assume s: "?I s"
    from q have i: "i < length (br_resolves b)" "q = br_resolves b ! i" by (auto simp: in_set_enumerate_eq)
    have "br_started b ! i = rv_op q" "length (br_resolves s) = length (br_resolves b)"
      using b s i by (metis browse_inv_def nth_map) (metis b browse_inv_def length_map s)
    with i s have op: "br_started s ! i = rv_op q" and len: "i < length (br_resolves s)" by simp_all
    have "answered R (br_started s ! i) x" if "resolve_cb reply None = Some x" for x
      unfolding answered_def op using that reply r by blast
    from answer_at_inv [OF _ len this] s show "?I (answer_at i reply s)" by auto
  qed
  ultimately show ?thesis by (auto simp: browse_fds_def on_fd_def list_all_iff)
qed

lemma poll_browse_inv:
  assumes "browse_inv R b" "r \<in> set R"
    and "poll_and_process deadline (rd_now r) (rd_poll r) (browse_fds b) b = (q, b')"
  shows "browse_inv R b'"
  using poll_inv [of "rd_poll r" deadline "rd_now r" "\<lambda>s. browse_inv R s \<and> br_started s = br_started b" "browse_fds b" b]
    browse_fds_inv [OF assms(1,2)] assms by simp

lemma pump_sound:
  "browse_pump deadline rounds b = Some (Inr answers, b', rounds') \<Longrightarrow> browse_inv R b \<Longrightarrow> set rounds \<subseteq> set R \<Longrightarrow>
     browse_inv R b' \<and> set rounds' \<subseteq> set R \<and> (\<forall>a \<in> set answers. from_daemon R a)"
proof (induction deadline rounds b rule: browse_pump.induct)
  case (2 deadline r rs b)
  obtain as b1 where t: "take_answers (start_new_resolves (rd_resolve r) b) = (as, b1)" by fastforce
  note inv = take_answers_inv [OF start_new_resolves_inv [OF 2(3)] t]
  show ?case
  proof (cases "as = []")
    case False
    with 2(2,4) t inv show ?thesis by auto
  next
    case True
    obtain q b2 where q: "poll_and_process deadline (rd_now r) (rd_poll r) (browse_fds b1) b1 = (q, b2)" by fastforce
    have i2: "browse_inv R b2" using poll_browse_inv [OF inv(1) _ q] 2(4) by auto
    show ?thesis
    proof (cases "q = Inr True")
      case True
      with 2 t \<open>as = []\<close> q i2 show ?thesis by (auto split: sum.splits)
    next
      case False
      with 2(2,4) t \<open>as = []\<close> q i2 show ?thesis by (auto split: sum.splits bool.splits)
    qed
  qed
qed simp

lemma judge_SomeD:
  "judge decode answers = Some (payload, a) \<Longrightarrow> a \<in> set answers \<and> decode (an_instance a) (an_content a) = Some payload"
  by (auto simp: judge_def dest!: find_map_SomeD)

lemma browse_loop_sound:
  "browse_loop decode deadline rounds b = Some (Inr (Some (payload, a))) \<Longrightarrow> browse_inv R b \<Longrightarrow> set rounds \<subseteq> set R \<Longrightarrow>
     from_daemon R a \<and> decode (an_instance a) (an_content a) = Some payload"
proof (induction decode deadline rounds b rule: browse_loop.induct)
  case (1 decode deadline rounds b)
  from 1(2) obtain answers b' rounds' where p: "browse_pump deadline rounds b = Some (Inr answers, b', rounds')" "answers \<noteq> []"
    by (subst (asm) browse_loop.simps) (auto split: option.splits sum.splits if_splits)
  note s = pump_sound [OF p(1) 1(3,4)]
  show ?case
  proof (cases "judge decode answers")
    case None
    with 1(2) p have "browse_loop decode deadline rounds' b' = Some (Inr (Some (payload, a)))"
      by (subst (asm) browse_loop.simps) simp
    from 1(1) [OF p(1) refl refl refl p(2) None this] s show ?thesis by blast
  next
    case (Some hit)
    with 1(2) p have "hit = (payload, a)" by (subst (asm) browse_loop.simps) simp
    with Some s judge_SomeD [of decode answers payload a] show ?thesis by auto
  qed
qed

section \<open>Addresses\<close>

definition addr_heard :: "addr_round list \<Rightarrow> ip_addr \<Rightarrow> bool" where
  "addr_heard R ip \<longleftrightarrow>
     (\<exists>r \<in> set R. \<exists>t f reply. rd_poll r t = Ready f \<and> reply \<in> set (fd_calls f) \<and> ip \<in> set (reply_ips reply))"

lemma addr_cb_ips: "ao_ips (addr_cb reply a) = ao_ips a @ reply_ips reply"
  by (simp add: addr_cb_def Let_def)

lemma poll_addr_heard:
  assumes "r \<in> set R" "\<forall>ip \<in> set (ao_ips a). addr_heard R ip"
    and "poll_and_process w (rd_now r) (rd_poll r) (\<lambda>f. [on_fd addr_cb f]) a = (q, a')"
  shows "\<forall>ip \<in> set (ao_ips a'). addr_heard R ip"
proof -
  let ?I = "\<lambda>a. \<forall>ip \<in> set (ao_ips a). addr_heard R ip"
  have "list_all (keeps ?I) (fd_calls (on_fd addr_cb f))"
    if "rd_poll r (poll_timeout_ms w (rd_now r)) = Ready f" for f
  proof -
    have "addr_heard R ip" if "reply \<in> set (fd_calls f)" "ip \<in> set (reply_ips reply)" for reply ip
      using \<open>rd_poll r (poll_timeout_ms w (rd_now r)) = Ready f\<close> that assms(1) unfolding addr_heard_def by blast
    then show ?thesis by (auto simp: on_fd_def list_all_iff keeps_def addr_cb_ips)
  qed
  then have "?I (snd (poll_and_process w (rd_now r) (rd_poll r) (\<lambda>f. [on_fd addr_cb f]) a))"
    by (intro poll_inv [where I = ?I] assms(2)) simp
  with assms(3) show ?thesis by simp
qed

lemma addr_loop_stop:
  "ao_done a \<and> ao_ips a \<noteq> [] \<Longrightarrow> addr_loop w rounds a = Some (Inr (ao_ips a))"
  by (subst addr_loop.simps) simp

lemma addr_loop_Nil: "\<not> (ao_done a \<and> ao_ips a \<noteq> []) \<Longrightarrow> addr_loop w [] a = None"
  by (subst addr_loop.simps) simp

lemma addr_loop_Cons:
  "\<not> (ao_done a \<and> ao_ips a \<noteq> []) \<Longrightarrow>
   poll_and_process w (rd_now r) (rd_poll r) (\<lambda>f. [on_fd addr_cb f]) a = (q, a') \<Longrightarrow>
   addr_loop w (r # rs) a =
     (case q of
        Inl e \<Rightarrow> Some (Inl e)
      | Inr more_rounds \<Rightarrow>
          (if more_rounds then addr_loop (if ao_ips a' \<noteq> [] then min w (rd_after r + ADDR_GRACE) else w) rs a'
           else Some (Inr (ao_ips a'))))"
  by (subst addr_loop.simps, cases q) (simp_all only: if_False list.case prod.case sum.case split: bool.split, simp_all)

lemma addr_loop_heard:
  "addr_loop w rounds a = Some (Inr ips) \<Longrightarrow> set rounds \<subseteq> set R \<Longrightarrow> \<forall>ip \<in> set (ao_ips a). addr_heard R ip \<Longrightarrow>
     \<forall>ip \<in> set ips. addr_heard R ip"
proof (induction rounds arbitrary: w a)
  case Nil
  then show ?case by (cases "ao_done a \<and> ao_ips a \<noteq> []") (simp_all add: addr_loop_stop addr_loop_Nil)
next
  case (Cons r rs)
  obtain q a' where q: "poll_and_process w (rd_now r) (rd_poll r) (\<lambda>f. [on_fd addr_cb f]) a = (q, a')" by fastforce
  show ?case
  proof (cases "ao_done a \<and> ao_ips a \<noteq> []")
    case True
    with Cons.prems show ?thesis by (simp add: addr_loop_stop)
  next
    case False
    have a': "\<forall>ip \<in> set (ao_ips a'). addr_heard R ip"
      using poll_addr_heard [OF _ Cons.prems(3) q] Cons.prems(2) by simp
    with Cons.prems(1,2) addr_loop_Cons [OF False q, of rs] Cons.IH [of _ a'] show ?thesis
      by (auto split: sum.splits if_splits)
  qed
qed

text \<open>
  Nothing is made up: a hit is one record the daemon reported, with the addresses it added for that
  record's target.
\<close>

lemma bonjour_sound:
  assumes "bonjour_lookup E st decode = Some (Inr (Some f))"
  shows "\<exists>a ips. from_daemon (le_rounds E) a \<and> decode (an_instance a) (an_content a) = Some (lf_payload f)
     \<and> lf_addrs f = assemble_addrs ips (an_port a) (an_port6 a) \<and> lf_addrs f \<noteq> []
     \<and> (\<forall>ip \<in> set ips. addr_heard (le_addr_rounds E (an_host a)) ip)"
proof -
  from assms obtain b payload a ips where
    b: "browse_start E st = Inr b" and
    l: "browse_loop decode (le_now E + LOOKUP_TIMEOUT_NS - ADDR_RESERVE) (le_rounds E) b = Some (Inr (Some (payload, a)))" and
    ips: "resolve_addresses E (an_host a) (le_now E + LOOKUP_TIMEOUT_NS) = Some (Inr ips)" and
    f: "f = \<lparr>lf_payload = payload, lf_addrs = assemble_addrs ips (an_port a) (an_port6 a)\<rparr>" "lf_addrs f \<noteq> []"
    by (auto simp: bonjour_lookup_def Let_def split: sum.splits option.splits if_splits)
  from b have "browse_inv (le_rounds E) b"
    by (auto simp: browse_start_def browse_inv_def split: sum.splits if_splits)
  from browse_loop_sound [OF l this] have a: "from_daemon (le_rounds E) a" "decode (an_instance a) (an_content a) = Some payload"
    by simp_all
  from ips have "\<forall>ip \<in> set ips. addr_heard (le_addr_rounds E (an_host a)) ip"
    by (auto simp: resolve_addresses_def split: if_splits dest: addr_loop_heard)
  with a f show ?thesis by auto
qed

section \<open>Ends\<close>

text \<open>Once the clock is past the deadline, a pump returns: no round after that one is used.\<close>

lemma pump_ends:
  assumes "r \<in> set rounds" "deadline < rd_now r"
  shows "\<exists>q b' rounds'. browse_pump deadline rounds b = Some (q, b', rounds')
    \<and> (\<forall>answers. q = Inr answers \<longrightarrow> answers \<noteq> [] \<longrightarrow> r \<in> set rounds')"
  using assms(1)
proof (induction rounds arbitrary: b)
  case (Cons x rounds)
  obtain as b1 where t: "take_answers (start_new_resolves (rd_resolve x) b) = (as, b1)" by fastforce
  obtain q b2 where q: "poll_and_process deadline (rd_now x) (rd_poll x) (browse_fds b1) b1 = (q, b2)" by fastforce
  show ?case
  proof (cases "as \<noteq> [] \<or> q \<noteq> Inr True")
    case True
    with t q Cons.prems show ?thesis by (auto split: sum.split bool.split)
  next
    case False
    with q have "\<not> deadline < rd_now x" by (auto simp: poll_and_process_def)
    with assms(2) Cons.prems have "r \<in> set rounds" by auto
    from Cons.IH [OF this, of b2] False t q show ?thesis by simp
  qed
qed simp

lemma browse_loop_ends:
  "r \<in> set rounds \<Longrightarrow> deadline < rd_now r \<Longrightarrow> browse_loop decode deadline rounds b \<noteq> None"
proof (induction decode deadline rounds b rule: browse_loop.induct)
  case (1 decode deadline rounds b)
  obtain q b' rounds' where p: "browse_pump deadline rounds b = Some (q, b', rounds')"
    "\<And>answers. q = Inr answers \<Longrightarrow> answers \<noteq> [] \<Longrightarrow> r \<in> set rounds'"
    using pump_ends [OF 1(2,3)] by blast
  show ?case
  proof (cases "\<exists>answers. q = Inr answers \<and> answers \<noteq> [] \<and> judge decode answers = None")
    case True
    then obtain answers where a: "q = Inr answers" "answers \<noteq> []" "judge decode answers = None" by blast
    from 1(1) [OF p(1) refl a(1) refl a(2,3) p(2) [OF a(1,2)] 1(3)] p(1) a show ?thesis
      by (subst browse_loop.simps) simp
  next
    case False
    with p(1) show ?thesis by (subst browse_loop.simps) (auto split: sum.split option.split)
  qed
qed

lemma addr_loop_ends:
  "r \<in> set rounds \<Longrightarrow> w < rd_now r \<Longrightarrow> addr_loop w rounds a \<noteq> None"
proof (induction rounds arbitrary: w a)
  case (Cons x rounds)
  obtain q a' where q: "poll_and_process w (rd_now x) (rd_poll x) (\<lambda>f. [on_fd addr_cb f]) a = (q, a')" by fastforce
  show ?case
  proof (cases "ao_done a \<and> ao_ips a \<noteq> [] \<or> q \<noteq> Inr True")
    case True
    with addr_loop_stop addr_loop_Cons [OF _ q, of rounds] show ?thesis
      by (cases "ao_done a \<and> ao_ips a \<noteq> []") (auto split: sum.split)
  next
    case False
    with q have "\<not> w < rd_now x" by (auto simp: poll_and_process_def)
    with Cons.prems have "r \<in> set rounds" by auto
    moreover have "min w v < rd_now r" for v using Cons.prems(2) by simp
    ultimately have "addr_loop (if ao_ips a' \<noteq> [] then min w (rd_after x + ADDR_GRACE) else w) rounds a' \<noteq> None"
      using Cons.IH Cons.prems(2) by simp
    with False addr_loop_Cons [OF _ q, of rounds] show ?thesis by auto
  qed
qed simp

section \<open>A healthy daemon\<close>

definition healthy_fd :: "'f fd_state \<Rightarrow> bool" where
  "healthy_fd f \<longleftrightarrow> \<not> fd_dead f \<and> fd_result f = 0"

definition poll_at :: "nat \<Rightarrow> ('p, 'x) poll_round_scheme \<Rightarrow> 'p poll_outcome" where
  "poll_at deadline r = rd_poll r (poll_timeout_ms deadline (rd_now r))"

definition healthy :: "nat \<Rightarrow> browse_round \<Rightarrow> bool" where
  "healthy deadline r \<longleftrightarrow>
     rd_now r \<le> deadline
     \<and> (case poll_at deadline r of
          Interrupted \<Rightarrow> True
        | Ready p \<Rightarrow> healthy_fd (fst p) \<and> (\<forall>name. healthy_fd (snd p name))
        | _ \<Rightarrow> False)"

definition run_fd :: "('s \<Rightarrow> 's) fd_state \<Rightarrow> 's \<Rightarrow> 's" where
  "run_fd f s = (if fd_in f then fold (\<lambda>run. run) (fd_calls f) s else s)"

lemma process_healthy:
  "list_all healthy_fd fs \<Longrightarrow> process_fds fs s = (Inr True, fold run_fd fs s)"
  by (induction fs arbitrary: s) (simp_all add: healthy_fd_def run_fd_def Let_def)

lemma fold_map_run: "fold (\<lambda>run. run) (map cb calls) s = fold cb calls s"
  by (induction calls arbitrary: s) simp_all

text \<open>What one round of healthy polling does to the browse: every readable descriptor runs its callbacks.\<close>

definition absorb :: "browse_poll \<Rightarrow> browse \<Rightarrow> browse" where
  "absorb p b =
     b\<lparr>br_instances := (if fd_in (fst p) then fold browse_cb (fd_calls (fst p)) (br_instances b) else br_instances b),
       br_resolves := map (\<lambda>r. if fd_in (snd p (rv_op r))
           then r\<lparr>rv_answer := fold resolve_cb (fd_calls (snd p (rv_op r))) (rv_answer r)\<rparr> else r) (br_resolves b)\<rparr>"

lemma fold_browse_calls:
  "fold (\<lambda>reply s. s\<lparr>br_instances := browse_cb reply (br_instances s)\<rparr>) calls b
     = b\<lparr>br_instances := fold browse_cb calls (br_instances b)\<rparr>"
  by (induction calls arbitrary: b) simp_all

lemma fold_answer_at:
  "br_resolves s = pre @ r # post \<Longrightarrow>
     fold (answer_at (length pre)) calls s
       = s\<lparr>br_resolves := pre @ r\<lparr>rv_answer := fold resolve_cb calls (rv_answer r)\<rparr> # post\<rparr>"
  by (induction calls arbitrary: s r) (simp_all add: answer_at_def)

lemma fold_resolve_fds:
  "br_resolves s = pre @ rs \<Longrightarrow>
     fold run_fd (map (\<lambda>(i, r). on_fd (answer_at i) (p (rv_op r))) (List.enumerate (length pre) rs)) s
       = s\<lparr>br_resolves := pre @ map (\<lambda>r. if fd_in (p (rv_op r))
           then r\<lparr>rv_answer := fold resolve_cb (fd_calls (p (rv_op r))) (rv_answer r)\<rparr> else r) rs\<rparr>"
proof (induction rs arbitrary: s pre)
  case (Cons r rs)
  let ?r = "if fd_in (p (rv_op r)) then r\<lparr>rv_answer := fold resolve_cb (fd_calls (p (rv_op r))) (rv_answer r)\<rparr> else r"
  have r: "run_fd (on_fd (answer_at (length pre)) (p (rv_op r))) s = s\<lparr>br_resolves := pre @ ?r # rs\<rparr>"
    using fold_answer_at [OF Cons.prems] Cons.prems by (simp add: run_fd_def on_fd_def fold_map_run)
  show ?case
    using Cons.IH [of "s\<lparr>br_resolves := pre @ ?r # rs\<rparr>" "pre @ [?r]"] r by simp
qed simp

lemma poll_healthy:
  assumes "healthy deadline r"
  shows "poll_and_process deadline (rd_now r) (rd_poll r) (browse_fds b) b
    = (Inr True, case poll_at deadline r of Ready p \<Rightarrow> absorb p b | _ \<Rightarrow> b)"
proof (cases "poll_at deadline r")
  case (Ready p)
  with assms have h: "list_all healthy_fd (browse_fds b p)"
    by (auto simp: healthy_def browse_fds_def list_all_iff healthy_fd_def on_fd_def)
  let ?b = "run_fd (on_fd (\<lambda>reply s. s\<lparr>br_instances := browse_cb reply (br_instances s)\<rparr>) (fst p)) b"
  have "fold run_fd (browse_fds b p) b = absorb p b"
    using fold_resolve_fds [of ?b "[]" "br_resolves b" "snd p"]
    by (simp add: browse_fds_def run_fd_def on_fd_def fold_map_run fold_browse_calls absorb_def)
  with Ready assms show ?thesis
    by (simp add: poll_and_process_def healthy_def poll_at_def process_healthy [OF h])
qed (use assms in \<open>simp_all add: healthy_def poll_at_def poll_and_process_def\<close>)

lemma fold_browse_cb: "set (fold browse_cb calls is) = set is \<union> (\<Union>reply \<in> set calls. set (browse_cb reply []))"
proof (induction calls arbitrary: "is")
  case (Cons reply calls)
  then show ?case by (simp add: browse_cb_cases [of reply "is"] Un_assoc)
qed simp

lemma fold_resolve_cb:
  "calls \<noteq> [] \<Longrightarrow> \<forall>reply \<in> set calls. \<exists>a. resolve_cb reply None = Some a \<and> ok a \<Longrightarrow>
     \<exists>a. fold resolve_cb calls x = Some a \<and> ok a"
proof (induction calls arbitrary: x rule: rev_induct)
  case (snoc reply calls)
  then obtain a where a: "resolve_cb reply None = Some a" "ok a" by auto
  have "resolve_cb reply y = Some a" for y using resolve_cb_cases [of reply y] a by simp
  with a show ?case by simp
qed simp

section \<open>Found\<close>

definition adds :: "nat \<Rightarrow> bytes \<Rightarrow> browse_round \<Rightarrow> bool" where
  "adds deadline name r \<longleftrightarrow>
     (\<exists>p reply i. poll_at deadline r = Ready p \<and> fd_in (fst p) \<and> reply \<in> set (fd_calls (fst p))
        \<and> browse_cb reply [] = [i] \<and> fst i = name)"

definition answers_with :: "nat \<Rightarrow> (resolved_txt \<Rightarrow> bool) \<Rightarrow> bytes \<Rightarrow> browse_round \<Rightarrow> bool" where
  "answers_with deadline ok name r \<longleftrightarrow>
     (\<exists>p. poll_at deadline r = Ready p \<and> fd_in (snd p name) \<and> fd_calls (snd p name) \<noteq> []
        \<and> (\<forall>reply \<in> set (fd_calls (snd p name)). \<exists>a. resolve_cb reply None = Some a \<and> ok a))"

definition known :: "bytes \<Rightarrow> browse \<Rightarrow> bool" where
  "known name b \<longleftrightarrow> name \<in> fst ` set (br_instances b) \<or> name \<in> set (br_started b)"

definition ready :: "(resolved_txt \<Rightarrow> bool) \<Rightarrow> bytes \<Rightarrow> browse \<Rightarrow> bool" where
  "ready ok name b \<longleftrightarrow> (\<exists>r \<in> set (br_resolves b). rv_op r = name \<and> (\<exists>a. rv_answer r = Some a \<and> ok a))"

text \<open>The stages of a browse that is going to succeed: to be reported, reported, answered.\<close>

fun will_answer :: "nat \<Rightarrow> (resolved_txt \<Rightarrow> bool) \<Rightarrow> bytes \<Rightarrow> browse_round list \<Rightarrow> bool" where
  "will_answer deadline ok name [] = False"
| "will_answer deadline ok name (r # rs) =
     (answers_with deadline ok name r \<and> rs \<noteq> [] \<or> will_answer deadline ok name rs)"

fun will_add :: "nat \<Rightarrow> (resolved_txt \<Rightarrow> bool) \<Rightarrow> bytes \<Rightarrow> browse_round list \<Rightarrow> bool" where
  "will_add deadline ok name [] = False"
| "will_add deadline ok name (r # rs) =
     (adds deadline name r \<and> will_answer deadline ok name rs \<or> will_add deadline ok name rs)"

definition serves :: "nat \<Rightarrow> bytes \<Rightarrow> browse_round list \<Rightarrow> bool" where
  "serves deadline name rounds \<longleftrightarrow> (\<forall>r \<in> set rounds. healthy deadline r \<and> (\<forall>i. fst i = name \<longrightarrow> rd_resolve r i = 0))"

definition lookup_stage :: "nat \<Rightarrow> (resolved_txt \<Rightarrow> bool) \<Rightarrow> bytes \<Rightarrow> browse_round list \<Rightarrow> browse \<Rightarrow> bool" where
  "lookup_stage deadline ok name rounds b \<longleftrightarrow>
     serves deadline name rounds
     \<and> (will_add deadline ok name rounds \<or> known name b \<and> will_answer deadline ok name rounds \<or> ready ok name b \<and> rounds \<noteq> [])"

lemma start_resolve_started:
  "set (br_started b) \<subseteq> set (br_started (start_resolve call i b))"
  "fst i = name \<Longrightarrow> utf8_decode name = Some s \<Longrightarrow> call i = 0 \<Longrightarrow> name \<in> set (br_started (start_resolve call i b))"
  by (auto simp: start_resolve_def split: prod.split option.split)

lemma start_resolves_started:
  "set (br_started b) \<subseteq> set (br_started (fold (start_resolve call) is b))"
  using start_resolve_started(1) by (induction "is" arbitrary: b) (simp, simp, blast)

lemma start_known:
  assumes "known name b" "utf8_decode name = Some s" "\<forall>i. fst i = name \<longrightarrow> call i = 0"
  shows "name \<in> set (br_started (start_new_resolves call b))"
proof -
  have "name \<in> set (br_started (fold (start_resolve call) is b'))"
    if "name \<in> fst ` set is \<or> name \<in> set (br_started b')" for "is" b'
    using that
  proof (induction "is" arbitrary: b')
    case (Cons i "is")
    have "name \<in> fst ` set is \<or> name \<in> set (br_started (start_resolve call i b'))"
      using Cons.prems start_resolve_started(1) [of b' call i]
        start_resolve_started(2) [of i name s call b'] assms(2,3) by auto
    from Cons.IH [OF this] show ?case by simp
  qed simp
  with assms(1) show ?thesis by (simp add: known_def start_new_resolves_def)
qed

lemma start_ready: "ready ok name (start_new_resolves call b) = ready ok name b"
proof -
  have "ready ok name (start_resolve call i b') = ready ok name b'" for i b'
    by (auto simp: start_resolve_def ready_def split: prod.split option.split)
  then have "ready ok name (fold (start_resolve call) is b') = ready ok name b'" for "is" b'
    by (induction "is" arbitrary: b') simp_all
  then show ?thesis by (simp add: start_new_resolves_def) (simp add: ready_def)
qed

definition accepts_txt :: "(ustring \<Rightarrow> ustring \<Rightarrow> 'p option) \<Rightarrow> ustring \<Rightarrow> resolved_txt \<Rightarrow> bool" where
  "accepts_txt decode inst a \<longleftrightarrow>
     (case a of (host, port, attrs) \<Rightarrow>
        (case attrs TXT_KEY of None \<Rightarrow> False | Some content \<Rightarrow> decode inst content \<noteq> None))"

lemma ready_taken:
  assumes "browse_inv R b" "ready (accepts_txt decode (make_ascii_lowercase s)) name b" "utf8_decode name = Some s"
    and "take_answers b = (answers, b')"
  shows "\<exists>a \<in> set answers. decode (an_instance a) (an_content a) \<noteq> None"
proof -
  from assms(2) obtain r a where r: "r \<in> set (br_resolves b)" "rv_op r = name" "rv_answer r = Some a"
    "accepts_txt decode (make_ascii_lowercase s) a" by (auto simp: ready_def)
  from assms(1) r(1) have "resolve_ok R r" by (simp add: browse_inv_def)
  with r(2) assms(3) have "rv_instance r = make_ascii_lowercase s" by (auto simp: resolve_ok_def)
  with r(3,4) obtain x where "to_answer r = Some x" "decode (an_instance x) (an_content x) \<noteq> None"
    by (cases a) (auto simp: to_answer_def accepts_txt_def split: option.splits)
  with r(1) assms(4) show ?thesis by (force simp: take_answers_def map_filter_set)
qed

lemma absorb_known: "known name b \<Longrightarrow> known name (absorb p b)"
  using fold_browse_cb [of "fd_calls (fst p)" "br_instances b"] by (auto simp: known_def absorb_def)

lemma absorb_adds:
  assumes "adds deadline name r" "poll_at deadline r = Ready p"
  shows "known name (absorb p b)"
proof -
  from assms obtain reply i where "fd_in (fst p)" "reply \<in> set (fd_calls (fst p))" "browse_cb reply [] = [i]" "fst i = name"
    by (auto simp: adds_def)
  moreover from this have "i \<in> set (fold browse_cb (fd_calls (fst p)) (br_instances b))"
    by (force simp: fold_browse_cb)
  ultimately show ?thesis by (auto simp: known_def absorb_def)
qed

lemma absorb_answers:
  assumes "answers_with deadline ok name r" "poll_at deadline r = Ready p" "browse_inv R b" "name \<in> set (br_started b)"
  shows "ready ok name (absorb p b)"
proof -
  from assms(1,2) have p: "fd_in (snd p name)" "fd_calls (snd p name) \<noteq> []"
    "\<forall>reply \<in> set (fd_calls (snd p name)). \<exists>a. resolve_cb reply None = Some a \<and> ok a"
    by (simp_all add: answers_with_def)
  from assms(3,4) obtain q where q: "q \<in> set (br_resolves b)" "rv_op q = name"
    unfolding browse_inv_def by (metis imageE list.set_map)
  let ?q = "q\<lparr>rv_answer := fold resolve_cb (fd_calls (snd p name)) (rv_answer q)\<rparr>"
  have "?q \<in> set (br_resolves (absorb p b))" using q p(1) by (force simp: absorb_def)
  moreover have "rv_op ?q = name" using q by simp
  moreover obtain a where "rv_answer ?q = Some a" "ok a"
    using fold_resolve_cb [OF p(2,3), of "rv_answer q"] by auto
  ultimately show ?thesis unfolding ready_def by blast
qed

lemma stage_step:
  assumes "lookup_stage deadline ok name (r # rs) b" "\<not> ready ok name b" "browse_inv R b1"
    and "known name b \<Longrightarrow> name \<in> set (br_started b1)"
  shows "lookup_stage deadline ok name rs (case poll_at deadline r of Ready p \<Rightarrow> absorb p b1 | _ \<Rightarrow> b1)"
proof -
  let ?b2 = "case poll_at deadline r of Ready p \<Rightarrow> absorb p b1 | _ \<Rightarrow> b1"
  have keep: "known name ?b2" if "known name b"
    using assms(4) [OF that] absorb_known [of name b1] by (simp add: known_def split: poll_outcome.split)
  have new: "known name ?b2" if "adds deadline name r"
  proof -
    from that obtain q where "poll_at deadline r = Ready q" by (auto simp: adds_def)
    with absorb_adds [OF that this] show ?thesis by simp
  qed
  have got: "ready ok name ?b2" if "known name b" "answers_with deadline ok name r"
  proof -
    from that obtain q where "poll_at deadline r = Ready q" by (auto simp: answers_with_def)
    with absorb_answers [OF that(2) this assms(3) assms(4) [OF that(1)]] show ?thesis by simp
  qed
  from assms(1,2) keep new got show ?thesis by (auto simp: lookup_stage_def serves_def)
qed

lemma pump_finds:
  assumes "utf8_decode name = Some s" and ok: "ok = accepts_txt decode (make_ascii_lowercase s)"
  shows "lookup_stage deadline ok name rounds b \<Longrightarrow> browse_inv R b \<Longrightarrow> set rounds \<subseteq> set R \<Longrightarrow>
     \<exists>answers b' rounds'. browse_pump deadline rounds b = Some (Inr answers, b', rounds') \<and> answers \<noteq> []
       \<and> ((\<exists>a \<in> set answers. decode (an_instance a) (an_content a) \<noteq> None) \<or> lookup_stage deadline ok name rounds' b')"
proof (induction rounds arbitrary: b)
  case Nil
  then show ?case by (simp add: lookup_stage_def)
next
  case (Cons r rs)
  obtain as b1 where t: "take_answers (start_new_resolves (rd_resolve r) b) = (as, b1)" by fastforce
  have inv: "browse_inv R (start_new_resolves (rd_resolve r) b)" by (rule start_new_resolves_inv [OF Cons.prems(2)])
  have srv: "healthy deadline r" "\<forall>i. fst i = name \<longrightarrow> rd_resolve r i = 0"
    using Cons.prems(1) by (simp_all add: lookup_stage_def serves_def)
  have started: "name \<in> set (br_started b1)" if "known name b"
    using start_known [OF that assms(1) srv(2)] take_answers_frame(4) [OF t] by simp
  have taken: "\<exists>a \<in> set as. decode (an_instance a) (an_content a) \<noteq> None" if "ready ok name b"
    using that ready_taken [OF inv _ assms(1) t] by (simp add: start_ready ok)
  show ?case
  proof (cases "as = []")
    case False
    have "lookup_stage deadline ok name (r # rs) b1" if "\<not> ready ok name b"
      using Cons.prems(1) that started by (auto simp: lookup_stage_def known_def)
    with False t taken show ?thesis by auto
  next
    case True
    let ?b2 = "case poll_at deadline r of Ready p \<Rightarrow> absorb p b1 | _ \<Rightarrow> b1"
    have q: "poll_and_process deadline (rd_now r) (rd_poll r) (browse_fds b1) b1 = (Inr True, ?b2)"
      by (rule poll_healthy [OF srv(1)])
    have inv1: "browse_inv R b1" by (rule take_answers_inv [OF inv t])
    have inv2: "browse_inv R ?b2" using poll_browse_inv [OF inv1 _ q] Cons.prems(3) by simp
    have "lookup_stage deadline ok name rs ?b2"
      using stage_step [OF Cons.prems(1) _ inv1 started] taken True by auto
    from Cons.IH [OF this inv2] Cons.prems(3) t True q show ?thesis by simp
  qed
qed

lemma browse_loop_finds:
  assumes "utf8_decode name = Some s" and ok: "ok = accepts_txt decode (make_ascii_lowercase s)"
  shows "lookup_stage deadline ok name rounds b \<Longrightarrow> browse_inv R b \<Longrightarrow> set rounds \<subseteq> set R \<Longrightarrow>
     \<exists>hit. browse_loop decode deadline rounds b = Some (Inr (Some hit))"
  using ok
proof (induction decode deadline rounds b rule: browse_loop.induct)
  case (1 decode deadline rounds b)
  obtain answers b' rounds' where p: "browse_pump deadline rounds b = Some (Inr answers, b', rounds')" "answers \<noteq> []"
    and h: "(\<exists>a \<in> set answers. decode (an_instance a) (an_content a) \<noteq> None) \<or> lookup_stage deadline ok name rounds' b'"
    using pump_finds [OF assms(1) 1(5) 1(2,3,4)] by blast
  show ?case
  proof (cases "judge decode answers")
    case (Some hit)
    with p show ?thesis by (subst browse_loop.simps) simp
  next
    case None
    then have "lookup_stage deadline ok name rounds' b'" using h by (auto simp: judge_def find_map_None)
    from 1(1) [OF p(1) refl refl refl p(2) None this _ _ 1(5)] pump_sound [OF p(1) 1(3,4)]
    have "\<exists>hit. browse_loop decode deadline rounds' b' = Some (Inr (Some hit))" by blast
    with p None show ?thesis by (subst browse_loop.simps) simp
  qed
qed

end
