(* ===== verification/Discovery.thy ===== *)
theory Discovery
  imports BonjourLookup
begin

text \<open>
  Discovery on the local network, whichever backend is compiled in: the contract both backends of
  \<open>duocb-core/src/lan/dnssd.rs\<close> keep, the record lookups of \<open>lan/mod.rs\<close> over the iOS half, and an
  iOS host found by an iOS peer.
\<close>

section \<open>The contract of a backend\<close>

lemma assembled:
  assumes "a \<in> set (assemble_addrs l port port6)"
  shows "sa_ip a \<in> set l" "sa_ip a = V6 segs \<Longrightarrow> \<not> v6_link_local segs"
proof -
  from assms obtain ip where "ip \<in> set l" "(case ip of V4 _ \<Rightarrow> Some \<lparr>sa_ip = ip, sa_port = port\<rparr>
      | V6 segments \<Rightarrow> (if v6_link_local segments then None
          else Some \<lparr>sa_ip = ip, sa_port = (case port6 of Some p \<Rightarrow> p | None \<Rightarrow> port)\<rparr>)) = Some a"
    unfolding assemble_addrs_def map_filter_set by auto
  then have "ip = sa_ip a" "\<And>s. ip = V6 s \<Longrightarrow> \<not> v6_link_local s" by (auto split: ip_addr.splits if_splits)
  with \<open>ip \<in> set l\<close> show "sa_ip a \<in> set l" "sa_ip a = V6 segs \<Longrightarrow> \<not> v6_link_local segs" by auto
qed

text \<open>
  \<open>reports env service_type label content port port6 ips\<close>: the network showed a record of that label
  and content, with these ports, and no other addresses than \<open>ips\<close>.
\<close>

locale dnssd_backend =
  fixes finds :: "'env \<Rightarrow> ustring \<Rightarrow> (ustring \<Rightarrow> ustring \<Rightarrow> 'p option) \<Rightarrow> 'p lan_found \<Rightarrow> bool"
    and reports :: "'env \<Rightarrow> ustring \<Rightarrow> ustring \<Rightarrow> ustring \<Rightarrow> u16 \<Rightarrow> u16 option \<Rightarrow> ip_addr set \<Rightarrow> bool"
  assumes sound: "finds env st decode f \<Longrightarrow>
    \<exists>inst content port port6 ips l. reports env st inst content port port6 ips
      \<and> decode inst content = Some (lf_payload f) \<and> set l \<subseteq> ips \<and> lf_addrs f = assemble_addrs l port port6"
begin

lemma never_link_local:
  assumes "finds env st decode f" "a \<in> set (lf_addrs f)" "sa_ip a = V6 segs"
  shows "\<not> v6_link_local segs"
  using sound [OF assms(1)] assms(2,3) assembled(2) by metis

lemma addresses_reported:
  assumes "finds env st decode f"
  shows "\<exists>inst content port port6 ips. reports env st inst content port port6 ips
    \<and> decode inst content = Some (lf_payload f) \<and> sa_ip ` set (lf_addrs f) \<subseteq> ips"
proof -
  from sound [OF assms] obtain inst content port port6 ips l where f: "reports env st inst content port port6 ips"
    "decode inst content = Some (lf_payload f)" "set l \<subseteq> ips" "lf_addrs f = assemble_addrs l port port6" by blast
  then have "sa_ip ` set (lf_addrs f) \<subseteq> ips" using assembled(1) by auto
  with f show ?thesis by blast
qed

lemma opens_only_recognised:
  assumes "finds env st (\<lambda>inst content. if inst = wanted then open_content content else None) f"
  shows "\<exists>content port port6 ips. reports env st wanted content port port6 ips
    \<and> open_content content = Some (lf_payload f) \<and> sa_ip ` set (lf_addrs f) \<subseteq> ips"
  using addresses_reported [OF assms] by (auto split: if_splits)

end

definition desktop_finds ::
    "service_event list \<Rightarrow> ustring \<Rightarrow> (ustring \<Rightarrow> ustring \<Rightarrow> 'p option) \<Rightarrow> 'p lan_found \<Rightarrow> bool" where
  "desktop_finds arrivals st decode f \<longleftrightarrow> dnssd_lookup (Some arrivals) st decode = Inr (Some f)"

definition desktop_reports ::
    "service_event list \<Rightarrow> ustring \<Rightarrow> ustring \<Rightarrow> ustring \<Rightarrow> u16 \<Rightarrow> u16 option \<Rightarrow> ip_addr set \<Rightarrow> bool" where
  "desktop_reports arrivals st inst content port port6 ips \<longleftrightarrow>
     (\<exists>r. ServiceResolved r \<in> set arrivals \<and> make_ascii_lowercase (rs_fullname r) = inst @ 46 # st
        \<and> rs_props r TXT_KEY = Some content \<and> rs_port r = port
        \<and> Option.bind (rs_props r TXT_KEY_PORT6) parse_u16 = port6 \<and> set (rs_ips r) = ips)"

definition bonjour_finds ::
    "lookup_env \<Rightarrow> ustring \<Rightarrow> (ustring \<Rightarrow> ustring \<Rightarrow> 'p option) \<Rightarrow> 'p lan_found \<Rightarrow> bool" where
  "bonjour_finds E st decode f \<longleftrightarrow> bonjour_lookup E st decode = Some (Inr (Some f))"

definition bonjour_reports ::
    "lookup_env \<Rightarrow> ustring \<Rightarrow> ustring \<Rightarrow> ustring \<Rightarrow> u16 \<Rightarrow> u16 option \<Rightarrow> ip_addr set \<Rightarrow> bool" where
  "bonjour_reports E st inst content port port6 ips \<longleftrightarrow>
     (\<exists>a. from_daemon (le_rounds E) a \<and> an_instance a = inst \<and> an_content a = content \<and> an_port a = port
        \<and> an_port6 a = port6 \<and> ips = {ip. addr_heard (le_addr_rounds E (an_host a)) ip})"

lemma dnssd_loop_SomeD:
  "dnssd_loop st decode es = Some f \<Longrightarrow> \<exists>e \<in> set es. dnssd_event st decode e = Some f"
  by (induction es) (auto split: option.splits)

interpretation in_process: dnssd_backend desktop_finds desktop_reports
proof
  fix arrivals st and decode :: "ustring \<Rightarrow> ustring \<Rightarrow> 'b option" and f
  assume "desktop_finds arrivals st decode f"
  then obtain e where "e \<in> set arrivals" "dnssd_event st decode e = Some f"
    by (auto simp: desktop_finds_def dnssd_lookup_def dest!: dnssd_loop_SomeD)
  then obtain r inst content payload where "ServiceResolved r \<in> set arrivals"
    "strip_suffix (46 # st) (make_ascii_lowercase (rs_fullname r)) = Some inst" "rs_props r TXT_KEY = Some content"
    "decode inst content = Some payload" "f = \<lparr>lf_payload = payload,
       lf_addrs = assemble_addrs (rs_ips r) (rs_port r) (Option.bind (rs_props r TXT_KEY_PORT6) parse_u16)\<rparr>"
    by (auto simp: dnssd_event_def Let_def split: service_event.splits option.splits)
  then have "desktop_reports arrivals st inst content (rs_port r) (Option.bind (rs_props r TXT_KEY_PORT6) parse_u16) (set (rs_ips r))
      \<and> decode inst content = Some (lf_payload f) \<and> set (rs_ips r) \<subseteq> set (rs_ips r)
      \<and> lf_addrs f = assemble_addrs (rs_ips r) (rs_port r) (Option.bind (rs_props r TXT_KEY_PORT6) parse_u16)"
    unfolding desktop_reports_def by (auto dest: strip_suffix_SomeD)
  then show "\<exists>inst content port port6 ips l. desktop_reports arrivals st inst content port port6 ips
      \<and> decode inst content = Some (lf_payload f) \<and> set l \<subseteq> ips \<and> lf_addrs f = assemble_addrs l port port6"
    by blast
qed

interpretation system_daemon: dnssd_backend bonjour_finds bonjour_reports
proof
  fix E st and decode :: "ustring \<Rightarrow> ustring \<Rightarrow> 'b option" and f
  assume "bonjour_finds E st decode f"
  then obtain a l where a: "from_daemon (le_rounds E) a" "decode (an_instance a) (an_content a) = Some (lf_payload f)"
    "lf_addrs f = assemble_addrs l (an_port a) (an_port6 a)" "\<forall>ip \<in> set l. addr_heard (le_addr_rounds E (an_host a)) ip"
    using bonjour_sound [of E st decode f] by (auto simp: bonjour_finds_def)
  then have "bonjour_reports E st (an_instance a) (an_content a) (an_port a) (an_port6 a)
      {ip. addr_heard (le_addr_rounds E (an_host a)) ip}"
    by (auto simp: bonjour_reports_def)
  with a show "\<exists>inst content port port6 ips l. bonjour_reports E st inst content port port6 ips
      \<and> decode inst content = Some (lf_payload f) \<and> set l \<subseteq> ips \<and> lf_addrs f = assemble_addrs l port port6"
    by blast
qed

section \<open>The record lookups over the iOS half\<close>

definition bonjour_advertise_pin_record ::
    "'z crypto_scheme \<Rightarrow> 's sealing_scheme \<Rightarrow> nat \<Rightarrow> register_env \<Rightarrow> keys \<Rightarrow> node_id
       \<Rightarrow> socket_addr list \<Rightarrow> (bonjour_error + registration) option" where
  "bonjour_advertise_pin_record C S nonce E keys node addrs =
     (case encrypt_pin_payload C S nonce keys node of
        None \<Rightarrow> Some (Inl PayloadFailed)
      | Some content \<Rightarrow> blocking_advertise E PIN_SERVICE_TYPE (pin_instance_name C keys) content addrs)"

definition bonjour_lookup_pin_record ::
    "'z crypto_scheme \<Rightarrow> 's sealing_scheme \<Rightarrow> lookup_env \<Rightarrow> keys list \<Rightarrow> (bonjour_error + node_id lan_found option) option" where
  "bonjour_lookup_pin_record C S E candidates =
     (let by_instance = fold (\<lambda>keys m. m(pin_instance_name C keys \<mapsto> keys)) candidates Map.empty
      in bonjour_lookup E PIN_SERVICE_TYPE (\<lambda>inst content.
           case by_instance inst of None \<Rightarrow> None | Some keys \<Rightarrow> decrypt_pin_payload C S keys content))"

definition bonjour_advertise_hosting ::
    "'z crypto_scheme \<Rightarrow> 's sealing_scheme \<Rightarrow> nat \<Rightarrow> register_env \<Rightarrow> identity \<Rightarrow> pubkey
       \<Rightarrow> transport_addr \<Rightarrow> socket_addr list \<Rightarrow> (bonjour_error + registration) option" where
  "bonjour_advertise_hosting C S nonce E identity peer addr addrs =
     (case hosting_encrypt S nonce identity peer addr of
        None \<Rightarrow> Some (Inl PayloadFailed)
      | Some content \<Rightarrow>
          blocking_advertise E HOSTING_SERVICE_TYPE (lan_instance C (identity_public C identity) peer) content addrs)"

definition bonjour_lookup_hosting ::
    "'z crypto_scheme \<Rightarrow> 's sealing_scheme \<Rightarrow> lookup_env \<Rightarrow> identity \<Rightarrow> pubkey
       \<Rightarrow> (bonjour_error + transport_addr lan_found option) option" where
  "bonjour_lookup_hosting C S E identity host =
     (let wanted = lan_instance C host (identity_public C identity)
      in bonjour_lookup E HOSTING_SERVICE_TYPE (\<lambda>inst content.
           if inst = wanted then hosting_decrypt S identity host content else None))"

text \<open>
  Property C31. A hosting lookup believes only what the addressed pair could have sealed, on both backends:
  the transport address it returns was opened, with this device's key and the host's, from a record the
  network reported under exactly the pair's label; the socket addresses are among those reported for that
  record, and none is an IPv6 link-local address.
\<close>

theorem hosting_lookup_sound:
  "(dnssd_lookup_hosting C S (Some es) me host = Inr (Some f) \<longrightarrow>
      (\<exists>content port port6 ips.
         desktop_reports es HOSTING_SERVICE_TYPE (lan_instance C host (identity_public C me)) content port port6 ips
         \<and> hosting_decrypt S me host content = Some (lf_payload f) \<and> sa_ip ` set (lf_addrs f) \<subseteq> ips)
      \<and> (\<forall>a \<in> set (lf_addrs f). \<forall>segs. sa_ip a = V6 segs \<longrightarrow> \<not> v6_link_local segs))
   \<and> (bonjour_lookup_hosting C S E me host = Some (Inr (Some f)) \<longrightarrow>
      (\<exists>content port port6 ips.
         bonjour_reports E HOSTING_SERVICE_TYPE (lan_instance C host (identity_public C me)) content port port6 ips
         \<and> hosting_decrypt S me host content = Some (lf_payload f) \<and> sa_ip ` set (lf_addrs f) \<subseteq> ips)
      \<and> (\<forall>a \<in> set (lf_addrs f). \<forall>segs. sa_ip a = V6 segs \<longrightarrow> \<not> v6_link_local segs))"
proof (intro conjI impI)
  assume "dnssd_lookup_hosting C S (Some es) me host = Inr (Some f)"
  then have f: "desktop_finds es HOSTING_SERVICE_TYPE
      (\<lambda>inst content. if inst = lan_instance C host (identity_public C me) then hosting_decrypt S me host content else None) f"
    by (simp add: desktop_finds_def dnssd_lookup_hosting_def Let_def)
  show "\<exists>content port port6 ips.
         desktop_reports es HOSTING_SERVICE_TYPE (lan_instance C host (identity_public C me)) content port port6 ips
         \<and> hosting_decrypt S me host content = Some (lf_payload f) \<and> sa_ip ` set (lf_addrs f) \<subseteq> ips"
    by (rule in_process.opens_only_recognised [OF f])
  show "\<forall>a \<in> set (lf_addrs f). \<forall>segs. sa_ip a = V6 segs \<longrightarrow> \<not> v6_link_local segs"
    using in_process.never_link_local [OF f] by blast
next
  assume "bonjour_lookup_hosting C S E me host = Some (Inr (Some f))"
  then have f: "bonjour_finds E HOSTING_SERVICE_TYPE
      (\<lambda>inst content. if inst = lan_instance C host (identity_public C me) then hosting_decrypt S me host content else None) f"
    by (simp add: bonjour_finds_def bonjour_lookup_hosting_def Let_def)
  show "\<exists>content port port6 ips.
         bonjour_reports E HOSTING_SERVICE_TYPE (lan_instance C host (identity_public C me)) content port port6 ips
         \<and> hosting_decrypt S me host content = Some (lf_payload f) \<and> sa_ip ` set (lf_addrs f) \<subseteq> ips"
    by (rule system_daemon.opens_only_recognised [OF f])
  show "\<forall>a \<in> set (lf_addrs f). \<forall>segs. sa_ip a = V6 segs \<longrightarrow> \<not> v6_link_local segs"
    using system_daemon.never_link_local [OF f] by blast
qed

section \<open>An iOS host found by an iOS peer\<close>

lemma swap16_swap16 [simp]: "swap16 (swap16 w) = w"
  by (rule bit_word_eqI) (auto simp: swap16_def bit_simps)

lemma cstring_new_decodes: "cstring_new s = Some n \<Longrightarrow> valid_text s \<Longrightarrow> utf8_decode n = Some s"
  by (auto simp: cstring_new_def utf8_decode_utf8 split: if_splits)

text \<open>The daemon answers a resolve for a registration with what was registered.\<close>

definition relayed :: "registration \<Rightarrow> bytes \<Rightarrow> resolved_txt \<Rightarrow> bool" where
  "relayed reg host a \<longleftrightarrow> a = (host, swap16 (rg_port reg), parse_txt (rg_txt reg))"

text \<open>
  The address phase. What a poll brings does not depend on how long it may wait, no descriptor fails, and
  only addresses of the host are added; the clock goes on, past the deadline in the end. Records arrive
  in any number of polls, and a reading says whether one of its callbacks had nothing queued behind it.
\<close>

definition ips_of :: "addr_round \<Rightarrow> ip_addr set" where
  "ips_of r = (case rd_poll r 0 of Ready f \<Rightarrow> (if fd_in f then set (concat (map reply_ips (fd_calls f))) else {}) | _ \<Rightarrow> {})"

definition says_all :: "addr_round \<Rightarrow> bool" where
  "says_all r \<longleftrightarrow>
     (case rd_poll r 0 of Ready f \<Rightarrow> fd_in f \<and> list_ex (\<lambda>reply. ap_flags reply AND MORE_COMING = 0) (fd_calls f) | _ \<Rightarrow> False)"

definition steady :: "addr_round \<Rightarrow> bool" where
  "steady r \<longleftrightarrow> (\<forall>t. rd_poll r t = rd_poll r 0)"

definition calm_poll :: "ip_addr set \<Rightarrow> addr_round \<Rightarrow> bool" where
  "calm_poll ips r \<longleftrightarrow>
     steady r \<and> rd_now r \<le> rd_after r \<and> ips_of r \<subseteq> ips
     \<and> (case rd_poll r 0 of PollError \<Rightarrow> False | Ready f \<Rightarrow> healthy_fd f | _ \<Rightarrow> True)"

definition calm :: "ip_addr set \<Rightarrow> addr_round list \<Rightarrow> bool" where
  "calm ips rounds \<longleftrightarrow> list_all (calm_poll ips) rounds \<and> sorted_wrt (\<lambda>x y. rd_after x \<le> rd_now y) rounds"

text \<open>
  A poll the phase still waits for: within the deadline, no poll before it came back empty-handed, and if
  an address came before it, then no longer ago than the grace, and nothing before it said that all was
  delivered.
\<close>

definition waited_for :: "nat \<Rightarrow> addr_round list \<Rightarrow> addr_round \<Rightarrow> bool" where
  "waited_for deadline before r \<longleftrightarrow>
     rd_now r \<le> deadline \<and> (\<forall>x \<in> set before. rd_poll x 0 \<noteq> NothingReady)
     \<and> (\<forall>x \<in> set before. ips_of x \<noteq> {} \<longrightarrow> rd_now r \<le> rd_after x + ADDR_GRACE \<and> (\<forall>y \<in> set before. \<not> says_all y))"

definition in_time :: "nat \<Rightarrow> addr_round list \<Rightarrow> ip_addr \<Rightarrow> bool" where
  "in_time deadline rounds ip \<longleftrightarrow> (\<exists>before r after. rounds = before @ r # after \<and> waited_for deadline before r \<and> ip \<in> ips_of r)"

definition daemon_relays :: "lookup_env \<Rightarrow> registration \<Rightarrow> bytes \<Rightarrow> ip_addr set \<Rightarrow> bool" where
  "daemon_relays E reg host ips \<longleftrightarrow>
     (let deadline = le_now E + LOOKUP_TIMEOUT_NS; browse_deadline = deadline - ADDR_RESERVE in
      le_browse E (rg_regtype reg, rg_domain reg) = 0
      \<and> serves browse_deadline (rg_name reg) (le_rounds E)
      \<and> will_add browse_deadline (relayed reg host) (rg_name reg) (le_rounds E)
      \<and> le_addr E host = 0 \<and> calm ips (le_addr_rounds E host)
      \<and> (\<exists>r \<in> set (le_addr_rounds E host). deadline < rd_now r)
      \<and> (\<exists>ip. in_time deadline (le_addr_rounds E host) ip))"

text \<open>Nobody else answers under the label.\<close>

definition sole_holder :: "lookup_env \<Rightarrow> registration \<Rightarrow> bytes \<Rightarrow> ustring \<Rightarrow> bool" where
  "sole_holder E reg host inst \<longleftrightarrow>
     (\<forall>name s a. answered (le_rounds E) name a \<longrightarrow> utf8_decode name = Some s \<longrightarrow> make_ascii_lowercase s = inst
        \<longrightarrow> relayed reg host a)"

lemma answers_with_mono: "(\<And>a. ok a \<Longrightarrow> ok' a) \<Longrightarrow> answers_with d ok name r \<Longrightarrow> answers_with d ok' name r"
  unfolding answers_with_def by blast

lemma will_answer_mono:
  "(\<And>a. ok a \<Longrightarrow> ok' a) \<Longrightarrow> will_answer d ok name rounds \<Longrightarrow> will_answer d ok' name rounds"
  using answers_with_mono [of ok ok'] by (induction rounds) auto

lemma will_add_mono:
  assumes "\<And>a. ok a \<Longrightarrow> ok' a"
  shows "will_add d ok name rounds \<Longrightarrow> will_add d ok' name rounds"
  using will_answer_mono [of ok ok', OF assms] by (induction rounds) auto

lemma fold_addr_cb:
  "ao_ips (fold addr_cb calls a) = ao_ips a @ concat (map reply_ips calls)
   \<and> (ao_done (fold addr_cb calls a) \<longleftrightarrow> ao_done a \<or> list_ex (\<lambda>reply. ap_flags reply AND MORE_COMING = 0) calls)"
  by (induction calls arbitrary: a) (auto simp: addr_cb_def Let_def)

text \<open>One poll of the address phase within its window.\<close>

lemma calm_poll_step:
  assumes "calm_poll ips r" "rd_now r \<le> w"
  shows "\<exists>a'. poll_and_process w (rd_now r) (rd_poll r) (\<lambda>f. [on_fd addr_cb f]) a = (Inr (rd_poll r 0 \<noteq> NothingReady), a')
     \<and> set (ao_ips a') = set (ao_ips a) \<union> ips_of r \<and> (ao_done a' \<longleftrightarrow> ao_done a \<or> says_all r)"
proof -
  have p: "rd_poll r t = rd_poll r 0" for t using assms(1) by (simp add: calm_poll_def steady_def)
  show ?thesis
  proof (cases "rd_poll r 0")
    case (Ready f)
    then have "healthy_fd f" using assms(1) by (simp add: calm_poll_def)
    then have q: "poll_and_process w (rd_now r) (rd_poll r) (\<lambda>f. [on_fd addr_cb f]) a = (Inr True, if fd_in f then fold addr_cb (fd_calls f) a else a)"
      using assms(2) Ready p [of "poll_timeout_ms w (rd_now r)"]
      by (simp add: poll_and_process_def on_fd_def healthy_fd_def fold_map_run)
    show ?thesis unfolding q using Ready by (simp add: fold_addr_cb ips_of_def says_all_def)
  qed (use assms p [of "poll_timeout_ms w (rd_now r)"] in \<open>simp_all add: poll_and_process_def ips_of_def says_all_def calm_poll_def\<close>)
qed

text \<open>
  What the phase returns: nothing but what it has and what the daemon adds, and all of what came while
  it waited.
\<close>

lemma addr_loop_collects:
  assumes "calm ips rounds" "\<exists>r \<in> set rounds. w < rd_now r"
    and "ao_ips a \<noteq> [] \<Longrightarrow> \<forall>x \<in> set rounds. w \<le> rd_after x + ADDR_GRACE"
  shows "\<exists>l. addr_loop w rounds a = Some (Inr l) \<and> set (ao_ips a) \<subseteq> set l \<and> set l \<subseteq> set (ao_ips a) \<union> ips
     \<and> (\<forall>before r after. rounds = before @ r # after \<longrightarrow> waited_for w before r
          \<longrightarrow> (ao_ips a \<noteq> [] \<longrightarrow> \<not> ao_done a \<and> (\<forall>y \<in> set before. \<not> says_all y))
          \<longrightarrow> (ao_done a \<longrightarrow> (\<forall>x \<in> set before. ips_of x = {})) \<longrightarrow> ips_of r \<subseteq> set l)"
  using assms
proof (induction rounds arbitrary: w a)
  case (Cons x rs)
  show ?case
  proof (cases "ao_done a \<and> ao_ips a \<noteq> []")
    case True
    then show ?thesis by (intro exI [of _ "ao_ips a"]) (simp add: addr_loop_stop)
  next
    case going: False
    from Cons.prems(1) have x: "calm_poll ips x" "calm ips rs" and later: "\<forall>y \<in> set rs. rd_after x \<le> rd_now y \<and> rd_now y \<le> rd_after y"
      by (auto simp: calm_def calm_poll_def list_all_iff)
    show ?thesis
    proof (cases "w < rd_now x")
      case True
      then have "poll_and_process w (rd_now x) (rd_poll x) (\<lambda>f. [on_fd addr_cb f]) a = (Inr False, a)"
        by (simp add: poll_and_process_def)
      from addr_loop_Cons [OF going this, of rs] have l: "addr_loop w (x # rs) a = Some (Inr (ao_ips a))" by simp
      have "rd_now x \<le> rd_after x" using x(1) by (simp add: calm_poll_def)
      then have "\<not> waited_for w before r" if "x # rs = before @ r # after" for before r after
        using that True later by (cases before) (auto simp: waited_for_def)
      with l show ?thesis by (intro exI [of _ "ao_ips a"]) auto
    next
      case False
      then have "rd_now x \<le> w" by simp
      from calm_poll_step [OF x(1) this, of a] obtain a' where
        q: "poll_and_process w (rd_now x) (rd_poll x) (\<lambda>f. [on_fd addr_cb f]) a = (Inr (rd_poll x 0 \<noteq> NothingReady), a')"
        and a': "set (ao_ips a') = set (ao_ips a) \<union> ips_of x" "ao_done a' \<longleftrightarrow> ao_done a \<or> says_all x" by blast
      note step = addr_loop_Cons [OF going q, of rs]
      show ?thesis
      proof (cases "rd_poll x 0 = NothingReady")
        case True
        then have "ips_of x = {}" by (simp add: ips_of_def)
        moreover have "\<not> waited_for w (x # before) r" for before r using True by (simp add: waited_for_def)
        ultimately show ?thesis using step True a'(1)
          by (intro exI [of _ "ao_ips a'"]) (auto simp: Cons_eq_append_conv)
      next
        case more: False
        let ?w = "if ao_ips a' \<noteq> [] then min w (rd_after x + ADDR_GRACE) else w"
        from Cons.prems(2) False have late: "\<exists>r \<in> set rs. ?w < rd_now r" by (auto simp: min_less_iff_disj)
        have pinned: "\<forall>y \<in> set rs. ?w \<le> rd_after y + ADDR_GRACE" if "ao_ips a' \<noteq> []"
          using that later by (auto simp: min_le_iff_disj)
        obtain l where l: "addr_loop ?w rs a' = Some (Inr l)" "set (ao_ips a') \<subseteq> set l" "set l \<subseteq> set (ao_ips a') \<union> ips"
          and got: "\<And>before r after. rs = before @ r # after \<Longrightarrow> waited_for ?w before r
            \<Longrightarrow> (ao_ips a' \<noteq> [] \<Longrightarrow> \<not> ao_done a' \<and> (\<forall>y \<in> set before. \<not> says_all y))
            \<Longrightarrow> (ao_done a' \<Longrightarrow> \<forall>x \<in> set before. ips_of x = {}) \<Longrightarrow> ips_of r \<subseteq> set l"
          using Cons.IH [OF x(2) late pinned] by blast
        have "ips_of r \<subseteq> set l"
          if s: "x # rs = before @ r # after" and wf: "waited_for w before r"
            and c: "ao_ips a \<noteq> [] \<longrightarrow> \<not> ao_done a \<and> (\<forall>y \<in> set before. \<not> says_all y)" "ao_done a \<longrightarrow> (\<forall>x \<in> set before. ips_of x = {})"
          for before r after
        proof (cases before)
          case Nil
          with s l(2) a'(1) show ?thesis by auto
        next
          case (Cons y before')
          with s have y: "y = x" "rs = before' @ r # after" by simp_all
          have "x \<in> set (x # rs)" by simp
          then have "ao_ips a \<noteq> [] \<Longrightarrow> w \<le> rd_after x + ADDR_GRACE" using Cons.prems(3) by blast
          moreover have heard: "ao_ips a' = [] \<longleftrightarrow> ao_ips a = [] \<and> ips_of x = {}" using a'(1) by (metis Un_empty set_empty)
          ultimately have "waited_for ?w before' r"
            using wf y Cons by (auto simp: waited_for_def)
          note before = wf [unfolded waited_for_def Cons y(1)] c [unfolded Cons y(1)]
          show ?thesis
          proof (rule got [OF y(2) \<open>waited_for ?w before' r\<close>])
            assume "ao_ips a' \<noteq> []"
            with heard have "ao_ips a \<noteq> [] \<or> ips_of x \<noteq> {}" by blast
            with before a'(2) show "\<not> ao_done a' \<and> (\<forall>y \<in> set before'. \<not> says_all y)" by auto
          next
            assume "ao_done a'"
            with a'(2) have "ao_done a \<or> says_all x" by blast
            with before show "\<forall>x \<in> set before'. ips_of x = {}" by auto
          qed
        qed
        moreover have "ips_of x \<subseteq> ips" using x(1) by (simp add: calm_poll_def)
        ultimately show ?thesis using step more l a'(1) by (intro exI [of _ l]) auto
      qed
    qed
  qed
qed simp

text \<open>
  The grace is granted only while the daemon says that more is queued: a first address with nothing
  queued behind it ends the phase at once, and an address of the other family that the daemon learns of
  a moment later is not waited for.
\<close>

lemma second_family_not_awaited:
  assumes "calm_poll ips r" "rd_now r \<le> w" "says_all r" "ips_of r \<noteq> {}"
  shows "\<exists>l. addr_loop w (r # later) \<lparr>ao_ips = [], ao_done = False\<rparr> = Some (Inr l) \<and> set l = ips_of r"
proof -
  let ?a = "\<lparr>ao_ips = [], ao_done = False\<rparr>"
  from calm_poll_step [OF assms(1,2), of ?a] obtain a' where
    q: "poll_and_process w (rd_now r) (rd_poll r) (\<lambda>f. [on_fd addr_cb f]) ?a = (Inr (rd_poll r 0 \<noteq> NothingReady), a')"
    and a': "set (ao_ips a') = ips_of r" "ao_done a'" using assms(3) by auto
  have "rd_poll r 0 \<noteq> NothingReady" using assms(3) by (auto simp: says_all_def)
  moreover have "ao_ips a' \<noteq> []" using a'(1) assms(4) by auto
  ultimately show ?thesis using addr_loop_Cons [OF _ q, of later] a' by (simp add: addr_loop_stop)
qed

lemma resolve_collects:
  assumes "le_addr E host = 0" "calm ips (le_addr_rounds E host)" "\<exists>r \<in> set (le_addr_rounds E host). deadline < rd_now r"
  shows "\<exists>l. resolve_addresses E host deadline = Some (Inr l) \<and> set l \<subseteq> ips
     \<and> (\<forall>ip. in_time deadline (le_addr_rounds E host) ip \<longrightarrow> ip \<in> set l)"
proof -
  from addr_loop_collects [OF assms(2,3), of "\<lparr>ao_ips = [], ao_done = False\<rparr>"] obtain l where
    "addr_loop deadline (le_addr_rounds E host) \<lparr>ao_ips = [], ao_done = False\<rparr> = Some (Inr l)" "set l \<subseteq> ips"
    "\<forall>before r after. le_addr_rounds E host = before @ r # after \<longrightarrow> waited_for deadline before r \<longrightarrow> ips_of r \<subseteq> set l"
    by auto
  with assms(1) show ?thesis by (intro exI [of _ l]) (auto simp: resolve_addresses_def in_time_def)
qed

lemma verdict_InrD: "verdict E reg outcome = Inr r \<Longrightarrow> r = reg"
  by (auto simp: verdict_def split: option.splits if_splits)

lemma verdict_case: "(case z of Inl e \<Rightarrow> Inl e | Inr outcome \<Rightarrow> verdict E r outcome) = Inr reg \<Longrightarrow> r = reg"
  by (cases z) (auto dest: verdict_InrD)

lemma advertised:
  assumes "blocking_advertise A st inst content addrs = Some (Inr reg)"
  shows "\<exists>srv port6. split_ports addrs = Some (srv, port6) \<and> advert_txt content port6 = Some (rg_txt reg)
    \<and> cstring_new inst = Some (rg_name reg) \<and> split_service_type st = Inr (rg_regtype reg, rg_domain reg)
    \<and> rg_port reg = swap16 srv"
proof -
  from assms obtain srv port6 where p: "split_ports addrs = Some (srv, port6)"
    by (cases "split_ports addrs") (auto simp: blocking_advertise_def)
  with assms obtain attrs where t: "advert_txt content port6 = Some attrs"
    by (cases "advert_txt content port6") (auto simp: blocking_advertise_def)
  with p assms obtain name where n: "cstring_new inst = Some name"
    by (cases "cstring_new inst") (auto simp: blocking_advertise_def)
  with p t assms obtain regtype domain where d: "split_service_type st = Inr (regtype, domain)"
    by (cases "split_service_type st") (auto simp: blocking_advertise_def)
  from assms have "reg = \<lparr>rg_name = name, rg_regtype = regtype, rg_domain = domain, rg_port = swap16 srv,
      rg_txt_len = of_nat (length attrs), rg_txt = attrs\<rparr>"
    by (auto simp: blocking_advertise_def Let_def p t n d split: if_splits dest!: verdict_case)
  with p t n d show ?thesis by simp
qed

lemma hex_ascii: "is_ascii (hex bs)"
proof -
  have "hex_digit d < 128" if "d < 16" for d using that by (simp add: hex_digit_def)
  then show ?thesis using nibbles by (auto simp: hex_def hex_byte_def is_ascii_def list_all_iff)
qed

lemma bonjour_found:
  assumes adv: "blocking_advertise A st inst content addrs = Some (Inr reg)"
    and vt: "valid_text inst" "make_ascii_lowercase inst = inst" "valid_text content"
    and u: "one_port_each p4 p6 addrs" and d: "daemon_relays E reg host (sa_ip ` set addrs)"
    and sole: "sole_holder E reg host inst"
    and x: "decode inst content = Some x" and only: "\<And>i c. decode i c \<noteq> None \<Longrightarrow> i = inst"
  shows "\<exists>f. bonjour_lookup E st decode = Some (Inr (Some f)) \<and> lf_payload f = x
    \<and> lf_addrs f \<noteq> [] \<and> set (lf_addrs f) \<subseteq> set addrs
    \<and> (\<forall>a \<in> set addrs. in_time (le_now E + LOOKUP_TIMEOUT_NS) (le_addr_rounds E host) (sa_ip a) \<longrightarrow> a \<in> set (lf_addrs f))"
proof -
  let ?dl = "le_now E + LOOKUP_TIMEOUT_NS"
  from advertised [OF adv] obtain srv port6 where a: "split_ports addrs = Some (srv, port6)"
    "advert_txt content port6 = Some (rg_txt reg)" "cstring_new inst = Some (rg_name reg)"
    "split_service_type st = Inr (rg_regtype reg, rg_domain reg)" "rg_port reg = swap16 srv" by blast
  have t: "parse_txt (rg_txt reg) TXT_KEY = Some content" "Option.bind (parse_txt (rg_txt reg) TXT_KEY_PORT6) parse_u16 = port6"
    using txt_roundtrip [OF vt(3), of port6] a(2) by simp_all
  have dec: "utf8_decode (rg_name reg) = Some inst" by (rule cstring_new_decodes [OF a(3) vt(1)])
  let ?b = "\<lparr>br_instances = [], br_resolves = [], br_started = []\<rparr>"
  let ?ok = "accepts_txt decode (make_ascii_lowercase inst)"
  have b: "browse_start E st = Inr ?b" using d a(4) by (simp add: browse_start_def daemon_relays_def Let_def)
  have "?ok r" if "relayed reg host r" for r using that t x vt(2) by (simp add: relayed_def accepts_txt_def)
  then have "lookup_stage (?dl - ADDR_RESERVE) ?ok (rg_name reg) (le_rounds E) ?b"
    using d will_add_mono [of "relayed reg host" ?ok] by (simp add: lookup_stage_def daemon_relays_def Let_def)
  moreover have inv: "browse_inv (le_rounds E) ?b" by (simp add: browse_inv_def)
  ultimately obtain payload r where hit: "browse_loop decode (?dl - ADDR_RESERVE) (le_rounds E) ?b = Some (Inr (Some (payload, r)))"
    using browse_loop_finds [OF dec refl] by fastforce
  from browse_loop_sound [OF hit inv] have r: "from_daemon (le_rounds E) r" "decode (an_instance r) (an_content r) = Some payload" by simp_all
  then have i: "an_instance r = inst" using only by force
  with r(1) sole obtain n s ats where "relayed reg host (an_host r, an_port r, ats)" "ats TXT_KEY = Some (an_content r)"
    "an_port6 r = Option.bind (ats TXT_KEY_PORT6) parse_u16" unfolding from_daemon_def sole_holder_def by metis
  then have eq: "an_host r = host" "an_port r = srv" "an_content r = content" "an_port6 r = port6"
    using t a(5) by (auto simp: relayed_def)
  obtain l where l: "resolve_addresses E host ?dl = Some (Inr l)" "set l \<subseteq> sa_ip ` set addrs"
    "\<forall>ip. in_time ?dl (le_addr_rounds E host) ip \<longrightarrow> ip \<in> set l"
    using resolve_collects [of E host "sa_ip ` set addrs" ?dl] d by (auto simp: daemon_relays_def Let_def)
  have s: "set (assemble_addrs l srv port6) = {a \<in> set addrs. sa_ip a \<in> set l}" by (rule assemble_heard [OF u a(1) l(2)])
  obtain ip where "ip \<in> set l" using d l(3) by (auto simp: daemon_relays_def Let_def)
  moreover from this l(2) obtain h where "h \<in> set addrs" "ip = sa_ip h" by auto
  ultimately have "h \<in> set (assemble_addrs l srv port6)" using s by simp
  then have ne: "assemble_addrs l srv port6 \<noteq> []" by auto
  have "bonjour_lookup E st decode = Some (Inr (Some \<lparr>lf_payload = payload, lf_addrs = assemble_addrs l srv port6\<rparr>))"
    using b hit eq l(1) ne by (simp add: bonjour_lookup_def Let_def)
  moreover have "payload = x" using r(2) i x eq by simp
  ultimately show ?thesis using s ne l(3) by auto
qed

lemma hosting_found_bonjour:
  assumes "bonjour_advertise_hosting C S nonce A host (identity_public C me) addr addrs = Some (Inr reg)"
    and "one_port_each p4 p6 addrs" and "daemon_relays E reg target (sa_ip ` set addrs)"
    and "sole_holder E reg target (lan_instance C (identity_public C host) (identity_public C me))"
    and "\<forall>c. hosting_encrypt S nonce host (identity_public C me) addr = Some c \<longrightarrow> valid_text c"
    and "\<forall>t. hosting_text S addr = Some t \<longrightarrow>
      sealed_at S (secret host) (identity_public C me) (secret me) (identity_public C host) nonce t"
    and "hosting_codec_at S \<lparr>hp_version = HOSTING_VERSION, hp_transport = ta_kind addr, hp_address = ta_address addr\<rparr>"
  shows "\<exists>f. bonjour_lookup_hosting C S E me (identity_public C host) = Some (Inr (Some f))
    \<and> lf_payload f = addr \<and> lf_addrs f \<noteq> [] \<and> set (lf_addrs f) \<subseteq> set addrs
    \<and> (\<forall>a \<in> set addrs. in_time (le_now E + LOOKUP_TIMEOUT_NS) (le_addr_rounds E target) (sa_ip a) \<longrightarrow> a \<in> set (lf_addrs f))"
proof -
  let ?w = "lan_instance C (identity_public C host) (identity_public C me)"
  from assms(1) obtain content where c: "hosting_encrypt S nonce host (identity_public C me) addr = Some content"
    and adv: "blocking_advertise A HOSTING_SERVICE_TYPE ?w content addrs = Some (Inr reg)"
    by (auto simp: bonjour_advertise_hosting_def split: option.splits)
  have "is_ascii ?w" by (simp add: lan_instance_hex hex_ascii)
  moreover have "make_ascii_lowercase ?w = ?w" by (simp add: lan_instance_def)
  moreover have "hosting_decrypt S me (identity_public C host) content = Some addr"
    using hosting_roundtrip [OF c _ assms(7)] assms(6) by simp
  ultimately show ?thesis
    unfolding bonjour_lookup_hosting_def Let_def using c assms(5)
    by (intro bonjour_found [OF adv _ _ _ assms(2-4)]) (auto intro: ascii_valid split: if_splits)
qed


text \<open>
  Property C33. A lookup through the system daemon ends. Once the clock of a poll has passed the browse
  deadline, and that of an address poll the lookup's deadline, no further round is needed: the lookup has
  returned a record, nothing, or an error, whatever the daemon did; and the browse leaves the address
  phase its reserve of a second and a half.
\<close>

theorem bonjour_lookup_ends:
  assumes "\<exists>r \<in> set (le_rounds E). le_now E + 3500000000 < rd_now r"
    and "\<And>host. \<exists>r \<in> set (le_addr_rounds E host). le_now E + 5000000000 < rd_now r"
  shows "bonjour_lookup E st decode \<noteq> None"
proof -
  let ?dl = "le_now E + LOOKUP_TIMEOUT_NS"
  have "browse_loop decode (?dl - ADDR_RESERVE) (le_rounds E) b \<noteq> None" for b
    using assms(1) browse_loop_ends [of _ "le_rounds E" "?dl - ADDR_RESERVE"]
    by (auto simp: const_simps add.commute)
  moreover have "resolve_addresses E host ?dl \<noteq> None" for host
    using assms(2) [of host] addr_loop_ends [of _ "le_addr_rounds E host" ?dl]
    by (auto simp: resolve_addresses_def const_simps)
  ultimately show ?thesis
    by (simp add: bonjour_lookup_def Let_def split: sum.split option.split prod.split) (metis not_None_eq)
qed

section \<open>A daemon that works\<close>

definition quiet :: "'f fd_state" where
  "quiet = \<lparr>fd_dead = False, fd_in = False, fd_calls = [], fd_result = 0\<rparr>"

definition reading :: "'f list \<Rightarrow> 'f fd_state" where
  "reading calls = \<lparr>fd_dead = False, fd_in = True, fd_calls = calls, fd_result = 0\<rparr>"

definition demo_register :: register_env where
  "demo_register = \<lparr>re_start = 0, re_register = (\<lambda>_. 0), re_rounds = [\<lparr>rd_now = 1, rd_poll = (\<lambda>_. Ready (reading [0]))\<rparr>],
     re_browse = (\<lambda>_. 0)\<rparr>"

text \<open>The looking device's daemon: it reports the registration, answers the resolve, then gives both addresses.\<close>

definition demo_daemon :: "registration \<Rightarrow> lookup_env" where
  "demo_daemon reg =
     \<lparr>le_now = 0, le_browse = (\<lambda>_. 0),
      le_rounds =
        [\<lparr>rd_now = 1, rd_poll = (\<lambda>_. Ready (reading [\<lparr>bp_flags = FLAG_ADD, bp_err = 0, bp_name = Some (rg_name reg),
             bp_regtype = Some (rg_regtype reg), bp_domain = Some (rg_domain reg)\<rparr>], \<lambda>_. quiet)), rd_resolve = (\<lambda>_. 0)\<rparr>,
         \<lparr>rd_now = 2, rd_poll = (\<lambda>_. Ready (quiet, \<lambda>_. reading [\<lparr>rp_err = 0, rp_host = Some [104], rp_port = rg_port reg,
             rp_txt = Some (rg_txt reg)\<rparr>])), rd_resolve = (\<lambda>_. 0)\<rparr>,
         \<lparr>rd_now = 3, rd_poll = (\<lambda>_. Interrupted), rd_resolve = (\<lambda>_. 0)\<rparr>],
      le_addr = (\<lambda>_. 0),
      le_addr_rounds = (\<lambda>_.
        [\<lparr>rd_now = 4, rd_poll = (\<lambda>_. Ready (reading
             [\<lparr>ap_flags = FLAG_ADD OR MORE_COMING, ap_err = 0, ap_address = Some (AfInet 0x0901a8c0)\<rparr>])), rd_after = 5\<rparr>,
         \<lparr>rd_now = 6, rd_poll = (\<lambda>_. Interrupted), rd_after = 7\<rparr>,
         \<lparr>rd_now = 8, rd_poll = (\<lambda>_. Ready (reading
             [\<lparr>ap_flags = FLAG_ADD, ap_err = 0, ap_address = Some (AfInet6 [0x20, 1, 0xd, 0xb8, 0, 0, 0, 0, 0, 0, 0, 0, 0, 0, 0, 7])\<rparr>])),
           rd_after = 9\<rparr>,
         \<lparr>rd_now = 5000000001, rd_poll = (\<lambda>_. Interrupted), rd_after = 5000000002\<rparr>])\<rparr>"

lemma demo_address:
  "reply_ips \<lparr>ap_flags = FLAG_ADD OR MORE_COMING, ap_err = 0, ap_address = Some (AfInet 0x0901a8c0)\<rparr> = [V4 (IPv4 192 168 1 9)]"
  "reply_ips \<lparr>ap_flags = FLAG_ADD, ap_err = 0, ap_address = Some (AfInet6 [0x20, 1, 0xd, 0xb8, 0, 0, 0, 0, 0, 0, 0, 0, 0, 0, 0, 7])\<rparr>
    = [V6 [0x2001, 0xdb8, 0, 0, 0, 0, 0, 7]]"
proof -
  have "(49320 :: byte) = 168" "(12625921 :: byte) = 1" "(3232235785 :: byte) = 9" by simp_all
  then have "ipv4_from_u32 (swap32 0x0901a8c0) = IPv4 192 168 1 9" by (simp add: ipv4_from_u32_def swap32_def)
  then show "reply_ips \<lparr>ap_flags = FLAG_ADD OR MORE_COMING, ap_err = 0, ap_address = Some (AfInet 0x0901a8c0)\<rparr> = [V4 (IPv4 192 168 1 9)]"
    by (simp add: reply_ips_def sockaddr_ip_def const_simps)
qed (simp add: reply_ips_def sockaddr_ip_def const_simps)

text \<open>Two addresses in two polls: the second one comes within the grace of the first.\<close>

lemma demo_in_time:
  "calm (sa_ip ` set demo_addrs) (le_addr_rounds (demo_daemon reg) host)"
  "a \<in> set demo_addrs \<Longrightarrow> in_time LOOKUP_TIMEOUT_NS (le_addr_rounds (demo_daemon reg) host) (sa_ip a)"
proof -
  let ?R = "le_addr_rounds (demo_daemon reg) host"
  show "calm (sa_ip ` set demo_addrs) ?R"
    by (simp add: calm_def calm_poll_def steady_def demo_daemon_def ips_of_def reading_def healthy_fd_def demo_address demo_addrs_def)
  have R: "?R = [] @ (?R ! 0) # drop 1 ?R" "?R = take 2 ?R @ (?R ! 2) # drop 3 ?R"
    by (simp_all add: demo_daemon_def numeral_2_eq_2)
  have "waited_for LOOKUP_TIMEOUT_NS [] (?R ! 0)" "waited_for LOOKUP_TIMEOUT_NS (take 2 ?R) (?R ! 2)"
    by (simp_all add: waited_for_def demo_daemon_def says_all_def ips_of_def reading_def const_simps numeral_2_eq_2)
  moreover have "ips_of (?R ! 0) = {V4 (IPv4 192 168 1 9)}" "ips_of (?R ! 2) = {V6 [0x2001, 0xdb8, 0, 0, 0, 0, 0, 7]}"
    by (simp_all add: demo_daemon_def ips_of_def reading_def demo_address)
  moreover have "sa_ip a = V4 (IPv4 192 168 1 9) \<or> sa_ip a = V6 [0x2001, 0xdb8, 0, 0, 0, 0, 0, 7]" if "a \<in> set demo_addrs"
    using that by (auto simp: demo_addrs_def)
  ultimately show "in_time LOOKUP_TIMEOUT_NS ?R (sa_ip a)" if "a \<in> set demo_addrs"
    using that R unfolding in_time_def by (metis singletonI)
qed

lemma demo_daemon_relays:
  assumes "0 \<notin> set (rg_name reg)"
  shows "daemon_relays (demo_daemon reg) reg [104] (sa_ip ` set demo_addrs)"
proof -
  have c: "c_str (rg_name reg) = rg_name reg" "c_str [104] = [104]" using assms by (auto simp: c_str_def takeWhile_eq_all_conv)
  have "\<exists>a. a \<in> set demo_addrs" by (simp add: demo_addrs_def) blast
  then have t: "\<exists>ip. in_time LOOKUP_TIMEOUT_NS (le_addr_rounds (demo_daemon reg) [104]) ip" using demo_in_time(2) by blast
  have late: "\<exists>r \<in> set (le_addr_rounds (demo_daemon reg) [104]). LOOKUP_TIMEOUT_NS < rd_now r"
    by (simp add: demo_daemon_def const_simps)
  have n: "le_now (demo_daemon reg) = 0" by (simp add: demo_daemon_def)
  show ?thesis
    unfolding daemon_relays_def Let_def n add_0 using demo_in_time(1) t late
    by (intro conjI)
      (use c in \<open>simp_all add: demo_daemon_def serves_def healthy_def healthy_fd_def poll_at_def quiet_def reading_def
        const_simps adds_def answers_with_def browse_cb_def resolve_cb_def relayed_def\<close>)
qed

lemma demo_sole_holder: "sole_holder (demo_daemon reg) reg [104] inst"
  by (auto simp: sole_holder_def demo_daemon_def answered_def quiet_def reading_def resolve_cb_def relayed_def c_str_def)

definition demo_content :: ustring where
  "demo_content = [7, 300, 9, 300, 2, 4, 105, 114, 111, 104, 303]"

lemma demo_encrypted:
  "hosting_encrypt demo_sealing 0 \<lparr>secret = [7]\<rparr> (PublicKey [9]) (rendezvous_addr demo_sealing (NodeId [3])) = Some demo_content"
  by code_simp

lemma demo_label:
  "lan_instance sample_crypto (PublicKey [7]) (PublicKey [9]) =
     [48, 57, 48, 55, 51, 49, 55, 54, 51, 97, 54, 101, 54, 49, 54, 99, 50, 100,
      54, 55, 54, 101, 54, 57, 55, 52, 55, 51, 54, 102, 54, 56]"
  by code_simp

lemma demo_type:
  "split_service_type HOSTING_SERVICE_TYPE = Inr (map of_char ''_duocb-host._udp'', map of_char ''local.'')"
  by code_simp

lemma demo_text: "valid_text demo_content" "str_len demo_content \<le> 253"
  by (simp_all add: demo_content_def valid_text_def valid_scalar_def utf8_char_def)

lemma demo_verdict: "await_verdict REGISTER_VERDICT_WAIT (re_rounds demo_register) \<lparr>ro_err = None\<rparr> = Some (Inr \<lparr>ro_err = Some 0\<rparr>)"
proof -
  have fin: "await_verdict d rs \<lparr>ro_err = Some e\<rparr> = Some (Inr \<lparr>ro_err = Some e\<rparr>)" for d rs e
    by (subst await_verdict.simps) simp
  show ?thesis
    by (subst await_verdict.simps)
      (simp add: demo_register_def poll_and_process_def const_simps reading_def on_fd_def register_cb_def fin)
qed

lemma demo_registered:
  "\<exists>reg. bonjour_advertise_hosting sample_crypto demo_sealing 0 demo_register \<lparr>secret = [7]\<rparr>
        (PublicKey [9]) (rendezvous_addr demo_sealing (NodeId [3])) demo_addrs = Some (Inr reg)
     \<and> 0 \<notin> set (rg_name reg)"
proof -
  obtain attrs where t: "advert_txt demo_content (Some 4444) = Some attrs"
    using txt_roundtrip [OF demo_text(1), of "Some 4444"] demo_text(2) by (auto split: option.splits)
  let ?l = "lan_instance sample_crypto (PublicKey [7]) (PublicKey [9])"
  have n: "cstring_new ?l = Some (utf8 ?l)" "0 \<notin> set (utf8 ?l)"
    unfolding demo_label by (simp_all add: cstring_new_def)
  have e: "re_start demo_register = 0" "re_register demo_register = (\<lambda>_. 0)" by (simp_all add: demo_register_def)
  show ?thesis
    using n t e by (simp add: bonjour_advertise_hosting_def identity_public_def sample_pub demo_encrypted blocking_advertise_def
        demo_split demo_type Let_def demo_verdict verdict_def)
qed

text \<open>The whole exchange between two devices, on the sample crypto.\<close>

lemma demo_hosting_lookup:
  assumes "bonjour_advertise_hosting sample_crypto demo_sealing 0 demo_register \<lparr>secret = [7]\<rparr>
      (PublicKey [9]) (rendezvous_addr demo_sealing (NodeId [3])) demo_addrs = Some (Inr reg)"
    and "0 \<notin> set (rg_name reg)"
  shows "\<exists>f. bonjour_lookup_hosting sample_crypto demo_sealing (demo_daemon reg) \<lparr>secret = [9]\<rparr> (PublicKey [7]) = Some (Inr (Some f))"
  using hosting_found_bonjour [of sample_crypto demo_sealing 0 demo_register "\<lparr>secret = [7]\<rparr>" "\<lparr>secret = [9]\<rparr>"
      "rendezvous_addr demo_sealing (NodeId [3])" demo_addrs reg 4433 4444 "demo_daemon reg" "[104]"]
    assms demo_ports demo_daemon_relays [OF assms(2)] demo_sole_holder
  by (auto simp: identity_public_def sample_pub demo_encrypted demo_text demo_sealed demo_hosting_codec)



lemma hosting_lookup_sound_witness:
  "\<exists>E f content port port6 ips.
     bonjour_lookup_hosting sample_crypto demo_sealing E \<lparr>secret = [9]\<rparr> (PublicKey [7]) = Some (Inr (Some f))
     \<and> bonjour_reports E HOSTING_SERVICE_TYPE (lan_instance sample_crypto (PublicKey [7]) (PublicKey [9])) content port port6 ips
     \<and> hosting_decrypt demo_sealing \<lparr>secret = [9]\<rparr> (PublicKey [7]) content = Some (lf_payload f)"
proof -
  obtain reg f where l: "bonjour_lookup_hosting sample_crypto demo_sealing (demo_daemon reg) \<lparr>secret = [9]\<rparr> (PublicKey [7]) = Some (Inr (Some f))"
    using demo_registered demo_hosting_lookup by blast
  have me: "identity_public sample_crypto \<lparr>secret = [9]\<rparr> = PublicKey [9]" by (simp add: identity_public_def sample_pub)
  note s = hosting_lookup_sound [of sample_crypto demo_sealing "[]" "\<lparr>secret = [9]\<rparr>" "PublicKey [7]" f "demo_daemon reg", unfolded me]
  from conjunct1 [OF mp [OF conjunct2 [OF s] l]] l show ?thesis by blast
qed

text \<open>A daemon that says nothing: every poll comes back empty-handed, later and later.\<close>

definition silent_daemon :: lookup_env where
  "silent_daemon =
     \<lparr>le_now = 0, le_browse = (\<lambda>_. 0),
      le_rounds = [\<lparr>rd_now = 1, rd_poll = (\<lambda>_. Interrupted), rd_resolve = (\<lambda>_. 0)\<rparr>,
        \<lparr>rd_now = 3600000000, rd_poll = (\<lambda>_. Interrupted), rd_resolve = (\<lambda>_. 0)\<rparr>],
      le_addr = (\<lambda>_. 0),
      le_addr_rounds = (\<lambda>_. [\<lparr>rd_now = 5000000001, rd_poll = (\<lambda>_. Interrupted), rd_after = 5000000001\<rparr>])\<rparr>"

lemma bonjour_lookup_ends_witness:
  "bonjour_lookup silent_daemon HOSTING_SERVICE_TYPE (\<lambda>_ _. Some ()) \<noteq> None"
  by (rule bonjour_lookup_ends) (simp_all add: silent_daemon_def)

section \<open>An answer lost with another socket\<close>

text \<open>
  A poll that finds one descriptor dead ends the pump at once, even when the callbacks of an earlier
  descriptor have just delivered the answer looked for: the round's answers are dropped, and the lookup
  reports that nothing is there.
\<close>

definition half_dead_daemon :: "registration \<Rightarrow> lookup_env" where
  "half_dead_daemon reg =
     (demo_daemon reg)\<lparr>le_rounds :=
        [\<lparr>rd_now = 1, rd_poll = (\<lambda>_. Ready (reading
            [\<lparr>bp_flags = FLAG_ADD, bp_err = 0, bp_name = Some (rg_name reg), bp_regtype = Some [], bp_domain = Some []\<rparr>,
             \<lparr>bp_flags = FLAG_ADD, bp_err = 0, bp_name = Some [120], bp_regtype = Some [], bp_domain = Some []\<rparr>], \<lambda>_. quiet)),
           rd_resolve = (\<lambda>_. 0)\<rparr>,
         \<lparr>rd_now = 2, rd_poll = (\<lambda>_. Ready (quiet, \<lambda>name. if name = [120] then quiet\<lparr>fd_dead := True\<rparr>
              else reading [\<lparr>rp_err = 0, rp_host = Some [104], rp_port = rg_port reg, rp_txt = Some (rg_txt reg)\<rparr>])),
           rd_resolve = (\<lambda>_. 0)\<rparr>]\<rparr>"

lemma answer_lost_with_dead_socket:
  assumes "utf8_decode name = Some s" "name \<noteq> [120]" "0 \<notin> set name"
  shows "bonjour_lookup (half_dead_daemon \<lparr>rg_name = name, rg_regtype = t, rg_domain = d, rg_port = p, rg_txt_len = n, rg_txt = x\<rparr>)
      HOSTING_SERVICE_TYPE decode = Some (Inr None)"
proof -
  have c: "c_str name = name" "c_str [120] = [120]" using assms(3) by (auto simp: c_str_def takeWhile_eq_all_conv)
  have x: "utf8_decode [120] = Some [120]" using utf8_decode_utf8 [of "[120]"] by (simp add: valid_text_def valid_scalar_def)
  show ?thesis
    using c x assms
    by (simp add: bonjour_lookup_def browse_start_def demo_type Let_def half_dead_daemon_def demo_daemon_def browse_loop.simps
        poll_and_process_def const_simps start_new_resolves_def start_resolve_def take_answers_def to_answer_def
        List.map_filter_simps reading_def quiet_def on_fd_def browse_fds_def browse_cb_def answer_at_def resolve_cb_def)
qed

end
