(* ===== verification/Responder.thy ===== *)
theory Responder
  imports Resolve
begin

text \<open>
  The desktop's process-wide DNS-SD responder (\<open>duocb-core/src/lan/dnssd.rs\<close>, module \<open>desktop\<close>): it
  is started at most once, holds one record per full service name, and every advertisement is a guard
  whose drop withdraws its name. The hosting publisher (\<open>run_hosting_publisher\<close> in
  \<open>net/runtime.rs\<close>) replaces its advertisement by another of the same name.
\<close>

section \<open>The responder\<close>

datatype daemon_slot = NotStarted | StartFailed | Started

record mdns_responder =
  rd_daemon :: daemon_slot
  rd_live :: "ustring \<Rightarrow> advert option"

text \<open>
  What the library answers: whether it starts, builds the service info, takes a registration, and takes
  the withdrawal of a name.
\<close>

record responder_env =
  re_starts :: bool
  re_builds :: "advert \<Rightarrow> bool"
  re_registers :: "advert \<Rightarrow> bool"
  re_withdraws :: "ustring \<Rightarrow> bool"

definition fullname :: "advert \<Rightarrow> ustring" where
  "fullname ad = ad_instance ad @ 46 # ad_type ad"

text \<open>\<open>OnceLock::get_or_init\<close>: the first outcome stays.\<close>

definition daemon :: "responder_env \<Rightarrow> mdns_responder \<Rightarrow> bool \<times> mdns_responder" where
  "daemon E r =
     (case rd_daemon r of
        NotStarted \<Rightarrow> (re_starts E, r\<lparr>rd_daemon := (if re_starts E then Started else StartFailed)\<rparr>)
      | StartFailed \<Rightarrow> (False, r)
      | Started \<Rightarrow> (True, r))"

definition responder_advertise ::
    "responder_env \<Rightarrow> ustring \<Rightarrow> ustring \<Rightarrow> ustring \<Rightarrow> socket_addr list \<Rightarrow> mdns_responder \<Rightarrow> (lan_error + advert) \<times> mdns_responder" where
  "responder_advertise E service_type inst content addrs r =
     (case dnssd_advertise (re_builds E) service_type inst content addrs of
        Inl e \<Rightarrow> (Inl e, r)
      | Inr info \<Rightarrow>
          (case daemon E r of
             (False, r') \<Rightarrow> (Inl ResponderFailed, r')
           | (True, r') \<Rightarrow>
               (if re_registers E info
                then (Inr info, r'\<lparr>rd_live := (rd_live r')(fullname info := Some info)\<rparr>)
                else (Inl ResponderFailed, r'))))"

text \<open>\<open>Drop for Advert\<close>: a withdrawal the responder does not take is ignored, and the record stands on.\<close>

definition drop_advert :: "responder_env \<Rightarrow> advert option \<Rightarrow> mdns_responder \<Rightarrow> mdns_responder" where
  "drop_advert E guard r =
     (case guard of
        None \<Rightarrow> r
      | Some ad \<Rightarrow>
          (case daemon E r of
             (True, r') \<Rightarrow>
               (if re_withdraws E (fullname ad) then r'\<lparr>rd_live := (rd_live r')(fullname ad := None)\<rparr> else r')
           | (False, r') \<Rightarrow> r'))"

text \<open>
  One round of the publisher on the responder: the peer's card lapsed, or the addresses did not
  change, or the stale advertisement is withdrawn before the fresh one is registered. Every round has
  answers of its own.
\<close>

datatype advert_round = Lapsed responder_env | Unchanged | Replace responder_env ustring "socket_addr list"

definition advert_step ::
    "ustring \<Rightarrow> ustring \<Rightarrow> advert_round \<Rightarrow> advert option \<times> mdns_responder \<Rightarrow> advert option \<times> mdns_responder" where
  "advert_step service_type inst rnd st =
     (case st of (guard, r) \<Rightarrow>
        (case rnd of
           Unchanged \<Rightarrow> (guard, r)
         | Lapsed E \<Rightarrow> (None, drop_advert E guard r)
         | Replace E content addrs \<Rightarrow>
             (case responder_advertise E service_type inst content addrs (drop_advert E guard r) of
                (Inl e, r') \<Rightarrow> (None, r')
              | (Inr fresh, r') \<Rightarrow> (Some fresh, r'))))"

definition advert_run ::
    "ustring \<Rightarrow> ustring \<Rightarrow> advert_round list \<Rightarrow> advert option \<times> mdns_responder \<Rightarrow> advert option \<times> mdns_responder" where
  "advert_run service_type inst rnds = fold (advert_step service_type inst) rnds"

section \<open>What stands on the network\<close>

lemma advertised_name: "dnssd_advertise acc t i content addrs = Inr ad \<Longrightarrow> fullname ad = i @ 46 # t"
  by (auto simp: dnssd_advertise_def fullname_def Let_def split: option.splits prod.splits if_splits)

lemma daemon_live [simp]: "rd_live (snd (daemon E r)) = rd_live r"
  by (simp add: daemon_def split: daemon_slot.splits)

lemma daemonD: "daemon E r = (b, r') \<Longrightarrow> rd_live r' = rd_live r \<and> (b \<longrightarrow> rd_daemon r' = Started)"
  by (auto simp: daemon_def split: daemon_slot.splits)

lemma daemon_started: "rd_daemon r = Started \<Longrightarrow> daemon E r = (True, r)"
  by (simp add: daemon_def)

text \<open>A round in which the responder does not take the withdrawal of a name.\<close>

definition refuses :: "ustring \<Rightarrow> advert_round \<Rightarrow> bool" where
  "refuses name rnd \<longleftrightarrow>
     (case rnd of Lapsed E \<Rightarrow> \<not> re_withdraws E name | Unchanged \<Rightarrow> False | Replace E _ _ \<Rightarrow> \<not> re_withdraws E name)"

text \<open>\<open>refused\<close> says whether some withdrawal was not taken so far; only then can a record outlive its guard.\<close>

definition advert_inv :: "ustring \<Rightarrow> bool \<Rightarrow> (ustring \<Rightarrow> advert option) \<Rightarrow> advert option \<times> mdns_responder \<Rightarrow> bool" where
  "advert_inv name refused others st \<longleftrightarrow>
     (case st of (guard, r) \<Rightarrow>
        (\<forall>n. n \<noteq> name \<longrightarrow> rd_live r n = others n)
        \<and> (\<forall>ad. guard = Some ad \<longrightarrow> fullname ad = name \<and> rd_daemon r = Started \<and> rd_live r name = Some ad)
        \<and> (guard = None \<longrightarrow> rd_live r name = None \<or> refused))"

lemma drop_inv:
  assumes "advert_inv name refused others (guard, r)"
  shows "advert_inv name (refused \<or> \<not> re_withdraws E name) others (None, drop_advert E guard r)"
  using assms by (cases guard) (auto simp: advert_inv_def drop_advert_def daemon_started)

lemma advertise_inv:
  assumes "advert_inv (inst @ 46 # t) refused others (None, r)" "responder_advertise E t inst content addrs r = (q, r')"
  shows "advert_inv (inst @ 46 # t) refused others ((case q of Inl _ \<Rightarrow> None | Inr ad \<Rightarrow> Some ad), r')"
  using assms advertised_name [of "re_builds E" t inst content addrs]
  by (auto simp: responder_advertise_def advert_inv_def split: sum.splits prod.splits bool.splits if_splits dest!: daemonD)

lemma advert_step_inv:
  assumes "advert_inv (inst @ 46 # t) refused others st"
  shows "advert_inv (inst @ 46 # t) (refused \<or> refuses (inst @ 46 # t) rnd) others (advert_step t inst rnd st)"
proof (cases st)
  case (Pair guard r)
  note d = drop_inv [OF assms [unfolded Pair]]
  show ?thesis
  proof (cases rnd)
    case (Replace E content addrs)
    obtain q r' where q: "responder_advertise E t inst content addrs (drop_advert E guard r) = (q, r')" by fastforce
    from advertise_inv [OF d [of E] q] q show ?thesis
      by (cases q) (simp_all add: Pair Replace advert_step_def refuses_def)
  qed (use assms d Pair in \<open>auto simp: advert_step_def refuses_def\<close>)
qed

lemma advert_run_inv:
  "advert_inv (inst @ 46 # t) refused others st \<Longrightarrow>
   advert_inv (inst @ 46 # t) (refused \<or> list_ex (refuses (inst @ 46 # t)) rnds) others (advert_run t inst rnds st)"
  unfolding advert_run_def
proof (induction rnds arbitrary: st refused)
  case (Cons rnd rnds)
  from Cons.IH [OF advert_step_inv [OF Cons.prems, of rnd]] show ?case by (simp add: disj_assoc)
qed simp

text \<open>
  Property C34. A device is on the local network while its publisher holds it there, and no longer unless a
  withdrawal was not taken. Through any number of rounds, whatever the responder answers in each, the names
  of others are untouched, and while the publisher holds a record its own name carries that very record:
  withdrawing the old record never takes the new one of the same name with it. When it holds none, its name
  carries nothing, unless in some round the responder did not take the withdrawal; a record can outlive its
  guard in no other way.
\<close>

theorem advertisement_held:
  assumes "rd_live r (inst @ 46 # t) = None"
  shows "case advert_run t inst rnds (None, r) of (guard, r') \<Rightarrow>
     (\<forall>ad. guard = Some ad \<longrightarrow> rd_live r' (inst @ 46 # t) = Some ad)
     \<and> (guard = None \<longrightarrow> rd_live r' (inst @ 46 # t) = None \<or> (\<exists>rnd \<in> set rnds. refuses (inst @ 46 # t) rnd))
     \<and> (\<forall>name. name \<noteq> inst @ 46 # t \<longrightarrow> rd_live r' name = rd_live r name)"
proof -
  have "advert_inv (inst @ 46 # t) False (rd_live r) (None, r)" using assms by (simp add: advert_inv_def)
  from advert_run_inv [OF this, of rnds] show ?thesis
    by (auto simp: advert_inv_def list_ex_iff split: prod.splits)
qed

text \<open>
  A withdrawal that is not taken is not tried again: the guard is gone, and the record of a peer whose
  card has lapsed stands for as long as nothing replaces it.
\<close>

lemma refused_record_stands:
  assumes "fullname ad = inst @ 46 # t" "rd_live r (inst @ 46 # t) = Some ad" "\<not> re_withdraws E (inst @ 46 # t)"
    and "list_all (\<lambda>rnd. case rnd of Replace _ _ _ \<Rightarrow> False | _ \<Rightarrow> True) rnds"
  shows "\<exists>r'. advert_run t inst (Lapsed E # rnds) (Some ad, r) = (None, r') \<and> rd_live r' (inst @ 46 # t) = Some ad"
proof -
  have "\<exists>r'. fold (advert_step t inst) rnds (None, s) = (None, r') \<and> rd_live r' = rd_live s" for s
    using assms(4) by (induction rnds) (auto simp: advert_step_def drop_advert_def split: advert_round.splits)
  moreover have "rd_live (drop_advert E (Some ad) r) (inst @ 46 # t) = Some ad"
    using assms(1-3) by (auto simp: drop_advert_def split: prod.split bool.split dest!: daemonD)
  ultimately show ?thesis by (simp add: advert_run_def advert_step_def) metis
qed

text \<open>Registering the new record before dropping the guard of the old one would withdraw both.\<close>

lemma replaced_before_withdrawn:
  assumes "responder_advertise E t inst content addrs r = (Inr fresh, r')" "fullname old = inst @ 46 # t"
    and "re_withdraws E (inst @ 46 # t)"
  shows "rd_live (drop_advert E (Some old) r') (inst @ 46 # t) = None"
proof -
  from assms(1) have "rd_daemon r' = Started"
    by (auto simp: responder_advertise_def daemon_def split: sum.splits prod.splits bool.splits if_splits daemon_slot.splits)
  with assms(2,3) show ?thesis by (simp add: drop_advert_def daemon_started)
qed

text \<open>A responder that failed to start once is never tried again.\<close>

lemma failed_start_stays:
  "rd_daemon r = StartFailed \<Longrightarrow> responder_advertise E t inst content addrs r = (Inr ad, r') \<Longrightarrow> False"
  by (auto simp: responder_advertise_def daemon_def split: sum.splits if_splits)

section \<open>Witness\<close>

definition demo_env :: responder_env where
  "demo_env = \<lparr>re_starts = True, re_builds = (\<lambda>_. True), re_registers = (\<lambda>_. True), re_withdraws = (\<lambda>_. True)\<rparr>"

definition demo_at :: "u16 \<Rightarrow> socket_addr list" where
  "demo_at p = [\<lparr>sa_ip = V4 (IPv4 10 0 0 7), sa_port = p\<rparr>]"

lemma advertisement_held_witness:
  "\<exists>ad r'. advert_run [104] [97] [Replace demo_env [1] (demo_at 4433), Replace demo_env [2] (demo_at 4444)]
        (None, \<lparr>rd_daemon = NotStarted, rd_live = (\<lambda>_. None)\<rparr>) = (Some ad, r')
     \<and> rd_live r' [97, 46, 104] = Some ad \<and> ad_port ad = 4444"
proof -
  let ?r = "\<lparr>rd_daemon = NotStarted, rd_live = (\<lambda>_. None)\<rparr>"
  let ?run = "advert_run [104] [97] [Replace demo_env [1] (demo_at 4433), Replace demo_env [2] (demo_at 4444)] (None, ?r)"
  have "\<exists>ad. fst ?run = Some ad \<and> ad_port ad = 4444"
    by (simp add: advert_run_def advert_step_def responder_advertise_def dnssd_advertise_def split_ports_def drop_advert_def
        daemon_def demo_env_def demo_at_def fullname_def Let_def map_filter_simps)
  with advertisement_held [where r = ?r and t = "[104]" and inst = "[97]"
      and rnds = "[Replace demo_env [1] (demo_at 4433), Replace demo_env [2] (demo_at 4444)]"]
  show ?thesis by (cases ?run) (auto simp: refuses_def)
qed

end
