(* ===== verification/Android.thy ===== *)
theory Android
  imports Ffi
begin

text \<open>
  The JNI surface of the Android app (\<open>duocb-ffi/src/android.rs\<close>): the same session lifecycle and
  helpers as the C surface, over Java strings. The virtual machine is a parameter: how it reads one of
  its strings and whether it can make one. \<open>None\<close> is a Java null; a handle is \<open>None\<close> for the
  \<open>jlong\<close> 0. Where the shared code panics, which aborts the app, the whole result is \<open>None\<close>.
\<close>

section \<open>Java strings\<close>

record 'j jvm =
  jv_get :: "'j \<Rightarrow> ustring option"
  jv_new :: "ustring \<Rightarrow> 'j option"

definition get_string :: "'j jvm \<Rightarrow> 'j option \<Rightarrow> ustring option" where
  "get_string J s = (case s of None \<Rightarrow> None | Some j \<Rightarrow> jv_get J j)"

definition new_jstring :: "'j jvm \<Rightarrow> ustring \<Rightarrow> 'j option" where
  "new_jstring J s = jv_new J s"

definition or_default :: "ustring option \<Rightarrow> ustring" where
  "or_default s = (case s of None \<Rightarrow> [] | Some t \<Rightarrow> t)"

text \<open>\<open>out\<close> is the Java array, null or its elements.\<close>

definition set_out :: "'j jvm \<Rightarrow> 'j option list option \<Rightarrow> ustring \<Rightarrow> 'j option list option" where
  "set_out J out value =
     (case jv_new J value of
        None \<Rightarrow> out
      | Some j \<Rightarrow> (case out of None \<Rightarrow> None | Some [] \<Rightarrow> Some [] | Some (_ # js) \<Rightarrow> Some (Some j # js)))"

definition parsed_jstring :: "'j jvm \<Rightarrow> (ustring \<Rightarrow> 'e + 'a) \<Rightarrow> 'j option \<Rightarrow> 'a option" where
  "parsed_jstring J f s = Option.bind (get_string J s) (\<lambda>t. case f t of Inl _ \<Rightarrow> None | Inr x \<Rightarrow> Some x)"

section \<open>Setting the process up\<close>

text \<open>
  \<open>init\<close> looks at the cell, captures the machine and the context, registers them, and sets the cell.
  \<open>ndk-context\<close> aborts on a second registration; \<open>None\<close> is that abort.
\<close>

record android_process =
  an_cell :: bool
  an_registered :: bool

definition register_context :: "android_process \<Rightarrow> android_process option" where
  "register_context p = (if an_registered p then None else Some (p\<lparr>an_registered := True\<rparr>))"

definition jni_init :: "bool \<Rightarrow> android_process \<Rightarrow> android_process option" where
  "jni_init captured p =
     (if an_cell p then Some p
      else if \<not> captured then Some p
      else map_option (\<lambda>q. q\<lparr>an_cell := True\<rparr>) (register_context p))"

section \<open>Identity, card and name helpers\<close>

definition jni_generate_identity :: "crypto \<Rightarrow> 'j jvm \<Rightarrow> seckey \<Rightarrow> 'j option" where
  "jni_generate_identity C J fresh = new_jstring J (to_nsec C (identity_generate fresh))"

definition jni_generate_suffix :: "'j jvm \<Rightarrow> (nat \<Rightarrow> nat) \<Rightarrow> 'j option" where
  "jni_generate_suffix J rng = new_jstring J (generate_suffix rng)"

definition jni_generate_iroh_secret :: "'j jvm \<Rightarrow> bytes \<Rightarrow> 'j option" where
  "jni_generate_iroh_secret J fresh = new_jstring J (hex fresh)"

definition jni_validate_identity :: "'n ffi \<Rightarrow> 'j jvm \<Rightarrow> 'j option \<Rightarrow> 'j option" where
  "jni_validate_identity X J nsec =
     (case get_string J nsec of
        None \<Rightarrow> new_jstring J (ascii ''invalid private key'')
      | Some s \<Rightarrow>
          (case parse_nsec (fx_crypto X) s of Inr _ \<Rightarrow> None | Inl e \<Rightarrow> new_jstring J (fx_auth_error X e)))"

definition jni_identity_public_key :: "crypto \<Rightarrow> 'j jvm \<Rightarrow> 'j option \<Rightarrow> 'j option" where
  "jni_identity_public_key C J nsec =
     (case parsed_jstring J (parse_nsec C) nsec of
        Some i \<Rightarrow> new_jstring J (to_npub C i)
      | None \<Rightarrow> None)"

definition jni_identity_fingerprint :: "crypto \<Rightarrow> 'j jvm \<Rightarrow> 'j option \<Rightarrow> 'j option" where
  "jni_identity_fingerprint C J nsec =
     (case parsed_jstring J (parse_nsec C) nsec of
        Some i \<Rightarrow> new_jstring J (key_fingerprint C (identity_public C i))
      | None \<Rightarrow> None)"

definition jni_validate_name :: "'n ffi \<Rightarrow> 'j jvm \<Rightarrow> 'j option \<Rightarrow> 'j option" where
  "jni_validate_name X J name =
     (case get_string J name of
        None \<Rightarrow> new_jstring J (ascii ''enter a name'')
      | Some s \<Rightarrow> (case validate_name s of Inr _ \<Rightarrow> None | Inl e \<Rightarrow> new_jstring J (fx_name_error X e)))"

definition jni_display_identity :: "'j jvm \<Rightarrow> 'j option \<Rightarrow> 'j option \<Rightarrow> 'j option" where
  "jni_display_identity J name suffix =
     new_jstring J (display_identity (or_default (get_string J name)) (or_default (get_string J suffix)))"

definition jni_create_identity_card ::
    "crypto \<Rightarrow> 'j jvm \<Rightarrow> u64 \<Rightarrow> 'j option \<Rightarrow> 'j option \<Rightarrow> 'j option \<Rightarrow> 'j option" where
  "jni_create_identity_card C J now nsec name suffix =
     (case (get_string J nsec, get_string J name, get_string J suffix) of
        (Some k, Some n, Some s) \<Rightarrow>
          (case parse_nsec C k of
             Inl _ \<Rightarrow> None
           | Inr i \<Rightarrow> (case card_mint C now i n s of Inr c \<Rightarrow> new_jstring J (card_encode C c) | Inl _ \<Rightarrow> None))
      | _ \<Rightarrow> None)"

definition jni_validate_identity_card :: "'n ffi \<Rightarrow> 'j jvm \<Rightarrow> 'j option \<Rightarrow> 'j option" where
  "jni_validate_identity_card X J encoded =
     (case get_string J encoded of
        None \<Rightarrow> new_jstring J (ascii ''invalid identity card'')
      | Some s \<Rightarrow>
          (case card_parse (fx_crypto X) s of Inr _ \<Rightarrow> None | Inl e \<Rightarrow> new_jstring J (fx_auth_error X e)))"

definition jni_identity_card_info :: "'n ffi \<Rightarrow> 'j jvm \<Rightarrow> u64 \<Rightarrow> 'j option \<Rightarrow> 'j option option" where
  "jni_identity_card_info X J now encoded =
     (case parsed_jstring J (card_parse (fx_crypto X)) encoded of
        Some c \<Rightarrow> map_option (\<lambda>j. new_jstring J (fx_json X j)) (identity_card_json (fx_crypto X) now c)
      | None \<Rightarrow> Some None)"

definition jni_pairing_code :: "crypto \<Rightarrow> 'j jvm \<Rightarrow> 'j option \<Rightarrow> 'j option \<Rightarrow> 'j option" where
  "jni_pairing_code C J a b =
     (case (get_string J a, get_string J b) of
        (Some sa, Some sb) \<Rightarrow>
          (case (card_parse C sa, card_parse C sb) of
             (Inr ca, Inr cb) \<Rightarrow>
               (case pairing_code C (card_public_key ca) (card_public_key cb) of
                  Some code \<Rightarrow> new_jstring J code
                | None \<Rightarrow> None)
           | _ \<Rightarrow> None)
      | _ \<Rightarrow> None)"

definition jni_session_role :: "crypto \<Rightarrow> 'j jvm \<Rightarrow> 'j option \<Rightarrow> 'j option \<Rightarrow> int" where
  "jni_session_role C J self_card peer_card =
     (case (get_string J self_card, get_string J peer_card) of
        (Some sm, Some st) \<Rightarrow>
          (case (card_parse C sm, card_parse C st) of
             (Inr mine, Inr theirs) \<Rightarrow>
               (if card_public_key mine = card_public_key theirs then - 1
                else case session_role (card_public_key mine) (card_public_key theirs) of Host \<Rightarrow> 1 | Dial \<Rightarrow> 0)
           | _ \<Rightarrow> - 1)
      | _ \<Rightarrow> - 1)"

section \<open>PIN and address helpers\<close>

definition jni_normalize_pin :: "'j jvm \<Rightarrow> 'j option \<Rightarrow> 'j option" where
  "jni_normalize_pin J pin =
     (case Option.bind (get_string J pin) normalize_pin of
        Some accepted \<Rightarrow> new_jstring J accepted
      | None \<Rightarrow> None)"

definition jni_format_pin :: "'j jvm \<Rightarrow> 'j option \<Rightarrow> 'j option option" where
  "jni_format_pin J pin = map_option (new_jstring J) (format_pin (or_default (get_string J pin)))"

definition jni_sanitize_pin_chars :: "'j jvm \<Rightarrow> 'j option \<Rightarrow> 'j option" where
  "jni_sanitize_pin_chars J input = new_jstring J (sanitize_pin_chars (or_default (get_string J input)))"

definition jni_split_pin_groups :: "'n ffi \<Rightarrow> 'j jvm \<Rightarrow> 'j option \<Rightarrow> 'j option \<Rightarrow> 'j option" where
  "jni_split_pin_groups X J first second =
     (case split_pin_groups (or_default (get_string J first)) (or_default (get_string J second)) of
        (p, q) \<Rightarrow> new_jstring J (fx_json X (jobj [(''first'', JStr p), (''second'', JStr q)])))"

definition jni_pin_progress :: "'n ffi \<Rightarrow> 'j jvm \<Rightarrow> 'j option \<Rightarrow> 'j option" where
  "jni_pin_progress X J input =
     new_jstring J (fx_json X (jobj [(''entered'', JNum (pin_input_len (or_default (get_string J input)))),
       (''total'', JNum PIN_LEN), (''group'', JNum PIN_GROUP_LEN)]))"

definition jni_join_ip_context :: "'n ffi \<Rightarrow> 'j jvm \<Rightarrow> nat option \<Rightarrow> 'n interface list \<Rightarrow> 'j option" where
  "jni_join_ip_context X J default_if ifaces =
     (let N = fx_ipnet X; c = local_private_ipv4_subnets N default_if ifaces in
      new_jstring J (fx_json X (jobj [(''prefix'', JStr (locked_prefix N c)),
        (''placeholder'', JStr (host_placeholder N c)), (''hint'', JStr (hint N c)), (''label'', JStr (constraint_label N c))])))"

definition join_ip_json :: "join_ip_outcome \<Rightarrow> json" where
  "join_ip_json r =
     (case r of
        InRange addr \<Rightarrow> jobj [(''outcome'', jstr ''in_range''), (''ip'', JStr (show_ipv4 addr))]
      | OutOfRange \<Rightarrow> jobj [(''outcome'', jstr ''out_of_range'')]
      | Empty \<Rightarrow> jobj [(''outcome'', jstr ''empty'')]
      | Malformed \<Rightarrow> jobj [(''outcome'', jstr ''malformed'')])"

definition jni_resolve_join_ip ::
    "'n ffi \<Rightarrow> 'j jvm \<Rightarrow> nat option \<Rightarrow> 'n interface list \<Rightarrow> 'j option \<Rightarrow> 'j option" where
  "jni_resolve_join_ip X J default_if ifaces entry =
     (let N = fx_ipnet X; c = local_private_ipv4_subnets N default_if ifaces
      in new_jstring J (fx_json X (join_ip_json (resolve_entry N c (or_default (get_string J entry))))))"

section \<open>Sessions\<close>

definition jni_start ::
    "'n ffi \<Rightarrow> (ffi_error \<Rightarrow> ustring) \<Rightarrow> 'j jvm \<Rightarrow> bool \<Rightarrow> 'j option \<Rightarrow> 'j option list option \<Rightarrow> process
     \<Rightarrow> handle option \<times> 'j option list option \<times> process" where
  "jni_start X explain J runtime_builds config_json out p =
     (case get_string J config_json of
        None \<Rightarrow> (None, set_out J out (ascii ''configJson is not a valid string''), p)
      | Some json \<Rightarrow>
          (case start_ffi_session X runtime_builds json p of
             (Inr (_, h), p') \<Rightarrow> (Some h, out, p')
           | (Inl e, p') \<Rightarrow> (None, set_out J out (explain e), p')))"

definition jni_next_event :: "'n ffi \<Rightarrow> 'j jvm \<Rightarrow> u64 \<Rightarrow> handle option \<Rightarrow> ('j option \<times> handle option) option" where
  "jni_next_event X J now hp =
     (case hp of
        None \<Rightarrow> Some (None, None)
      | Some h \<Rightarrow>
          (case take_event X now h of
             None \<Rightarrow> None
           | Some (Some json, h') \<Rightarrow> Some (new_jstring J json, Some h')
           | Some (None, h') \<Rightarrow> Some (None, Some h')))"

definition jni_send_clipboard :: "'j jvm \<Rightarrow> handle option \<Rightarrow> 'j option \<Rightarrow> int \<times> handle option" where
  "jni_send_clipboard J hp msg =
     (case (hp, get_string J msg) of
        (Some h, Some s) \<Rightarrow> (0, Some (h_send (SendClipboard s) h))
      | _ \<Rightarrow> (- 1, hp))"

definition jni_query_conn_path :: "handle option \<Rightarrow> int \<times> handle option" where
  "jni_query_conn_path hp = (case hp of Some h \<Rightarrow> (0, Some (h_send QueryConnPath h)) | None \<Rightarrow> (- 1, None))"

definition jni_refresh_pin :: "handle option \<Rightarrow> int \<times> handle option" where
  "jni_refresh_pin hp = (case hp of Some h \<Rightarrow> (0, Some (h_send RefreshPin h)) | None \<Rightarrow> (- 1, None))"

definition jni_disconnect :: "handle option \<Rightarrow> int \<times> handle option" where
  "jni_disconnect hp = (case hp of Some h \<Rightarrow> (0, Some (h_send (h_disconnect h) h)) | None \<Rightarrow> (- 1, None))"

definition jni_is_running :: "handle option \<Rightarrow> int" where
  "jni_is_running hp = (case hp of Some h \<Rightarrow> if h_alive h then 1 else 0 | None \<Rightarrow> - 1)"

definition jni_reconnect :: "handle option \<Rightarrow> int \<times> handle option" where
  "jni_reconnect hp =
     (case hp of
        Some h \<Rightarrow> (case h_reconnect h of (True, h') \<Rightarrow> (0, Some h') | (False, h') \<Rightarrow> (- 2, Some h'))
      | None \<Rightarrow> (- 1, None))"

text \<open>The handle is freed; what is left is the process.\<close>

definition jni_stop :: "handle option \<Rightarrow> process \<Rightarrow> process" where
  "jni_stop hp p = (case hp of None \<Rightarrow> p | Some h \<Rightarrow> snd (h_shutdown h p))"

section \<open>The same answers as the C surface\<close>

text \<open>A machine that never runs out of memory and reads its own strings back.\<close>

definition sound_jvm :: "'j jvm \<Rightarrow> bool" where
  "sound_jvm J \<longleftrightarrow> (\<forall>s. \<exists>j. jv_new J s = Some j \<and> jv_get J j = Some s)"

text \<open>One answer, told as a Java string or null and as a C buffer and code.\<close>

definition same_answer :: "'j jvm \<Rightarrow> 'j option \<Rightarrow> (bytes option \<Rightarrow> int \<times> bytes option) \<Rightarrow> bool" where
  "same_answer J v c \<longleftrightarrow>
     (\<exists>r. (case v of None \<Rightarrow> r = None | Some j \<Rightarrow> jv_get J j = r \<and> r \<noteq> None) \<and> c = (\<lambda>out. printed out r))"

definition same_verdict :: "'j jvm \<Rightarrow> 'j option \<Rightarrow> (bytes option \<Rightarrow> int \<times> bytes option) \<Rightarrow> bool" where
  "same_verdict J v c \<longleftrightarrow>
     (case v of
        None \<Rightarrow> c = (\<lambda>err. (1, err))
      | Some j \<Rightarrow> (\<exists>s. jv_get J j = Some s \<and> c = (\<lambda>err. (0, snd (write_cstr err s)))))"

text \<open>An entry that is a PIN is written out; one that is not is null here and 0 in C.\<close>

definition same_entry :: "'j jvm \<Rightarrow> 'j option \<Rightarrow> (bytes option \<Rightarrow> int \<times> bytes option) \<Rightarrow> bool" where
  "same_entry J v c \<longleftrightarrow>
     (case v of
        None \<Rightarrow> c = (\<lambda>out. (0, out))
      | Some j \<Rightarrow> (\<exists>s. jv_get J j = Some s \<and> c = (\<lambda>out. case write_cstr out s of (fits, out') \<Rightarrow> (if fits then 1 else - 1, out'))))"

text \<open>Where the shared code panics, both abort.\<close>

definition same_or_abort ::
    "'j jvm \<Rightarrow> 'j option option \<Rightarrow> (bytes option \<Rightarrow> (int \<times> bytes option) option) \<Rightarrow> bool" where
  "same_or_abort J v c \<longleftrightarrow>
     (case v of
        None \<Rightarrow> c = (\<lambda>_. None)
      | Some w \<Rightarrow> (\<exists>c'. c = (\<lambda>out. Some (c' out)) \<and> same_answer J w c'))"

text \<open>
  The one helper whose two forms differ: Java gets the outcome as JSON, C as a code, with the address
  written out when there is one.
\<close>

definition join_ip_code :: "join_ip_outcome \<Rightarrow> bytes option \<Rightarrow> int \<times> bytes option" where
  "join_ip_code r out =
     (case r of
        InRange addr \<Rightarrow> (case write_cstr out (show_ipv4 addr) of (fits, out') \<Rightarrow> (if fits then 1 else - 1, out'))
      | OutOfRange \<Rightarrow> (0, out)
      | Empty \<Rightarrow> (2, out)
      | Malformed \<Rightarrow> (- 1, out))"

definition same_outcome :: "'n ffi \<Rightarrow> 'j jvm \<Rightarrow> 'j option \<Rightarrow> (bytes option \<Rightarrow> int \<times> bytes option) \<Rightarrow> bool" where
  "same_outcome X J v c \<longleftrightarrow>
     (\<exists>r. Option.bind v (jv_get J) = Some (fx_json X (join_ip_json r)) \<and> c = join_ip_code r)"

lemma same_answerI:
  assumes "sound_jvm J" "v = Option.bind r (new_jstring J)" "c = (\<lambda>out. printed out r)"
  shows "same_answer J v c"
proof (cases r)
  case (Some s)
  obtain j where "jv_new J s = Some j" "jv_get J j = Some s" using assms(1) by (auto simp: sound_jvm_def)
  with Some assms(2,3) show ?thesis by (auto simp: same_answer_def new_jstring_def intro!: exI [of _ "Some s"])
qed (use assms in \<open>auto simp: same_answer_def\<close>)

lemma same_verdictI:
  assumes "sound_jvm J" "cstr_arg p = Some s"
    and "v = (case check s of Inr _ \<Rightarrow> None | Inl e \<Rightarrow> new_jstring J (explain e))"
  shows "same_verdict J v (validator explain check p)"
proof (cases "check s")
  case (Inl e)
  obtain j where "jv_new J (explain e) = Some j" "jv_get J j = Some (explain e)" using assms(1) by (auto simp: sound_jvm_def)
  with Inl assms show ?thesis by (auto simp: same_verdict_def new_jstring_def validator_def)
qed (use assms in \<open>auto simp: same_verdict_def validator_def\<close>)

lemma parsed_same: "cstr_arg p = get_string J q \<Longrightarrow> parsed f p = parsed_jstring J f q"
  by (simp add: parsed_def parsed_jstring_def)

lemma card_text_same:
  assumes "cstr_arg p = get_string J q" "cstr_arg p' = get_string J q'" "cstr_arg p'' = get_string J q''"
  shows "jni_create_identity_card C J now q q' q'' = Option.bind
      (case (parsed (parse_nsec C) p, cstr_arg p', cstr_arg p'') of
        (Some i, Some n, Some s) \<Rightarrow> (case card_mint C now i n s of Inl _ \<Rightarrow> None | Inr c \<Rightarrow> Some (card_encode C c))
      | _ \<Rightarrow> None) (new_jstring J)"
  by (simp add: jni_create_identity_card_def parsed_def assms split: option.split sum.split)

lemma cards_same:
  assumes "cstr_arg p = get_string J q" "cstr_arg p' = get_string J q'"
  shows "jni_pairing_code C J q q' = Option.bind
      (case (parsed (card_parse C) p, parsed (card_parse C) p') of
        (Some ca, Some cb) \<Rightarrow> pairing_code C (card_public_key ca) (card_public_key cb)
      | _ \<Rightarrow> None) (new_jstring J)"
    and "jni_session_role C J q q' = duocb_session_role C p p'"
  by (simp_all add: jni_pairing_code_def jni_session_role_def duocb_session_role_def parsed_def assms
      split: option.split sum.split)

lemma jni_helpers_like_c:
  assumes "sound_jvm J" "cstr_arg p = get_string J q" "cstr_arg p' = get_string J q'" "cstr_arg p'' = get_string J q''"
  shows "same_answer J (jni_identity_public_key C J q) (duocb_identity_public_key C p)"
    and "same_answer J (jni_identity_fingerprint C J q) (duocb_identity_fingerprint C p)"
    and "same_answer J (jni_create_identity_card C J now q q' q'') (duocb_create_identity_card C now p p' p'')"
    and "same_answer J (jni_pairing_code C J q q') (duocb_pairing_code C p p')"
    and "jni_session_role C J q q' = duocb_session_role C p p'"
    and "get_string J q \<noteq> None \<Longrightarrow> get_string J q' \<noteq> None \<Longrightarrow>
      same_answer J (jni_display_identity J q q') (duocb_display_identity p p')
      \<and> same_answer J (jni_split_pin_groups X J q q') (duocb_split_pin_groups X p p')
      \<and> same_answer J (jni_sanitize_pin_chars J q) (duocb_sanitize_pin_chars p)
      \<and> same_answer J (jni_pin_progress X J q) (duocb_pin_progress X p)
      \<and> same_verdict J (jni_validate_identity X J q) (duocb_validate_identity X p)
      \<and> same_verdict J (jni_validate_name X J q) (duocb_validate_name X p)
      \<and> same_verdict J (jni_validate_identity_card X J q) (duocb_validate_identity_card X p)"
proof -
  note eq = parsed_same [OF assms(2)]
  show "same_answer J (jni_identity_public_key C J q) (duocb_identity_public_key C p)"
    by (rule same_answerI [OF assms(1)]) (auto simp: jni_identity_public_key_def duocb_identity_public_key_def eq fun_eq_iff split: option.split)
  show "same_answer J (jni_identity_fingerprint C J q) (duocb_identity_fingerprint C p)"
    by (rule same_answerI [OF assms(1)]) (auto simp: jni_identity_fingerprint_def duocb_identity_fingerprint_def eq split: option.split)
  show "same_answer J (jni_create_identity_card C J now q q' q'') (duocb_create_identity_card C now p p' p'')"
    by (rule same_answerI [OF assms(1) card_text_same [OF assms(2-4)]]) (simp add: duocb_create_identity_card_def fun_eq_iff)
  show "same_answer J (jni_pairing_code C J q q') (duocb_pairing_code C p p')"
    by (rule same_answerI [OF assms(1) cards_same(1) [OF assms(2,3)]]) (simp add: duocb_pairing_code_def fun_eq_iff)
  show "jni_session_role C J q q' = duocb_session_role C p p'" by (rule cards_same(2) [OF assms(2,3)])
  assume "get_string J q \<noteq> None" "get_string J q' \<noteq> None"
  then obtain s t where t: "cstr_arg p = Some s" "cstr_arg p' = Some t" "get_string J q = Some s" "get_string J q' = Some t"
    using assms(2,3) by auto
  show "same_answer J (jni_display_identity J q q') (duocb_display_identity p p')
      \<and> same_answer J (jni_split_pin_groups X J q q') (duocb_split_pin_groups X p p')
      \<and> same_answer J (jni_sanitize_pin_chars J q) (duocb_sanitize_pin_chars p)
      \<and> same_answer J (jni_pin_progress X J q) (duocb_pin_progress X p)
      \<and> same_verdict J (jni_validate_identity X J q) (duocb_validate_identity X p)
      \<and> same_verdict J (jni_validate_name X J q) (duocb_validate_name X p)
      \<and> same_verdict J (jni_validate_identity_card X J q) (duocb_validate_identity_card X p)"
  proof (intro conjI)
    show "same_answer J (jni_display_identity J q q') (duocb_display_identity p p')"
      by (rule same_answerI [OF assms(1), where r = "Some (display_identity s t)"])
        (simp_all add: jni_display_identity_def duocb_display_identity_def or_default_def t fun_eq_iff)
    show "same_answer J (jni_split_pin_groups X J q q') (duocb_split_pin_groups X p p')"
      by (rule same_answerI [OF assms(1), where r = "case split_pin_groups s t of (a, b) \<Rightarrow>
            Some (fx_json X (jobj [(''first'', JStr a), (''second'', JStr b)]))"])
        (simp_all add: jni_split_pin_groups_def duocb_split_pin_groups_def or_default_def t fun_eq_iff split: prod.split)
    show "same_answer J (jni_sanitize_pin_chars J q) (duocb_sanitize_pin_chars p)"
      by (rule same_answerI [OF assms(1), where r = "Some (sanitize_pin_chars s)"])
        (simp_all add: jni_sanitize_pin_chars_def duocb_sanitize_pin_chars_def or_default_def t fun_eq_iff)
    show "same_answer J (jni_pin_progress X J q) (duocb_pin_progress X p)"
      by (rule same_answerI [OF assms(1), where r = "Some (fx_json X (jobj [(''entered'', JNum (pin_input_len s)),
            (''total'', JNum PIN_LEN), (''group'', JNum PIN_GROUP_LEN)]))"])
        (simp_all add: jni_pin_progress_def duocb_pin_progress_def or_default_def t fun_eq_iff)
    show "same_verdict J (jni_validate_identity X J q) (duocb_validate_identity X p)"
      unfolding duocb_validate_identity_def by (rule same_verdictI [OF assms(1) t(1)]) (simp add: jni_validate_identity_def t)
    show "same_verdict J (jni_validate_name X J q) (duocb_validate_name X p)"
      unfolding duocb_validate_name_def by (rule same_verdictI [OF assms(1) t(1)]) (simp add: jni_validate_name_def t)
    show "same_verdict J (jni_validate_identity_card X J q) (duocb_validate_identity_card X p)"
      unfolding duocb_validate_identity_card_def by (rule same_verdictI [OF assms(1) t(1)]) (simp add: jni_validate_identity_card_def t)
  qed
qed

lemma jni_makers_like_c:
  assumes "sound_jvm J"
  shows "same_answer J (jni_generate_identity C J fresh) (duocb_generate_identity C fresh)"
    and "same_answer J (jni_generate_suffix J rng) (duocb_generate_suffix rng)"
    and "same_answer J (jni_generate_iroh_secret J fresh) (duocb_generate_iroh_secret fresh)"
    and "same_answer J (jni_join_ip_context X J default_if ifaces) (duocb_join_ip_context X default_if ifaces)"
proof -
  have made: "same_answer J (new_jstring J s) (\<lambda>out. write_result out s)" for s
    by (rule same_answerI [OF assms, where r = "Some s"]) (simp_all add: printed_def)
  show "same_answer J (jni_generate_identity C J fresh) (duocb_generate_identity C fresh)"
    "same_answer J (jni_generate_suffix J rng) (duocb_generate_suffix rng)"
    "same_answer J (jni_generate_iroh_secret J fresh) (duocb_generate_iroh_secret fresh)"
    using made by (simp_all add: jni_generate_identity_def duocb_generate_identity_def [abs_def] jni_generate_suffix_def
        duocb_generate_suffix_def [abs_def] jni_generate_iroh_secret_def duocb_generate_iroh_secret_def [abs_def])
  show "same_answer J (jni_join_ip_context X J default_if ifaces) (duocb_join_ip_context X default_if ifaces)"
    using made by (simp add: jni_join_ip_context_def duocb_join_ip_context_def [abs_def] Let_def)
qed

lemma jni_card_info_like_c:
  assumes "sound_jvm J" "cstr_arg p = get_string J q"
  shows "same_or_abort J (jni_identity_card_info X J now q) (duocb_identity_card_info X now p)"
proof (cases "parsed (card_parse (fx_crypto X)) p")
  case None
  have "same_answer J None (\<lambda>out. (- 1, out))"
    by (rule same_answerI [OF assms(1), where r = None]) (simp_all add: printed_def)
  with None show ?thesis
    by (auto simp: same_or_abort_def jni_identity_card_info_def duocb_identity_card_info_def [abs_def] parsed_same [OF assms(2)]
        split: option.split)
next
  case (Some c)
  have "same_answer J (new_jstring J s) (\<lambda>out. write_result out s)" for s
    by (rule same_answerI [OF assms(1), where r = "Some s"]) (simp_all add: printed_def)
  with Some show ?thesis
    by (auto simp: same_or_abort_def jni_identity_card_info_def duocb_identity_card_info_def [abs_def] parsed_same [OF assms(2)]
        split: option.split)
qed

lemma jni_entries_like_c:
  assumes "sound_jvm J" "cstr_arg p = Some s" "get_string J q = Some s"
  shows "same_entry J (jni_normalize_pin J q) (duocb_normalize_pin p)"
    and "same_or_abort J (jni_format_pin J q) (duocb_format_pin p)"
    and "same_outcome X J (jni_resolve_join_ip X J default_if ifaces q) (duocb_resolve_join_ip X default_if ifaces p)"
proof -
  have made: "\<exists>j. jv_new J t = Some j \<and> jv_get J j = Some t" for t using assms(1) by (simp add: sound_jvm_def)
  have ans: "same_answer J (new_jstring J t) (\<lambda>out. write_result out t)" for t
    by (rule same_answerI [OF assms(1), where r = "Some t"]) (simp_all add: printed_def)
  show "same_entry J (jni_normalize_pin J q) (duocb_normalize_pin p)"
  proof (cases "normalize_pin s")
    case (Some t)
    with made [of t] assms(2,3) show ?thesis
      by (auto simp: same_entry_def jni_normalize_pin_def duocb_normalize_pin_def [abs_def] new_jstring_def)
  qed (simp add: same_entry_def jni_normalize_pin_def duocb_normalize_pin_def [abs_def] assms(2,3))
  show "same_or_abort J (jni_format_pin J q) (duocb_format_pin p)"
    using ans by (cases "format_pin s")
      (auto simp: same_or_abort_def jni_format_pin_def duocb_format_pin_def [abs_def] assms(2,3) or_default_def)
  let ?r = "resolve_entry (fx_ipnet X) (local_private_ipv4_subnets (fx_ipnet X) default_if ifaces) s"
  have "Option.bind (jni_resolve_join_ip X J default_if ifaces q) (jv_get J) = Some (fx_json X (join_ip_json ?r))"
    using made [of "fx_json X (join_ip_json ?r)"]
    by (auto simp: jni_resolve_join_ip_def Let_def or_default_def assms(3) new_jstring_def)
  moreover have "duocb_resolve_join_ip X default_if ifaces p = join_ip_code ?r"
    by (simp add: duocb_resolve_join_ip_def join_ip_code_def fun_eq_iff assms(2) split: join_ip_outcome.split)
  ultimately show "same_outcome X J (jni_resolve_join_ip X J default_if ifaces q) (duocb_resolve_join_ip X default_if ifaces p)"
    unfolding same_outcome_def by blast
qed

text \<open>
  Property C35. The Android surface answers like the C surface, in each of its twenty pure helpers. For
  the same texts and the same random draws, on a virtual machine that can make strings: a helper with a
  result returns the Java string of exactly what the C helper writes, and null where that reports invalid
  input; a validator returns null exactly where C says valid, and the reason C writes otherwise; both
  compute the same session role, accept the same PINs, abort on the same cards and PINs, and report the
  same outcome for a typed host address, which is JSON here and a code with the bare address in C. The
  second group takes a missing text differently on the two surfaces and is compared where the texts are there.
\<close>

theorem jni_answers_like_c:
  assumes "sound_jvm J" "cstr_arg p = get_string J q" "cstr_arg p' = get_string J q'" "cstr_arg p'' = get_string J q''"
  shows "same_answer J (jni_generate_identity C J fresh) (duocb_generate_identity C fresh)
    \<and> same_answer J (jni_generate_suffix J rng) (duocb_generate_suffix rng)
    \<and> same_answer J (jni_generate_iroh_secret J fresh) (duocb_generate_iroh_secret fresh)
    \<and> same_answer J (jni_identity_public_key C J q) (duocb_identity_public_key C p)
    \<and> same_answer J (jni_identity_fingerprint C J q) (duocb_identity_fingerprint C p)
    \<and> same_answer J (jni_create_identity_card C J now q q' q'') (duocb_create_identity_card C now p p' p'')
    \<and> same_or_abort J (jni_identity_card_info X J now q) (duocb_identity_card_info X now p)
    \<and> same_answer J (jni_pairing_code C J q q') (duocb_pairing_code C p p')
    \<and> jni_session_role C J q q' = duocb_session_role C p p'
    \<and> same_answer J (jni_join_ip_context X J default_if ifaces) (duocb_join_ip_context X default_if ifaces)
    \<and> (get_string J q \<noteq> None \<longrightarrow> get_string J q' \<noteq> None \<longrightarrow>
         same_answer J (jni_display_identity J q q') (duocb_display_identity p p')
         \<and> same_answer J (jni_split_pin_groups X J q q') (duocb_split_pin_groups X p p')
         \<and> same_answer J (jni_sanitize_pin_chars J q) (duocb_sanitize_pin_chars p)
         \<and> same_answer J (jni_pin_progress X J q) (duocb_pin_progress X p)
         \<and> same_verdict J (jni_validate_identity X J q) (duocb_validate_identity X p)
         \<and> same_verdict J (jni_validate_name X J q) (duocb_validate_name X p)
         \<and> same_verdict J (jni_validate_identity_card X J q) (duocb_validate_identity_card X p)
         \<and> same_entry J (jni_normalize_pin J q) (duocb_normalize_pin p)
         \<and> same_or_abort J (jni_format_pin J q) (duocb_format_pin p)
         \<and> same_outcome X J (jni_resolve_join_ip X J default_if ifaces q) (duocb_resolve_join_ip X default_if ifaces p))"
proof -
  note makers = jni_makers_like_c [OF assms(1)]
  note helpers = jni_helpers_like_c [OF assms]
  note info = jni_card_info_like_c [OF assms(1,2)]
  have entries: "same_entry J (jni_normalize_pin J q) (duocb_normalize_pin p)
     \<and> same_or_abort J (jni_format_pin J q) (duocb_format_pin p)
     \<and> same_outcome X J (jni_resolve_join_ip X J default_if ifaces q) (duocb_resolve_join_ip X default_if ifaces p)"
    if t: "get_string J q \<noteq> None"
  proof -
    from t obtain s where "get_string J q = Some s" by blast
    with assms(2) jni_entries_like_c [OF assms(1), of p s q] show ?thesis by simp
  qed
  show ?thesis by (intro conjI makers helpers(1-5) info impI)
    (use helpers(6) [where X = X] entries in simp_all)
qed

text \<open>A machine whose strings are texts, and a name typed on both surfaces.\<close>

definition demo_jvm :: "ustring jvm" where
  "demo_jvm = \<lparr>jv_get = Some, jv_new = Some\<rparr>"

lemma demo_jvm_sound: "sound_jvm demo_jvm"
  by (simp add: sound_jvm_def demo_jvm_def)

lemma demo_arg: "cstr_arg (Some [97, 98, 0]) = get_string demo_jvm (Some [97, 98])"
proof -
  have "utf8_decode (utf8 [97, 98]) = Some [97, 98]" by (rule utf8_decode_utf8) (simp add: valid_text_def valid_scalar_def)
  then show ?thesis by (simp add: cstr_arg_def get_string_def demo_jvm_def)
qed

lemma jni_answers_like_c_witness:
  "same_verdict demo_jvm (jni_validate_name sample_ffi demo_jvm (Some [97, 98])) (duocb_validate_name sample_ffi (Some [97, 98, 0]))
   \<and> same_answer demo_jvm (jni_sanitize_pin_chars demo_jvm (Some [97, 98])) (duocb_sanitize_pin_chars (Some [97, 98, 0]))"
proof -
  have g: "get_string demo_jvm (Some [97, 98]) \<noteq> None" by (simp add: get_string_def demo_jvm_def)
  from jni_answers_like_c [OF demo_jvm_sound demo_arg demo_arg demo_arg, where X = sample_ffi] g show ?thesis by simp
qed

section \<open>Draining, and the rest of a session\<close>

text \<open>The commands on a handle are the C surface's; a text arrives as the same command.\<close>

lemma jni_commands_like_c:
  "jni_query_conn_path hp = duocb_query_conn_path hp" "jni_refresh_pin hp = duocb_refresh_pin hp"
  "jni_disconnect hp = duocb_disconnect hp" "jni_is_running hp = duocb_is_running hp" "jni_reconnect hp = duocb_reconnect hp"
  "cstr_arg p = get_string J q \<Longrightarrow> jni_send_clipboard J hp q = duocb_send_clipboard hp p"
  by (simp_all add: jni_query_conn_path_def duocb_query_conn_path_def jni_refresh_pin_def duocb_refresh_pin_def
      jni_disconnect_def duocb_disconnect_def jni_is_running_def duocb_is_running_def jni_reconnect_def duocb_reconnect_def
      jni_send_clipboard_def duocb_send_clipboard_def split: option.split bool.split prod.split)

text \<open>A Java string has no capacity, so nothing is kept back: every poll takes the oldest event.\<close>

fun jni_drain :: "'n ffi \<Rightarrow> 'j jvm \<Rightarrow> u64 list \<Rightarrow> handle \<Rightarrow> ('j list \<times> handle) option" where
  "jni_drain X J [] h = Some ([], h)"
| "jni_drain X J (now # polls) h =
     (case jni_next_event X J now (Some h) of
        Some (r, Some h') \<Rightarrow>
          map_option (\<lambda>(js, h''). ((case r of None \<Rightarrow> js | Some j \<Rightarrow> j # js), h'')) (jni_drain X J polls h')
      | _ \<Rightarrow> None)"

lemma jni_drain_all:
  assumes "sound_jvm J" "h_pending h = None" "jni_drain X J polls h = Some (js, h')"
  shows "h_events h' = drop (length polls) (h_events h) \<and> h_pending h' = None
    \<and> list_all2 (\<lambda>j e. \<exists>now \<in> set polls. \<exists>t. event_text X now e = Some t \<and> jv_get J j = Some t) js (take (length polls) (h_events h))"
  using assms(2,3)
proof (induction polls arbitrary: h js)
  case (Cons now polls)
  show ?case
  proof (cases "h_events h")
    case Nil
    with Cons.prems have d: "jni_drain X J polls h = Some (js, h')"
      by (auto simp: jni_next_event_def take_event_def)
    from Cons.IH [OF Cons.prems(1) d] Nil show ?thesis by simp
  next
    case (Cons e es)
    with Cons.prems obtain t where t: "event_text X now e = Some t"
      by (auto simp: jni_next_event_def take_event_def split: option.splits)
    obtain j where j: "jv_new J t = Some j" "jv_get J j = Some t" using assms(1) by (auto simp: sound_jvm_def)
    from Cons.prems Cons t j obtain js' where d: "jni_drain X J polls (h\<lparr>h_events := es\<rparr>) = Some (js', h')" "js = j # js'"
      by (auto simp: jni_next_event_def take_event_def new_jstring_def)
    have "list_all2 (\<lambda>j e. \<exists>now \<in> set (now # polls). \<exists>t. event_text X now e = Some t \<and> jv_get J j = Some t) js' (take (length polls) es)"
      using Cons.IH [OF _ d(1)] Cons.prems(1) by (auto elim: list_all2_mono)
    with Cons.IH [OF _ d(1)] Cons.prems(1) d(2) Cons t j show ?thesis by auto
  qed
qed simp

lemma jni_session_like_c:
  assumes "cstr_arg q = get_string J config" "duocb_start X explain builds q err p = (h, err', p')"
  shows "\<exists>out'. jni_start X explain J builds config out p = (h, out', p')" "jni_stop h p' = duocb_stop h p'"
  using assms by (auto simp: duocb_start_def jni_start_def jni_stop_def duocb_stop_def split: option.splits sum.splits prod.splits)

text \<open>Whoever starts a session and stops it leaves the process ready for the next one.\<close>

lemma jni_start_stop:
  assumes "jni_start X explain J builds config out p = (Some h, out', p')"
  shows "pr_running p' \<and> out' = out \<and> h_commands h = [h_session h] \<and> \<not> pr_running (jni_stop (Some h) p')"
  using assms
  by (auto simp: jni_start_def jni_stop_def h_shutdown_def start_ffi_session_def start_inner_def
      split: option.splits sum.splits if_splits prod.splits)

section \<open>Setting up twice\<close>

text \<open>Repeated calls from one thread register the context once.\<close>

lemma jni_init_idempotent:
  assumes "jni_init captured p = Some q" "an_cell p \<longleftrightarrow> an_registered p"
  shows "(an_cell q \<longleftrightarrow> an_registered q) \<and> jni_init captured' q \<noteq> None"
  using assms by (auto simp: jni_init_def register_context_def split: if_splits)

text \<open>
  The test of the cell and its setting are not one step: two threads that both find it empty both go on
  to register, and the second registration aborts the app.
\<close>

lemma concurrent_init_aborts:
  assumes "\<not> an_cell p" "register_context p = Some q"
  shows "\<not> an_cell q \<and> register_context q = None"
  using assms by (auto simp: register_context_def split: if_splits)

end
