(* ===== verification/Transport.thy ===== *)
theory Transport
  imports KeyAuth Net
begin

text \<open>
  The seam between a session and the transport that carries it (\<open>duocb-core/src/transport/mod.rs\<close>,
  \<open>iroh_quic.rs\<close>): an established end knows its own id and its peer's, and gives up one byte stream.
  The connection itself is the networking library's.
\<close>

section \<open>Ends of a session\<close>

datatype transport_error = NoStream | HandshakeFailed hs_error

record 'c session_end =
  se_local_id :: ustring
  se_peer_id :: ustring
  se_stream :: "'c option"

text \<open>An iroh connection: the node ids QUIC authenticated, and the stream opening or accepting one yields.\<close>

record 'c iroh_session =
  is_remote :: node_id
  is_own :: node_id
  is_opened :: "'c option"

definition iroh_end :: "(node_id \<Rightarrow> ustring) \<Rightarrow> 'c iroh_session \<Rightarrow> 'c session_end" where
  "iroh_end show_node s =
     \<lparr>se_local_id = show_node (is_own s), se_peer_id = show_node (is_remote s), se_stream = is_opened s\<rparr>"

text \<open>\<open>authenticate_dialer\<close> and \<open>authenticate_listener\<close>: the stream, and for the listener the proven key.\<close>

definition authenticate_dialer ::
    "codecs \<Rightarrow> 'y crypto_scheme \<Rightarrow> 'z chan_scheme session_end \<Rightarrow> identity \<Rightarrow> pubkey \<Rightarrow> ustring
     \<Rightarrow> (transport_error, 'z chan_scheme) outcome" where
  "authenticate_dialer J C t i expected_peer nonce =
     (case se_stream t of
        None \<Rightarrow> Fail NoStream
      | Some stream \<Rightarrow>
          (case dialer_handshake J C i expected_peer (se_local_id t) (se_peer_id t) nonce stream of
             (Done _, s) \<Rightarrow> Done s
           | (Fail e, s) \<Rightarrow> Fail (HandshakeFailed e)
           | (Stall, s) \<Rightarrow> Stall))"

definition authenticate_listener ::
    "codecs \<Rightarrow> 'y crypto_scheme \<Rightarrow> 'w hchan session_end \<Rightarrow> identity \<Rightarrow> (pubkey \<Rightarrow> nat + unit) \<Rightarrow> ustring
     \<Rightarrow> (transport_error, 'w hchan \<times> pubkey) outcome" where
  "authenticate_listener J C t i admit nonce =
     (case se_stream t of
        None \<Rightarrow> Fail NoStream
      | Some stream \<Rightarrow>
          (case bindp (read_key_request J)
                  (\<lambda>(public_key, client_nonce). listener_handshake J C i public_key client_nonce (se_peer_id t) (se_local_id t)
                     nonce (\<lambda>k _. admit k) (\<lambda>_ w. (True, w))) stream of
             (Done k, s) \<Rightarrow> Done (s, k)
           | (Fail e, s) \<Rightarrow> Fail (HandshakeFailed e)
           | (Stall, s) \<Rightarrow> Stall))"

section \<open>What a transport owes a session\<close>

text \<open>The two ends of one connection name each other alike; everything signed over the ids then agrees.\<close>

locale session_transport =
  fixes to_end :: "'t \<Rightarrow> 'c session_end" and connected :: "'t \<Rightarrow> 't \<Rightarrow> bool"
  assumes mirrored: "connected a b \<Longrightarrow> se_peer_id (to_end a) = se_local_id (to_end b) \<and> se_peer_id (to_end b) = se_local_id (to_end a)"
begin

lemma same_ids:
  "connected a b \<Longrightarrow>
     (se_local_id (to_end a), se_peer_id (to_end a)) = (se_peer_id (to_end b), se_local_id (to_end b))"
  using mirrored by simp

lemma same_transcript:
  "connected a b \<Longrightarrow>
     auth_transcript role dk lk cn sn (se_local_id (to_end a)) (se_peer_id (to_end a))
       = auth_transcript role dk lk cn sn (se_peer_id (to_end b)) (se_local_id (to_end b))"
  using same_ids by simp

end

text \<open>
  A transport whose ends carry bytes: two connected honest ends authenticate over it, whatever it is,
  because what they sign agrees on both ends' ids.
\<close>

definition carrying :: "'w hchan session_end \<Rightarrow> 'w hchan \<Rightarrow> bytes \<Rightarrow> 'w hchan session_end" where
  "carrying e s received = e\<lparr>se_stream := Some (s\<lparr>rx := received\<rparr>)\<rparr>"

definition fresh_end :: "'w hchan session_end \<Rightarrow> 'w hchan \<Rightarrow> bool" where
  "fresh_end e s \<longleftrightarrow> se_stream e = Some s \<and> \<not> fin s \<and> tx s = [] \<and> 40000 \<le> wcap s"

locale byte_transport = session_transport to_end connected
  for to_end :: "'t \<Rightarrow> 'w hchan session_end" and connected :: "'t \<Rightarrow> 't \<Rightarrow> bool" +
  assumes opened: "connected a b \<Longrightarrow> se_stream (to_end a) \<noteq> None \<and> se_stream (to_end b) \<noteq> None"
begin

lemma authenticates:
  assumes c: "connected a b" and "fresh_end (to_end a) sa" "fresh_end (to_end b) sb"
    and laws: "session_laws J C di li cn sn (se_local_id (to_end a)) (se_local_id (to_end b))"
    and admit: "admit (identity_public C di) = Inr ()"
  shows "\<exists>to_a to_b.
     (\<exists>t. authenticate_dialer J C (carrying (to_end a) sa to_a) di (identity_public C li) cn = Done t \<and> tx t = to_b)
     \<and> (\<exists>t. authenticate_listener J C (carrying (to_end b) sb to_b) li admit sn = Done (t, identity_public C di) \<and> tx t = to_a)"
proof -
  let ?d = "se_local_id (to_end a)" and ?l = "se_local_id (to_end b)"
  have ids: "se_peer_id (to_end a) = ?l" "se_peer_id (to_end b) = ?d" using mirrored [OF c] by simp_all
  have ends: "se_stream (to_end a) = Some sa" "\<not> fin sa \<and> tx sa = [] \<and> 40000 \<le> wcap sa"
      "se_stream (to_end b) = Some sb" "\<not> fin sb \<and> tx sb = [] \<and> 40000 \<le> wcap sb"
    using assms(2,3) by (simp_all add: fresh_end_def)
  let ?dial = "\<lambda>x. dialer_handshake J C di (identity_public C li) ?d ?l cn (sa\<lparr>rx := x\<rparr>)"
  let ?listen = "\<lambda>x. bindp (read_key_request J)
      (\<lambda>(pk, n). listener_handshake J C li pk n ?d ?l sn (\<lambda>k _. admit k) (\<lambda>_ w. (True, w))) (sb\<lparr>rx := x\<rparr>)"
  obtain to_b to_a where "case ?dial to_a of (r, t) \<Rightarrow> r = Done () \<and> tx t = to_b \<and> rx t = []"
      "case ?listen to_b of (r, t) \<Rightarrow> r = Done (identity_public C di) \<and> tx t = to_a \<and> rx t = [] \<and> world t = world sb"
    using honest_handshake [where admit = "\<lambda>k _. admit k" and commit = "\<lambda>_ w. (True, w)" and w = "world sb",
      OF laws ends(2) ends(4) admit refl] by (elim exE conjE) (rule that)
  then obtain ta tb where "?dial to_a = (Done (), ta)" "tx ta = to_b"
      "?listen to_b = (Done (identity_public C di), tb)" "tx tb = to_a"
    by (auto split: prod.splits)
  then show ?thesis
    by (intro exI [of _ to_a] exI [of _ to_b])
      (simp add: authenticate_dialer_def authenticate_listener_def carrying_def ids)
qed

end

definition iroh_connected :: "'c iroh_session \<Rightarrow> 'c iroh_session \<Rightarrow> bool" where
  "iroh_connected a b \<longleftrightarrow> is_remote a = is_own b \<and> is_remote b = is_own a"

interpretation iroh: session_transport "iroh_end show_node" iroh_connected
  by unfold_locales (simp add: iroh_connected_def iroh_end_def)

definition iroh_opened :: "'c iroh_session \<Rightarrow> 'c iroh_session \<Rightarrow> bool" where
  "iroh_opened a b \<longleftrightarrow> iroh_connected a b \<and> is_opened a \<noteq> None \<and> is_opened b \<noteq> None"

interpretation iroh_bytes: byte_transport "iroh_end show_node" iroh_opened
  by unfold_locales (simp_all add: iroh_opened_def iroh_connected_def iroh_end_def)

text \<open>A listener that admits nobody signs nothing, whatever it is sent and whichever transport carries it.\<close>

lemma authenticate_listener_refuses:
  fixes t :: "'w hchan session_end"
  assumes "\<forall>k. isl (admit k)"
  shows "\<not> (\<exists>s k. authenticate_listener J C t i admit nonce = Done (s, k))"
proof -
  have "\<not> (\<exists>k s'. listener_handshake J C i pk n d l nonce (\<lambda>k _. admit k) (\<lambda>_ w. (True, w)) s = (Done k, s'))"
    for pk n d l and s :: "'w hchan"
  proof
    assume "\<exists>k s'. listener_handshake J C i pk n d l nonce (\<lambda>k _. admit k) (\<lambda>_ w. (True, w)) s = (Done k, s')"
    then obtain k s' where "listener_handshake J C i pk n d l nonce (\<lambda>k _. admit k) (\<lambda>_ w. (True, w)) s = (Done k, s')" by blast
    moreover obtain c where "key_parse C pk = Some c"
      using calculation by (auto simp: listener_handshake_def Let_def split: option.splits)
    moreover obtain e where "admit c = Inl e" using assms by (metis isl_def)
    ultimately show False by (simp add: listener_handshake_def Let_def call_admit_def bindp_def)
  qed
  then show ?thesis
    by (auto simp: authenticate_listener_def bindp_def split: option.splits outcome.splits prod.splits)
qed

end
