(* ===== verification/Dummy.thy ===== *)
theory Dummy
  imports Transport Subnet Records
begin

text \<open>
  The TCP transport of tests and porting work (\<open>duocb-core/src/transport/dummy.rs\<close>): addresses in
  rendezvous records, dialing with retries up to a deadline, the two shapes of a session (one
  bidirectional socket, two one-way sockets), and one clipboard frame in each direction. The network
  is what each dial and each accept meets, as a function of the time it starts, in milliseconds.
  The text form of an IPv6 socket address is a parameter.
\<close>

section \<open>Addresses\<close>

definition TCP_KIND :: ustring where "TCP_KIND = ascii ''tcp''"

text \<open>The text form of an IPv6 socket address.\<close>

record v6_text =
  v6_show :: "u16 list \<Rightarrow> u16 \<Rightarrow> ustring"
  v6_read :: "ustring \<Rightarrow> socket_addr option"

definition show_socket :: "v6_text \<Rightarrow> socket_addr \<Rightarrow> ustring" where
  "show_socket V a =
     (case sa_ip a of
        V4 ip \<Rightarrow> show_ipv4 ip @ 58 # dec (unat (sa_port a))
      | V6 segs \<Rightarrow> v6_show V segs (sa_port a))"

text \<open>\<open>SocketAddr::from_str\<close>: a dotted quad, a colon and a port of digits, else the IPv6 form.\<close>

definition parse_port :: "ustring \<Rightarrow> u16 option" where
  "parse_port p =
     (if p \<noteq> [] \<and> list_all is_digit p \<and> dec_val p \<le> 65535 then Some (of_nat (dec_val p)) else None)"

definition parse_socket_v4 :: "ustring \<Rightarrow> socket_addr option" where
  "parse_socket_v4 s =
     (case split_on 58 s of
        [a, p] \<Rightarrow>
          (case (parse_ipv4 a, parse_port p) of
             (Some ip, Some port) \<Rightarrow> Some \<lparr>sa_ip = V4 ip, sa_port = port\<rparr>
           | _ \<Rightarrow> None)
      | _ \<Rightarrow> None)"

definition parse_socket :: "v6_text \<Rightarrow> ustring \<Rightarrow> socket_addr option" where
  "parse_socket V s = (case parse_socket_v4 s of Some a \<Rightarrow> Some a | None \<Rightarrow> v6_read V s)"

definition tcp_rendezvous_addr :: "v6_text \<Rightarrow> socket_addr \<Rightarrow> transport_addr" where
  "tcp_rendezvous_addr V a = \<lparr>ta_kind = TCP_KIND, ta_address = show_socket V a\<rparr>"

definition tcp_socket_addr :: "v6_text \<Rightarrow> transport_addr \<Rightarrow> socket_addr option" where
  "tcp_socket_addr V addr =
     (case address_of addr TCP_KIND of None \<Rightarrow> None | Some a \<Rightarrow> parse_socket V (str_trim a))"

section \<open>Dialing\<close>

definition DIAL_TIMEOUT :: nat where [const_simps]: "DIAL_TIMEOUT = 5000"
definition DIAL_RETRY :: nat where [const_simps]: "DIAL_RETRY = 25"

datatype dummy_error =
  ConnectFailed socket_addr ustring
| ConnectTimedOut socket_addr
| NotTcp ustring
| NoLocalAddress ustring
| NoPeerAddress ustring
| AcceptFailed ustring
| InboundTimedOut socket_addr
| ClipWire wire_error
| PullInstead

text \<open>What a dial or an accept started at some time meets: an answer after a while, or none.\<close>

type_synonym 'c attempt = "(nat \<times> (ustring + 'c)) option"

text \<open>\<open>timeout_at\<close> looks at the operation first, so an answer on the deadline still counts.\<close>

definition timeout_at :: "nat \<Rightarrow> nat \<Rightarrow> 'c attempt \<Rightarrow> (ustring + 'c) option \<times> nat" where
  "timeout_at deadline now x =
     (case x of
        Some (d, r) \<Rightarrow> (if d = 0 \<or> now + d \<le> deadline then (Some r, now + d) else (None, max now deadline))
      | None \<Rightarrow> (None, max now deadline))"

lemma timeout_at_time: "timeout_at deadline now x = (r, t) \<Longrightarrow> now \<le> t \<and> t \<le> max now deadline"
  by (auto simp: timeout_at_def split: option.splits prod.splits if_splits)

function dial_until :: "socket_addr \<Rightarrow> (nat \<Rightarrow> 'c attempt) \<Rightarrow> nat \<Rightarrow> nat \<Rightarrow> (dummy_error + 'c) \<times> nat" where
  "dial_until peer net deadline now =
     (case timeout_at deadline now (net now) of
        (Some (Inr stream), t) \<Rightarrow> (Inr stream, t)
      | (Some (Inl e), t) \<Rightarrow>
          (if t < deadline then dial_until peer net deadline (t + DIAL_RETRY) else (Inl (ConnectFailed peer e), t))
      | (None, t) \<Rightarrow> (Inl (ConnectTimedOut peer), t))"
  by pat_completeness auto

termination
  by (relation "measure (\<lambda>(peer, net, deadline, now). deadline - now)")
    (auto simp: DIAL_RETRY_def dest!: timeout_at_time [OF sym])

declare dial_until.simps [simp del]

definition dial_with_retry :: "socket_addr \<Rightarrow> (nat \<Rightarrow> 'c attempt) \<Rightarrow> nat \<Rightarrow> (dummy_error + 'c) \<times> nat" where
  "dial_with_retry peer net now = dial_until peer net (now + DIAL_TIMEOUT) now"

section \<open>One bidirectional connection\<close>

text \<open>A connected socket: the two addresses the system reports for it, and its byte streams.\<close>

record 'c tcp_stream =
  ts_local :: "ustring + socket_addr"
  ts_peer :: "ustring + socket_addr"
  ts_bytes :: 'c

record 'c tcp_session =
  te_stream :: 'c
  te_local_id :: ustring
  te_peer_id :: ustring

definition tcp_id :: "v6_text \<Rightarrow> socket_addr \<Rightarrow> ustring" where
  "tcp_id V a = ascii ''tcp:'' @ show_socket V a"

definition from_stream :: "v6_text \<Rightarrow> 'c tcp_stream \<Rightarrow> dummy_error + 'c tcp_session" where
  "from_stream V s =
     (case ts_local s of
        Inl e \<Rightarrow> Inl (NoLocalAddress e)
      | Inr l \<Rightarrow>
          (case ts_peer s of
             Inl e \<Rightarrow> Inl (NoPeerAddress e)
           | Inr p \<Rightarrow> Inr \<lparr>te_stream = ts_bytes s, te_local_id = tcp_id V l, te_peer_id = tcp_id V p\<rparr>))"

definition tcp_dial :: "v6_text \<Rightarrow> socket_addr \<Rightarrow> (nat \<Rightarrow> 'c tcp_stream attempt) \<Rightarrow> nat \<Rightarrow> dummy_error + 'c tcp_session" where
  "tcp_dial V peer net now =
     (case fst (dial_with_retry peer net now) of Inl e \<Rightarrow> Inl e | Inr stream \<Rightarrow> from_stream V stream)"

text \<open>\<open>nets\<close> is the network of each address that may be dialed.\<close>

definition dial_record ::
    "v6_text \<Rightarrow> transport_addr \<Rightarrow> (socket_addr \<Rightarrow> nat \<Rightarrow> 'c tcp_stream attempt) \<Rightarrow> nat \<Rightarrow> dummy_error + 'c tcp_session" where
  "dial_record V addr nets now =
     (case tcp_socket_addr V addr of
        None \<Rightarrow> Inl (NotTcp (ta_kind addr))
      | Some peer \<Rightarrow> tcp_dial V peer (nets peer) now)"

definition tcp_accept :: "v6_text \<Rightarrow> ustring + 'c tcp_stream \<Rightarrow> dummy_error + 'c tcp_session" where
  "tcp_accept V accepted = (case accepted of Inl e \<Rightarrow> Inl (AcceptFailed e) | Inr stream \<Rightarrow> from_stream V stream)"

definition tcp_with_ids :: "'c tcp_session \<Rightarrow> ustring \<Rightarrow> ustring \<Rightarrow> 'c tcp_session" where
  "tcp_with_ids t l p = t\<lparr>te_local_id := l, te_peer_id := p\<rparr>"

text \<open>The session's stream is the connection itself.\<close>

definition tcp_end :: "'c tcp_session \<Rightarrow> 'c session_end" where
  "tcp_end t = \<lparr>se_local_id = te_local_id t, se_peer_id = te_peer_id t, se_stream = Some (te_stream t)\<rparr>"

section \<open>Two one-way connections\<close>

text \<open>The write half of one socket with the read half of another.\<close>

definition join_halves :: "'w hchan \<Rightarrow> 'w hchan \<Rightarrow> 'w hchan" where
  "join_halves outbound inbound = inbound\<lparr>tx := tx outbound, fin := fin outbound, wcap := wcap outbound\<rparr>"

record 'w uni_session =
  us_send :: "'w hchan"
  us_recv :: "'w hchan"
  us_local_id :: ustring
  us_peer_id :: ustring

text \<open>
  Both halves come up together and the first failure ends both (\<open>try_join!\<close>, which polls the
  accepting half first). The accepting half has the dialing half's time limit.
\<close>

definition accept_half :: "socket_addr \<Rightarrow> nat \<Rightarrow> 'c attempt \<Rightarrow> (dummy_error + 'c) \<times> nat" where
  "accept_half local_listen now inbound =
     (case timeout_at (now + DIAL_TIMEOUT) now inbound of
        (Some (Inr stream), t) \<Rightarrow> (Inr stream, t)
      | (Some (Inl e), t) \<Rightarrow> (Inl (AcceptFailed e), t)
      | (None, t) \<Rightarrow> (Inl (InboundTimedOut local_listen), t))"

definition try_join :: "('e + 'a) \<times> nat \<Rightarrow> ('e + 'b) \<times> nat \<Rightarrow> ('e + 'a \<times> 'b) \<times> nat" where
  "try_join x y =
     (case (x, y) of
        ((Inr a, s), (Inr b, t)) \<Rightarrow> (Inr (a, b), max s t)
      | ((Inl e, s), (Inl f, t)) \<Rightarrow> (if s \<le> t then (Inl e, s) else (Inl f, t))
      | ((Inl e, s), (Inr b, t)) \<Rightarrow> (Inl e, s)
      | ((Inr a, s), (Inl f, t)) \<Rightarrow> (Inl f, t))"

definition uni_connect ::
    "v6_text \<Rightarrow> ustring + socket_addr \<Rightarrow> socket_addr \<Rightarrow> 'w hchan attempt \<Rightarrow> (nat \<Rightarrow> 'w hchan attempt) \<Rightarrow> nat
     \<Rightarrow> (dummy_error + 'w uni_session) \<times> nat" where
  "uni_connect V listen_addr peer_listen inbound net now =
     (case listen_addr of
        Inl e \<Rightarrow> (Inl (NoLocalAddress e), now)
      | Inr local_listen \<Rightarrow>
          (case try_join (accept_half local_listen now inbound) (dial_with_retry peer_listen net now) of
             (Inl e, t) \<Rightarrow> (Inl e, t)
           | (Inr (i, s), t) \<Rightarrow>
               (Inr \<lparr>us_send = s, us_recv = i, us_local_id = tcp_id V local_listen, us_peer_id = tcp_id V peer_listen\<rparr>, t)))"

definition uni_with_ids :: "'w uni_session \<Rightarrow> ustring \<Rightarrow> ustring \<Rightarrow> 'w uni_session" where
  "uni_with_ids u l p = u\<lparr>us_local_id := l, us_peer_id := p\<rparr>"

definition uni_end :: "'w uni_session \<Rightarrow> 'w hchan session_end" where
  "uni_end u =
     \<lparr>se_local_id = us_local_id u, se_peer_id = us_peer_id u, se_stream = Some (join_halves (us_send u) (us_recv u))\<rparr>"

section \<open>One clipboard frame\<close>

definition send_item :: "codecs \<Rightarrow> ustring \<Rightarrow> ('z chan_scheme, dummy_error, unit) prog" where
  "send_item J item =
     bindp (lift_sum (map_sum ClipWire id (encode_clip_msg J (clip_item item 0)))) (\<lambda>frame.
     map_err ClipWire (write_all frame))"

definition recv_item :: "codecs \<Rightarrow> ('z chan_scheme, dummy_error, ustring) prog" where
  "recv_item J =
     bindp (map_err ClipWire (read_length_prefixed MAX_CLIP_MESSAGE_SIZE)) (\<lambda>frame.
     bindp (lift_sum (map_sum ClipWire id (decode_clip_msg J frame))) (\<lambda>m.
       case cm_body m of
         Item t _ \<Rightarrow> ret t
       | Latest t _ \<Rightarrow> ret t
       | PullLatest \<Rightarrow> throw PullInstead))"


section \<open>Addresses in records\<close>

text \<open>What the IPv6 form does: it starts with a bracket, ends in no space, and parses back.\<close>

definition v6_ok :: "v6_text \<Rightarrow> bool" where
  "v6_ok V \<longleftrightarrow>
     (\<forall>segs p. length segs = 8 \<longrightarrow> v6_read V (v6_show V segs p) = Some \<lparr>sa_ip = V6 segs, sa_port = p\<rparr>
        \<and> (\<exists>t. v6_show V segs p = 91 # t \<and> t \<noteq> [] \<and> \<not> is_whitespace (last t)))"

definition proper_addr :: "socket_addr \<Rightarrow> bool" where
  "proper_addr a \<longleftrightarrow> (case sa_ip a of V4 _ \<Rightarrow> True | V6 segs \<Rightarrow> length segs = 8)"

lemma digit_not_space: "is_digit c \<Longrightarrow> \<not> is_whitespace c"
  by (auto simp: is_digit_def is_whitespace_def)

lemma show_ipv4_hd: "is_digit (hd (show_ipv4 a))"
proof (cases a)
  case (IPv4 w x y z)
  have "dec (unat w) \<noteq> []" "list_all is_digit (dec (unat w))" by (simp_all add: dec_digits)
  with IPv4 show ?thesis by (cases "dec (unat w)") (simp_all add: show_octet_def)
qed

lemma parse_port_dec [simp]: "parse_port (dec (unat (p :: u16))) = Some p"
proof -
  have "unat p < 65536" by (rule order_less_le_trans [OF unsigned_less]) simp
  then show ?thesis by (simp add: parse_port_def dec_digits)
qed

lemma parse_v4_socket: "parse_socket_v4 (show_ipv4 ip @ 58 # dec (unat (p :: u16))) = Some \<lparr>sa_ip = V4 ip, sa_port = p\<rparr>"
proof -
  have "58 \<notin> set (show_ipv4 ip)" using ipv4_digits [of 58 ip] by (auto simp: is_digit_def)
  then show ?thesis by (simp add: parse_socket_v4_def split_on_cons split_on_free dec_no)
qed

lemma parse_bracket: "parse_socket_v4 (91 # t) = None"
proof -
  have "parse_ipv4 (91 # u) = None" for u
  proof (cases "parse_ipv4 (91 # u)")
    case (Some a)
    then have "hd (show_ipv4 a) = 91" by (metis parse_ipv4_iff list.sel(1))
    then show ?thesis using show_ipv4_hd [of a] by (simp add: is_digit_def)
  qed
  then show ?thesis by (auto simp: parse_socket_v4_def split: list.splits)
qed

lemma show_socket_trim:
  assumes "v6_ok V" "proper_addr a"
  shows "str_trim (show_socket V a) = show_socket V a"
proof (rule str_trim_fix, cases "sa_ip a")
  case (V4 ip)
  have "last (dec (unat (sa_port a))) \<in> set (dec (unat (sa_port a)))" by simp
  then have "is_digit (last (dec (unat (sa_port a))))" using dec_digits [of "unat (sa_port a)"] by (simp add: list_all_iff)
  with V4 show_ipv4_hd [of ip]
  show "show_socket V a = [] \<or> \<not> is_whitespace (hd (show_socket V a)) \<and> \<not> is_whitespace (last (show_socket V a))"
    by (simp add: show_socket_def digit_not_space)
next
  case (V6 segs)
  with assms obtain t where "v6_show V segs (sa_port a) = 91 # t" "t \<noteq> []" "\<not> is_whitespace (last t)"
    by (auto simp: v6_ok_def proper_addr_def)
  with V6 show "show_socket V a = [] \<or> \<not> is_whitespace (hd (show_socket V a)) \<and> \<not> is_whitespace (last (show_socket V a))"
    by (simp add: show_socket_def is_whitespace_def)
qed

lemma parse_show_socket: "v6_ok V \<Longrightarrow> proper_addr a \<Longrightarrow> parse_socket V (show_socket V a) = Some a"
proof (cases "sa_ip a")
  case (V4 ip)
  then show ?thesis by (simp add: show_socket_def parse_socket_def parse_v4_socket)
next
  case (V6 segs)
  assume "v6_ok V" "proper_addr a"
  with V6 have r: "v6_read V (v6_show V segs (sa_port a)) = Some a" and "\<exists>t. v6_show V segs (sa_port a) = 91 # t"
    by (auto simp: v6_ok_def proper_addr_def)
  then have "parse_socket_v4 (v6_show V segs (sa_port a)) = None" using parse_bracket by auto
  with V6 r show ?thesis by (simp add: show_socket_def parse_socket_def)
qed

lemma tcp_addr_roundtrip: "v6_ok V \<Longrightarrow> proper_addr a \<Longrightarrow> tcp_socket_addr V (tcp_rendezvous_addr V a) = Some a"
  by (simp add: tcp_socket_addr_def tcp_rendezvous_addr_def address_of_def show_socket_trim parse_show_socket)

text \<open>A record of one transport is a miss for the other.\<close>

lemma kinds_apart:
  "tcp_socket_addr V (rendezvous_addr S n) = None \<and> endpoint_id S (tcp_rendezvous_addr V a) = None"
  by (simp add: tcp_socket_addr_def rendezvous_addr_def endpoint_id_def tcp_rendezvous_addr_def address_of_def
      TCP_KIND_def IROH_KIND_def ascii_def)

section \<open>Dialing ends, and finds a peer that starts late\<close>

lemma dial_until_ends:
  "now \<le> deadline + DIAL_RETRY \<Longrightarrow> snd (dial_until peer net deadline now) \<le> deadline + DIAL_RETRY"
proof (induction peer net deadline now rule: dial_until.induct)
  case (1 peer net deadline now)
  obtain r t where r: "timeout_at deadline now (net now) = (r, t)" by (cases "timeout_at deadline now (net now)")
  with timeout_at_time [OF r] 1 show ?case
    by (subst dial_until.simps) (auto split: option.splits sum.splits)
qed

lemma dial_until_Inr: "dial_until peer net deadline now = (Inr c, t) \<Longrightarrow> \<exists>t d. now \<le> t \<and> net t = Some (d, Inr c)"
proof (induction peer net deadline now rule: dial_until.induct)
  case (1 peer net deadline now)
  obtain r u where r: "timeout_at deadline now (net now) = (r, u)" by (cases "timeout_at deadline now (net now)")
  show ?case
  proof (cases r)
    case None
    with 1(2) r show ?thesis by (subst (asm) dial_until.simps) simp
  next
    case (Some x)
    show ?thesis
    proof (cases x)
      case (Inr c')
      with Some 1(2) r have "c' = c" by (subst (asm) dial_until.simps) simp
      with r Some Inr show ?thesis by (auto simp: timeout_at_def split: option.splits prod.splits if_splits)
    next
      case (Inl e)
      with Some 1(2) r have u: "u < deadline" "dial_until peer net deadline (u + DIAL_RETRY) = (Inr c, t)"
        by (subst (asm) dial_until.simps, simp split: if_splits)+
      from 1(1) [OF r [symmetric] Some Inl u] timeout_at_time [OF r] show ?thesis by (meson le_trans trans_le_add1)
    qed
  qed
qed

lemma dial_until_catches:
  assumes "now \<le> T + d + DIAL_RETRY" "T + 2 * d + DIAL_RETRY \<le> deadline"
    and "\<forall>t < T. \<exists>k e. net t = Some (k, Inl e) \<and> k \<le> d" "\<forall>t \<ge> T. \<exists>k c. net t = Some (k, Inr c) \<and> k \<le> d"
  shows "\<exists>c t. dial_until peer net deadline now = (Inr c, t)"
  using assms
proof (induction peer net deadline now rule: dial_until.induct)
  case (1 peer net deadline now)
  show ?case
  proof (cases "now < T")
    case True
    with 1(4) obtain k e where n: "net now = Some (k, Inl e)" "k \<le> d" by blast
    with True 1(3) have t: "timeout_at deadline now (net now) = (Some (Inl e), now + k)" "now + k < deadline"
      by (auto simp: timeout_at_def)
    have "\<exists>c t. dial_until peer net deadline (now + k + DIAL_RETRY) = (Inr c, t)"
      by (rule 1(1) [OF t(1) [symmetric] refl refl t(2) _ 1(3) 1(4) 1(5)]) (use True n in simp)
    with t show ?thesis by (subst dial_until.simps) simp
  next
    case False
    with 1(5) [rule_format, of now] obtain k c where n: "net now = Some (k, Inr c)" "k \<le> d" by auto
    with 1(2,3) have "timeout_at deadline now (net now) = (Some (Inr c), now + k)" by (auto simp: timeout_at_def)
    then show ?thesis by (subst dial_until.simps) simp
  qed
qed

text \<open>
  Property C40. A dial is bounded and tolerates a peer that starts late. Whatever the network does, a
  dial is over within the dial timeout and one retry gap. When every dial before \<open>T\<close> is refused and
  every later one accepted, each within \<open>d\<close>, and \<open>T\<close> leaves room for one more attempt, the dial
  succeeds, on a connection accepted after \<open>T\<close>.
\<close>

theorem dial_bounded_and_patient:
  "snd (dial_with_retry peer net now) \<le> now + DIAL_TIMEOUT + DIAL_RETRY
   \<and> (now \<le> T \<and> T + 2 * d + DIAL_RETRY \<le> now + DIAL_TIMEOUT
      \<and> (\<forall>t < T. \<exists>k e. net t = Some (k, Inl e) \<and> k \<le> d) \<and> (\<forall>t \<ge> T. \<exists>k c. net t = Some (k, Inr c) \<and> k \<le> d)
      \<longrightarrow> (\<exists>c k t. fst (dial_with_retry peer net now) = Inr c \<and> T \<le> t \<and> net t = Some (k, Inr c)))"
proof (intro conjI impI)
  show "snd (dial_with_retry peer net now) \<le> now + DIAL_TIMEOUT + DIAL_RETRY"
    unfolding dial_with_retry_def by (rule dial_until_ends) simp
next
  assume a: "now \<le> T \<and> T + 2 * d + DIAL_RETRY \<le> now + DIAL_TIMEOUT
      \<and> (\<forall>t < T. \<exists>k e. net t = Some (k, Inl e) \<and> k \<le> d) \<and> (\<forall>t \<ge> T. \<exists>k c. net t = Some (k, Inr c) \<and> k \<le> d)"
  with dial_until_catches [of now T d "now + DIAL_TIMEOUT" net peer] obtain c u
    where c: "dial_until peer net (now + DIAL_TIMEOUT) now = (Inr c, u)" by auto
  from dial_until_Inr [OF c] obtain t k where t: "net t = Some (k, Inr c)" by blast
  with a have "T \<le> t" by (metis Inl_Inr_False not_le option.inject prod.inject)
  with c t show "\<exists>c k t. fst (dial_with_retry peer net now) = Inr c \<and> T \<le> t \<and> net t = Some (k, Inr c)"
    unfolding dial_with_retry_def by (metis fst_conv)
qed

definition late_net :: "nat \<Rightarrow> unit attempt" where
  "late_net t = (if t < 1000 then Some (1, Inl []) else Some (1, Inr ()))"

definition loopback :: "u16 \<Rightarrow> socket_addr" where "loopback p = \<lparr>sa_ip = V4 (IPv4 127 0 0 1), sa_port = p\<rparr>"

lemma dial_bounded_and_patient_witness:
  "\<exists>c k t. fst (dial_with_retry (loopback 7000) late_net 0) = Inr c \<and> 1000 \<le> t \<and> late_net t = Some (k, Inr c)"
proof -
  have "\<forall>t < 1000. \<exists>k e. late_net t = Some (k, Inl e) \<and> k \<le> 1" "\<forall>t \<ge> 1000. \<exists>k c. late_net t = Some (k, Inr c) \<and> k \<le> 1"
    by (simp_all add: late_net_def)
  with dial_bounded_and_patient [of "loopback 7000" late_net 0 1000 1] show ?thesis
    by (simp add: const_simps)
qed

section \<open>Sessions\<close>

lemma try_join_Inr: "try_join x y = (Inr (a, b), t) \<longleftrightarrow> (\<exists>s u. x = (Inr a, s) \<and> y = (Inr b, u) \<and> t = max s u)"
  by (auto simp: try_join_def split: prod.splits sum.splits if_splits)

lemma try_join_time: "snd (try_join x y) \<le> max (snd x) (snd y)"
  by (auto simp: try_join_def split: prod.splits sum.splits)

lemma accept_half_ends: "snd (accept_half l now inbound) \<le> now + DIAL_TIMEOUT"
proof -
  obtain r t where r: "timeout_at (now + DIAL_TIMEOUT) now inbound = (r, t)"
    by (cases "timeout_at (now + DIAL_TIMEOUT) now inbound")
  with timeout_at_time [OF r] show ?thesis by (auto simp: accept_half_def split: option.splits sum.splits)
qed

lemma uni_connect_ends: "snd (uni_connect V la p inbound net now) \<le> now + DIAL_TIMEOUT + DIAL_RETRY"
proof (cases la)
  case (Inr l)
  have "snd (dial_with_retry p net now) \<le> now + DIAL_TIMEOUT + DIAL_RETRY"
    unfolding dial_with_retry_def by (rule dial_until_ends) simp
  with accept_half_ends [of l now inbound] try_join_time [of "accept_half l now inbound" "dial_with_retry p net now"] Inr
  show ?thesis by (auto simp: uni_connect_def split: prod.splits sum.splits)
qed (simp add: uni_connect_def)

lemma uni_connect_abandoned: "\<exists>e. fst (uni_connect V (Inr l) p None net now) = Inl e"
  by (auto simp: uni_connect_def accept_half_def timeout_at_def try_join_def split: prod.splits sum.splits)

text \<open>
  Two connected ends: what each end calls itself is what the other calls it, and for two one-way
  connections the same of the listening addresses.
\<close>

definition tcp_connected :: "'c tcp_session \<Rightarrow> 'c tcp_session \<Rightarrow> bool" where
  "tcp_connected a b \<longleftrightarrow> te_peer_id a = te_local_id b \<and> te_peer_id b = te_local_id a"

interpretation tcp: byte_transport tcp_end tcp_connected
  by unfold_locales (simp_all add: tcp_connected_def tcp_end_def)

definition uni_connected :: "'w uni_session \<Rightarrow> 'w uni_session \<Rightarrow> bool" where
  "uni_connected a b \<longleftrightarrow> us_peer_id a = us_local_id b \<and> us_peer_id b = us_local_id a"

interpretation uni: byte_transport uni_end uni_connected
  by unfold_locales (simp_all add: uni_connected_def uni_end_def)

text \<open>A path that rewrites no address: the dialed address is the accepted socket's own.\<close>

lemma from_stream_connected:
  "from_stream V a = Inr s \<Longrightarrow> from_stream V b = Inr t \<Longrightarrow> ts_local a = ts_peer b \<Longrightarrow> ts_peer a = ts_local b \<Longrightarrow>
     tcp_connected s t"
  by (auto simp: from_stream_def tcp_connected_def split: sum.splits)

lemma uni_connect_connected:
  "uni_connect V (Inr la) lb ia na now = (Inr a, s) \<Longrightarrow> uni_connect V (Inr lb) la ib nb now' = (Inr b, t) \<Longrightarrow>
     uni_connected a b"
  by (auto simp: uni_connect_def uni_connected_def split: prod.splits sum.splits)


text \<open>
  A host found through a TCP record is authenticated. The record of a host's address
  leads to a dial of that address; when it connects over a path that rewrites no address, the two ends
  agree on both ids, and two honest devices, the dialer admitted, both complete the mutual proofs on
  the bytes each sends the other.
\<close>

theorem tcp_record_authenticates:
  fixes sa sb :: "'w hchan tcp_stream"
  assumes addr: "v6_ok V" "proper_addr p" and dialed: "fst (dial_with_retry p (nets p) now) = Inr sa"
    and path: "ts_local sa = Inr l" "ts_peer sa = Inr p" "ts_local sb = Inr p" "ts_peer sb = Inr l"
    and fresh: "\<not> fin (ts_bytes sa) \<and> tx (ts_bytes sa) = [] \<and> 40000 \<le> wcap (ts_bytes sa)"
      "\<not> fin (ts_bytes sb) \<and> tx (ts_bytes sb) = [] \<and> 40000 \<le> wcap (ts_bytes sb)"
    and laws: "session_laws J C di li cn sn (tcp_id V l) (tcp_id V p)"
    and admit: "admit (identity_public C di) = Inr ()"
  shows "\<exists>a b to_a to_b. dial_record V (tcp_rendezvous_addr V p) nets now = Inr a \<and> tcp_accept V (Inr sb) = Inr b
     \<and> (\<exists>t. authenticate_dialer J C (carrying (tcp_end a) (ts_bytes sa) to_a) di (identity_public C li) cn = Done t
          \<and> tx t = to_b)
     \<and> (\<exists>t. authenticate_listener J C (carrying (tcp_end b) (ts_bytes sb) to_b) li admit sn
            = Done (t, identity_public C di) \<and> tx t = to_a)"
proof -
  let ?a = "\<lparr>te_stream = ts_bytes sa, te_local_id = tcp_id V l, te_peer_id = tcp_id V p\<rparr>"
  let ?b = "\<lparr>te_stream = ts_bytes sb, te_local_id = tcp_id V p, te_peer_id = tcp_id V l\<rparr>"
  have "dial_record V (tcp_rendezvous_addr V p) nets now = Inr ?a"
    using dialed path by (simp add: dial_record_def tcp_addr_roundtrip [OF addr] tcp_dial_def from_stream_def)
  moreover have "tcp_accept V (Inr sb) = Inr ?b" using path by (simp add: tcp_accept_def from_stream_def)
  moreover have "tcp_connected ?a ?b" by (simp add: tcp_connected_def)
  moreover have "fresh_end (tcp_end ?a) (ts_bytes sa)" "fresh_end (tcp_end ?b) (ts_bytes sb)"
    using fresh by (simp_all add: fresh_end_def tcp_end_def)
  moreover have "session_laws J C di li cn sn (se_local_id (tcp_end ?a)) (se_local_id (tcp_end ?b))"
    using laws by (simp add: tcp_end_def)
  ultimately have "dial_record V (tcp_rendezvous_addr V p) nets now = Inr ?a" "tcp_accept V (Inr sb) = Inr ?b"
    and "\<exists>to_a to_b.
     (\<exists>t. authenticate_dialer J C (carrying (tcp_end ?a) (ts_bytes sa) to_a) di (identity_public C li) cn = Done t
          \<and> tx t = to_b)
     \<and> (\<exists>t. authenticate_listener J C (carrying (tcp_end ?b) (ts_bytes sb) to_b) li admit sn
            = Done (t, identity_public C di) \<and> tx t = to_a)"
    using tcp.authenticates [where a = ?a and b = ?b and admit = admit] admit by simp_all
  then show ?thesis by (intro exI [of _ ?a] exI [of _ ?b]) simp
qed

text \<open>A clipboard item sent is the item received.\<close>

lemma item_crosses:
  assumes "codec_at (clip_codec J) MAX_CLIP_MESSAGE_SIZE (clip_item item 0)"
    and "\<not> fin s" "tx s = []" "length (frame_of (clip_codec J) (clip_item item 0)) \<le> wcap s"
  shows "\<exists>s' r'. send_item J item s = (Done (), s') \<and> recv_item J (r\<lparr>rx := tx s'\<rparr>) = (Done item, r')"
proof -
  let ?f = "frame_of (clip_codec J) (clip_item item 0)"
  have v: "cm_version (clip_item item 0) = DUOCB_PROTO_VERSION" by (simp add: clip_item_def clip_of_def)
  have d: "decode_clip_msg J ?f = Inr (clip_item item 0)"
    unfolding decode_clip_msg_def by (rule codec_at_decode [where get_version = cm_version, OF assms(1) _ v]) (simp add: const_simps)
  have "read_length_prefixed MAX_CLIP_MESSAGE_SIZE (r\<lparr>rx := ?f\<rparr>) = (Done ?f, r\<lparr>rx := ?f\<rparr>\<lparr>rx := []\<rparr>)"
    by (rule read_frame [OF assms(1)]) (simp_all add: const_simps)
  then have "recv_item J (r\<lparr>rx := ?f\<rparr>) = (Done item, r\<lparr>rx := []\<rparr>)"
    by (simp add: recv_item_def bindp_def map_err_def d [unfolded clip_item_def clip_of_def]
        lift_sum_def ret_def clip_item_def clip_of_def)
  moreover have "send_item J item s = (Done (), s\<lparr>tx := ?f, wcap := wcap s - length ?f\<rparr>)"
    using assms(2-4) codec_at_encode [OF assms(1)]
    by (simp add: send_item_def encode_clip_msg_def bindp_def map_err_def lift_sum_def ret_def write_all_def)
  ultimately show ?thesis by simp
qed

section \<open>Witnesses\<close>

definition demo_v6 :: v6_text where
  "demo_v6 = \<lparr>v6_show = (\<lambda>segs p. 91 # map unat (p # segs) @ [93]),
     v6_read = (\<lambda>s. case butlast (tl s) of p # segs \<Rightarrow> Some \<lparr>sa_ip = V6 (map of_nat segs), sa_port = of_nat p\<rparr> | [] \<Rightarrow> None)\<rparr>"

lemma demo_v6_ok: "v6_ok demo_v6"
  by (auto simp: v6_ok_def demo_v6_def is_whitespace_def butlast_append comp_def)

definition codecs_at :: "ustring \<Rightarrow> ustring \<Rightarrow> codecs" where
  "codecs_at d l = (demo_codecs demo_crypto)
     \<lparr>kchal_codec := table_codec [challenge_msg demo_crypto (demo_identity 9) (PublicKey [7]) [1] [2] d l],
      kproof_codec := table_codec [proof_msg demo_crypto (demo_identity 7) (PublicKey [9]) [1] [2] d l]\<rparr>"

lemma laws_at: "session_laws (codecs_at d l) demo_crypto (demo_identity 7) (demo_identity 9) [1] [2] d l"
  by (simp add: session_laws_def Let_def codecs_at_def demo_codecs_def table_codec_at demo_verify demo_key const_simps)

definition demo_stream :: "u16 \<Rightarrow> u16 \<Rightarrow> unit hchan tcp_stream" where
  "demo_stream l p = \<lparr>ts_local = Inr (loopback l), ts_peer = Inr (loopback p), ts_bytes = demo_end\<rparr>"

lemma tcp_record_authenticates_witness:
  "\<exists>(a :: unit hchan tcp_session) b to_a to_b.
     dial_record demo_v6 (tcp_rendezvous_addr demo_v6 (loopback 7000)) (\<lambda>_ _. Some (0, Inr (demo_stream 5000 7000))) 0 = Inr a
     \<and> tcp_accept demo_v6 (Inr (demo_stream 7000 5000)) = Inr b
     \<and> (\<exists>t. authenticate_dialer (codecs_at (tcp_id demo_v6 (loopback 5000)) (tcp_id demo_v6 (loopback 7000))) demo_crypto
          (carrying (tcp_end a) demo_end to_a) (demo_identity 7) (PublicKey [9]) [1] = Done t \<and> tx t = to_b)"
proof -
  let ?J = "codecs_at (tcp_id demo_v6 (loopback 5000)) (tcp_id demo_v6 (loopback 7000))"
  let ?nets = "\<lambda>_ _. Some (0, Inr (demo_stream 5000 7000))"
  have d: "fst (dial_with_retry (loopback 7000) (?nets (loopback 7000)) 0) = Inr (demo_stream 5000 7000)"
    by (simp add: dial_with_retry_def dial_until.simps timeout_at_def)
  have f: "\<not> fin (ts_bytes (demo_stream x y)) \<and> tx (ts_bytes (demo_stream x y)) = [] \<and> 40000 \<le> wcap (ts_bytes (demo_stream x y))"
    for x y by (simp add: demo_stream_def demo_end_def)
  have p: "proper_addr (loopback 7000)" by (simp add: proper_addr_def loopback_def)
  have b: "ts_bytes (demo_stream x y) = demo_end" for x y by (simp add: demo_stream_def)
  from tcp_record_authenticates [where sb = "demo_stream 7000 5000"
      and l = "loopback 5000" and admit = "\<lambda>_. Inr ()", OF demo_v6_ok p d _ _ _ _ f f laws_at]
  show ?thesis by (simp add: demo_stream_def) blast
qed

end
