(* ===== verification/Endpoint.thy ===== *)
theory Endpoint
  imports Resolve "HOL-Library.Sublist"
begin

text \<open>
  The iroh endpoint helpers (\<open>duocb-core/src/net/endpoint.rs\<close>): how an endpoint is configured for each
  readiness, what binding one waits for, the bounded connect, and the views of a connection's paths.
  The networking library is a parameter: the outcome of a bind, the time the home relay answers, the
  successive values of the address watcher and of the path stream. Times are in milliseconds.
\<close>

section \<open>Configuration\<close>

definition ALPN :: bytes where "ALPN = utf8 (ascii ''duocb/1'')"
definition CONNECT_TIMEOUT :: nat where [const_simps]: "CONNECT_TIMEOUT = 10000"
definition QUIC_KEEP_ALIVE_INTERVAL :: nat where [const_simps]: "QUIC_KEEP_ALIVE_INTERVAL = 15000"
definition QUIC_IDLE_TIMEOUT :: nat where [const_simps]: "QUIC_IDLE_TIMEOUT = 30000"

datatype relay_mode = RelayDisabled | RelayDefault

datatype address_lookup = MdnsLookup | PkarrPublisherN0 | DnsLookupN0

record endpoint_builder =
  eb_idle :: nat
  eb_keep_alive :: nat
  eb_ring_crypto :: bool
  eb_relay :: relay_mode
  eb_lookups :: "address_lookup list"
  eb_secret :: "seckey option"
  eb_alpns :: "bytes list"

datatype endpoint_error =
  IdleTimeoutTooLong nat
| BindRefused ustring
| NotOnline nat
| ConnectRefused ustring
| ConnectionTimedOut nat

definition with_mdns_lookup :: "bool \<Rightarrow> endpoint_builder \<Rightarrow> endpoint_builder" where
  "with_mdns_lookup ios b = (if ios then b else b\<lparr>eb_lookups := eb_lookups b @ [MdnsLookup]\<rparr>)"

text \<open>\<open>IdleTimeout\<close> is a QUIC variable-length integer of milliseconds.\<close>

definition idle_timeout :: "nat \<Rightarrow> endpoint_error + nat" where
  "idle_timeout ms = (if ms < 2 ^ 62 then Inr ms else Inl (IdleTimeoutTooLong ms))"

definition create_endpoint_builder :: "bool \<Rightarrow> readiness \<Rightarrow> endpoint_error + endpoint_builder" where
  "create_endpoint_builder ios ready =
     (case idle_timeout QUIC_IDLE_TIMEOUT of
        Inl e \<Rightarrow> Inl e
      | Inr idle \<Rightarrow>
          (let builder = \<lparr>eb_idle = idle, eb_keep_alive = QUIC_KEEP_ALIVE_INTERVAL, eb_ring_crypto = True,
                 eb_relay = RelayDisabled, eb_lookups = [], eb_secret = None, eb_alpns = []\<rparr>
           in Inr (if ready = LanDirect then with_mdns_lookup ios (builder\<lparr>eb_relay := RelayDisabled\<rparr>)
                   else with_mdns_lookup ios
                          (builder\<lparr>eb_relay := RelayDefault, eb_lookups := [PkarrPublisherN0, DnsLookupN0]\<rparr>))))"

section \<open>Waiting until an endpoint is ready\<close>

text \<open>
  What the endpoint's address watcher yields: the addresses known now, then at each listed time a new
  value; after the last one it waits for ever, or ends because the endpoint is gone.
\<close>

record addr_watch =
  aw_now :: "socket_addr list"
  aw_updates :: "(nat \<times> socket_addr list) list"
  aw_gone :: "nat option"

text \<open>\<open>None\<close> is a wait that does not end.\<close>

fun wait_updates :: "(nat \<times> socket_addr list) list \<Rightarrow> nat option \<Rightarrow> nat option" where
  "wait_updates [] gone = gone"
| "wait_updates ((t, addrs) # us) gone = (if addrs \<noteq> [] then Some t else wait_updates us gone)"

definition wait_for_direct_address :: "nat \<Rightarrow> addr_watch \<Rightarrow> nat option" where
  "wait_for_direct_address now w = (if aw_now w \<noteq> [] then Some now else wait_updates (aw_updates w) (aw_gone w))"

definition wait_for_endpoint_ready ::
    "readiness \<Rightarrow> nat \<Rightarrow> nat option \<Rightarrow> addr_watch \<Rightarrow> (endpoint_error + unit) \<times> nat" where
  "wait_for_endpoint_ready ready now online watch =
     (let deadline = now + CONNECT_TIMEOUT;
          finish = (case ready of RelayOnline \<Rightarrow> online | _ \<Rightarrow> wait_for_direct_address now watch)
      in case finish of
           Some t \<Rightarrow>
             (if t \<le> deadline then (Inr (), t)
              else if ready = RelayOnline then (Inl (NotOnline (CONNECT_TIMEOUT div 1000)), deadline)
              else (Inr (), deadline))
         | None \<Rightarrow>
             (if ready = RelayOnline then (Inl (NotOnline (CONNECT_TIMEOUT div 1000)), deadline)
              else (Inr (), deadline)))"

text \<open>What the library does with a builder: it binds or refuses, and the bound endpoint then comes up.\<close>

record 'e binding_env =
  be_bind :: "endpoint_builder \<Rightarrow> ustring + 'e"
  be_online :: "'e \<Rightarrow> nat option"
  be_watch :: "'e \<Rightarrow> addr_watch"

definition bind_and_wait :: "'e binding_env \<Rightarrow> readiness \<Rightarrow> nat \<Rightarrow> endpoint_builder \<Rightarrow> (endpoint_error + 'e) \<times> nat" where
  "bind_and_wait env ready now builder =
     (case be_bind env builder of
        Inl e \<Rightarrow> (Inl (BindRefused e), now)
      | Inr endpoint \<Rightarrow>
          (case wait_for_endpoint_ready ready now (be_online env endpoint) (be_watch env endpoint) of
             (Inl e, t) \<Rightarrow> (Inl e, t)
           | (Inr _, t) \<Rightarrow> (Inr endpoint, t)))"

definition create_server_endpoint ::
    "'e binding_env \<Rightarrow> bool \<Rightarrow> readiness \<Rightarrow> seckey \<Rightarrow> nat \<Rightarrow> (endpoint_error + 'e) \<times> nat" where
  "create_server_endpoint env ios ready key now =
     (case create_endpoint_builder ios ready of
        Inl e \<Rightarrow> (Inl e, now)
      | Inr b \<Rightarrow> bind_and_wait env ready now (b\<lparr>eb_secret := Some key, eb_alpns := [ALPN]\<rparr>))"

definition create_client_endpoint ::
    "'e binding_env \<Rightarrow> bool \<Rightarrow> readiness \<Rightarrow> seckey \<Rightarrow> nat \<Rightarrow> (endpoint_error + 'e) \<times> nat" where
  "create_client_endpoint env ios ready key now =
     (case create_endpoint_builder ios ready of
        Inl e \<Rightarrow> (Inl e, now)
      | Inr b \<Rightarrow> bind_and_wait env ready now (b\<lparr>eb_secret := Some key\<rparr>))"

text \<open>The connect: what the library answers to the address and the protocol name, and when.\<close>

definition connect_to_server ::
    "(endpoint_addr \<Rightarrow> bytes \<Rightarrow> (nat \<times> (ustring + 'c)) option) \<Rightarrow> endpoint_addr \<Rightarrow> nat \<Rightarrow> (endpoint_error + 'c) \<times> nat" where
  "connect_to_server net server_addr now =
     (let timed_out = (Inl (ConnectionTimedOut (CONNECT_TIMEOUT div 1000)), now + CONNECT_TIMEOUT)
      in case net server_addr ALPN of
           Some (d, r) \<Rightarrow>
             (if d \<le> CONNECT_TIMEOUT
              then (case r of Inr conn \<Rightarrow> Inr conn | Inl e \<Rightarrow> Inl (ConnectRefused e), now + d) else timed_out)
         | None \<Rightarrow> timed_out)"

section \<open>Paths of a connection\<close>

text \<open>A path as iroh reports it. How addresses and round-trip times print is a parameter.\<close>

datatype remote_addr = RemoteIp socket_addr | RemoteRelay ustring | RemoteOther ustring

record path_info =
  pi_remote :: remote_addr
  pi_rtt :: nat
  pi_selected :: bool

record path_text =
  pt_socket :: "socket_addr \<Rightarrow> ustring"
  pt_rtt :: "nat \<Rightarrow> ustring"
  pt_debug :: "remote_addr \<Rightarrow> ustring"

definition rtt_note :: "path_text \<Rightarrow> nat \<Rightarrow> ustring" where
  "rtt_note X rtt = ascii '' (rtt '' @ pt_rtt X rtt @ ascii '')''"

definition describe_path :: "path_text \<Rightarrow> remote_addr \<Rightarrow> nat \<Rightarrow> path_kind \<times> ustring" where
  "describe_path X remote rtt =
     (case remote of
        RemoteIp addr \<Rightarrow> (PathDirect, ascii ''Direct '' @ pt_socket X addr @ rtt_note X rtt)
      | RemoteRelay url \<Rightarrow> (PathRelay, ascii ''Relay '' @ url @ rtt_note X rtt)
      | RemoteOther _ \<Rightarrow> (PathOther, pt_debug X remote @ rtt_note X rtt))"

definition snapshot_paths :: "path_text \<Rightarrow> path_info list \<Rightarrow> conn_path list" where
  "snapshot_paths X paths =
     map (\<lambda>p. case describe_path X (pi_remote p) (pi_rtt p) of (kind, display) \<Rightarrow> ConnPath kind display (pi_selected p)) paths"

fun join_comma :: "ustring list \<Rightarrow> ustring" where
  "join_comma [] = []"
| "join_comma [x] = x"
| "join_comma (x # y # zs) = x @ ascii '', '' @ join_comma (y # zs)"

definition format_paths :: "path_text \<Rightarrow> path_info list \<Rightarrow> ustring" where
  "format_paths X paths =
     (if paths = [] then ascii ''establishing...''
      else let parts = map (\<lambda>p. snd (describe_path X (pi_remote p) (pi_rtt p))) (filter pi_selected paths)
        in if parts = [] then ascii ''no selected path'' else join_comma parts)"

definition paths_key :: "path_text \<Rightarrow> path_info list \<Rightarrow> bool \<times> ustring list" where
  "paths_key X paths = (paths = [], map (\<lambda>p. pt_debug X (pi_remote p)) (filter pi_selected paths))"

text \<open>
  The path watcher: one step per snapshot of the stream; the lines logged, oldest first. With debug
  logging off no task runs.
\<close>

definition watch_step ::
    "path_text \<Rightarrow> path_info list \<Rightarrow> (bool \<times> ustring list) option \<times> ustring list \<Rightarrow> (bool \<times> ustring list) option \<times> ustring list" where
  "watch_step X paths st =
     (case st of (last_key, logged) \<Rightarrow>
        let key = paths_key X paths
        in if last_key \<noteq> Some key then (Some key, logged @ [format_paths X paths]) else (last_key, logged))"

definition watch_connection_paths :: "path_text \<Rightarrow> bool \<Rightarrow> path_info list list \<Rightarrow> ustring list" where
  "watch_connection_paths X debug_enabled snapshots =
     (if debug_enabled then snd (fold (watch_step X) snapshots (None, [])) else [])"


section \<open>Properties\<close>

lemma builder_at:
  "create_endpoint_builder ios ready = Inr
     \<lparr>eb_idle = QUIC_IDLE_TIMEOUT, eb_keep_alive = QUIC_KEEP_ALIVE_INTERVAL, eb_ring_crypto = True,
      eb_relay = (if ready = LanDirect then RelayDisabled else RelayDefault),
      eb_lookups = (if ready = LanDirect then [] else [PkarrPublisherN0, DnsLookupN0]) @ (if ios then [] else [MdnsLookup]),
      eb_secret = None, eb_alpns = []\<rparr>"
  by (simp add: create_endpoint_builder_def idle_timeout_def const_simps with_mdns_lookup_def Let_def)

text \<open>
  Third parties take part exactly when the user allowed the internet. The endpoint a
  signalling channel leads to uses relays and the public address lookups if and only if the channel
  includes the relays; without them nothing but the local network is asked, and on iOS nothing at all;
  and a connection is given up for dead only after two missed keep-alives.
\<close>

theorem endpoint_respects_channel:
  "\<exists>b. create_endpoint_builder ios (channel_readiness ch) = Inr b
     \<and> (eb_relay b = RelayDefault \<longleftrightarrow> ch_nostr ch)
     \<and> (\<forall>l \<in> set (eb_lookups b). l = MdnsLookup \<and> \<not> ios \<or> ch_nostr ch)
     \<and> (ch_nostr ch \<longrightarrow> PkarrPublisherN0 \<in> set (eb_lookups b) \<and> DnsLookupN0 \<in> set (eb_lookups b))
     \<and> (\<not> ios \<longrightarrow> MdnsLookup \<in> set (eb_lookups b))
     \<and> 2 * eb_keep_alive b \<le> eb_idle b"
  by (cases ch) (simp_all add: builder_at channel_readiness_def ch_nostr_def const_simps)

lemma endpoint_respects_channel_witness:
  "\<exists>b. create_endpoint_builder True (channel_readiness LanOnly) = Inr b \<and> eb_relay b = RelayDisabled
     \<and> eb_lookups b = []"
proof -
  from endpoint_respects_channel [of True LanOnly] obtain b
    where b: "create_endpoint_builder True (channel_readiness LanOnly) = Inr b" "eb_relay b \<noteq> RelayDefault"
      "\<forall>l \<in> set (eb_lookups b). False"
    by (auto simp: ch_nostr_def)
  then have "eb_lookups b = []" "eb_relay b = RelayDisabled" by (auto intro: relay_mode.exhaust [of "eb_relay b"])
  with b(1) show ?thesis by blast
qed

text \<open>The home relay has not answered by the deadline.\<close>

definition late :: "readiness \<Rightarrow> nat option \<Rightarrow> nat \<Rightarrow> bool" where
  "late ready online deadline \<longleftrightarrow> ready = RelayOnline \<and> (case online of None \<Rightarrow> True | Some t \<Rightarrow> deadline < t)"

lemma ready_Inr:
  "fst (wait_for_endpoint_ready ready now online w)
     = (if late ready online (now + CONNECT_TIMEOUT) then Inl (NotOnline 10) else Inr ())"
  by (cases ready)
    (auto simp: wait_for_endpoint_ready_def late_def Let_def CONNECT_TIMEOUT_def split: option.splits)

lemma ready_time: "snd (wait_for_endpoint_ready ready now online w) \<le> now + CONNECT_TIMEOUT"
  by (auto simp: wait_for_endpoint_ready_def Let_def split: option.splits readiness.splits)

lemma bind_and_wait_result:
  "be_bind env b = Inr e \<Longrightarrow>
     fst (bind_and_wait env ready now b)
       = (if late ready (be_online env e) (now + CONNECT_TIMEOUT) then Inl (NotOnline 10) else Inr e)
     \<and> snd (bind_and_wait env ready now b) \<le> now + CONNECT_TIMEOUT"
  using ready_Inr [of ready now "be_online env e" "be_watch env e"]
    ready_time [of ready now "be_online env e" "be_watch env e"]
  by (auto simp: bind_and_wait_def split: prod.splits sum.splits if_splits)

text \<open>
  A session that works offline is never held up by the relay. An endpoint that binds is
  handed over within the connect timeout; it is refused only when the mode needs the internet and the
  home relay has not answered by then, whatever addresses were or were not found.
\<close>

theorem endpoint_comes_up:
  assumes "\<forall>b. be_bind env b = Inr e"
  shows "snd (create_server_endpoint env ios ready key now) \<le> now + CONNECT_TIMEOUT
     \<and> snd (create_client_endpoint env ios ready key now) \<le> now + CONNECT_TIMEOUT
     \<and> (fst (create_server_endpoint env ios ready key now) = Inr e
        \<longleftrightarrow> ready \<noteq> RelayOnline \<or> (\<exists>t. be_online env e = Some t \<and> t \<le> now + CONNECT_TIMEOUT))
     \<and> (fst (create_client_endpoint env ios ready key now) = Inr e
        \<longleftrightarrow> ready \<noteq> RelayOnline \<or> (\<exists>t. be_online env e = Some t \<and> t \<le> now + CONNECT_TIMEOUT))"
proof -
  have l: "late ready online d \<longleftrightarrow> \<not> (ready \<noteq> RelayOnline \<or> (\<exists>t. online = Some t \<and> t \<le> d))" for online d
    by (auto simp: late_def split: option.splits)
  show ?thesis
    using bind_and_wait_result [where env = env and e = e and ready = ready and now = now, OF assms [rule_format]]
    by (simp add: create_server_endpoint_def create_client_endpoint_def builder_at l)
qed

lemma endpoint_comes_up_witness:
  "fst (create_server_endpoint \<lparr>be_bind = (\<lambda>_. Inr ()), be_online = (\<lambda>_. None), be_watch = (\<lambda>_. \<lparr>aw_now = [], aw_updates = [], aw_gone = None\<rparr>)\<rparr>
     False DirectAddr [7] 0) = Inr ()"
  using endpoint_comes_up [of "\<lparr>be_bind = (\<lambda>_. Inr ()), be_online = (\<lambda>_. None), be_watch = (\<lambda>_. \<lparr>aw_now = [], aw_updates = [], aw_gone = None\<rparr>)\<rparr>"
      "()" False DirectAddr "[7]" 0] by simp

lemma connect_bounded: "snd (connect_to_server net addr now) \<le> now + CONNECT_TIMEOUT"
  by (auto simp: connect_to_server_def Let_def split: option.splits)

text \<open>What a status view shows of a path is what iroh reported, in the same order.\<close>

lemma snapshot_selected: "map path_selected (snapshot_paths X ps) = map pi_selected ps"
  by (simp add: snapshot_paths_def case_prod_beta)

lemma snapshot_kind:
  "map path_kind (snapshot_paths X ps)
     = map (\<lambda>p. case pi_remote p of RemoteIp _ \<Rightarrow> PathDirect | RemoteRelay _ \<Rightarrow> PathRelay | RemoteOther _ \<Rightarrow> PathOther) ps"
  by (auto simp: snapshot_paths_def describe_path_def split: remote_addr.splits)

lemma watch_step_at:
  "watch_step X p (k, l) = (Some (paths_key X p), if k = Some (paths_key X p) then l else l @ [format_paths X p])"
  by (simp add: watch_step_def Let_def)

lemma watch_run:
  "\<exists>shown. subseq shown ss \<and> map (paths_key X) shown = remdups_adj (map (paths_key X) ss)
     \<and> fold (watch_step X) ss (None, []) =
         (if ss = [] then None else Some (paths_key X (last ss)), map (format_paths X) shown)"
proof (induction ss rule: rev_induct)
  case (snoc p ss)
  then obtain shown where s: "subseq shown ss" "map (paths_key X) shown = remdups_adj (map (paths_key X) ss)"
    "fold (watch_step X) ss (None, []) = (if ss = [] then None else Some (paths_key X (last ss)), map (format_paths X) shown)"
    by blast
  have adj: "remdups_adj (map (paths_key X) (ss @ [p])) = remdups_adj (map (paths_key X) ss)
      @ (if ss \<noteq> [] \<and> paths_key X (last ss) = paths_key X p then [] else [paths_key X p])"
  proof (cases ss rule: rev_cases)
    case (snoc ys y)
    then show ?thesis using remdups_adj_append_two [of "map (paths_key X) ys" "paths_key X y" "paths_key X p"] by simp
  qed simp
  show ?case
  proof (cases "ss \<noteq> [] \<and> paths_key X (last ss) = paths_key X p")
    case True
    with s adj show ?thesis by (intro exI [of _ shown]) (auto simp: watch_step_at)
  next
    case False
    with s adj show ?thesis
      by (intro exI [of _ "shown @ [p]"]) (auto simp: watch_step_at)
  qed
qed simp

text \<open>
  The path watcher logs changes and nothing else. Its lines are those of a subsequence of
  the snapshots whose selected paths are the snapshots' selected paths with repetitions removed: a new
  round-trip time alone is no line, and no change of route goes unlogged.
\<close>

theorem watcher_logs_changes:
  "\<exists>shown. subseq shown snapshots \<and> map (paths_key X) shown = remdups_adj (map (paths_key X) snapshots)
     \<and> watch_connection_paths X True snapshots = map (format_paths X) shown"
  using watch_run [of snapshots X] by (auto simp: watch_connection_paths_def)

end
