(* ===== verification/Instances.thy ===== *)
theory Instances
  imports Config
begin

text \<open>
  Several instances of the desktop app on one machine (\<open>duocb/src/config.rs\<close>, \<open>keychain.rs\<close>,
  \<open>main.rs\<close>): where a configuration lives, the lock file that keeps an instance alone with it, the files
  and the credential of every path, and processes that start, are refused, save, crash and exit in any
  order of their system calls. Paths are Unix paths. Files are inodes under names, with content,
  permissions and whether they are flushed; a lock is on an inode. How the file system resolves a path to
  a directory entry is a parameter.
\<close>

section \<open>Paths\<close>

fun os_bytes :: "os_string \<Rightarrow> bytes" where
  "os_bytes (Utf8 s) = utf8 s"
| "os_bytes (NotUtf8 b) = b"

fun os_push :: "os_string \<Rightarrow> ustring \<Rightarrow> os_string" where
  "os_push (Utf8 s) t = Utf8 (s @ t)"
| "os_push (NotUtf8 b) t = NotUtf8 (b @ utf8 t)"

definition is_absolute :: "os_string \<Rightarrow> bool" where
  "is_absolute p \<longleftrightarrow> (case os_bytes p of [] \<Rightarrow> False | b # _ \<Rightarrow> b = 47)"

definition path_join :: "os_string \<Rightarrow> os_string \<Rightarrow> os_string" where
  "path_join base p =
     (if is_absolute p then p
      else let sep = (if os_bytes base = [] \<or> last (os_bytes base) = 47 then [] else [47 :: uchar])
        in case (base, p) of
             (Utf8 a, Utf8 b) \<Rightarrow> Utf8 (a @ sep @ b)
           | _ \<Rightarrow> NotUtf8 (os_bytes base @ utf8 sep @ os_bytes p))"

definition sibling_path :: "os_string \<Rightarrow> ustring \<Rightarrow> os_string" where
  "sibling_path p suffix = os_push p suffix"

definition lock_path :: "os_string \<Rightarrow> os_string" where "lock_path p = sibling_path p (ascii ''.lock'')"
definition temp_path :: "os_string \<Rightarrow> os_string" where "temp_path p = sibling_path p (ascii ''.tmp'')"
definition broken_path :: "os_string \<Rightarrow> os_string" where "broken_path p = sibling_path p (ascii ''.broken'')"

datatype path_error = NoConfigDir | NoCurrentDir

definition resolve_path :: "os_string option \<Rightarrow> os_string option \<Rightarrow> os_string option \<Rightarrow> path_error + os_string" where
  "resolve_path explicit config_dir current_dir =
     (case (case explicit of
              Some path \<Rightarrow> Inr path
            | None \<Rightarrow>
                (case config_dir of
                   None \<Rightarrow> Inl NoConfigDir
                 | Some d \<Rightarrow> Inr (path_join (path_join d (Utf8 (ascii ''duocb''))) (Utf8 (ascii ''config.json''))))) of
        Inl e \<Rightarrow> Inl e
      | Inr path \<Rightarrow>
          (if is_absolute path then Inr path
           else case current_dir of None \<Rightarrow> Inl NoCurrentDir | Some c \<Rightarrow> Inr (path_join c path)))"

section \<open>The machine\<close>

text \<open>
  \<open>fs_loc\<close> is the directory entry a path leads to (the last component is not a symbolic link),
  \<open>fs_parents\<close> the directories above it, outermost first, and \<open>fs_lossy\<close> the display of a path that is no
  text. An entry names an inode, which has the content; a lock is held on an inode, not on a name.
\<close>

record 'l filesystem =
  fs_loc :: "os_string \<Rightarrow> 'l"
  fs_parents :: "os_string \<Rightarrow> 'l list"
  fs_lossy :: "bytes \<Rightarrow> ustring"

text \<open>The lock an instance holds (\<open>ConfigLock\<close>): the open lock file and the path it was taken for.\<close>

record config_lock =
  ck_file :: nat
  ck_path :: os_string

text \<open>A process: its lock, the temporary file it has open, and what it is about to do.\<close>

record os_process =
  pr_lock :: config_lock
  pr_temp :: "nat option"
  pr_pending :: "disk_op list"

record 'l machine =
  mc_dirs :: "'l set"
  mc_names :: "'l \<Rightarrow> nat option"
  mc_inodes :: "nat \<Rightarrow> contents"
  mc_next :: nat
  mc_keys :: "ustring \<Rightarrow> credential"
  mc_locks :: "nat \<Rightarrow> nat option"
  mc_procs :: "nat \<Rightarrow> os_process option"

definition account :: "'l filesystem \<Rightarrow> os_string \<Rightarrow> ustring" where
  "account F p = (case p of Utf8 s \<Rightarrow> s | NotUtf8 b \<Rightarrow> fs_lossy F b)"

definition file_at :: "'l machine \<Rightarrow> 'l \<Rightarrow> contents" where
  "file_at m l = (case mc_names m l of None \<Rightarrow> Absent | Some i \<Rightarrow> mc_inodes m i)"

text \<open>What an instance at a path sees: its three files and its credential.\<close>

definition disk_of :: "'l filesystem \<Rightarrow> 'l machine \<Rightarrow> os_string \<Rightarrow> disk" where
  "disk_of F m p =
     \<lparr>d_config = file_at m (fs_loc F p), d_temp = file_at m (fs_loc F (temp_path p)),
      d_broken = file_at m (fs_loc F (broken_path p)), d_key = mc_keys m (account F p)\<rparr>"

text \<open>The system calls: opening with the creation of what is missing, changing an open file, renaming.\<close>

definition open_or_create :: "'l \<Rightarrow> 'l machine \<Rightarrow> nat \<times> 'l machine" where
  "open_or_create l m =
     (case mc_names m l of
        Some i \<Rightarrow> (i, m)
      | None \<Rightarrow>
          (mc_next m,
           m\<lparr>mc_names := (mc_names m)(l := Some (mc_next m)),
             mc_inodes := (mc_inodes m)(mc_next m := File \<lparr>fm_private = False, fm_flushed = False\<rparr> []),
             mc_next := mc_next m + 1\<rparr>))"

definition change_file :: "(contents \<Rightarrow> contents) \<Rightarrow> nat option \<Rightarrow> 'l machine \<Rightarrow> 'l machine" where
  "change_file f t m = (case t of None \<Rightarrow> m | Some i \<Rightarrow> m\<lparr>mc_inodes := (mc_inodes m)(i := f (mc_inodes m i))\<rparr>)"

definition rename :: "'l \<Rightarrow> 'l \<Rightarrow> 'l machine \<Rightarrow> 'l machine" where
  "rename a b m =
     (case mc_names m a of
        None \<Rightarrow> m
      | Some i \<Rightarrow> (if mc_names m b = Some i then m else m\<lparr>mc_names := (mc_names m)(a := None, b := Some i)\<rparr>))"

definition machine_op ::
    "'l filesystem \<Rightarrow> os_string \<Rightarrow> disk_op \<Rightarrow> nat option \<times> 'l machine \<Rightarrow> nat option \<times> 'l machine" where
  "machine_op F p w s =
     (case s of (t, m) \<Rightarrow>
        (case w of
           SetKey k \<Rightarrow> (t, m\<lparr>mc_keys := (mc_keys m)(account F p := Entry k)\<rparr>)
         | TruncateTemp \<Rightarrow>
             (case open_or_create (fs_loc F (temp_path p)) m of (i, m') \<Rightarrow> (Some i, change_file truncate_file (Some i) m'))
         | RestrictTemp \<Rightarrow> (t, change_file restrict_to_owner t m)
         | AppendTemp b \<Rightarrow> (t, change_file (append_byte b) t m)
         | FlushTemp \<Rightarrow> (t, change_file sync_all t m)
         | RenameTemp \<Rightarrow> (None, rename (fs_loc F (temp_path p)) (fs_loc F p) m)
         | MoveAside \<Rightarrow> (t, rename (fs_loc F p) (fs_loc F (broken_path p)) m)))"

definition machine_ops :: "'l filesystem \<Rightarrow> os_string \<Rightarrow> disk_op list \<Rightarrow> 'l machine \<Rightarrow> 'l machine" where
  "machine_ops F p ws m = snd (fold (machine_op F p) ws (None, m))"

section \<open>The lock\<close>

datatype lock_error = NoDirectory | LockNotOpened | LockNotRestricted | AlreadyRunning os_string | LockFailed

text \<open>
  What the system grants: how many missing directories it makes, opening the lock file, changing its
  permissions, and locking at all.
\<close>

record lock_env =
  le_dirs :: nat
  le_open :: bool
  le_restrict :: bool
  le_lockable :: bool

definition create_dir_all :: "nat \<Rightarrow> 'l list \<Rightarrow> 'l machine \<Rightarrow> bool \<times> 'l machine" where
  "create_dir_all granted ds m =
     (let missing = filter (\<lambda>d. d \<notin> mc_dirs m) ds in
      (length missing \<le> granted, m\<lparr>mc_dirs := mc_dirs m \<union> set (take granted missing)\<rparr>))"

definition acquire_lock ::
    "'l filesystem \<Rightarrow> lock_env \<Rightarrow> nat \<Rightarrow> os_string \<Rightarrow> 'l machine \<Rightarrow> (lock_error + config_lock) \<times> 'l machine" where
  "acquire_lock F E pid p m =
     (case create_dir_all (le_dirs E) (fs_parents F p) m of (made, m1) \<Rightarrow>
        (if \<not> made then (Inl NoDirectory, m1)
         else if \<not> le_open E then (Inl LockNotOpened, m1)
         else case open_or_create (fs_loc F (lock_path p)) m1 of (i, m2) \<Rightarrow>
           (if \<not> le_restrict E then (Inl LockNotRestricted, m2)
            else let m3 = change_file restrict_to_owner (Some i) m2 in
              if \<not> le_lockable E then (Inl LockFailed, m3)
              else case mc_locks m3 i of
                Some _ \<Rightarrow> (Inl (AlreadyRunning p), m3)
              | None \<Rightarrow> (Inr \<lparr>ck_file = i, ck_path = p\<rparr>, m3\<lparr>mc_locks := (mc_locks m3)(i := Some pid)\<rparr>))))"

text \<open>The system drops a process's lock when it ends, however it ends. The lock file stays.\<close>

definition release :: "config_lock \<Rightarrow> 'l machine \<Rightarrow> 'l machine" where
  "release lk m = m\<lparr>mc_locks := (mc_locks m)(ck_file lk := None)\<rparr>"

section \<open>Processes\<close>

definition running :: "'l machine \<Rightarrow> nat \<Rightarrow> os_process \<Rightarrow> bool" where
  "running m pid pr \<longleftrightarrow> mc_procs m pid = Some pr"

definition set_proc :: "nat \<Rightarrow> os_process option \<Rightarrow> 'l machine \<Rightarrow> 'l machine" where
  "set_proc pid pr m = m\<lparr>mc_procs := (mc_procs m)(pid := pr)\<rparr>"

definition config_path :: "os_process \<Rightarrow> os_string" where "config_path pr = ck_path (pr_lock pr)"

text \<open>
  One process starts or is refused, begins a save or a reset, performs the next primitive operation,
  abandons what is left after an error, or ends (also in the middle of a save).
\<close>

inductive machine_step ::
    "'l filesystem \<Rightarrow> config_json \<Rightarrow> os_string set \<Rightarrow> 'l machine \<Rightarrow> 'l machine \<Rightarrow> bool"
  for F :: "'l filesystem" and J :: config_json and P :: "os_string set" where
  start: "p \<in> P \<Longrightarrow> mc_procs m pid = None \<Longrightarrow> acquire_lock F E pid p m = (Inr lk, m') \<Longrightarrow>
     machine_step F J P m (set_proc pid (Some \<lparr>pr_lock = lk, pr_temp = None, pr_pending = []\<rparr>) m')"
| refused: "p \<in> P \<Longrightarrow> acquire_lock F E pid p m = (Inl e, m') \<Longrightarrow> machine_step F J P m m'"
| save: "running m pid pr \<Longrightarrow> pr_pending pr = [] \<Longrightarrow>
     machine_step F J P m (set_proc pid (Some (pr\<lparr>pr_pending := save_ops J cfg\<rparr>)) m)"
| reset: "running m pid pr \<Longrightarrow> pr_pending pr = [] \<Longrightarrow>
     machine_step F J P m (set_proc pid (Some (pr\<lparr>pr_pending := MoveAside # save_ops J cfg\<rparr>)) m)"
| disk_op: "running m pid pr \<Longrightarrow> pr_pending pr = w # ws \<Longrightarrow> machine_op F (config_path pr) w (pr_temp pr, m) = (t, m') \<Longrightarrow>
     machine_step F J P m (set_proc pid (Some (pr\<lparr>pr_temp := t, pr_pending := ws\<rparr>)) m')"
| abandon: "running m pid pr \<Longrightarrow>
     machine_step F J P m (set_proc pid (Some (pr\<lparr>pr_temp := None, pr_pending := []\<rparr>)) m)"
| exit: "running m pid pr \<Longrightarrow>
     machine_step F J P m (set_proc pid None (release (pr_lock pr) m))"

inductive machine_reach ::
    "'l filesystem \<Rightarrow> config_json \<Rightarrow> os_string set \<Rightarrow> 'l machine \<Rightarrow> 'l machine \<Rightarrow> bool"
  for F :: "'l filesystem" and J :: config_json and P :: "os_string set" and m :: "'l machine" where
  here: "machine_reach F J P m m"
| there: "machine_reach F J P m a \<Longrightarrow> machine_step F J P a b \<Longrightarrow> machine_reach F J P m b"

section \<open>Starting the app\<close>




text \<open>The recovery window on the machine: every reset runs as far as the system lets it.\<close>

fun recover_on ::
    "'l filesystem \<Rightarrow> 'z crypto_scheme \<Rightarrow> config_json \<Rightarrow> os_string \<Rightarrow> reset_try option list \<Rightarrow> 'l machine
      \<Rightarrow> config option \<times> 'l machine" where
  "recover_on F C J p [] m = (None, m)"
| "recover_on F C J p (None # answers) m = (None, m)"
| "recover_on F C J p (Some t # answers) m =
     (let cfg = config_default C (rt_fresh t) (rt_rng t);
          m' = machine_ops F p (take (rt_completed t) (MoveAside # save_ops J cfg)) m in
      case fst (reset_config C J (rt_fresh t) (rt_rng t) (rt_completed t) (disk_of F m p)) of
        Inr cfg \<Rightarrow> (Some cfg, m')
      | Inl e \<Rightarrow> recover_on F C J p answers m')"



section \<open>One instance's operations\<close>

text \<open>No file has two names, names and locks are of files that exist.\<close>

definition machine_wf :: "'l machine \<Rightarrow> bool" where
  "machine_wf m \<longleftrightarrow>
     (\<forall>k l i. mc_names m k = Some i \<and> mc_names m l = Some i \<longrightarrow> k = l)
     \<and> (\<forall>l i. mc_names m l = Some i \<longrightarrow> i < mc_next m \<and> mc_inodes m i \<noteq> Absent)
     \<and> (\<forall>i. mc_locks m i \<noteq> None \<longrightarrow> i < mc_next m)"

lemma machine_wfD:
  assumes "machine_wf m"
  shows "mc_names m k = Some i \<Longrightarrow> mc_names m l = Some i \<Longrightarrow> k = l" "mc_names m l = Some i \<Longrightarrow> i < mc_next m"
    "mc_names m l = Some i \<Longrightarrow> mc_inodes m i \<noteq> Absent" "mc_locks m (mc_next m) = None" "file_at m l = Absent \<longleftrightarrow> mc_names m l = None"
  using assms unfolding machine_wf_def file_at_def by (blast | fastforce split: option.splits)+

text \<open>
  Names that do not collide: no configuration is another's temporary, broken or lock file, nor are these
  each other's; temporary files belong to one lock, and two names of one configuration share the lock.
\<close>

definition well_named :: "'l filesystem \<Rightarrow> os_string set \<Rightarrow> bool" where
  "well_named F P \<longleftrightarrow>
     (\<forall>p \<in> P. \<forall>q \<in> P.
        fs_loc F p \<noteq> fs_loc F (temp_path q) \<and> fs_loc F p \<noteq> fs_loc F (broken_path q)
        \<and> fs_loc F (temp_path p) \<noteq> fs_loc F (broken_path q)
        \<and> fs_loc F (lock_path p) \<notin> {fs_loc F q, fs_loc F (temp_path q), fs_loc F (broken_path q)}
        \<and> (fs_loc F (temp_path p) = fs_loc F (temp_path q) \<longrightarrow> fs_loc F (lock_path p) = fs_loc F (lock_path q))
        \<and> (fs_loc F p = fs_loc F q \<longrightarrow> fs_loc F (lock_path p) = fs_loc F (lock_path q)))"

lemma well_namedD:
  assumes "well_named F P" "p \<in> P" "q \<in> P"
  shows "fs_loc F p \<noteq> fs_loc F (temp_path q)" "fs_loc F (temp_path q) \<noteq> fs_loc F p"
    "fs_loc F p \<noteq> fs_loc F (broken_path q)" "fs_loc F (broken_path q) \<noteq> fs_loc F p"
    "fs_loc F (temp_path p) \<noteq> fs_loc F (broken_path q)" "fs_loc F (broken_path q) \<noteq> fs_loc F (temp_path p)"
    "fs_loc F (lock_path p) \<noteq> fs_loc F (lock_path q) \<Longrightarrow> fs_loc F (temp_path p) \<noteq> fs_loc F (temp_path q)"
    "fs_loc F p = fs_loc F q \<Longrightarrow> fs_loc F (lock_path p) = fs_loc F (lock_path q)"
    "fs_loc F (lock_path p) \<noteq> fs_loc F q" "fs_loc F (lock_path p) \<noteq> fs_loc F (temp_path q)"
    "fs_loc F (lock_path p) \<noteq> fs_loc F (broken_path q)"
  using assms(1) [unfolded well_named_def, rule_format, OF assms(2,3)]
    assms(1) [unfolded well_named_def, rule_format, OF assms(3,2)] by auto

text \<open>What each system call does to the files by name.\<close>

lemma file_at_others [simp]:
  "file_at (m\<lparr>mc_keys := K\<rparr>) l = file_at m l" "file_at (m\<lparr>mc_locks := L\<rparr>) l = file_at m l" "file_at (m\<lparr>mc_procs := Q\<rparr>) l = file_at m l"
  "file_at (m\<lparr>mc_dirs := A\<rparr>) l = file_at m l"
  by (simp_all add: file_at_def split: option.split)

lemma wf_others [simp]:
  "machine_wf (m\<lparr>mc_keys := K\<rparr>) = machine_wf m" "machine_wf (m\<lparr>mc_procs := Q\<rparr>) = machine_wf m"
  "machine_wf (m\<lparr>mc_dirs := A\<rparr>) = machine_wf m"
  by (simp_all add: machine_wf_def)

lemma change_others [simp]:
  "mc_names (change_file f t m) = mc_names m" "mc_next (change_file f t m) = mc_next m" "mc_keys (change_file f t m) = mc_keys m"
  "mc_locks (change_file f t m) = mc_locks m" "mc_procs (change_file f t m) = mc_procs m" "mc_dirs (change_file f t m) = mc_dirs m"
  by (simp_all add: change_file_def split: option.splits)

lemma change_at:
  assumes "machine_wf m" "t = mc_names m l"
  shows "file_at (change_file f t m) k = (if k = l \<and> mc_names m l \<noteq> None then f (file_at m k) else file_at m k)"
  using machine_wfD(1) [OF assms(1)] assms(2) by (fastforce simp: change_file_def file_at_def split: option.splits)

lemma change_wf: "machine_wf m \<Longrightarrow> (\<And>c. c \<noteq> Absent \<Longrightarrow> f c \<noteq> Absent) \<Longrightarrow> machine_wf (change_file f t m)"
  by (auto simp: machine_wf_def change_file_def split: option.splits)

lemma file_ops_exist [simp]:
  "truncate_file c \<noteq> Absent" "c \<noteq> Absent \<Longrightarrow> restrict_to_owner c \<noteq> Absent" "c \<noteq> Absent \<Longrightarrow> append_byte b c \<noteq> Absent"
  "c \<noteq> Absent \<Longrightarrow> sync_all c \<noteq> Absent"
  by (cases c; simp add: file_ops)+

lemma opened_file:
  assumes "machine_wf m" "open_or_create l m = (i, m')"
  shows "mc_names m' l = Some i" "k \<noteq> l \<Longrightarrow> file_at m' k = file_at m k" "machine_wf m'"
    "mc_names m l = None \<Longrightarrow> file_at m' l = File \<lparr>fm_private = False, fm_flushed = False\<rparr> []"
    "mc_names m l \<noteq> None \<Longrightarrow> m' = m"
    "k \<noteq> l \<Longrightarrow> mc_names m' k = mc_names m k" "mc_locks m' = mc_locks m" "mc_keys m' = mc_keys m" "mc_procs m' = mc_procs m"
    "mc_dirs m' = mc_dirs m"
proof -
  show "mc_names m' l = Some i" "mc_names m l \<noteq> None \<Longrightarrow> m' = m" "k \<noteq> l \<Longrightarrow> mc_names m' k = mc_names m k"
    "mc_locks m' = mc_locks m" "mc_keys m' = mc_keys m" "mc_procs m' = mc_procs m" "mc_dirs m' = mc_dirs m"
    "mc_names m l = None \<Longrightarrow> file_at m' l = File \<lparr>fm_private = False, fm_flushed = False\<rparr> []"
    using assms(2) by (auto simp: open_or_create_def file_at_def split: option.splits)
  have "mc_names m k \<noteq> Some (mc_next m)" for k using machine_wfD(2) [OF assms(1), of k "mc_next m"] by auto
  then show "machine_wf m'"
    using assms by (auto simp: machine_wf_def open_or_create_def less_Suc_eq split: option.splits if_splits)
  show "file_at m' k = file_at m k" if "k \<noteq> l"
    using assms(2) that machine_wfD(2) [OF assms(1), of k "mc_next m"]
    by (auto simp: open_or_create_def file_at_def split: option.splits)
qed

lemma renamed_file:
  assumes "machine_wf m" "a \<noteq> b"
  shows "file_at (rename a b m) k = (if mc_names m a = None then file_at m k
      else if k = b then file_at m a else if k = a then Absent else file_at m k)"
    "machine_wf (rename a b m)" "k \<noteq> a \<Longrightarrow> k \<noteq> b \<Longrightarrow> mc_names (rename a b m) k = mc_names m k"
    "mc_names (rename a b m) a = None"
    "mc_locks (rename a b m) = mc_locks m" "mc_keys (rename a b m) = mc_keys m" "mc_procs (rename a b m) = mc_procs m"
    "mc_dirs (rename a b m) = mc_dirs m"
proof -
  have n: "mc_names m a = Some i \<Longrightarrow> mc_names m b \<noteq> Some i" for i using machine_wfD(1) [OF assms(1), of a i b] assms(2) by auto
  show "file_at (rename a b m) k = (if mc_names m a = None then file_at m k
      else if k = b then file_at m a else if k = a then Absent else file_at m k)"
    "k \<noteq> a \<Longrightarrow> k \<noteq> b \<Longrightarrow> mc_names (rename a b m) k = mc_names m k"
    "mc_names (rename a b m) a = None"
    "mc_locks (rename a b m) = mc_locks m" "mc_keys (rename a b m) = mc_keys m" "mc_procs (rename a b m) = mc_procs m"
    "mc_dirs (rename a b m) = mc_dirs m"
    using assms(2) n by (auto simp: rename_def file_at_def split: option.splits)
  show "machine_wf (rename a b m)"
    using assms(1) by (auto simp: machine_wf_def rename_def split: option.splits if_splits)
qed

text \<open>The operations still to come write to the temporary file that is open, up to the next opening.\<close>

fun needs_open :: "disk_op list \<Rightarrow> bool" where
  "needs_open [] = False"
| "needs_open (w # ws) =
     (case w of SetKey _ \<Rightarrow> needs_open ws | MoveAside \<Rightarrow> needs_open ws | TruncateTemp \<Rightarrow> False | _ \<Rightarrow> True)"

definition in_hand :: "'l filesystem \<Rightarrow> os_string \<Rightarrow> disk_op list \<Rightarrow> nat option \<Rightarrow> 'l machine \<Rightarrow> bool" where
  "in_hand F p ws t m \<longleftrightarrow> (needs_open ws \<longrightarrow> t = mc_names m (fs_loc F (temp_path p)))"

lemma save_opens: "\<not> needs_open (save_ops J cfg)" "\<not> needs_open (MoveAside # save_ops J cfg)"
  by (simp_all add: save_ops_def write_private_file_def split: option.split)

text \<open>A write to the open temporary file.\<close>

lemma change_temp:
  assumes "well_named F P" "p \<in> P" "machine_wf m" "t = mc_names m (fs_loc F (temp_path p))" "f Absent = Absent"
  shows "disk_of F (change_file f t m) p = (disk_of F m p)\<lparr>d_temp := f (d_temp (disk_of F m p))\<rparr>"
    "k \<noteq> fs_loc F (temp_path p) \<Longrightarrow> file_at (change_file f t m) k = file_at m k"
proof -
  have "mc_names m l = None \<Longrightarrow> file_at m l = Absent" for l by (simp add: file_at_def)
  then show "disk_of F (change_file f t m) p = (disk_of F m p)\<lparr>d_temp := f (d_temp (disk_of F m p))\<rparr>"
    using change_at [OF assms(3,4), of f] well_namedD [OF assms(1,2,2)] assms(5) by (auto simp: disk_of_def)
qed (use change_at [OF assms(3,4), of f] in simp)

text \<open>
  The machine refines the single store: what an instance sees changes by the store's own operation, and
  the locks, the processes and the lock files stay.
\<close>

lemma machine_op_refines:
  assumes n: "well_named F P" "p \<in> P" and m: "machine_wf m" and h: "in_hand F p (w # ws) t m"
    and w: "machine_op F p w (t, m) = (t', m')"
  shows "disk_of F m' p = apply_op w (disk_of F m p)" "machine_wf m'" "in_hand F p ws t' m'"
    "mc_locks m' = mc_locks m" "mc_procs m' = mc_procs m" "mc_dirs m' = mc_dirs m"
    "k \<noteq> account F p \<Longrightarrow> mc_keys m' k = mc_keys m k"
    "l \<notin> {fs_loc F p, fs_loc F (temp_path p), fs_loc F (broken_path p)} \<Longrightarrow> mc_names m' l = mc_names m l \<and> file_at m' l = file_at m l"
proof -
  note d = well_namedD [OF n n(2)]
  have "disk_of F m' p = apply_op w (disk_of F m p) \<and> machine_wf m' \<and> in_hand F p ws t' m'
    \<and> mc_locks m' = mc_locks m \<and> mc_procs m' = mc_procs m \<and> mc_dirs m' = mc_dirs m
    \<and> (\<forall>k. k \<noteq> account F p \<longrightarrow> mc_keys m' k = mc_keys m k)
    \<and> (\<forall>l. l \<notin> {fs_loc F p, fs_loc F (temp_path p), fs_loc F (broken_path p)}
         \<longrightarrow> mc_names m' l = mc_names m l \<and> file_at m' l = file_at m l)"
  proof (cases w)
    case (SetKey s)
    with w h m show ?thesis
      by (auto simp: machine_op_def in_hand_def disk_of_def apply_op_def)
  next
    case TruncateTemp
    let ?l = "fs_loc F (temp_path p)"
    obtain i m1 where o: "open_or_create ?l m = (i, m1)" by (cases "open_or_create ?l m")
    note f = opened_file [OF m o]
    have m': "t' = Some i" "m' = change_file truncate_file (Some i) m1" using w TruncateTemp o by (auto simp: machine_op_def)
    have at: "file_at m' k = (if k = ?l then truncate_file (file_at m ?l) else file_at m k)" for k
    proof -
      have "truncate_file (file_at m1 ?l) = truncate_file (file_at m ?l)"
        using f(4,5) machine_wfD(5) [OF m, of ?l] by (cases "mc_names m ?l") (simp_all add: truncate_file_def)
      then show ?thesis using change_at [OF f(3) f(1) [symmetric], of truncate_file k] f(1,2) by (simp add: m'(2))
    qed
    have "disk_of F m' p = apply_op w (disk_of F m p)"
      using d f(8) by (simp add: disk_of_def at apply_op_def TruncateTemp) (simp add: m'(2))
    then show ?thesis
      using at f(1,3,6-10) change_wf [OF f(3), of truncate_file "Some i"] by (simp add: in_hand_def m')
  next
    case RenameTemp
    let ?l = "fs_loc F (temp_path p)"
    note f = renamed_file [OF m d(2)]
    have m': "t' = None" "m' = rename ?l (fs_loc F p) m" using w RenameTemp by (simp_all add: machine_op_def)
    have "disk_of F m' p = apply_op w (disk_of F m p)"
      using d machine_wfD(5) [OF m, of ?l] by (simp add: disk_of_def apply_op_def RenameTemp m'(2) f)
    then show ?thesis using f(1-8) by (simp add: m' in_hand_def)
  next
    case MoveAside
    note f = renamed_file [OF m d(3)]
    have m': "t' = t" "m' = rename (fs_loc F p) (fs_loc F (broken_path p)) m" using w MoveAside by (simp_all add: machine_op_def)
    have "disk_of F m' p = apply_op w (disk_of F m p)"
      using d machine_wfD(5) [OF m, of "fs_loc F p"] by (simp add: disk_of_def apply_op_def MoveAside m'(2) f)
    then show ?thesis using f(1-8) h d by (simp add: m' in_hand_def MoveAside)
  next
    case RestrictTemp
    then have t: "t = mc_names m (fs_loc F (temp_path p))" "t' = t" "m' = change_file restrict_to_owner t m"
      using h w by (auto simp: in_hand_def machine_op_def)
    show ?thesis
      using change_temp [OF n m t(1), of restrict_to_owner] change_wf [OF m, of restrict_to_owner t] t
      by (simp add: in_hand_def apply_op_def RestrictTemp) (simp add: restrict_to_owner_def)
  next
    case (AppendTemp b)
    then have t: "t = mc_names m (fs_loc F (temp_path p))" "t' = t" "m' = change_file (append_byte b) t m"
      using h w by (auto simp: in_hand_def machine_op_def)
    show ?thesis
      using change_temp [OF n m t(1), of "append_byte b"] change_wf [OF m, of "append_byte b" t] t
      by (simp add: in_hand_def apply_op_def AppendTemp) (simp add: append_byte_def)
  next
    case FlushTemp
    then have t: "t = mc_names m (fs_loc F (temp_path p))" "t' = t" "m' = change_file sync_all t m"
      using h w by (auto simp: in_hand_def machine_op_def)
    show ?thesis
      using change_temp [OF n m t(1), of sync_all] change_wf [OF m, of sync_all t] t
      by (simp add: in_hand_def apply_op_def FlushTemp) (simp add: sync_all_def)
  qed
  then show "disk_of F m' p = apply_op w (disk_of F m p)" "machine_wf m'" "in_hand F p ws t' m'"
    "mc_locks m' = mc_locks m" "mc_procs m' = mc_procs m" "mc_dirs m' = mc_dirs m"
    "k \<noteq> account F p \<Longrightarrow> mc_keys m' k = mc_keys m k"
    "l \<notin> {fs_loc F p, fs_loc F (temp_path p), fs_loc F (broken_path p)} \<Longrightarrow> mc_names m' l = mc_names m l \<and> file_at m' l = file_at m l"
    by simp_all
qed

lemma machine_ops_refine:
  assumes n: "well_named F P" "p \<in> P" and m: "machine_wf m" and o: "\<not> needs_open ws"
  shows "disk_of F (machine_ops F p ws m) p = apply_ops ws (disk_of F m p)" "machine_wf (machine_ops F p ws m)"
    "mc_locks (machine_ops F p ws m) = mc_locks m" "mc_procs (machine_ops F p ws m) = mc_procs m"
    "mc_dirs (machine_ops F p ws m) = mc_dirs m" "k \<noteq> account F p \<Longrightarrow> mc_keys (machine_ops F p ws m) k = mc_keys m k"
    "l \<notin> {fs_loc F p, fs_loc F (temp_path p), fs_loc F (broken_path p)}
      \<Longrightarrow> mc_names (machine_ops F p ws m) l = mc_names m l \<and> file_at (machine_ops F p ws m) l = file_at m l"
proof -
  have main: "\<forall>t' m'. fold (machine_op F p) ws (t, m) = (t', m') \<longrightarrow>
      disk_of F m' p = apply_ops ws (disk_of F m p) \<and> machine_wf m' \<and> mc_locks m' = mc_locks m
      \<and> mc_procs m' = mc_procs m \<and> mc_dirs m' = mc_dirs m \<and> (k \<noteq> account F p \<longrightarrow> mc_keys m' k = mc_keys m k)
      \<and> (l \<notin> {fs_loc F p, fs_loc F (temp_path p), fs_loc F (broken_path p)}
          \<longrightarrow> mc_names m' l = mc_names m l \<and> file_at m' l = file_at m l)"
    if "in_hand F p ws t m" for t
    using that m
  proof (induction ws arbitrary: t m)
    case (Cons w ws)
    obtain t1 m1 where w: "machine_op F p w (t, m) = (t1, m1)" by (cases "machine_op F p w (t, m)")
    note s = machine_op_refines [OF n Cons.prems(2,1) w]
    have "apply_ops (w # ws) d = apply_ops ws (apply_op w d)" for d by (simp add: apply_ops_def)
    note ops = this
    show ?case
    proof (intro allI impI)
      fix t' m' assume "fold (machine_op F p) (w # ws) (t, m) = (t', m')"
      then have "fold (machine_op F p) ws (t1, m1) = (t', m')" by (simp add: w)
      from Cons.IH [OF s(3,2), rule_format, OF this]
      show "disk_of F m' p = apply_ops (w # ws) (disk_of F m p) \<and> machine_wf m' \<and> mc_locks m' = mc_locks m
      \<and> mc_procs m' = mc_procs m \<and> mc_dirs m' = mc_dirs m \<and> (k \<noteq> account F p \<longrightarrow> mc_keys m' k = mc_keys m k)
      \<and> (l \<notin> {fs_loc F p, fs_loc F (temp_path p), fs_loc F (broken_path p)}
          \<longrightarrow> mc_names m' l = mc_names m l \<and> file_at m' l = file_at m l)"
        unfolding ops s(1,4,5,6) using s(7) [of k] s(8) [of l] by presburger
    qed
  qed (simp add: apply_ops_def)
  obtain t' m' where e: "fold (machine_op F p) ws (None, m) = (t', m')" by (cases "fold (machine_op F p) ws (None, m)")
  have ops: "machine_ops F p ws m = m'" by (simp add: machine_ops_def e)
  have "in_hand F p ws None m" using o by (simp add: in_hand_def)
  note all = main [OF this, rule_format, OF e]
  show "disk_of F (machine_ops F p ws m) p = apply_ops ws (disk_of F m p)" "machine_wf (machine_ops F p ws m)"
    "mc_locks (machine_ops F p ws m) = mc_locks m" "mc_procs (machine_ops F p ws m) = mc_procs m"
    "mc_dirs (machine_ops F p ws m) = mc_dirs m" "k \<noteq> account F p \<Longrightarrow> mc_keys (machine_ops F p ws m) k = mc_keys m k"
    "l \<notin> {fs_loc F p, fs_loc F (temp_path p), fs_loc F (broken_path p)}
      \<Longrightarrow> mc_names (machine_ops F p ws m) l = mc_names m l \<and> file_at (machine_ops F p ws m) l = file_at m l"
    unfolding ops using all by blast+
qed

text \<open>A complete save leaves the new file; the credential is filed under the path as it was spelled.\<close>

lemma full_save:
  assumes n: "well_named F P" "p \<in> P" and m: "machine_wf m" and t: "cj_ser J (public_part cfg) = Some t"
  shows "disk_of F (machine_ops F p (save_ops J cfg) m) p
     = (disk_of F m p)\<lparr>d_key := Entry (cfg_secret cfg), d_config := File kept_file (utf8 t), d_temp := Absent\<rparr>"
proof -
  have "apply_ops (save_ops J cfg) d = d\<lparr>d_key := Entry (cfg_secret cfg), d_config := File kept_file (utf8 t), d_temp := Absent\<rparr>" for d
    using save_prefix(2) [OF t, of "length (save_ops J cfg)" d] save_steps [OF t] by simp
  then show ?thesis by (simp add: machine_ops_refine [OF n m save_opens(1)])
qed

text \<open>
  Property C37. The identity does not follow its configuration to another spelling of the path. A
  configuration saved under one name of a file and opened under another name of the same file, for
  which the credential store has no entry, does not load: its key is reported missing, although the
  key was stored by that very save.
\<close>

theorem respelled_path_loses_key:
  assumes "well_named F P" "p \<in> P" "machine_wf m" and "fs_loc F q = fs_loc F p" "account F q \<noteq> account F p"
    and "mc_keys m (account F q) = NoEntry"
    and "json_at J (public_part cfg)" "config_ok C cfg"
  shows "load_config C J fresh rng (disk_of F (machine_ops F p (save_ops J cfg) m) p) = Inr cfg
     \<and> load_config C J fresh rng (disk_of F (machine_ops F p (save_ops J cfg) m) q) = Inl KeyMissing"
proof -
  let ?m = "machine_ops F p (save_ops J cfg) m"
  obtain t where t: "cj_ser J (public_part cfg) = Some t" "valid_text t" "cj_de J t = Some (public_part cfg)"
    using assms(7) by (auto simp: json_at_def split: option.splits)
  note d = full_save [OF assms(1-3) t(1)]
  have "load_config C J fresh rng (disk_of F ?m p) = Inr cfg"
    by (rule load_file [OF assms(7) t(1) assms(8)]) (simp_all add: d)
  moreover have "d_config (disk_of F ?m q) = File kept_file (utf8 t)"
    using arg_cong [where f = d_config, OF d] assms(4) by (simp add: disk_of_def)
  moreover have "d_key (disk_of F ?m q) = NoEntry"
    using machine_ops_refine(6) [OF assms(1-3) save_opens(1), of "account F q"] assms(5,6) by (simp add: disk_of_def)
  moreover have "cf_version cfg = CONFIG_VERSION" using assms(8) by (simp add: config_ok_def)
  ultimately show ?thesis using t by (simp add: load_config_def utf8_decode_utf8 load_identity_def)
qed

section \<open>What taking the lock does\<close>

definition new_lock_file :: contents where "new_lock_file = File \<lparr>fm_private = False, fm_flushed = False\<rparr> []"

text \<open>
  From one machine to another only what stands around the lock of a path is new: directories above it,
  and its lock file, which is created if it was missing and made readable by its owner only, keeping
  what it holds.
\<close>

definition lock_only :: "'l filesystem \<Rightarrow> os_string \<Rightarrow> 'l machine \<Rightarrow> 'l machine \<Rightarrow> bool" where
  "lock_only F p m m' \<longleftrightarrow>
     mc_dirs m \<subseteq> mc_dirs m' \<and> mc_dirs m' \<subseteq> mc_dirs m \<union> set (fs_parents F p)
     \<and> mc_keys m' = mc_keys m \<and> mc_procs m' = mc_procs m
     \<and> (\<forall>l. l \<noteq> fs_loc F (lock_path p) \<longrightarrow> mc_names m' l = mc_names m l \<and> file_at m' l = file_at m l)
     \<and> (mc_names m (fs_loc F (lock_path p)) \<noteq> None
          \<longrightarrow> mc_names m' (fs_loc F (lock_path p)) = mc_names m (fs_loc F (lock_path p)))
     \<and> (case file_at m (fs_loc F (lock_path p)) of
          Absent \<Rightarrow> file_at m' (fs_loc F (lock_path p)) \<in> {Absent, new_lock_file, restrict_to_owner new_lock_file}
        | c \<Rightarrow> file_at m' (fs_loc F (lock_path p)) \<in> {c, restrict_to_owner c})"

lemma lock_only_refl: "lock_only F p m m"
  by (auto simp: lock_only_def split: contents.splits)

lemma dirs_made:
  assumes "create_dir_all n ds m = (made, m')"
  shows "\<exists>A. m' = m\<lparr>mc_dirs := A\<rparr> \<and> mc_dirs m \<subseteq> A \<and> A \<subseteq> mc_dirs m \<union> set ds \<and> (made \<longrightarrow> set ds \<subseteq> A)"
  using assms by (auto simp: create_dir_all_def Let_def dest!: in_set_takeD)

lemma lock_file_opened:
  assumes m: "machine_wf m" and d: "create_dir_all n (fs_parents F p) m = (made, m1)"
    and o: "open_or_create (fs_loc F (lock_path p)) m1 = (i, m2)"
  shows "lock_only F p m m2" "lock_only F p m (change_file restrict_to_owner (Some i) m2)"
    "machine_wf (change_file restrict_to_owner (Some i) m2)" "mc_names m2 (fs_loc F (lock_path p)) = Some i"
    "mc_locks m2 = mc_locks m" "machine_wf m2"
proof -
  let ?l = "fs_loc F (lock_path p)"
  obtain A where A: "m1 = m\<lparr>mc_dirs := A\<rparr>" "mc_dirs m \<subseteq> A" "A \<subseteq> mc_dirs m \<union> set (fs_parents F p)"
    using dirs_made [OF d] by blast
  have m1: "machine_wf m1" using m by (simp add: A)
  note f = opened_file [OF m1 o]
  have same: "mc_names m1 = mc_names m" "file_at m1 = file_at m" by (simp_all add: A fun_eq_iff)
  have lock: "case file_at m ?l of Absent \<Rightarrow> file_at m2 ?l = new_lock_file | c \<Rightarrow> file_at m2 ?l = c"
    using f(4,5) machine_wfD(5) [OF m, of ?l] by (auto simp: same new_lock_file_def split: contents.splits)
  note c = change_at [OF f(3) f(1) [symmetric], of restrict_to_owner]
  show "lock_only F p m m2"
    unfolding lock_only_def using f A lock by (auto simp: same split: contents.splits)
  show "lock_only F p m (change_file restrict_to_owner (Some i) m2)"
    unfolding lock_only_def using f A lock by (auto simp: same c split: contents.splits)
  show "machine_wf (change_file restrict_to_owner (Some i) m2)" by (rule change_wf [OF f(3)]) simp
  show "mc_names m2 ?l = Some i" "mc_locks m2 = mc_locks m" "machine_wf m2" using f A by simp_all
qed

lemma lock_taken:
  assumes m: "machine_wf m" and a: "acquire_lock F E pid p m = (r, m')"
  shows "lock_only F p m m'" "machine_wf m'" "r = Inl e \<Longrightarrow> mc_locks m' = mc_locks m"
    "r = Inr lk \<Longrightarrow> ck_path lk = p \<and> mc_names m' (fs_loc F (lock_path p)) = Some (ck_file lk) \<and> mc_locks m (ck_file lk) = None
       \<and> mc_locks m' = (mc_locks m)(ck_file lk := Some pid)"
proof -
  obtain made m1 where d: "create_dir_all (le_dirs E) (fs_parents F p) m = (made, m1)"
    by (cases "create_dir_all (le_dirs E) (fs_parents F p) m")
  obtain i m2 where o: "open_or_create (fs_loc F (lock_path p)) m1 = (i, m2)" by (cases "open_or_create (fs_loc F (lock_path p)) m1")
  note f = lock_file_opened [OF m d o]
  let ?m3 = "change_file restrict_to_owner (Some i) m2"
  obtain A where A: "m1 = m\<lparr>mc_dirs := A\<rparr>" "mc_dirs m \<subseteq> A" "A \<subseteq> mc_dirs m \<union> set (fs_parents F p)"
    using dirs_made [OF d] by blast
  have "lock_only F p m m1" using A by (simp add: lock_only_def split: contents.split)
  have locked: "lock_only F p m (?m3\<lparr>mc_locks := L\<rparr>)" for L using f(2) by (simp add: lock_only_def split: contents.splits)
  have "i < mc_next ?m3" using machine_wfD(2) [OF f(6,4)] by simp
  then have wf: "machine_wf (?m3\<lparr>mc_locks := (mc_locks ?m3)(i := Some pid)\<rparr>)"
    using f(3) by (simp add: machine_wf_def)
  have step: "acquire_lock F E pid p m =
      (if \<not> made then (Inl NoDirectory, m1)
         else if \<not> le_open E then (Inl LockNotOpened, m1)
         else if \<not> le_restrict E then (Inl LockNotRestricted, m2)
         else if \<not> le_lockable E then (Inl LockFailed, ?m3)
         else case mc_locks m i of
                Some _ \<Rightarrow> (Inl (AlreadyRunning p), ?m3)
              | None \<Rightarrow> (Inr \<lparr>ck_file = i, ck_path = p\<rparr>, ?m3\<lparr>mc_locks := (mc_locks m)(i := Some pid)\<rparr>))"
    by (simp add: acquire_lock_def d o Let_def f(5) split: option.split)
  have m1: "machine_wf m1" "mc_locks m1 = mc_locks m" using m by (simp_all add: A)
  consider "m' = m1 \<and> isl r" | "m' = m2 \<and> isl r" | "m' = ?m3 \<and> isl r"
    | "m' = ?m3\<lparr>mc_locks := (mc_locks m)(i := Some pid)\<rparr>" "r = Inr \<lparr>ck_file = i, ck_path = p\<rparr>" "mc_locks m i = None"
    using a unfolding step by (auto split: if_splits option.splits)
  then have "lock_only F p m m' \<and> machine_wf m' \<and> (isl r \<longrightarrow> mc_locks m' = mc_locks m)
      \<and> (\<forall>lk. r = Inr lk \<longrightarrow> ck_path lk = p \<and> mc_names m' (fs_loc F (lock_path p)) = Some (ck_file lk)
           \<and> mc_locks m (ck_file lk) = None \<and> mc_locks m' = (mc_locks m)(ck_file lk := Some pid))"
  proof cases
    case 4
    with locked wf f(4,5) show ?thesis by simp
  qed (use \<open>lock_only F p m m1\<close> m1 f in \<open>auto simp: isl_def\<close>)
  then show "lock_only F p m m'" "machine_wf m'" "r = Inl e \<Longrightarrow> mc_locks m' = mc_locks m"
    "r = Inr lk \<Longrightarrow> ck_path lk = p \<and> mc_names m' (fs_loc F (lock_path p)) = Some (ck_file lk) \<and> mc_locks m (ck_file lk) = None
       \<and> mc_locks m' = (mc_locks m)(ck_file lk := Some pid)"
    by auto
qed

section \<open>Many instances\<close>

definition complete :: "config_json \<Rightarrow> contents \<Rightarrow> bool" where
  "complete J c \<longleftrightarrow> (\<exists>cfg t. cj_ser J (public_part cfg) = Some t \<and> c = File kept_file (utf8 t))"

text \<open>Whatever is renamed into place is complete, flushed and private.\<close>

fun settles :: "config_json \<Rightarrow> contents \<Rightarrow> disk_op list \<Rightarrow> bool" where
  "settles J c [] = True"
| "settles J c (w # ws) =
     (case w of
        TruncateTemp \<Rightarrow> settles J (truncate_file c) ws
      | RestrictTemp \<Rightarrow> settles J (restrict_to_owner c) ws
      | AppendTemp b \<Rightarrow> settles J (append_byte b c) ws
      | FlushTemp \<Rightarrow> settles J (sync_all c) ws
      | RenameTemp \<Rightarrow> (c = Absent \<or> complete J c) \<and> settles J Absent ws
      | _ \<Rightarrow> settles J c ws)"

lemma settles_append:
  "(\<And>k'. fm_private k' = fm_private k \<Longrightarrow> settles J (File k' (pre @ bs)) ws) \<Longrightarrow> settles J (File k pre) (map AppendTemp bs @ ws)"
  by (induction bs arbitrary: k pre) (simp_all add: append_byte_def)

lemma settles_save: "settles J c (save_ops J cfg)" "settles J c (MoveAside # save_ops J cfg)"
proof -
  have "settles J (File k []) (map AppendTemp (utf8 t) @ [FlushTemp, RenameTemp])" if "fm_private k" "cj_ser J (public_part cfg) = Some t" for k t
    by (rule settles_append) (use that in \<open>auto simp: sync_all_def complete_def kept_file_def\<close>)
  then have "settles J (restrict_to_owner (truncate_file c)) (map AppendTemp (utf8 t) @ [FlushTemp, RenameTemp])"
    if "cj_ser J (public_part cfg) = Some t" for t
    using that by (cases c) (simp_all add: truncate_file_def restrict_to_owner_def)
  then show "settles J c (save_ops J cfg)" "settles J c (MoveAside # save_ops J cfg)"
    by (simp_all add: save_ops_def write_private_file_def split: option.split)
qed

definition machine_inv :: "'l filesystem \<Rightarrow> config_json \<Rightarrow> os_string set \<Rightarrow> 'l machine \<Rightarrow> 'l machine \<Rightarrow> bool" where
  "machine_inv F J P m0 m \<longleftrightarrow>
     machine_wf m
     \<and> (\<forall>pid pr. running m pid pr \<longrightarrow> config_path pr \<in> P
          \<and> mc_names m (fs_loc F (lock_path (config_path pr))) = Some (ck_file (pr_lock pr))
          \<and> mc_locks m (ck_file (pr_lock pr)) = Some pid
          \<and> in_hand F (config_path pr) (pr_pending pr) (pr_temp pr) m
          \<and> settles J (file_at m (fs_loc F (temp_path (config_path pr)))) (pr_pending pr))
     \<and> (\<forall>p \<in> P. file_at m (fs_loc F p) \<in> {file_at m0 (fs_loc F p), Absent} \<or> complete J (file_at m (fs_loc F p)))"

lemma machine_invD:
  assumes "machine_inv F J P m0 m"
  shows "machine_wf m" "running m pid pr \<Longrightarrow> config_path pr \<in> P"
    "running m pid pr \<Longrightarrow> mc_names m (fs_loc F (lock_path (config_path pr))) = Some (ck_file (pr_lock pr))"
    "running m pid pr \<Longrightarrow> mc_locks m (ck_file (pr_lock pr)) = Some pid"
    "running m pid pr \<Longrightarrow> in_hand F (config_path pr) (pr_pending pr) (pr_temp pr) m"
    "running m pid pr \<Longrightarrow> settles J (file_at m (fs_loc F (temp_path (config_path pr)))) (pr_pending pr)"
    "p \<in> P \<Longrightarrow> file_at m (fs_loc F p) \<in> {file_at m0 (fs_loc F p), Absent} \<or> complete J (file_at m (fs_loc F p))"
  using assms by (auto simp: machine_inv_def)

lemma running_set [simp]:
  "running (set_proc pid x m) pid' pr \<longleftrightarrow> (if pid' = pid then x = Some pr else running m pid' pr)"
  by (simp add: set_proc_def running_def)

lemma running_locks [simp]: "running (m\<lparr>mc_locks := L\<rparr>) pid pr = running m pid pr"
  by (simp add: running_def)

lemma set_proc_others [simp]:
  "mc_names (set_proc pid x m) = mc_names m" "mc_locks (set_proc pid x m) = mc_locks m" "file_at (set_proc pid x m) l = file_at m l"
  "machine_wf (set_proc pid x m) = machine_wf m" "in_hand F p ws t (set_proc pid x m) = in_hand F p ws t m"
  by (simp_all add: set_proc_def in_hand_def)

text \<open>A rename brings into place what the temporary file has settled to.\<close>

lemma machine_op_settles:
  assumes "d' = apply_op w d" "settles J (d_temp d) (w # ws)"
  shows "settles J (d_temp d') ws" "d_config d' \<in> {d_config d, Absent} \<or> complete J (d_config d')"
  using assms by (cases w; force simp: apply_op_def split: if_splits)+

text \<open>Taking or failing to take a lock leaves what the others rely on.\<close>

lemma others_keep:
  assumes n: "well_named F P" "p \<in> P" and inv: "machine_inv F J P m0 m" and a: "acquire_lock F E pid p m = (r, m')"
  shows "running m pid' pr \<Longrightarrow> mc_names m' (fs_loc F (lock_path (config_path pr))) = Some (ck_file (pr_lock pr))
      \<and> mc_locks m' (ck_file (pr_lock pr)) = Some pid' \<and> in_hand F (config_path pr) (pr_pending pr) (pr_temp pr) m'
      \<and> settles J (file_at m' (fs_loc F (temp_path (config_path pr)))) (pr_pending pr)"
    "q \<in> P \<Longrightarrow> file_at m' (fs_loc F q) = file_at m (fs_loc F q)" "machine_wf m'" "running m' = running m"
proof -
  note t = lock_taken [OF machine_invD(1) [OF inv] a]
  show "machine_wf m'" by (rule t(2))
  have away: "file_at m' l = file_at m l" "mc_names m' l = mc_names m l" if "l \<noteq> fs_loc F (lock_path p)" for l
    using t(1) that by (simp_all add: lock_only_def)
  show "q \<in> P \<Longrightarrow> file_at m' (fs_loc F q) = file_at m (fs_loc F q)"
    using away(1) well_namedD(9) [OF n, of q] by simp
  have "mc_procs m' = mc_procs m" using t(1) by (simp add: lock_only_def)
  then show "running m' = running m" by (simp add: running_def fun_eq_iff)
  assume r: "running m pid' pr"
  note d = machine_invD(2-6) [OF inv r]
  have "mc_names m' (fs_loc F (lock_path (config_path pr))) = Some (ck_file (pr_lock pr))"
    using t(1) d(2) away(2) [of "fs_loc F (lock_path (config_path pr))"]
    by (cases "fs_loc F (lock_path (config_path pr)) = fs_loc F (lock_path p)") (auto simp: lock_only_def)
  moreover have "mc_locks m' (ck_file (pr_lock pr)) = Some pid'"
    using t(3,4) d(3) by (cases r) auto
  ultimately show "mc_names m' (fs_loc F (lock_path (config_path pr))) = Some (ck_file (pr_lock pr))
      \<and> mc_locks m' (ck_file (pr_lock pr)) = Some pid' \<and> in_hand F (config_path pr) (pr_pending pr) (pr_temp pr) m'
      \<and> settles J (file_at m' (fs_loc F (temp_path (config_path pr)))) (pr_pending pr)"
    using d(4,5) away well_namedD(10) [OF n d(1)] by (simp add: in_hand_def)
qed

lemma machine_inv_step:
  assumes n: "well_named F P" and s: "machine_step F J P m m'" and inv: "machine_inv F J P m0 m"
  shows "machine_inv F J P m0 m'"
  using s
proof cases
  case (start p pid E lk m2)
  note k = others_keep [OF n start(2) inv start(4)]
  note t = lock_taken(4) [OF machine_invD(1) [OF inv] start(4) refl]
  have "running m pid' pr \<Longrightarrow> pid' \<noteq> pid" for pid' pr using start(3) by (auto simp: running_def)
  with start(1,2) k t machine_invD(7) [OF inv] machine_invD(2) [OF inv] show ?thesis
    unfolding machine_inv_def by (auto simp: config_path_def in_hand_def)
next
  case (refused p E pid e)
  note k = others_keep [OF n refused(1) inv refused(2)]
  with machine_invD(2,7) [OF inv] show ?thesis unfolding machine_inv_def by auto
next
  case (disk_op pid pr w ws t m2)
  let ?p = "config_path pr"
  note own = machine_invD(2-6) [OF inv disk_op(2)]
  note me = own(5) [unfolded disk_op(3)]
  note f = machine_op_refines [OF n own(1) machine_invD(1) [OF inv] own(4) [unfolded disk_op(3)] disk_op(4)]
  have st: "settles J (file_at m2 (fs_loc F (temp_path ?p))) ws"
    "file_at m2 (fs_loc F ?p) \<in> {file_at m (fs_loc F ?p), Absent} \<or> complete J (file_at m2 (fs_loc F ?p))"
    using machine_op_settles [OF f(1), of J ws] me by (simp_all add: disk_of_def)
  have lock: "mc_names m2 (fs_loc F (lock_path q)) = mc_names m (fs_loc F (lock_path q))" if "q \<in> P" for q
    using f(8) well_namedD(9-11) [OF n that own(1)] by simp
  have config: "file_at m2 (fs_loc F q) \<in> {file_at m (fs_loc F q), Absent} \<or> complete J (file_at m2 (fs_loc F q))" if "q \<in> P" for q
    using f(8) [of "fs_loc F q"] well_namedD(1,3) [OF n that own(1)] st(2) by (cases "fs_loc F q = fs_loc F ?p") auto
  have other: "mc_names m2 (fs_loc F (temp_path q)) = mc_names m (fs_loc F (temp_path q))
      \<and> file_at m2 (fs_loc F (temp_path q)) = file_at m (fs_loc F (temp_path q))"
    if "q \<in> P" "fs_loc F (lock_path q) \<noteq> fs_loc F (lock_path ?p)" for q
    using f(8) [of "fs_loc F (temp_path q)"] well_namedD(2,5,7) [OF n that(1) own(1)] well_namedD(2) [OF n own(1) that(1)] that(2) by simp
  show ?thesis
    unfolding machine_inv_def
  proof (intro conjI allI impI ballI)
    show "machine_wf m'" using f(2) disk_op(1) by simp
    fix pid' pr'
    assume r: "running m' pid' pr'"
    have "config_path pr' \<in> P
      \<and> mc_names m' (fs_loc F (lock_path (config_path pr'))) = Some (ck_file (pr_lock pr'))
      \<and> mc_locks m' (ck_file (pr_lock pr')) = Some pid' \<and> in_hand F (config_path pr') (pr_pending pr') (pr_temp pr') m'
      \<and> settles J (file_at m' (fs_loc F (temp_path (config_path pr')))) (pr_pending pr')"
    proof (cases "pid' = pid")
      case True
      with r disk_op(1) have "pr' = pr\<lparr>pr_temp := t, pr_pending := ws\<rparr>" by simp
      with True own(1-3) st(1) f(3,4) lock [OF own(1)] disk_op(1) show ?thesis by (simp add: config_path_def)
    next
      case False
      with r disk_op(1) f(5) have r': "running m pid' pr'" by (simp add: running_def set_proc_def)
      note his = machine_invD(2-6) [OF inv r']
      have "fs_loc F (lock_path (config_path pr')) \<noteq> fs_loc F (lock_path ?p)" using own(2,3) his(2,3) False by auto
      with his other [OF his(1)] lock [OF his(1)] f(4) disk_op(1) show ?thesis by (simp add: in_hand_def)
    qed
    then show "config_path pr' \<in> P" "mc_names m' (fs_loc F (lock_path (config_path pr'))) = Some (ck_file (pr_lock pr'))"
      "mc_locks m' (ck_file (pr_lock pr')) = Some pid'" "in_hand F (config_path pr') (pr_pending pr') (pr_temp pr') m'"
      "settles J (file_at m' (fs_loc F (temp_path (config_path pr')))) (pr_pending pr')" by simp_all
  next
    fix q assume q: "q \<in> P"
    with machine_invD(7) [OF inv q] config [OF q] disk_op(1)
    show "file_at m' (fs_loc F q) \<in> {file_at m0 (fs_loc F q), Absent} \<or> complete J (file_at m' (fs_loc F q))" by auto
  qed
next
  case (exit pid pr)
  note own = machine_invD(2-6) [OF inv exit(2)]
  have "ck_file (pr_lock pr') \<noteq> ck_file (pr_lock pr)" if "running m pid' pr'" "pid' \<noteq> pid" for pid' pr'
    using machine_invD(4) [OF inv that(1)] own(3) that(2) by auto
  moreover have "machine_wf (release (pr_lock pr) m)"
    using machine_invD(1) [OF inv] by (auto simp: machine_wf_def release_def)
  ultimately show ?thesis
    using exit(1) machine_invD(2-7) [OF inv] unfolding machine_inv_def by (auto simp: release_def in_hand_def)
qed (use inv in \<open>auto simp: machine_inv_def config_path_def in_hand_def settles_save save_opens split: if_splits\<close>)

lemma machine_inv_reach:
  "machine_reach F J P m m' \<Longrightarrow> well_named F P \<Longrightarrow> machine_inv F J P m0 m \<Longrightarrow> machine_inv F J P m0 m'"
  by (induction rule: machine_reach.induct) (auto intro: machine_inv_step)

text \<open>
  Property C17. However many instances start, are refused, save, reset, crash and exit on one machine, in
  any interleaving of their system calls, a configuration file is never torn and never shared. Under names
  that do not collide (no configuration, temporary, broken or lock file is another's), from a machine on
  which no file has two names: each is what it was at the start, or absent after a reset moved it aside,
  or the complete text of one save, flushed and readable by its owner only; and no two live processes
  have the same configuration file.
\<close>

theorem instances_isolated:
  assumes n: "well_named F P" and wf: "machine_wf m" and i: "mc_procs m = (\<lambda>_. None)" and r: "machine_reach F J P m m'"
  shows "(\<forall>p \<in> P. file_at m' (fs_loc F p) \<in> {file_at m (fs_loc F p), Absent} \<or> complete J (file_at m' (fs_loc F p)))
     \<and> (\<forall>pid pr pid' pr'. running m' pid pr \<and> running m' pid' pr' \<and> fs_loc F (config_path pr) = fs_loc F (config_path pr')
          \<longrightarrow> pid = pid')"
proof -
  have inv: "machine_inv F J P m m'"
    by (rule machine_inv_reach [OF r n]) (simp add: machine_inv_def running_def i wf)
  have "pid = pid'" if r: "running m' pid pr" "running m' pid' pr'" "fs_loc F (config_path pr) = fs_loc F (config_path pr')"
    for pid pr pid' pr'
    using machine_invD(2-4) [OF inv r(1)] machine_invD(2-4) [OF inv r(2)]
      well_namedD(8) [OF n machine_invD(2) [OF inv r(1)] machine_invD(2) [OF inv r(2)] r(3)] by simp
  with machine_invD(7) [OF inv] show ?thesis by blast
qed

text \<open>
  Without the naming assumption instances are not isolated. An instance started on the temporary file of
  another takes a lock of its own, and the other's next save removes its configuration.
\<close>

lemma sibling_config_lost:
  assumes "fs_loc F q = fs_loc F (temp_path p)" "well_named F {p}" "machine_wf m" "cj_ser J (public_part cfg) = Some t"
  shows "file_at (machine_ops F p (save_ops J cfg) m) (fs_loc F q) = Absent"
  using arg_cong [where f = d_temp, OF full_save [OF assms(2) _ assms(3,4)]] assms(1) by (simp add: disk_of_def)

text \<open>
  The lock file of one instance is the configuration of an instance whose path ends in \<open>.lock\<close>: starting
  the first leaves the other an empty file, which does not load.
\<close>

lemma lock_file_as_config:
  assumes "fs_loc F q = fs_loc F (lock_path p)" "machine_wf m" "mc_names m (fs_loc F q) = None"
    and "acquire_lock F E pid p m = (Inr lk, m')" "cj_de J [] = None"
  shows "file_at m' (fs_loc F q) = restrict_to_owner new_lock_file \<and> load_config C J fresh rng (disk_of F m' q) = Inl ParsingConfig"
proof -
  obtain made m1 where d: "create_dir_all (le_dirs E) (fs_parents F p) m = (made, m1)"
    by (cases "create_dir_all (le_dirs E) (fs_parents F p) m")
  obtain i m2 where o: "open_or_create (fs_loc F (lock_path p)) m1 = (i, m2)" by (cases "open_or_create (fs_loc F (lock_path p)) m1")
  obtain A where A: "m1 = m\<lparr>mc_dirs := A\<rparr>" using dirs_made [OF d] by blast
  then have m1: "machine_wf m1" "mc_names m1 (fs_loc F q) = None" using assms(2,3) by simp_all
  note f = opened_file [OF m1(1) o]
  have "file_at m2 (fs_loc F q) = new_lock_file" using f(4) m1(2) assms(1) by (simp add: new_lock_file_def)
  then have "file_at (change_file restrict_to_owner (Some i) m2) (fs_loc F q) = restrict_to_owner new_lock_file"
    using change_at [OF f(3) f(1) [symmetric], of restrict_to_owner "fs_loc F q"] assms(1) f(1) by simp
  moreover have "file_at m' (fs_loc F q) = file_at (change_file restrict_to_owner (Some i) m2) (fs_loc F q)"
    using assms(4) by (auto simp: acquire_lock_def d o Let_def split: if_splits option.splits)
  ultimately have "file_at m' (fs_loc F q) = restrict_to_owner new_lock_file" by simp
  with assms(5) show ?thesis
    using utf8_decode_utf8 [of "[]"] by (simp add: load_config_def disk_of_def restrict_to_owner_def new_lock_file_def valid_text_def)
qed

text \<open>
  And a save of that other instance puts a new inode in place of the locked one, so that a second process
  takes the lock of the first.
\<close>

lemma writes_keep_names:
  assumes "list_all (\<lambda>w. w = RestrictTemp \<or> w = FlushTemp \<or> (\<exists>b. w = AppendTemp b)) ws"
  shows "\<exists>m'. fold (machine_op F p) ws (t, m) = (t, m') \<and> mc_names m' = mc_names m \<and> mc_locks m' = mc_locks m"
  using assms
proof (induction ws arbitrary: m)
  case (Cons w ws)
  then obtain f where "machine_op F p w (t, m) = (t, change_file f t m)" by (auto simp: machine_op_def)
  with Cons.IH [of "change_file f t m"] Cons.prems show ?case by simp
qed simp

lemma saved_lock_file_locked_twice:
  assumes q: "fs_loc F q = fs_loc F (lock_path p)" "well_named F {q}" "machine_wf m" "mc_names m (fs_loc F (temp_path q)) = None"
    and t: "cj_ser J (public_part cfg) = Some t"
    and E: "le_open E" "le_restrict E" "le_lockable E" "length (fs_parents F p) \<le> le_dirs E"
    and held: "mc_names m (fs_loc F (lock_path p)) = Some i" "mc_locks m i = Some pid"
  shows "\<exists>lk m'. acquire_lock F E pid' p (machine_ops F q (save_ops J cfg) m) = (Inr lk, m')
     \<and> mc_locks m' i = Some pid \<and> ck_file lk \<noteq> i \<and> mc_locks m' (ck_file lk) = Some pid'"
proof -
  let ?l = "fs_loc F (temp_path q)" and ?n = "mc_next m"
  let ?k = "m\<lparr>mc_keys := (mc_keys m)(account F q := Entry (cfg_secret cfg))\<rparr>"
  have i: "i \<noteq> ?n" using machine_wfD(2) [OF q(3) held(1)] by simp
  have apart: "?l \<noteq> fs_loc F q" using well_namedD(2) [OF q(2)] by simp
  obtain m1 where m1: "machine_op F q TruncateTemp (None, ?k) = (Some ?n, m1)" "mc_names m1 = (mc_names m)(?l := Some ?n)" "mc_locks m1 = mc_locks m"
    using q(4) by (simp add: machine_op_def open_or_create_def)
  let ?ws = "RestrictTemp # map AppendTemp (utf8 t) @ [FlushTemp]"
  obtain m2 where m2: "fold (machine_op F q) ?ws (Some ?n, m1) = (Some ?n, m2)" "mc_names m2 = mc_names m1" "mc_locks m2 = mc_locks m1"
    using writes_keep_names [of ?ws F q "Some ?n" m1] by (auto simp: list_all_iff)
  let ?m = "rename ?l (fs_loc F q) m2"
  have "save_ops J cfg = SetKey (cfg_secret cfg) # TruncateTemp # ?ws @ [RenameTemp]" by (simp add: save_ops_def write_private_file_def t)
  moreover have "machine_op F q (SetKey (cfg_secret cfg)) (None, m) = (None, ?k)" by (simp add: machine_op_def)
  ultimately have "fold (machine_op F q) (save_ops J cfg) (None, m) = fold (machine_op F q) (?ws @ [RenameTemp]) (Some ?n, m1)"
    using m1(1) by simp
  also have "\<dots> = machine_op F q RenameTemp (fold (machine_op F q) ?ws (Some ?n, m1))" by simp
  also have "\<dots> = machine_op F q RenameTemp (Some ?n, m2)" by (simp only: m2(1))
  finally have saved: "machine_ops F q (save_ops J cfg) m = ?m" by (simp add: machine_ops_def machine_op_def)
  have new: "mc_names ?m (fs_loc F (lock_path p)) = Some ?n" "mc_locks ?m = mc_locks m"
    using m1(2,3) m2(2,3) apart held(1) q(1) i by (auto simp: rename_def)
  obtain made n1 where d: "create_dir_all (le_dirs E) (fs_parents F p) ?m = (made, n1)"
    by (cases "create_dir_all (le_dirs E) (fs_parents F p) ?m")
  have made: "made" using d E(4) order_trans [OF length_filter_le E(4)] by (auto simp: create_dir_all_def Let_def)
  obtain A where A: "n1 = ?m\<lparr>mc_dirs := A\<rparr>" using dirs_made [OF d] by blast
  have "mc_locks m ?n = None" by (rule machine_wfD(4) [OF q(3)])
  then show ?thesis
    unfolding saved using E(1-3) held(2) i made new by (simp add: acquire_lock_def d open_or_create_def A Let_def)
qed

text \<open>An empty environment variable is taken as a path: the process's own directory.\<close>

lemma empty_variable_accepted:
  "parse_cli [] (Some (Utf8 [])) = Inr \<lparr>cli_config = Some (Utf8 []), cli_channel = LanThenNostr\<rparr>
   \<and> resolve_path (Some (Utf8 [])) d (Some (Utf8 (ascii ''/w''))) = Inr (Utf8 (ascii ''/w/''))"
  by (simp add: parse_cli_def parse_args_def resolve_path_def is_absolute_def path_join_def ascii_def)

section \<open>Launching\<close>

lemma needs_open_take: "\<not> needs_open ws \<Longrightarrow> \<not> needs_open (take k ws)"
  by (induction ws arbitrary: k) (auto simp: take_Cons' split: disk_op.splits)

lemma reset_disk:
  "snd (reset_config C J fresh rng k d) = apply_ops (take k (MoveAside # save_ops J (config_default C fresh rng))) d"
  by (cases k) (auto simp: reset_config_def save_config_def Let_def apply_ops_def)

text \<open>The recovery window on the machine is the recovery window on the store the instance sees.\<close>

lemma recover_refines:
  assumes n: "well_named F P" "p \<in> P"
  shows "machine_wf m \<Longrightarrow> recover C J answers (disk_of F m p)
     = (fst (recover_on F C J p answers m), disk_of F (snd (recover_on F C J p answers m)) p)"
proof (induction answers arbitrary: m)
  case (Cons t answers)
  show ?case
  proof (cases t)
    case (Some r)
    let ?ops = "take (rt_completed r) (MoveAside # save_ops J (config_default C (rt_fresh r) (rt_rng r)))"
    note k = machine_ops_refine(1,2) [OF n Cons.prems needs_open_take [OF save_opens(2)], of "rt_completed r" J]
    obtain x d where x: "reset_config C J (rt_fresh r) (rt_rng r) (rt_completed r) (disk_of F m p) = (x, d)"
      by (cases "reset_config C J (rt_fresh r) (rt_rng r) (rt_completed r) (disk_of F m p)")
    have "d = disk_of F (machine_ops F p ?ops m) p"
      using reset_disk [of C J "rt_fresh r" "rt_rng r" "rt_completed r" "disk_of F m p"] x k(1) by simp
    then show ?thesis using Cons.IH [OF k(2)] by (cases x) (simp_all add: Some x Let_def)
  qed simp
qed simp





lemma lock_only_locks [simp]: "lock_only F p m (m'\<lparr>mc_locks := L\<rparr>) = lock_only F p m m'"
  by (simp add: lock_only_def split: contents.split)




section \<open>Witnesses\<close>

definition demo_fs :: "os_string filesystem" where
  "demo_fs = \<lparr>fs_loc = (\<lambda>p. if p = Utf8 (ascii ''/w/./c'') then Utf8 (ascii ''/w/c'') else p),
     fs_parents = (\<lambda>_. [Utf8 (ascii ''/w'')]), fs_lossy = (\<lambda>_. [])\<rparr>"

definition demo_machine :: "os_string machine" where
  "demo_machine = \<lparr>mc_dirs = {}, mc_names = (\<lambda>_. None), mc_inodes = (\<lambda>_. Absent), mc_next = 0, mc_keys = (\<lambda>_. NoEntry),
     mc_locks = (\<lambda>_. None), mc_procs = (\<lambda>_. None)\<rparr>"

lemma demo_wf: "machine_wf demo_machine"
  by (simp add: machine_wf_def demo_machine_def)

lemma demo_named: "well_named demo_fs {Utf8 (ascii ''/w/c'')}"
  by (simp add: well_named_def demo_fs_def temp_path_def broken_path_def lock_path_def sibling_path_def ascii_def)

text \<open>Two spellings of one relative path resolve to different absolute paths of the same file.\<close>

lemma demo_spellings:
  "resolve_path (Some (Utf8 (ascii ''c''))) None (Some (Utf8 (ascii ''/w''))) = Inr (Utf8 (ascii ''/w/c''))"
  "resolve_path (Some (Utf8 (ascii ''./c''))) None (Some (Utf8 (ascii ''/w''))) = Inr (Utf8 (ascii ''/w/./c''))"
  by (simp_all add: resolve_path_def is_absolute_def path_join_def ascii_def)

lemma respelled_path_loses_key_witness:
  "load_config sample_crypto sample_json [] id
     (disk_of demo_fs (machine_ops demo_fs (Utf8 (ascii ''/w/c'')) (save_ops sample_json (sample_config 7 1000 1001))
        demo_machine) (Utf8 (ascii ''/w/./c''))) = Inl KeyMissing"
proof -
  have "fs_loc demo_fs (Utf8 (ascii ''/w/./c'')) = fs_loc demo_fs (Utf8 (ascii ''/w/c''))"
    "account demo_fs (Utf8 (ascii ''/w/./c'')) \<noteq> account demo_fs (Utf8 (ascii ''/w/c''))"
    by (simp_all add: demo_fs_def account_def ascii_def)
  from respelled_path_loses_key [OF demo_named _ demo_wf this _ _ sample_config_ok(1)]
  show ?thesis
    by (simp add: demo_machine_def json_at_def sample_json_at valid_text_def valid_scalar_def)
qed

definition demo_path :: os_string where "demo_path = Utf8 (ascii ''/w/c'')"

definition demo_grants :: lock_env where
  "demo_grants = \<lparr>le_dirs = 1, le_open = True, le_restrict = True, le_lockable = True\<rparr>"

definition demo_proc :: os_process where
  "demo_proc = \<lparr>pr_lock = \<lparr>ck_file = 0, ck_path = demo_path\<rparr>, pr_temp = None, pr_pending = []\<rparr>"

definition demo_locked :: "os_string machine" where
  "demo_locked = snd (acquire_lock demo_fs demo_grants 4 demo_path demo_machine)"

definition demo_started :: "os_string machine" where
  "demo_started = set_proc 4 (Some demo_proc) demo_locked"

lemma demo_lock: "acquire_lock demo_fs demo_grants 4 demo_path demo_machine = (Inr \<lparr>ck_file = 0, ck_path = demo_path\<rparr>, demo_locked)"
  by (simp add: demo_locked_def acquire_lock_def create_dir_all_def demo_fs_def demo_machine_def demo_grants_def open_or_create_def
      change_file_def Let_def)

lemma demo_start: "machine_reach demo_fs sample_json {demo_path} demo_machine demo_started"
proof (rule machine_reach.there [OF machine_reach.here])
  show "machine_step demo_fs sample_json {demo_path} demo_machine demo_started"
    unfolding demo_started_def demo_proc_def
    by (rule machine_step.start [OF _ _ demo_lock]) (simp_all add: demo_machine_def)
qed

lemma instances_isolated_witness:
  "{pid. \<exists>pr. running demo_started pid pr \<and> fs_loc demo_fs (config_path pr) = fs_loc demo_fs demo_path} = {4}"
proof -
  have n: "well_named demo_fs {demo_path}" unfolding demo_path_def by (rule demo_named)
  have i: "mc_procs demo_machine = (\<lambda>_. None)" by (simp add: demo_machine_def)
  have r: "running demo_started 4 demo_proc" "config_path demo_proc = demo_path"
    by (simp_all add: demo_started_def demo_proc_def config_path_def)
  note alone = conjunct2 [OF instances_isolated [OF n demo_wf i demo_start], rule_format]
  have "pid = 4" if "running demo_started pid pr" "fs_loc demo_fs (config_path pr) = fs_loc demo_fs demo_path" for pid pr
    by (rule alone [of pid pr 4 demo_proc]) (use that r in simp_all)
  moreover have "\<exists>pr. running demo_started 4 pr \<and> fs_loc demo_fs (config_path pr) = fs_loc demo_fs demo_path"
    by (rule exI [of _ demo_proc]) (use r in simp)
  ultimately show ?thesis by (intro equalityI subsetI) blast+
qed



end
