(* ===== verification/Wakeup.thy ===== *)
theory Wakeup
  imports Desktop
begin

text \<open>
  How the desktop window hears of the network (\<open>EventSender\<close> and \<open>NetHandle\<close> in
  \<open>duocb-core/src/net/mod.rs\<close>, the event loop of \<open>duocb/src/main.rs\<close>, the wiring of
  \<open>duocb/src/app/callbacks.rs\<close>): a sender queues an event and then gives a wake-up permit; the window's
  task sleeps until it can take the permit, collects the queue, applies it and redraws. Senders run
  on other threads, so the two halves of a send, and the window's own steps, interleave freely.
\<close>

section \<open>State\<close>

datatype ui_phase = Asleep | Collecting "net_event list" | Applying "net_event list"

text \<open>
  \<open>ul_waking\<close> counts senders between the two halves of a send, \<open>ul_permit\<close> is the stored permit of
  \<open>tokio::sync::Notify\<close>, \<open>ul_shown\<close> the state last projected onto the window. \<open>ul_sent\<close> and
  \<open>ul_applied\<close> are the histories of what was sent and applied.
\<close>

record 'n ui_loop =
  ul_queue :: "net_event list"
  ul_waking :: nat
  ul_permit :: bool
  ul_phase :: ui_phase
  ul_app :: "'n app"
  ul_shown :: "'n app"
  ul_sent :: "net_event list"
  ul_applied :: "net_event list"

definition ui_start :: "'n app \<Rightarrow> 'n ui_loop" where
  "ui_start a = \<lparr>ul_queue = [], ul_waking = 0, ul_permit = False, ul_phase = Asleep, ul_app = a, ul_shown = a,
     ul_sent = [], ul_applied = []\<rparr>"

section \<open>Sending\<close>

text \<open>\<open>EventSender::send\<close>, its two halves: the channel, then the wake callback when there is one.\<close>

definition event_push :: "bool \<Rightarrow> net_event \<Rightarrow> 'n ui_loop \<Rightarrow> 'n ui_loop" where
  "event_push has_wake e s =
     s\<lparr>ul_queue := ul_queue s @ [e], ul_sent := ul_sent s @ [e], ul_waking := ul_waking s + (if has_wake then 1 else 0)\<rparr>"

definition event_wake :: "'n ui_loop \<Rightarrow> 'n ui_loop" where
  "event_wake s = s\<lparr>ul_waking := ul_waking s - 1, ul_permit := True\<rparr>"

definition send_status :: "bool \<Rightarrow> conn_status \<Rightarrow> 'n ui_loop \<Rightarrow> 'n ui_loop" where
  "send_status has_wake st = event_push has_wake (Status st)"

definition send_error :: "bool \<Rightarrow> message \<Rightarrow> 'n ui_loop \<Rightarrow> 'n ui_loop" where
  "send_error has_wake m = event_push has_wake (ErrorEvent m)"

section \<open>The window\<close>

definition redraw :: "'n ui_loop \<Rightarrow> 'n ui_loop" where "redraw s = s\<lparr>ul_shown := ul_app s\<rparr>"

text \<open>The task: \<open>notified().await\<close>, then \<open>drain_events\<close>, which receives until the queue is empty, then \<open>sync\<close>.\<close>

definition ui_take :: "'n ui_loop \<Rightarrow> 'n ui_loop" where
  "ui_take s = s\<lparr>ul_permit := False, ul_phase := Collecting []\<rparr>"

definition ui_receive :: "net_event list \<Rightarrow> 'n ui_loop \<Rightarrow> 'n ui_loop" where
  "ui_receive es s =
     (case ul_queue s of
        e # q \<Rightarrow> s\<lparr>ul_queue := q, ul_phase := Collecting (es @ [e])\<rparr>
      | [] \<Rightarrow> s\<lparr>ul_phase := Applying es\<rparr>)"

definition ui_apply :: "'n deps \<Rightarrow> 'n moment \<Rightarrow> net_event list \<Rightarrow> 'n ui_loop \<Rightarrow> 'n ui_loop" where
  "ui_apply D w es s =
     (case drain_events D w es (ul_app s) of
        (any, a) \<Rightarrow>
          (let s' = s\<lparr>ul_app := a, ul_applied := ul_applied s @ es, ul_phase := Asleep\<rparr>
           in if any then redraw s' else s'))"

text \<open>The heartbeat, a callback of the window and a global key: the app changes, then the window follows.\<close>

definition ui_beat :: "'n moment \<Rightarrow> 'n ui_loop \<Rightarrow> 'n ui_loop" where
  "ui_beat w s = redraw (s\<lparr>ul_app := tick w (ul_app s)\<rparr>)"

definition ui_callback :: "'n deps \<Rightarrow> key_codes \<Rightarrow> 'n moment \<Rightarrow> ui_action \<Rightarrow> 'n ui_loop \<Rightarrow> 'n ui_loop" where
  "ui_callback D K w act s = redraw (s\<lparr>ul_app := perform D K w act (ul_app s)\<rparr>)"

definition ui_global_key ::
    "'n deps \<Rightarrow> key_codes \<Rightarrow> 'n moment \<Rightarrow> ustring \<Rightarrow> bool \<Rightarrow> bool \<Rightarrow> bool \<Rightarrow> 'n ui_loop \<Rightarrow> bool \<times> 'n ui_loop" where
  "ui_global_key D K w key plain cmd focused s =
     (case handle_global_key D K w key plain cmd focused (ul_app s) of
        (handled, a) \<Rightarrow> (handled, redraw (s\<lparr>ul_app := a\<rparr>)))"

section \<open>Interleavings\<close>

text \<open>
  \<open>ui_quiet\<close>: the steps that need no new input, the second halves of sends and the window's task.
  \<open>ui_step\<close> adds new sends and the callbacks, which run while the task is at its \<open>await\<close>.
\<close>

inductive ui_quiet :: "'n deps \<Rightarrow> 'n ui_loop \<Rightarrow> 'n ui_loop \<Rightarrow> bool" for D where
  wake: "0 < ul_waking s \<Longrightarrow> ui_quiet D s (event_wake s)"
| woken: "ul_phase s = Asleep \<Longrightarrow> ul_permit s \<Longrightarrow> ui_quiet D s (ui_take s)"
| receive: "ul_phase s = Collecting es \<Longrightarrow> ui_quiet D s (ui_receive es s)"
| apply_all: "ul_phase s = Applying es \<Longrightarrow> ui_quiet D s (ui_apply D w es s)"

inductive ui_step :: "'n deps \<Rightarrow> key_codes \<Rightarrow> 'n ui_loop \<Rightarrow> 'n ui_loop \<Rightarrow> bool" for D K where
  quiet: "ui_quiet D s t \<Longrightarrow> ui_step D K s t"
| send: "ui_step D K s (event_push True e s)"
| beat: "ul_phase s = Asleep \<Longrightarrow> ui_step D K s (ui_beat w s)"
| callback: "ul_phase s = Asleep \<Longrightarrow> ui_step D K s (ui_callback D K w act s)"
| global_key: "ul_phase s = Asleep \<Longrightarrow> ui_step D K s (snd (ui_global_key D K w key plain cmd focused s))"

inductive ui_reach :: "'n deps \<Rightarrow> key_codes \<Rightarrow> 'n app \<Rightarrow> 'n ui_loop \<Rightarrow> bool" for D K a where
  start: "ui_reach D K a (ui_start a)"
| further: "ui_reach D K a s \<Longrightarrow> ui_step D K s t \<Longrightarrow> ui_reach D K a t"

section \<open>The invariant\<close>

definition in_hand :: "ui_phase \<Rightarrow> net_event list" where
  "in_hand p = (case p of Asleep \<Rightarrow> [] | Collecting es \<Rightarrow> es | Applying es \<Rightarrow> es)"

definition ui_inv :: "'n ui_loop \<Rightarrow> bool" where
  "ui_inv s \<longleftrightarrow>
     ul_applied s @ in_hand (ul_phase s) @ ul_queue s = ul_sent s
     \<and> (ul_queue s \<noteq> [] \<longrightarrow> ul_permit s \<or> 0 < ul_waking s \<or> (\<exists>es. ul_phase s = Collecting es))
     \<and> ul_shown s = ul_app s"

lemmas ui_step_defs =
  event_push_def event_wake_def ui_take_def ui_receive_def ui_apply_def ui_beat_def ui_callback_def
  ui_global_key_def redraw_def drain_events_def Let_def

lemma ui_inv_quiet: "ui_quiet D s t \<Longrightarrow> ui_inv s \<Longrightarrow> ui_inv t"
  by (induction rule: ui_quiet.induct)
    (auto simp: ui_inv_def ui_step_defs in_hand_def split: list.splits)

lemma ui_inv_step: "ui_step D K s t \<Longrightarrow> ui_inv s \<Longrightarrow> ui_inv t"
proof (induction rule: ui_step.induct)
  case (quiet s t)
  then show ?case by (rule ui_inv_quiet)
qed (auto simp: ui_inv_def ui_step_defs in_hand_def split: prod.splits)

lemma ui_inv_reach: "ui_reach D K a s \<Longrightarrow> ui_inv s"
proof (induction rule: ui_reach.induct)
  case start
  then show ?case by (simp add: ui_inv_def ui_start_def in_hand_def)
qed (rule ui_inv_step)

section \<open>Every event arrives\<close>

text \<open>How much is left to do without new input: each quiet step uses some of it.\<close>

definition ui_load :: "'n ui_loop \<Rightarrow> nat" where
  "ui_load s = 5 * ul_waking s + (if ul_permit s then 4 else 0) + length (ul_queue s)
     + (case ul_phase s of Asleep \<Rightarrow> 0 | Collecting _ \<Rightarrow> 2 | Applying _ \<Rightarrow> 1)"

lemma ui_quiet_load: "ui_quiet D s t \<Longrightarrow> ui_load t < ui_load s"
  by (induction rule: ui_quiet.induct) (auto simp: ui_load_def ui_step_defs split: list.splits)

lemma ui_quiet_sent: "ui_quiet D s t \<Longrightarrow> ul_sent t = ul_sent s"
  by (induction rule: ui_quiet.induct) (auto simp: ui_step_defs split: list.splits)

definition ui_settled :: "'n ui_loop \<Rightarrow> bool" where
  "ui_settled s \<longleftrightarrow> ul_phase s = Asleep \<and> \<not> ul_permit s \<and> ul_waking s = 0"

lemma ui_settled_iff: "ui_settled s \<longleftrightarrow> \<not> (\<exists>t. ui_quiet D s t)"
proof
  assume "ui_settled s"
  then show "\<not> (\<exists>t. ui_quiet D s t)" by (auto simp: ui_settled_def elim!: ui_quiet.cases)
next
  assume n: "\<not> (\<exists>t. ui_quiet D s t)"
  then have "ul_waking s = 0" by (metis gr0I ui_quiet.wake)
  moreover have "ul_phase s = Asleep"
    using n ui_quiet.receive [of s] ui_quiet.apply_all [of s] by (cases "ul_phase s") blast+
  moreover from this n have "\<not> ul_permit s" by (metis ui_quiet.woken)
  ultimately show "ui_settled s" by (simp add: ui_settled_def)
qed

lemma ui_quiet_run: "(ui_quiet D ^^ n) s t \<Longrightarrow> ui_load t + n \<le> ui_load s \<and> ul_sent t = ul_sent s \<and> (ui_inv s \<longrightarrow> ui_inv t)"
proof (induction n arbitrary: t)
  case (Suc n)
  then obtain u where u: "(ui_quiet D ^^ n) s u" "ui_quiet D u t" by (meson relpowp_Suc_E)
  with Suc.IH [OF u(1)] ui_quiet_load [OF u(2)] ui_quiet_sent [OF u(2)] ui_inv_quiet [OF u(2)] show ?case by simp
qed simp

text \<open>
  Property C18. No event is missed. From any reachable state, in whatever interleaving of senders,
  callbacks and the window's task it arose, the remaining work without new input is bounded; every way
  of carrying it out ends only when the task sleeps with no permit and no sender half-way; and then
  every event sent has been applied, in the order sent, and the window shows the resulting state.
\<close>

theorem no_event_missed:
  assumes "ui_reach D K a s"
  shows "(\<forall>n t. (ui_quiet D ^^ n) s t \<longrightarrow> n \<le> ui_load s)
     \<and> (\<forall>n t. (ui_quiet D ^^ n) s t \<and> \<not> (\<exists>u. ui_quiet D t u) \<longrightarrow>
          ul_queue t = [] \<and> ul_applied t = ul_sent s \<and> ul_shown t = ul_app t \<and> ui_settled t)"
proof (intro conjI allI impI)
  fix n t assume "(ui_quiet D ^^ n) s t"
  then show "n \<le> ui_load s" using ui_quiet_run by fastforce
next
  fix n t assume t: "(ui_quiet D ^^ n) s t \<and> \<not> (\<exists>u. ui_quiet D t u)"
  with ui_quiet_run [where D = D and n = n and s = s and t = t] ui_inv_reach [OF assms] have inv: "ui_inv t" "ul_sent t = ul_sent s" by auto
  from t ui_settled_iff [of t D] have f: "ui_settled t" by blast
  with inv have "ul_queue t = []" by (auto simp: ui_inv_def ui_settled_def)
  with inv f show "ul_queue t = []" "ul_applied t = ul_sent s" "ul_shown t = ul_app t" "ui_settled t"
    by (auto simp: ui_inv_def ui_settled_def in_hand_def)
qed

definition demo_ui :: "(ipv4 \<times> nat) ui_loop" where
  "demo_ui = event_push True PeerDisconnected (ui_start (sample_app 7 1000 1001))"

lemma no_event_missed_witness:
  "\<exists>t. (ui_quiet sample_deps ^^ 5) demo_ui t \<and> ul_applied t = [PeerDisconnected] \<and> ul_shown t = ul_app t"
proof -
  let ?s1 = "event_wake demo_ui"
  let ?s2 = "ui_take ?s1"
  let ?s3 = "ui_receive [] ?s2"
  let ?s4 = "ui_receive [PeerDisconnected] ?s3"
  let ?s5 = "ui_apply sample_deps w [PeerDisconnected] ?s4"
  have r: "ui_reach sample_deps K (sample_app 7 1000 1001) demo_ui" for K
    unfolding demo_ui_def by (rule ui_reach.further [OF ui_reach.start ui_step.send])
  have q1: "ui_quiet sample_deps demo_ui ?s1" by (rule ui_quiet.wake) (simp add: demo_ui_def event_push_def)
  have q2: "ui_quiet sample_deps ?s1 ?s2"
    by (rule ui_quiet.woken) (simp_all add: demo_ui_def event_push_def event_wake_def ui_start_def)
  have q3: "ui_quiet sample_deps ?s2 ?s3" by (rule ui_quiet.receive) (simp add: ui_take_def)
  have q4: "ui_quiet sample_deps ?s3 ?s4"
    by (rule ui_quiet.receive) (simp add: demo_ui_def ui_step_defs ui_start_def)
  have q5: "ui_quiet sample_deps ?s4 ?s5" for w
    by (rule ui_quiet.apply_all) (simp add: demo_ui_def ui_step_defs ui_start_def)
  have five: "(5 :: nat) = Suc (Suc (Suc (Suc (Suc 0))))" by simp
  have zero: "(ui_quiet sample_deps ^^ 0) demo_ui demo_ui" by simp
  have run: "(ui_quiet sample_deps ^^ 5) demo_ui ?s5" for w
    unfolding five
    by (rule relpowp_Suc_I, rule relpowp_Suc_I, rule relpowp_Suc_I, rule relpowp_Suc_I, rule relpowp_Suc_I,
        rule zero, rule q1, rule q2, rule q3, rule q4, rule q5)
  have "ui_settled ?s5" for w by (simp add: ui_settled_def demo_ui_def ui_step_defs ui_start_def)
  then have "\<not> (\<exists>u. ui_quiet sample_deps ?s5 u)" for w
    using ui_settled_iff [where D = sample_deps] by blast
  with no_event_missed [OF r] run have "ul_applied ?s5 = ul_sent demo_ui \<and> ul_shown ?s5 = ul_app ?s5" for w by blast
  with run show ?thesis by (intro exI [of _ "?s5"]) (simp add: demo_ui_def event_push_def ui_start_def)
qed

section \<open>The handle of the runtime\<close>

text \<open>The commands queued, whether the runtime thread has not been joined yet, and the joins made.\<close>

record net_handle =
  nh_commands :: "ui_command list"
  nh_thread :: bool
  nh_joins :: nat

definition spawn_net_runtime :: net_handle where
  "spawn_net_runtime = \<lparr>nh_commands = [], nh_thread = True, nh_joins = 0\<rparr>"

definition nh_send :: "ui_command \<Rightarrow> net_handle \<Rightarrow> net_handle" where
  "nh_send c h = h\<lparr>nh_commands := nh_commands h @ [c]\<rparr>"

definition nh_shutdown :: "net_handle \<Rightarrow> net_handle" where
  "nh_shutdown h =
     (let h' = nh_send Shutdown h
      in if nh_thread h' then h'\<lparr>nh_thread := False, nh_joins := nh_joins h' + 1\<rparr> else h')"

lemma shutdown_joins_once:
  "nh_joins ((nh_shutdown ^^ Suc n) (fold nh_send cs spawn_net_runtime)) = 1"
proof -
  have "nh_thread (fold nh_send cs h) = nh_thread h \<and> nh_joins (fold nh_send cs h) = nh_joins h" for h
    by (induction cs arbitrary: h) (simp_all add: nh_send_def)
  then have f: "nh_thread (fold nh_send cs spawn_net_runtime)" "nh_joins (fold nh_send cs spawn_net_runtime) = 0"
    by (simp_all add: spawn_net_runtime_def)
  have "\<not> nh_thread ((nh_shutdown ^^ Suc n) h) \<and> nh_joins ((nh_shutdown ^^ Suc n) h) = 1"
    if "nh_thread h" "nh_joins h = 0" for h
    using that by (induction n) (simp_all add: nh_shutdown_def nh_send_def Let_def)
  with f show ?thesis by blast
qed

end
