(* ===== verification/Window.thy ===== *)
theory Window
  imports Wakeup
begin

text \<open>
  The whole projection of the app onto its window (\<open>App::sync\<close> in \<open>duocb/src/app/sync.rs\<close>): every
  property of \<open>UiState\<close> that \<open>sync\<close> writes, page by page, from the pieces of \<open>View\<close>; and what the window
  may reveal: nothing of a collapsed item but its time, size and checksum, and nothing of the key.
\<close>

section \<open>The properties of the window\<close>

text \<open>
  A list property holds the compiler's default until the first \<open>sync\<close> puts a model there; later ones
  update that model in place.
\<close>

datatype 'r row_model = CompilerDefault | VecModel "'r list"

definition set_rows :: "'r row_model \<Rightarrow> 'r list \<Rightarrow> 'r row_model" where
  "set_rows current rows =
     (case current of CompilerDefault \<Rightarrow> VecModel rows | VecModel vec \<Rightarrow> VecModel (diffed_model vec rows))"

record status_bar =
  sb_screen :: screen
  sb_step :: configure_step
  sb_text :: ustring
  sb_connected :: bool
  sb_active :: bool
  sb_hosting :: bool
  sb_role_note :: ustring
  sb_retry :: bool
  sb_live :: bool
  sb_error :: "banner option"

record identity_page =
  ip_display :: ustring
  ip_has_identity :: bool
  ip_fingerprint :: ustring
  ip_public_key :: ustring
  ip_config_path :: ustring
  ip_copied_card :: bool
  ip_copied_key :: bool
  ip_copied_pin :: bool
  ip_name :: "bool \<times> ustring \<times> field_error option"
  ip_can_cancel :: bool
  ip_name_rules :: ustring
  ip_import :: "bool \<times> ustring \<times> field_error option"
  ip_peer_card :: "bool \<times> field_error option"

record picker =
  pk_peers :: "peer_row row_model"
  pk_updated :: ustring
  pk_empty :: ustring
  pk_ready :: bool

record session_page =
  sp_peer :: ustring
  sp_node :: ustring
  sp_peer_node :: ustring
  sp_key :: ustring
  sp_host_ip :: ustring
  sp_pin :: ustring
  sp_countdown :: ustring

record setup_page =
  su_incoming :: "ustring \<times> ustring \<times> ustring"
  su_progress :: "ustring \<times> bool \<times> bool"
  su_prefix :: ustring
  su_placeholder :: ustring
  su_hint :: ustring
  su_ip_error :: "banner option"
  su_ready :: bool
  su_channel :: "ustring \<times> ustring"
  su_badge :: ustring
  su_lan :: bool

record path_row =
  pt_marker :: uchar
  pt_color :: "nat \<times> nat \<times> nat"
  pt_display :: ustring

record panel =
  pn_flash :: bool
  pn_outbox_present :: bool
  pn_outbox :: clip_row
  pn_title :: ustring
  pn_inbox :: "clip_row row_model"
  pn_reset :: bool
  pn_show_paths :: bool
  pn_paths :: "path_row row_model"

record window =
  wn_status :: status_bar
  wn_identity :: identity_page
  wn_picker :: picker
  wn_session :: session_page
  wn_setup :: setup_page
  wn_panel :: panel
  wn_fields :: fields

text \<open>What the projection takes from other libraries: local times, the text of a node id, the shown path.\<close>

record faces =
  fc_clock :: "u64 \<Rightarrow> ustring"
  fc_node :: "node_id \<Rightarrow> ustring"
  fc_path :: ustring

section \<open>Texts\<close>

text \<open>\<open>short_id\<close> slices at byte eight from either end; \<open>None\<close> is the panic when a character straddles one.\<close>

definition short_id :: "ustring \<Rightarrow> ustring option" where
  "short_id s =
     (if str_len s \<le> 16 then Some s
      else case (slice_at 8 s, slice_at (str_len s - 8) s) of
        (Some (start, _), Some (_, rest)) \<Rightarrow> Some (start @ [8230] @ rest)
      | _ \<Rightarrow> None)"

definition node_line :: "faces \<Rightarrow> node_id option \<Rightarrow> ustring option" where
  "node_line F n = (case n of None \<Rightarrow> Some [] | Some node \<Rightarrow> short_id (fc_node F node))"

definition str_or_empty :: "ustring option \<Rightarrow> ustring" where
  "str_or_empty s = (case s of Some t \<Rightarrow> t | None \<Rightarrow> [])"

definition name_rules :: ustring where
  "name_rules = ascii ''Choose the short name; the permanent random suffix shown below is appended automatically. Letters, digits, and '-' only (max '' @ dec NAME_MAX_LEN @ ascii '' characters).''"

definition signal_channel_text :: "signal_channel \<Rightarrow> ustring \<times> ustring" where
  "signal_channel_text ch =
     (case ch of
        LanThenNostr \<Rightarrow>
          (ascii ''How the devices find each other'',
           ascii ''The dialing device looks on the local network first (Bonjour/DNS-SD) and queries public Nostr relays only if nothing answers there. The hosting device publishes on both in parallel, so use --lan-only when the app must avoid contacting external servers. The payload contains only an encrypted temporary connection id; a clipboard-session Nostr event still exposes the host and intended peer application public keys as metadata. This applies to trading cards and clipboard sessions alike.'')
      | LanOnly \<Rightarrow>
          (ascii ''Local network only'',
           ascii ''No third-party server participates, for trading cards or for clipboard sessions: discovery uses Bonjour (DNS-SD) and traffic stays direct between the devices. If multicast is blocked, trading cards still works by typing the IP shown while hosting, but a clipboard session has no fallback and the two devices will not find each other. This is a discovery policy, not a packet-level subnet boundary; reflected mDNS, a VPN/overlay, or globally routed addresses can extend the direct path beyond a conventional LAN.'')
      | NostrOnly \<Rightarrow>
          (ascii ''Relays only'',
           ascii ''The local network is not searched at all, for trading cards or for clipboard sessions: the rendezvous record is published to public Nostr relays, so the other device can be anywhere with internet access. Its payload contains only an encrypted temporary connection id; a clipboard-session event still exposes the host and intended peer application public keys as metadata. The connection goes direct when the devices can reach each other.''))"

definition signal_channel_badge :: "signal_channel \<Rightarrow> ustring" where
  "signal_channel_badge ch =
     (case ch of
        LanThenNostr \<Rightarrow> []
      | LanOnly \<Rightarrow> ascii ''Started with --lan-only: devices find each other on this network only.''
      | NostrOnly \<Rightarrow> ascii ''Started with --nostr-only: devices find each other through relays only.'')"

section \<open>The projection\<close>

definition status_bar_of :: "'n app \<Rightarrow> status_bar" where
  "status_bar_of a =
     \<lparr>sb_screen = ap_screen a, sb_step = ap_step a, sb_text = status_text a, sb_connected = (ap_status a = Connected),
      sb_active = ap_active a, sb_hosting = ap_hosting a, sb_role_note = session_role_note a,
      sb_retry = retry_available a, sb_live = session_live a, sb_error = ap_error a\<rparr>"

definition identity_page_of :: "faces \<Rightarrow> 'n deps \<Rightarrow> 'n moment \<Rightarrow> 'n app \<Rightarrow> identity_page" where
  "identity_page_of F D w a =
     (let copied = copied_target (at_instant w) a in
      \<lparr>ip_display = app_display_identity a, ip_has_identity = (ap_self_card a \<noteq> None),
       ip_fingerprint = key_fingerprint (dp_crypto D) (own_key D a), ip_public_key = to_npub (dp_crypto D) (ap_identity a),
       ip_config_path = fc_path F, ip_copied_card = (copied = Some CopyCard),
       ip_copied_key = (copied = Some CopyPrivateKey), ip_copied_pin = (copied = Some CopyPin),
       ip_name = name_field a, ip_can_cancel = has_saved_identity a, ip_name_rules = name_rules,
       ip_import = import_field D a, ip_peer_card = peer_card_field D w a\<rparr>)"

definition picker_of :: "'n deps \<Rightarrow> 'n moment \<Rightarrow> 'n app \<Rightarrow> picker \<Rightarrow> picker" where
  "picker_of D w a p =
     \<lparr>pk_peers = set_rows (pk_peers p) (peer_rows D w a),
      pk_updated = dec (length (ap_peers a)) @ ascii '' trusted peer(s)'',
      pk_empty = (if ap_peers a \<noteq> [] then []
        else ascii ''No trusted peers yet. Paste the other device's signed card above, or use Trade cards to send it over the network.''),
      pk_ready = connect_ready D a\<rparr>"

definition session_page_of :: "faces \<Rightarrow> 'n deps \<Rightarrow> 'n moment \<Rightarrow> 'n app \<Rightarrow> session_page option" where
  "session_page_of F D w a =
     (case (node_line F (ap_node_id a), node_line F (ap_peer_node a)) of
        (Some node, Some peer_node) \<Rightarrow>
          Some \<lparr>sp_peer = str_or_empty (ap_session_peer a), sp_node = node, sp_peer_node = peer_node,
            sp_key = session_public_key D a, sp_host_ip = str_or_empty (map_option show_ipv4 (ap_host_ip a)),
            sp_pin = str_or_empty (ap_pin a), sp_countdown = pin_countdown w a\<rparr>
      | _ \<Rightarrow> None)"

definition setup_page_of :: "'n deps \<Rightarrow> 'n moment \<Rightarrow> 'n app \<Rightarrow> setup_page" where
  "setup_page_of D w a =
     \<lparr>su_incoming = incoming_card_display D (at_unix w) a, su_progress = pin_progress a,
      su_prefix = locked_prefix (dp_ipnet D) (ap_ip_ctx a), su_placeholder = host_placeholder (dp_ipnet D) (ap_ip_ctx a),
      su_hint = hint (dp_ipnet D) (ap_ip_ctx a), su_ip_error = join_ip_error D a, su_ready = dial_ready D a,
      su_channel = signal_channel_text (ap_channel a), su_badge = signal_channel_badge (ap_channel a),
      su_lan = ch_lan (ap_channel a)\<rparr>"

definition blank_row :: clip_row where
  "blank_row = \<lparr>cr_time = [], cr_size = [], cr_crc = [], cr_expanded = False, cr_peek_text = [], cr_peek_lines = 0,
     cr_note = [], cr_copied = False\<rparr>"

definition outbox_row :: "(u64 \<Rightarrow> ustring) \<Rightarrow> 'n moment \<Rightarrow> 'n app \<Rightarrow> clip_row" where
  "outbox_row clock w a =
     (case ap_outbox a of
        Some item \<Rightarrow> (clip_row_of clock item)\<lparr>cr_copied := (copied_target (at_instant w) a = Some CopyOutbox)\<rparr>
      | None \<Rightarrow> blank_row)"

definition path_row_of :: "conn_path \<Rightarrow> path_row" where
  "path_row_of p =
     \<lparr>pt_marker = (if path_selected p then 9679 else 9675),
      pt_color = (case path_kind p of PathDirect \<Rightarrow> (46, 160, 67) | PathRelay \<Rightarrow> (210, 146, 34) | PathOther \<Rightarrow> (136, 136, 136)),
      pt_display = path_display p\<rparr>"

definition panel_of :: "faces \<Rightarrow> 'n moment \<Rightarrow> 'n app \<Rightarrow> panel \<Rightarrow> panel" where
  "panel_of F w a p =
     \<lparr>pn_flash = sent_flash_active (at_instant w) a, pn_outbox_present = (ap_outbox a \<noteq> None),
      pn_outbox = outbox_row (fc_clock F) w a, pn_title = ascii ''Inbox ('' @ dec (length (ap_inbox a)) @ ascii '')'',
      pn_inbox = set_rows (pn_inbox p) (inbox_rows (fc_clock F) w a), pn_reset = ap_confirm_reset a,
      pn_show_paths = (ap_conn_path a \<noteq> None),
      pn_paths = set_rows (pn_paths p) (map path_row_of (case ap_conn_path a of Some ps \<Rightarrow> ps | None \<Rightarrow> []))\<rparr>"

definition fields_of :: "'n app \<Rightarrow> fields" where
  "fields_of a =
     \<lparr>fd_my_name = in_my_name a, fd_private_key = in_private_key a, fd_peer_card = in_peer_card a,
      fd_pin_a = in_pin_a a, fd_pin_b = in_pin_b a, fd_join_ip = in_join_ip a, fd_compose = in_compose a\<rparr>"

definition sync :: "faces \<Rightarrow> 'n deps \<Rightarrow> 'n moment \<Rightarrow> 'n app \<Rightarrow> window \<Rightarrow> window option" where
  "sync F D w a s =
     map_option (\<lambda>session.
       \<lparr>wn_status = status_bar_of a, wn_identity = identity_page_of F D w a, wn_picker = picker_of D w a (wn_picker s),
        wn_session = session, wn_setup = setup_page_of D w a, wn_panel = panel_of F w a (wn_panel s),
        wn_fields = fields_of a\<rparr>)
     (session_page_of F D w a)"

section \<open>What the window shows depends on the app alone\<close>

text \<open>\<open>current\<close> is what a list property held before; afterwards it holds exactly the rows.\<close>

lemma set_rows_exact: "set_rows current rows = VecModel rows"
  by (simp add: set_rows_def diffed_model_exact split: row_model.split)

lemma picker_fresh: "picker_of D w a p = picker_of D w a q"
  by (simp add: picker_of_def set_rows_exact)

lemma panel_fresh: "panel_of F w a p = panel_of F w a q"
  by (simp add: panel_of_def set_rows_exact)

lemma sync_fresh: "sync F D w a s = sync F D w a t"
  unfolding sync_def by (subst picker_fresh [where q = "wn_picker t"], subst panel_fresh [where q = "wn_panel t"], rule refl)

lemma short_id_ascii: "is_ascii s \<Longrightarrow> short_id s \<noteq> None"
  by (simp add: short_id_def slice_at_ascii)

lemma sync_total:
  assumes "\<And>n. is_ascii (fc_node F n)"
  shows "sync F D w a s \<noteq> None"
proof -
  have "node_line F m \<noteq> None" for m
    using short_id_ascii [OF assms] by (cases m) (simp_all add: node_line_def)
  then obtain own peer where "node_line F (ap_node_id a) = Some own" "node_line F (ap_peer_node a) = Some peer" by blast
  then show ?thesis by (simp add: sync_def session_page_of_def)
qed

text \<open>At most one copy button of the whole window says that it was just pressed.\<close>

lemma one_copied_row:
  "length (filter (\<lambda>(i, item). t = Some (CopyInbox i)) (enumerate n xs)) \<le> (case t of Some (CopyInbox _) \<Rightarrow> 1 | _ \<Rightarrow> 0)"
proof (induction xs arbitrary: n)
  case (Cons x xs)
  have "filter (\<lambda>(i, item). t = Some (CopyInbox i)) (enumerate (Suc n) xs) = []" if "t = Some (CopyInbox n)"
    using that by (auto simp: filter_empty_conv enumerate_eq_zip dest: set_zip_leftD)
  with Cons [of "Suc n"] show ?case by auto
qed simp

lemma one_copied_flag:
  assumes "sync F D w a s = Some win"
  shows "length (filter (\<lambda>flag. flag)
      ([ip_copied_card (wn_identity win), ip_copied_key (wn_identity win), ip_copied_pin (wn_identity win),
        cr_copied (pn_outbox (wn_panel win))] @ map cr_copied (inbox_rows (fc_clock F) w a))) \<le> 1"
proof -
  let ?t = "copied_target (at_instant w) a"
  have rows: "length (filter cr_copied (inbox_rows (fc_clock F) w a)) \<le> (case ?t of Some (CopyInbox _) \<Rightarrow> 1 | _ \<Rightarrow> 0)"
    using one_copied_row [of ?t 0 "ap_inbox a"]
    by (simp add: inbox_rows_def filter_map comp_def case_prod_unfold)
  from assms have win: "wn_identity win = identity_page_of F D w a" "wn_panel win = panel_of F w a (wn_panel s)"
    by (auto simp: sync_def)
  have out: "cr_copied (outbox_row (fc_clock F) w a) \<longrightarrow> ?t = Some CopyOutbox"
    by (simp add: outbox_row_def blank_row_def split: option.split)
  from rows out show ?thesis
    by (auto simp: win identity_page_of_def panel_of_def Let_def filter_map comp_def split: option.splits copy_target.splits)
qed

section \<open>What it keeps to itself\<close>

text \<open>
  \<open>veiled seen i j\<close>: two items that differ at most in their text, and there neither in its size in bytes
  nor, when the item is \<open>seen\<close>, in what a peek shows of it.
\<close>

definition veiled :: "(inbox_item \<Rightarrow> bool) \<Rightarrow> inbox_item \<Rightarrow> inbox_item \<Rightarrow> bool" where
  "veiled seen i j \<longleftrightarrow>
     it_time i = it_time j \<and> it_crc i = it_crc j \<and> it_peeked i = it_peeked j
     \<and> str_len (it_text i) = str_len (it_text j) \<and> (seen i \<longrightarrow> peek_text i = peek_text j)"

text \<open>A peek still open at an instant.\<close>

definition peeking :: "nat \<Rightarrow> inbox_item \<Rightarrow> bool" where
  "peeking instant i \<longleftrightarrow> (\<exists>t. it_peeked i = Some t \<and> instant - t < PEEK_TIMEOUT)"

text \<open>Another app in the same place, with other texts, another text on its way and another secret key.\<close>

definition disguised :: "inbox_item list \<Rightarrow> inbox_item option \<Rightarrow> ustring option \<Rightarrow> identity \<Rightarrow> 'n app \<Rightarrow> 'n app" where
  "disguised inbox outbox pending i a =
     a\<lparr>ap_inbox := inbox, ap_outbox := outbox, ap_pending_out := pending, ap_identity := i\<rparr>"

lemma veiled_row:
  assumes "veiled expanded i j"
  shows "clip_row_of clock i = clip_row_of clock j"
proof -
  from assms have "size_hint i = size_hint j" "crc32_display i = crc32_display j" "expanded i = expanded j"
    by (simp_all add: veiled_def size_hint_def crc32_display_def expanded_def)
  moreover from assms have "it_time i = it_time j" "expanded i \<Longrightarrow> peek_text i = peek_text j"
    by (simp_all add: veiled_def)
  ultimately show ?thesis by (cases "expanded j"; cases "peek_text j") (simp_all add: clip_row_of_def)
qed

lemma veiled_tick: "veiled (peeking t) i j \<Longrightarrow> veiled expanded (tick_peek t i) (tick_peek t j)"
  by (auto simp: veiled_def peeking_def tick_peek_def expanded_def peek_text_def split: option.splits if_splits)

lemma veiled_rows:
  "list_all2 (veiled expanded) xs ys \<Longrightarrow>
     map (\<lambda>(i, item). (clip_row_of clock item)\<lparr>cr_copied := f i\<rparr>) (enumerate n xs) =
     map (\<lambda>(i, item). (clip_row_of clock item)\<lparr>cr_copied := f i\<rparr>) (enumerate n ys)"
  by (induction xs ys arbitrary: n rule: list_all2_induct) (simp_all add: veiled_row)

lemmas app_field_defs =
  status_text_def session_role_note_def retry_available_def session_live_def app_display_identity_def
  has_saved_identity_def name_field_def import_field_def peer_card_field_def peer_rows_def peer_row_line_def
  connect_ready_def selected_peer_card_def session_public_key_def pin_countdown_def incoming_card_display_def
  pin_progress_def join_ip_error_def host_ip_outcome_def dial_ready_def card_setup_dial_spec_def copied_target_def
  sent_flash_active_def

lemma disguised_same:
  "ap_disk (disguised xs y p i a) = ap_disk a" "ap_net (disguised xs y p i a) = ap_net a"
  "ap_copied (disguised xs y p i a) = ap_copied a" "ap_screen (disguised xs y p i a) = ap_screen a"
  "ap_status (disguised xs y p i a) = ap_status a" "ap_error (disguised xs y p i a) = ap_error a"
  "ap_channel (disguised xs y p i a) = ap_channel a" "ap_saved_name (disguised xs y p i a) = ap_saved_name a"
  "ap_suffix (disguised xs y p i a) = ap_suffix a" "ap_self_card (disguised xs y p i a) = ap_self_card a"
  "ap_step (disguised xs y p i a) = ap_step a" "ap_peers (disguised xs y p i a) = ap_peers a"
  "ap_selected (disguised xs y p i a) = ap_selected a" "ap_session_peer (disguised xs y p i a) = ap_session_peer a"
  "ap_confirm_reset (disguised xs y p i a) = ap_confirm_reset a" "ap_active (disguised xs y p i a) = ap_active a"
  "ap_hosting (disguised xs y p i a) = ap_hosting a" "ap_node_id (disguised xs y p i a) = ap_node_id a"
  "ap_host_ip (disguised xs y p i a) = ap_host_ip a" "ap_public_key (disguised xs y p i a) = ap_public_key a"
  "ap_pin (disguised xs y p i a) = ap_pin a" "ap_pin_deadline (disguised xs y p i a) = ap_pin_deadline a"
  "ap_pending_card (disguised xs y p i a) = ap_pending_card a" "in_my_name (disguised xs y p i a) = in_my_name a"
  "in_private_key (disguised xs y p i a) = in_private_key a" "in_peer_card (disguised xs y p i a) = in_peer_card a"
  "in_pin_a (disguised xs y p i a) = in_pin_a a" "in_pin_b (disguised xs y p i a) = in_pin_b a"
  "in_join_ip (disguised xs y p i a) = in_join_ip a" "ap_ip_ctx (disguised xs y p i a) = ap_ip_ctx a"
  "in_compose (disguised xs y p i a) = in_compose a" "ap_peer_node (disguised xs y p i a) = ap_peer_node a"
  "ap_conn_path (disguised xs y p i a) = ap_conn_path a" "ap_box_peer (disguised xs y p i a) = ap_box_peer a"
  "ap_sent_flash (disguised xs y p i a) = ap_sent_flash a"
  "ap_copied_flash (disguised xs y p i a) = ap_copied_flash a"
  by (simp_all add: disguised_def)

lemma sync_disguised:
  assumes "list_all2 (veiled expanded) (ap_inbox a) xs" and "rel_option (veiled expanded) (ap_outbox a) y"
    and "identity_public (dp_crypto D) i = identity_public (dp_crypto D) (ap_identity a)"
  shows "sync F D w (disguised xs y p i a) s = sync F D w a t"
proof -
  let ?b = "disguised xs y p i a"
  have "inbox_rows clock w ?b = inbox_rows clock w a" for clock
    using veiled_rows [OF assms(1), where clock = clock and n = 0
        and f = "\<lambda>k. copied_target (at_instant w) a = Some (CopyInbox k)"]
    by (simp add: inbox_rows_def disguised_def copied_target_def)
  moreover have "outbox_row clock w ?b = outbox_row clock w a" for clock
    using assms(2)
    by (cases "ap_outbox a"; cases y)
      (auto simp: outbox_row_def disguised_def copied_target_def dest!: veiled_row [where clock = clock])
  moreover have "length (ap_inbox ?b) = length (ap_inbox a)" "ap_outbox ?b \<noteq> None \<longleftrightarrow> ap_outbox a \<noteq> None"
    using assms(1,2) by (auto dest: list_all2_lengthD simp: option.rel_sel disguised_def)
  moreover have "ap_confirm_reset ?b = ap_confirm_reset a" "ap_conn_path ?b = ap_conn_path a"
    "sent_flash_active (at_instant w) ?b = sent_flash_active (at_instant w) a"
    by (simp_all add: disguised_def sent_flash_active_def)
  ultimately have "panel_of F w ?b q = panel_of F w a q" for q
    by (simp only: panel_of_def)
  moreover have "status_bar_of ?b = status_bar_of a" "fields_of ?b = fields_of a"
    unfolding status_bar_of_def fields_of_def app_field_defs disguised_same by (rule refl)+
  moreover have "own_key D ?b = own_key D a" "to_npub (dp_crypto D) (ap_identity ?b) = to_npub (dp_crypto D) (ap_identity a)"
    by (simp_all add: own_key_def to_npub_def disguised_def assms(3))
  note key = this
  moreover have "identity_page_of F D w ?b = identity_page_of F D w a" "setup_page_of D w ?b = setup_page_of D w a"
    "session_page_of F D w ?b = session_page_of F D w a"
    unfolding identity_page_of_def setup_page_of_def session_page_of_def app_field_defs disguised_same key by (rule refl)+
  moreover have "picker_of D w ?b q = picker_of D w a q" for q
    unfolding picker_of_def app_field_defs disguised_same by (rule refl)
  ultimately have "sync F D w ?b s = sync F D w a s" by (simp add: sync_def)
  then show ?thesis using sync_fresh [of F D w a s t] by simp
qed

text \<open>
  Property C21. The window keeps the clipboard and the key to itself. Whatever it showed before, what it
  shows of the app is the same for two apps that differ only in the secret key behind the same public
  key, in a text still being sent, and in the texts of inbox and outbox, as long as those agree in size,
  time and checksum, and an item that is open also in what its peek shows. The heartbeat closes peeks:
  from fifteen seconds after it was opened, an item counts as closed.
\<close>

theorem window_keeps_secrets:
  assumes "identity_public (dp_crypto D) i = identity_public (dp_crypto D) (ap_identity a)"
  shows "(list_all2 (veiled expanded) (ap_inbox a) xs \<and> rel_option (veiled expanded) (ap_outbox a) y
       \<longrightarrow> sync F D w (disguised xs y p i a) s = sync F D w a t)
     \<and> (list_all2 (veiled (peeking (at_instant w))) (ap_inbox a) xs
        \<and> rel_option (veiled (peeking (at_instant w))) (ap_outbox a) y
       \<longrightarrow> sync F D w (tick w (disguised xs y p i a)) s = sync F D w (tick w a) t)"
proof (intro conjI impI; elim conjE)
  assume "list_all2 (veiled expanded) (ap_inbox a) xs" "rel_option (veiled expanded) (ap_outbox a) y"
  then show "sync F D w (disguised xs y p i a) s = sync F D w a t" by (rule sync_disguised [OF _ _ assms])
next
  let ?tick = "tick_peek (at_instant w)"
  assume l: "list_all2 (veiled (peeking (at_instant w))) (ap_inbox a) xs"
    and o: "rel_option (veiled (peeking (at_instant w))) (ap_outbox a) y"
  have "tick w (disguised xs y p i a) = disguised (map ?tick xs) (map_option ?tick y) p i (tick w a)"
    by (simp add: tick_def disguised_def)
  moreover have "list_all2 (veiled expanded) (ap_inbox (tick w a)) (map ?tick xs)"
    using l by (simp add: tick_def list_all2_map1 list_all2_map2 list_all2_mono [OF _ veiled_tick])
  moreover have "rel_option (veiled expanded) (ap_outbox (tick w a)) (map_option ?tick y)"
    using o by (cases "ap_outbox a"; cases y) (auto simp: tick_def veiled_tick)
  moreover have "ap_identity (tick w a) = ap_identity a" by (simp add: tick_def)
  ultimately show "sync F D w (tick w (disguised xs y p i a)) s = sync F D w (tick w a) t"
    using sync_disguised [where a = "tick w a" and D = D and i = i] assms by simp
qed

text \<open>Two texts of a byte each under the constant checksum of the sample, one of them peeked a while ago.\<close>

definition demo_item :: "uchar \<Rightarrow> inbox_item" where
  "demo_item c = \<lparr>it_text = [c], it_time = 5, it_crc = 0, it_peeked = Some 10\<rparr>"

definition demo_faces :: faces where
  "demo_faces = \<lparr>fc_clock = (\<lambda>_. []), fc_node = (\<lambda>_. []), fc_path = []\<rparr>"

lemma window_keeps_secrets_witness:
  "\<forall>s. let a = (sample_app 7 1000 1001)\<lparr>ap_inbox := [demo_item 97], ap_outbox := None\<rparr>; w = sample_moment\<lparr>at_instant := 25\<rparr>
   in sync demo_faces sample_deps w (tick w (disguised [demo_item 98] None (Some [99]) (ap_identity a) a)) s =
      sync demo_faces sample_deps w (tick w a) s"
proof -
  let ?a = "(sample_app 7 1000 1001)\<lparr>ap_inbox := [demo_item 97], ap_outbox := None\<rparr>"
  let ?w = "sample_moment\<lparr>at_instant := 25\<rparr>"
  have "list_all2 (veiled (peeking (at_instant ?w))) (ap_inbox ?a) [demo_item 98]"
    by (simp add: veiled_def peeking_def demo_item_def const_simps utf8_char_ascii)
  then show ?thesis
    using window_keeps_secrets [of sample_deps "ap_identity ?a" ?a "[demo_item 98]" None demo_faces ?w "Some [99]"]
    by (simp add: Let_def)
qed

section \<open>The fields\<close>

text \<open>
  Writing the fields back settles: what an edit leaves in the app is what a second edit of the fields so
  written back would leave.
\<close>

lemma sanitize_idem: "sanitize_pin_chars (sanitize_pin_chars s) = sanitize_pin_chars s"
  by (induction s) (auto simp: sanitize_pin_chars_def map_char_idem)

lemma sanitize_take: "sanitize_pin_chars p = p \<Longrightarrow> sanitize_pin_chars (take n p) = take n p \<and> sanitize_pin_chars (drop n p) = drop n p"
proof -
  have kept: "sanitize_pin_chars q = q \<longleftrightarrow> (\<forall>c \<in> set q. map_char c = c \<and> as_u8 c \<in> set ALPHABET)" for q
  proof
    assume q: "sanitize_pin_chars q = q"
    then have "length (filter (\<lambda>c. as_u8 c \<in> set ALPHABET) (map map_char q)) = length (map map_char q)"
      by (simp add: sanitize_pin_chars_def)
    then have all: "\<forall>c \<in> set (map map_char q). as_u8 c \<in> set ALPHABET"
      by (metis (no_types, lifting) length_filter_less less_irrefl)
    then have same: "map map_char q = q" using q by (simp only: sanitize_pin_chars_def filter_id_conv [THEN iffD2])
    with all have "\<forall>c \<in> set q. as_u8 c \<in> set ALPHABET" by (simp only:)
    moreover from same have "\<forall>c \<in> set q. map_char c = c" by (metis list.map_ident map_eq_conv)
    ultimately show "\<forall>c \<in> set q. map_char c = c \<and> as_u8 c \<in> set ALPHABET" by blast
  qed (simp add: sanitize_pin_chars_def map_idI filter_id_conv)
  assume "sanitize_pin_chars p = p"
  then show ?thesis unfolding kept by (auto dest: in_set_takeD in_set_dropD)
qed

lemma fields_settle: "fields_edited (fields_of (fields_edited f a)) (fields_edited f a) = fields_edited f a"
proof -
  let ?p = "sanitize_pin_chars (fd_pin_a f)" and ?q = "sanitize_pin_chars (fd_pin_b f)"
  obtain p q where g: "split_pin_groups ?p ?q = (p, q)" by fastforce
  note t = sanitize_take [OF sanitize_idem]
  from g t have "sanitize_pin_chars p = p" "sanitize_pin_chars q = q" "length p \<le> PIN_GROUP_LEN" "length q \<le> PIN_GROUP_LEN"
    by (auto simp: split_pin_groups_def split: if_splits)
      (metis sanitize_take)+
  moreover from this have "split_pin_groups p q = (p, q)" by (simp add: split_pin_groups_def)
  ultimately show ?thesis by (simp add: fields_edited_def fields_of_def g)
qed

end
