(* ===== verification/Unicast.thy ===== *)
theory Unicast
  imports Lan CardExchange
begin

text \<open>
  The serving half of the unicast side channel (\<open>duocb-core/src/lan/unicast.rs\<close>): the listener's accept
  loop, the connections it serves on their own, and what a joiner that types the host's address then
  reads.
\<close>

section \<open>Serving\<close>

text \<open>\<open>UnicastListener\<close>: the port bound, the record served, and whether its task still runs.\<close>

record unicast_listener =
  sc_port :: u16
  sc_body :: bytes
  sc_running :: bool

definition side_channel_start :: "u16 \<times> bytes \<Rightarrow> unicast_listener" where
  "side_channel_start pb = \<lparr>sc_port = fst pb, sc_body = snd pb, sc_running = True\<rparr>"

definition side_channel_drop :: "unicast_listener \<Rightarrow> unicast_listener" where
  "side_channel_drop c = c\<lparr>sc_running := False\<rparr>"

definition serve_one :: "bytes \<Rightarrow> ('z chan_scheme, wire_error, unit) prog" where
  "serve_one body = bindp (write_all body) (\<lambda>_. shutdown WriteFailed)"

text \<open>
  The accept loop over what \<open>accept\<close> returns, \<open>None\<close> an error, after which it goes on: each stream is
  served by a task of its own, and ends as that task leaves it.
\<close>

fun accept_loop :: "bytes \<Rightarrow> chan option list \<Rightarrow> chan list" where
  "accept_loop body [] = []"
| "accept_loop body (None # rest) = accept_loop body rest"
| "accept_loop body (Some stream # rest) = snd (serve_one body stream) # accept_loop body rest"

text \<open>What the other end of a stream reads up to its end, \<open>None\<close> when the stream breaks before.\<close>

definition delivered :: "chan \<Rightarrow> bytes option" where
  "delivered s = (if fin s then Some (tx s) else None)"

text \<open>A stream just accepted, on which the peer takes a whole record.\<close>

definition fresh_stream :: "chan \<Rightarrow> bool" where
  "fresh_stream s \<longleftrightarrow> \<not> fin s \<and> tx s = []"

lemma serve_one_delivers:
  assumes "fresh_stream s"
  shows "delivered (snd (serve_one body s)) = (if length body < wcap s then Some body else None)"
  using assms by (simp add: serve_one_def bindp_def write_all_def shutdown_def delivered_def fresh_stream_def)

lemma accept_loop_map: "accept_loop body es = map (\<lambda>s. snd (serve_one body s)) (List.map_filter id es)"
  by (induction body es rule: accept_loop.induct) (simp_all add: List.map_filter_simps)

text \<open>
  Neither failed accepts nor broken connections keep the record from anyone else: whatever else the loop
  meets, a stream that takes the record is delivered it whole, and no stream is delivered anything else.
\<close>

lemma everyone_served:
  assumes "\<And>s. Some s \<in> set es \<Longrightarrow> fresh_stream s"
  shows "map delivered (accept_loop body es) =
    map (\<lambda>s. if length body < wcap s then Some body else None) (List.map_filter id es)"
proof -
  have "s \<in> set (List.map_filter id es) \<Longrightarrow> fresh_stream s" for s
    using assms by (auto simp: List.map_filter_def)
  then show ?thesis by (simp add: accept_loop_map serve_one_delivers)
qed

section \<open>Joining by address\<close>

text \<open>
  The host as a joiner's probe meets it: connections to other ports are refused, and so is one to the
  port once the listener has been dropped. \<open>stream\<close> is the host's end of the probe's connection.
\<close>

definition probe_host :: "unicast_listener \<Rightarrow> (ip_addr \<Rightarrow> chan) \<Rightarrow> responder" where
  "probe_host c stream ip port =
     (if sc_running c \<and> port = sc_port c then delivered (snd (serve_one (sc_body c) (stream ip))) else None)"

text \<open>
  The PIN and the address suffice: against a running side channel, the probe of the candidate that the
  record was sealed under brings back the host's node id and addresses.
\<close>

lemma typed_address_found:
  assumes adv: "unicast_advertise C S U bind nonce k node addrs = Inr pb"
    and keys: "k \<in> set ks" "k \<in> set finished"
    and stream: "fresh_stream (stream ip)" "MAX_RECORD_BYTES < wcap (stream ip)"
    and codec: "\<forall>r. ser U r = Some (snd pb) \<longrightarrow> de U (snd pb) = Some r"
    and seal: "\<forall>t. pin_ser S \<lparr>pp_node_id = node_show S node\<rparr> = Some t \<longrightarrow> sealed_at S k (pub_of C k) k (pub_of C k) nonce t"
    and node: "pin_codec_at S \<lparr>pp_node_id = node_show S node\<rparr>" "node_text S node"
    and others: "\<forall>r. \<forall>k' \<in> set ks. de U (snd pb) = Some r \<longrightarrow> decrypt_pin_payload C S k' (ur_e r) \<in> {None, Some node}"
  shows "unicast_lookup C S U (probe_host (side_channel_start pb) stream) finished ip ks
    = Some \<lparr>lf_payload = node, lf_addrs = addrs\<rparr>"
proof -
  obtain port body where pb: "pb = (port, body)" by fastforce
  from adv pb have "length body \<le> MAX_RECORD_BYTES"
    by (auto simp: unicast_advertise_def Let_def split: option.splits if_splits)
  with stream have "probe_host (side_channel_start pb) stream ip p = (if p = port then Some body else None)" for p
    by (simp add: probe_host_def side_channel_start_def pb serve_one_delivers)
  then show ?thesis
    using unicast_found [of C S U bind nonce k node addrs port body ks finished _ ip] assms by (simp add: pb)
qed

lemma dropped_host_silent: "probe_host (side_channel_drop c) stream ip port = None"
  by (simp add: probe_host_def side_channel_drop_def)

end
