(* ===== verification/Clipboard.thy ===== *)
theory Clipboard
  imports Prelude
begin

text \<open>
  The wrapper around the system clipboard (\<open>duocb/src/clipboard.rs\<close>): one handle for the whole process,
  opened by the first use that succeeds. The desktop is a parameter: whether it lets the handle open at
  each use, and the clipboard's content.
\<close>

datatype clipboard_error = OpeningClipboard | ReadingClipboard | WritingClipboard

text \<open>
  \<open>sc_handle\<close> is the handle once opened, \<open>sc_opens\<close> counts the attempts to open one. \<open>dk_text\<close> is the
  text on the clipboard, if it holds text; it is provided by \<open>dk_owner\<close>, and on X11 is gone with it.
\<close>

record system_clipboard =
  sc_handle :: bool
  sc_opens :: nat

record desktop_clipboard =
  dk_opens :: bool
  dk_takes :: bool
  dk_text :: "ustring option"

definition clipboard_new :: system_clipboard where
  "clipboard_new = \<lparr>sc_handle = False, sc_opens = 0\<rparr>"

definition clipboard_get :: "desktop_clipboard \<Rightarrow> system_clipboard \<Rightarrow> (clipboard_error + unit) \<times> system_clipboard" where
  "clipboard_get d c =
     (if sc_handle c then (Inr (), c)
      else if dk_opens d then (Inr (), c\<lparr>sc_handle := True, sc_opens := sc_opens c + 1\<rparr>)
      else (Inl OpeningClipboard, c\<lparr>sc_opens := sc_opens c + 1\<rparr>))"

definition read_text :: "desktop_clipboard \<Rightarrow> system_clipboard \<Rightarrow> (clipboard_error + ustring) \<times> system_clipboard" where
  "read_text d c =
     (case clipboard_get d c of
        (Inl e, c') \<Rightarrow> (Inl e, c')
      | (Inr _, c') \<Rightarrow> (case dk_text d of None \<Rightarrow> Inl ReadingClipboard | Some t \<Rightarrow> Inr t, c'))"

definition write_text ::
    "ustring \<Rightarrow> desktop_clipboard \<Rightarrow> system_clipboard \<Rightarrow> (clipboard_error + unit) \<times> desktop_clipboard \<times> system_clipboard" where
  "write_text t d c =
     (case clipboard_get d c of
        (Inl e, c') \<Rightarrow> (Inl e, d, c')
      | (Inr _, c') \<Rightarrow> if dk_takes d then (Inr (), d\<lparr>dk_text := Some t\<rparr>, c') else (Inl WritingClipboard, d, c'))"

datatype clipboard_use = UseRead | UseWrite ustring

definition use_clipboard :: "desktop_clipboard \<times> clipboard_use \<Rightarrow> system_clipboard \<Rightarrow> system_clipboard" where
  "use_clipboard = (\<lambda>(d, u) c. case u of UseRead \<Rightarrow> snd (read_text d c) | UseWrite t \<Rightarrow> snd (snd (write_text t d c)))"

lemma use_clipboard_get: "use_clipboard (d, u) c = snd (clipboard_get d c)"
  by (auto simp: use_clipboard_def read_text_def write_text_def split: clipboard_use.splits prod.splits sum.splits)

text \<open>Nothing opens before the first use; failures are retried; once open, the same handle serves for ever.\<close>

lemma opened_once:
  "sc_handle (fold use_clipboard us clipboard_new) \<longleftrightarrow> (\<exists>x \<in> set us. dk_opens (fst x))"
  "sc_opens (fold use_clipboard us clipboard_new) =
     length (takeWhile (\<lambda>x. \<not> dk_opens (fst x)) us) + (if \<exists>x \<in> set us. dk_opens (fst x) then 1 else 0)"
proof -
  have open_stays: "fold use_clipboard us c = c" if "sc_handle c" for us c
    using that by (induction us) (auto simp: use_clipboard_get clipboard_get_def)
  have "(sc_handle (fold use_clipboard us c) \<longleftrightarrow> (\<exists>x \<in> set us. dk_opens (fst x)))
    \<and> sc_opens (fold use_clipboard us c) = sc_opens c + length (takeWhile (\<lambda>x. \<not> dk_opens (fst x)) us)
        + (if \<exists>x \<in> set us. dk_opens (fst x) then 1 else 0)" if "\<not> sc_handle c" for us c
    using that
    by (induction us arbitrary: c) (force simp: use_clipboard_get clipboard_get_def open_stays)+
  then show "sc_handle (fold use_clipboard us clipboard_new) \<longleftrightarrow> (\<exists>x \<in> set us. dk_opens (fst x))"
    "sc_opens (fold use_clipboard us clipboard_new) =
     length (takeWhile (\<lambda>x. \<not> dk_opens (fst x)) us) + (if \<exists>x \<in> set us. dk_opens (fst x) then 1 else 0)"
    by (simp_all add: clipboard_new_def)
qed

text \<open>What was written is what is read.\<close>

lemma read_after_write:
  "write_text t d c = (Inr (), d', c') \<Longrightarrow> read_text d' c' = (Inr t, c')"
  by (auto simp: write_text_def read_text_def clipboard_get_def split: prod.splits sum.splits if_splits)

end
