(* ===== verification/Journey.thy ===== *)
theory Journey
  imports Desktop Resolve Pump
begin

text \<open>
  The first session of two devices, end to end: the apps, the host's publisher, the lookup, the two
  halves of the key handshake, the two pumps on the stream the handshake leaves, and the events that
  reach the apps; and what the receiving app shows when a connection breaks and is resumed. Nothing is
  modelled anew here: one connection as each side lives it is put together from the operations of
  \<open>Listener\<close>, \<open>Dialer\<close>, \<open>Resolve\<close> and \<open>Pump\<close>, the way \<open>run_server_session\<close> and
  \<open>run_client_session\<close> call them.
\<close>

section \<open>One connection as each side lives it\<close>

text \<open>The pump of a stream just authenticated, over the texts on the session's clipboard channel.\<close>

definition fresh_pump :: "chan \<Rightarrow> ustring list \<Rightarrow> pump" where
  "fresh_pump c queue = \<lparr>p_chan = c, p_queue = queue, p_pulls = 0, p_last = None, p_events = []\<rparr>"

definition host_connection ::
    "host_env \<Rightarrow> 'z crypto_scheme \<Rightarrow> key_listener \<Rightarrow> node_id \<Rightarrow> node_id \<Rightarrow> pump_action list \<Rightarrow> ustring list
       \<Rightarrow> claim_chan \<Rightarrow> server_state \<Rightarrow> server_state \<times> pump option" where
  "host_connection H C kl remote own schedule queue ch st0 =
     (let st = serve_connection H C (Done ()) kl remote own ch st0
      in case auth_as_listener H C (Done ()) (Some kl) None remote own (ch\<lparr>world := sv_claim st0\<rparr>) of
           (Inl e, _, t) \<Rightarrow> (st, None)
         | (Inr k, _, t) \<Rightarrow>
             (let p = snd (pump_clipboard (he_codecs H) schedule (fresh_pump (chan.truncate t) queue))
              in (st\<lparr>sv_events := sv_events st @ p_events p\<rparr>, Some p)))"

text \<open>The round of the connect loop that a lookup and what follows it make, up to the end of the pump.\<close>

definition dialed_round ::
    "host_env \<Rightarrow> 'z crypto_scheme \<Rightarrow> 's sealing_scheme \<Rightarrow> (hs_error \<Rightarrow> ustring) \<Rightarrow> surroundings \<Rightarrow> key_identity
       \<Rightarrow> pubkey \<Rightarrow> signal_channel \<Rightarrow> node_id \<Rightarrow> pump_action list \<Rightarrow> ustring list \<Rightarrow> chan
       \<Rightarrow> round \<times> pump option" where
  "dialed_round L C S wording W ident peer channel own schedule queue ch =
     (case resolve_hosting C S W ident peer channel of
        Inl e \<Rightarrow> (\<lparr>rd_lookup = LookupFailed, rd_sleep_cancelled = False\<rparr>, None)
      | Inr target \<Rightarrow>
          (case auth_as_dialer_key L C wording (Done ()) None (ki_identity ident) peer own (ea_id target) ch of
             (Inl m, _) \<Rightarrow> (\<lparr>rd_lookup = LookupFound (ea_id target) (ConnectRefused m), rd_sleep_cancelled = False\<rparr>, None)
           | (Inr _, t) \<Rightarrow>
               (let p = snd (pump_clipboard (he_codecs L) schedule (fresh_pump t queue))
                in (\<lparr>rd_lookup = LookupFound (ea_id target) (ConnectServed (ea_id target) (p_events p) True),
                     rd_sleep_cancelled = False\<rparr>, Some p))))"

section \<open>The host is found\<close>

lemma found_target:
  assumes "dnssd_advertise_hosting C S nonce acc host (identity_public C (ki_identity ident))
      (rendezvous_addr S node) addrs = Inr ad"
    and "one_port_each p4 p6 addrs" and "delivers ad r"
    and "\<forall>e \<in> set pre. \<not> carries_label HOSTING_SERVICE_TYPE (ad_instance ad) e"
    and "\<forall>t. hosting_text S (rendezvous_addr S node) = Some t \<longrightarrow> sealed_at S (secret host)
      (identity_public C (ki_identity ident)) (secret (ki_identity ident)) (identity_public C host) nonce t"
    and "hosting_codec_at S \<lparr>hp_version = HOSTING_VERSION, hp_transport = IROH_KIND, hp_address = node_show S node\<rparr>"
    and "node_text S node" and "ch_lan channel" and "su_arrivals W = Some (pre @ ServiceResolved r # post)"
  shows "\<exists>target. resolve_hosting C S W ident (identity_public C host) channel = Inr target
     \<and> ea_id target = node \<and> set (ea_addrs target) = set addrs"
proof -
  from hosting_found [OF assms(1-5), of post] assms(6) obtain f where
    f: "dnssd_lookup_hosting C S (su_arrivals W) (ki_identity ident) (identity_public C host) = Inr (Some f)"
      "lf_payload f = rendezvous_addr S node" "set (lf_addrs f) = set addrs"
    using assms(9) by (auto simp: rendezvous_addr_def)
  then have "hosting_endpoint_addr S f = Some (dial_target node (lf_addrs f))"
    using endpoint_id_rendezvous [OF assms(7)] by (simp add: hosting_endpoint_addr_def)
  with f assms(8) show ?thesis by (simp add: resolve_hosting_def dial_target_eq)
qed

section \<open>Both halves authenticate\<close>

lemma key_dialer_accepted:
  assumes laws: "session_laws (he_codecs L) C di li (he_nonce L) sn (he_show L own) (he_show L remote)"
    and ch: "\<not> fin s" "40000 \<le> wcap s"
      "rx s = welcome_frames (he_codecs L) C li (identity_public C di) (he_nonce L) sn (he_show L own) (he_show L remote) @ q"
  shows "\<exists>t. auth_as_dialer_key L C wording (Done ()) close di (identity_public C li) own remote s = (Inr (), t)
     \<and> tx t = tx s @ hello_frames (he_codecs L) C di (identity_public C li) (he_nonce L) sn (he_show L own) (he_show L remote)
     \<and> rx t = q \<and> \<not> fin t \<and> wcap s - 40000 \<le> wcap t"
  using dialer_completes [OF laws ch] by (auto simp: auth_as_dialer_key_def bindp_def)

lemma key_listener_accepts:
  assumes laws: "session_laws (he_codecs H) C di li cn (he_nonce H) (he_show H remote) (he_show H own)"
    and kl: "ki_identity (kl_identity kl) = li" "kl_peer kl = identity_public C di"
      "live_at (kl_identity kl) (identity_public C di) (he_now H)"
    and ch: "\<not> fin s" "40000 \<le> wcap s" "pc_peer (world s) = None"
      "rx s = hello_frames (he_codecs H) C di (identity_public C li) cn (he_nonce H) (he_show H remote) (he_show H own) @ q"
  shows "\<exists>t. auth_as_listener H C (Done ()) (Some kl) None remote own s = (Inr (Some (identity_public C di)), None, t)
     \<and> tx t = tx s @ welcome_frames (he_codecs H) C li (identity_public C di) cn (he_nonce H) (he_show H remote) (he_show H own)
     \<and> rx t = q \<and> \<not> fin t \<and> wcap s - 40000 \<le> wcap t"
proof -
  let ?J = "he_codecs H" and ?d = "he_show H remote" and ?l = "he_show H own" and ?dk = "identity_public C di"
  let ?q = "frame_of (areq_codec ?J) (request_msg C di cn)"
  let ?p = "frame_of (kproof_codec ?J) (proof_msg C di (identity_public C li) cn (he_nonce H) ?d ?l)"
  let ?s = "s\<lparr>rx := ?p @ q\<rparr>"
  let ?admit = "\<lambda>client_key claim. key_admit (he_now H) kl None client_key"
  let ?commit = "\<lambda>client_key claim. commit_key client_key remote claim"
  note L = session_facts [OF laws]
  have rd: "read_length_prefixed MAX_CONTROL_MESSAGE_SIZE s = (Done ?q, ?s)"
    by (rule read_frame [OF L(1)]) (use ch(4) in \<open>simp_all add: hello_frames_def const_simps\<close>)
  have dec: "decode_auth_request ?J ?q = Inr (Key DUOCB_PROTO_VERSION (key_hex C ?dk) cn)"
    using control_codec(5) [OF L(1)] by (simp add: request_msg_def auth_request_key_def)
  have admit: "key_admit (he_now H) kl None ?dk = Inr ()"
    using kl by (auto simp: key_admit_ok live_at_def split: option.splits)
  obtain w where w: "commit_key ?dk remote (world s) = (True, w)"
    using ch(3) by (simp add: commit_key_def)
  from listener_completes [OF laws, of ?s q ?admit ?commit w] ch admit w obtain t where
    "listener_handshake ?J C li (key_hex C ?dk) cn ?d ?l (he_nonce H) ?admit ?commit ?s = (Done ?dk, t)"
    "tx t = tx s @ welcome_frames ?J C li ?dk cn (he_nonce H) ?d ?l" "rx t = q" "\<not> fin t" "wcap s - 40000 \<le> wcap t"
    by auto
  with rd dec kl(1) ch(3) show ?thesis
    by (auto simp: auth_as_listener_def Let_def bindp_def map_err_def listener_body_def lift_sum_def ret_def)
qed

section \<open>The pumps\<close>

definition clip_laws :: "codecs \<Rightarrow> (ustring \<times> u64) list \<Rightarrow> bool" where
  "clip_laws J sends \<longleftrightarrow> list_all (clip_ok J) (clip_pull_latest # map item_of sends)"

lemma pump_steps_append: "pump_steps J (xs @ ys) p = bindp (pump_steps J xs) (\<lambda>_. pump_steps J ys) p"
  by (induction xs arbitrary: p) (auto simp: bindp_def ret_def split: prod.splits outcome.splits)

lemma pump_on:
  "pump_clipboard J xs p = (Done (), q) \<Longrightarrow> pump_clipboard J (xs @ ys) p = pump_steps J ys q"
  by (auto simp: pump_clipboard_def pump_steps_append bindp_def split: prod.splits outcome.splits)

lemma opening_pull:
  assumes "clip_ok J clip_pull_latest" and "\<not> fin c" and "length (clip_frame J clip_pull_latest) \<le> wcap c"
  shows "writer_start J (fresh_pump c q) = (Done (), wrote (clip_frame J clip_pull_latest) (fresh_pump c q))"
  using assms by (simp add: writer_start_def clip_codec_ok on_write room_def fresh_pump_def)

text \<open>The end that sends: its pull and the texts; then, if the stream lasts, the other end's pull is read.\<close>

lemma sender_run:
  assumes "clip_laws J sends" and "\<not> fin c" and "length (clip_frames J (clip_pull_latest # map item_of sends)) \<le> wcap c"
  shows "pump_clipboard J (map (SendNext \<circ> snd) sends) (fresh_pump c (map fst sends))
    = (Done (), sent_all J sends [] (wrote (clip_frame J clip_pull_latest) (fresh_pump c (map fst sends))))"
proof -
  let ?p = "fresh_pump c (map fst sends)" and ?f = "clip_frame J clip_pull_latest"
  from assms(1) have ok: "clip_ok J clip_pull_latest" "list_all (\<lambda>s. clip_ok J (item_of s)) sends"
    by (simp_all add: clip_laws_def list_all_iff)
  have "pump_steps J (map (SendNext \<circ> snd) sends) (wrote ?f ?p) = (Done (), sent_all J sends [] (wrote ?f ?p))"
    using assms(2,3) ok(2) by (intro send_all) (auto simp: wrote_def room_def fresh_pump_def)
  then show ?thesis
    using opening_pull [OF ok(1) assms(2)] assms(3) by (simp add: pump_clipboard_def bindp_def)
qed

lemma sender_pump:
  assumes "clip_laws J sends" and "\<not> fin c" and "length (clip_frames J (clip_pull_latest # map item_of sends)) \<le> wcap c"
    and "rx c = clip_frame J clip_pull_latest"
  shows "\<exists>p. pump_clipboard J (map (SendNext \<circ> snd) sends @ [ReadNext]) (fresh_pump c (map fst sends)) = (Done (), p)
     \<and> tx (p_chan p) = tx c @ clip_frames J (clip_pull_latest # map item_of sends)
     \<and> p_events p = replicate (length sends) ItemSent \<and> p_queue p = []"
proof -
  let ?s = "sent_all J sends [] (wrote (clip_frame J clip_pull_latest) (fresh_pump c (map fst sends)))"
  have ok: "clip_ok J clip_pull_latest" using assms(1) by (simp add: clip_laws_def)
  have "?s = with_rx (clip_frame J clip_pull_latest @ []) ?s" using assms(4)
    by (simp add: sent_all_def wrote_def with_rx_def fresh_pump_def)
  then have "reader_step J ?s = (Done (), with_rx [] (deliver clip_pull_latest ?s))"
    using reader_step_ok [OF ok, of "[]" ?s] by simp
  then have "pump_clipboard J (map (SendNext \<circ> snd) sends @ [ReadNext]) (fresh_pump c (map fst sends))
      = (Done (), with_rx [] (deliver clip_pull_latest ?s))"
    using sender_run [OF assms(1-3)] by (simp add: pump_on bindp_def ret_def)
  then show ?thesis by (simp add: deliver_def sent_all_def wrote_def with_rx_def fresh_pump_def)
qed

text \<open>The end that receives: the other end's pull and as many of the texts as the stream brings.\<close>

lemma receiver_pump:
  assumes "clip_laws J sends" and "\<not> fin c" and "length (clip_frame J clip_pull_latest) \<le> wcap c" and "k \<le> length sends"
    and "rx c = clip_frames J (clip_pull_latest # map item_of sends)"
  shows "\<exists>p. pump_clipboard J (replicate (1 + k) ReadNext) (fresh_pump c []) = (Done (), p)
     \<and> tx (p_chan p) = tx c @ clip_frame J clip_pull_latest
     \<and> p_events p = map (\<lambda>s. ItemReceived (fst s) False) (take k sends) \<and> p_last p = None"
proof -
  let ?f = "clip_frame J clip_pull_latest" and ?ms = "clip_pull_latest # map item_of (take k sends)"
  let ?rest = "clip_frames J (map item_of (drop k sends))" and ?w = "wrote ?f (fresh_pump c [])"
  from assms(1) have ok: "clip_ok J clip_pull_latest" "list_all (clip_ok J) ?ms"
    by (auto simp: clip_laws_def list_all_iff dest: in_set_takeD)
  have "map item_of sends = map item_of (take k sends) @ map item_of (drop k sends)"
    by (metis append_take_drop_id map_append)
  then have "?w = with_rx (clip_frames J ?ms @ ?rest) ?w" using assms(5)
    by (simp add: wrote_def with_rx_def fresh_pump_def)
  then have "pump_steps J (replicate (1 + k) ReadNext) ?w = (Done (), with_rx ?rest (fold deliver ?ms ?w))"
    using read_all [OF ok(2), of ?rest ?w] assms(4) by (simp add: min_absorb2)
  then have "pump_clipboard J (replicate (1 + k) ReadNext) (fresh_pump c []) = (Done (), with_rx ?rest (fold deliver ?ms ?w))"
    using opening_pull [OF ok(1) assms(2,3)] by (simp add: pump_clipboard_def bindp_def)
  then show ?thesis
    by (simp add: fold_items) (simp add: deliver_def wrote_def with_rx_def fresh_pump_def)
qed

section \<open>What reaches the apps\<close>

interpretation inbox: newest_cache "\<lambda>i. \<lambda>is. take MAX_INBOX_ITEMS (i # is)" MAX_INBOX_ITEMS
  by unfold_locales simp

lemma fresh_items_shown:
  "let a' = fold (apply_event D w) (map (\<lambda>s. ItemReceived (fst s) False) sends) a in
     ap_inbox a' = fold (\<lambda>i is. take MAX_INBOX_ITEMS (i # is)) (map (\<lambda>s. item_new (dp_crc D) (at_unix w) (fst s)) sends) (ap_inbox a)
     \<and> ap_status a' = ap_status a \<and> ap_peer_node a' = ap_peer_node a"
  by (induction sends arbitrary: a) (simp_all add: apply_event_def Let_def)

lemma sent_items_flash:
  "let a' = fold (apply_event D w) (replicate n ItemSent) a in ap_status a' = ap_status a \<and> ap_peer_node a' = ap_peer_node a"
  by (induction n arbitrary: a) (simp_all add: apply_event_def Let_def split: option.split)

section \<open>The first session\<close>

text \<open>
  What the two devices have in common: one wire format, one printed form of node ids, the laws of the
  handshake between these two identities and of the clipboard frames that are sent, and those of the
  record the host seals for the dialer.
\<close>

definition journey_laws ::
    "host_env \<Rightarrow> host_env \<Rightarrow> 'z crypto_scheme \<Rightarrow> 's sealing_scheme \<Rightarrow> identity \<Rightarrow> identity \<Rightarrow> node_id \<Rightarrow> node_id
       \<Rightarrow> (ustring \<times> u64) list \<Rightarrow> bool" where
  "journey_laws H L C S hi di nh nd sends \<longleftrightarrow>
     he_codecs H = he_codecs L \<and> he_show H = he_show L \<and> nd \<noteq> nh
     \<and> session_laws (he_codecs L) C di hi (he_nonce L) (he_nonce H) (he_show L nd) (he_show L nh)
     \<and> clip_laws (he_codecs L) sends
     \<and> node_text S nh
     \<and> hosting_codec_at S \<lparr>hp_version = HOSTING_VERSION, hp_transport = IROH_KIND, hp_address = node_show S nh\<rparr>
     \<and> (\<forall>nonce t. hosting_text S (rendezvous_addr S nh) = Some t \<longrightarrow>
          sealed_at S (secret hi) (identity_public C di) (secret di) (identity_public C hi) nonce t)"

text \<open>The advertisement is among what the browse hears, after other services only.\<close>

definition hears :: "surroundings \<Rightarrow> advert \<Rightarrow> bool" where
  "hears W ad \<longleftrightarrow> (\<exists>pre r post. su_arrivals W = Some (pre @ ServiceResolved r # post) \<and> delivers ad r
     \<and> (\<forall>e \<in> set pre. \<not> carries_label HOSTING_SERVICE_TYPE (ad_instance ad) e))"

text \<open>A connection just made, with room for the handshake and the frames of a list of texts.\<close>

definition roomy :: "codecs \<Rightarrow> (ustring \<times> u64) list \<Rightarrow> 'y chan_scheme \<Rightarrow> bool" where
  "roomy J sends c \<longleftrightarrow> \<not> fin c \<and> tx c = []
     \<and> 40000 + length (clip_frames J (clip_pull_latest # map item_of sends)) \<le> wcap c"

definition to_host :: "host_env \<Rightarrow> host_env \<Rightarrow> 'z crypto_scheme \<Rightarrow> identity \<Rightarrow> identity \<Rightarrow> node_id \<Rightarrow> node_id
    \<Rightarrow> (ustring \<times> u64) list \<Rightarrow> bytes" where
  "to_host H L C hi di nh nd sends =
     hello_frames (he_codecs L) C di (identity_public C hi) (he_nonce L) (he_nonce H) (he_show L nd) (he_show L nh)
     @ clip_frames (he_codecs L) (clip_pull_latest # map item_of sends)"

definition to_dialer :: "host_env \<Rightarrow> host_env \<Rightarrow> 'z crypto_scheme \<Rightarrow> identity \<Rightarrow> identity \<Rightarrow> node_id \<Rightarrow> node_id \<Rightarrow> bytes" where
  "to_dialer H L C hi di nh nd =
     welcome_frames (he_codecs L) C hi (identity_public C di) (he_nonce L) (he_nonce H) (he_show L nd) (he_show L nh)
     @ clip_frame (he_codecs L) clip_pull_latest"

lemma host_findable:
  assumes advert: "pb_advert (run_hosting_publisher C S host (identity_public C (ki_identity ident)) channel nh (rounds @ [r])) = Some ad"
    and "ch_lan channel" "one_port_each p4 p6 (pr_addrs r)" "hears W ad"
    and laws: "journey_laws H L C S (ki_identity host) (ki_identity ident) nh nd sends" and "ch_lan channel'"
  shows "\<exists>target. resolve_hosting C S W ident (identity_public C (ki_identity host)) channel' = Inr target
     \<and> ea_id target = nh \<and> set (ea_addrs target) = set (pr_addrs r)"
proof -
  from publisher_holds [OF advert] assms(2) obtain nonce acc where
    adv: "dnssd_advertise_hosting C S nonce acc (ki_identity host) (identity_public C (ki_identity ident)) (rendezvous_addr S nh)
       (sort_key sa_ord (pr_addrs r)) = Inr ad" by blast
  from assms(4) obtain pre res post where h: "su_arrivals W = Some (pre @ ServiceResolved res # post)" "delivers ad res"
    "\<forall>e \<in> set pre. \<not> carries_label HOSTING_SERVICE_TYPE (ad_instance ad) e" by (auto simp: hears_def)
  have ports: "one_port_each p4 p6 (sort_key sa_ord (pr_addrs r))" using assms(3) by (simp add: one_port_each_def)
  show ?thesis
    using found_target [OF adv ports h(2,3) _ _ _ assms(6) h(1)] laws by (auto simp: journey_laws_def)
qed

lemma dialer_end:
  assumes laws: "journey_laws H L C S hi (ki_identity ident) nh nd sends"
    and target: "resolve_hosting C S W ident (identity_public C hi) channel = Inr target" "ea_id target = nh"
    and ch: "roomy (he_codecs L) sends ch"
  shows "\<exists>p. dialed_round L C S wording W ident (identity_public C hi) channel nd (map (SendNext \<circ> snd) sends @ [ReadNext])
       (map fst sends) (ch\<lparr>rx := to_dialer H L C hi (ki_identity ident) nh nd\<rparr>)
     = (\<lparr>rd_lookup = LookupFound nh (ConnectServed nh (replicate (length sends) ItemSent) True), rd_sleep_cancelled = False\<rparr>, Some p)
     \<and> tx (p_chan p) = to_host H L C hi (ki_identity ident) nh nd sends \<and> p_queue p = []"
proof -
  let ?ch = "ch\<lparr>rx := to_dialer H L C hi (ki_identity ident) nh nd\<rparr>"
  from laws have s: "session_laws (he_codecs L) C (ki_identity ident) hi (he_nonce L) (he_nonce H) (he_show L nd) (he_show L nh)"
    and c: "clip_laws (he_codecs L) sends" by (simp_all add: journey_laws_def)
  obtain t where t: "auth_as_dialer_key L C wording (Done ()) None (ki_identity ident) (identity_public C hi) nd nh ?ch = (Inr (), t)"
    "tx t = hello_frames (he_codecs L) C (ki_identity ident) (identity_public C hi) (he_nonce L) (he_nonce H) (he_show L nd) (he_show L nh)"
    "rx t = clip_frame (he_codecs L) clip_pull_latest" "\<not> fin t" "wcap ?ch - 40000 \<le> wcap t"
    using key_dialer_accepted [OF s, where s = ?ch and q = "clip_frame (he_codecs L) clip_pull_latest"
        and wording = wording and close = None] ch
    by (auto simp: roomy_def to_dialer_def)
  have "length (clip_frames (he_codecs L) (clip_pull_latest # map item_of sends)) \<le> wcap t"
    using ch t(5) by (auto simp: roomy_def)
  from sender_pump [OF c t(4) this t(3)] obtain p where
    "pump_clipboard (he_codecs L) (map (SendNext \<circ> snd) sends @ [ReadNext]) (fresh_pump t (map fst sends)) = (Done (), p)"
    "tx (p_chan p) = tx t @ clip_frames (he_codecs L) (clip_pull_latest # map item_of sends)"
    "p_events p = replicate (length sends) ItemSent" "p_queue p = []" by blast
  with t(1,2) target show ?thesis by (simp add: dialed_round_def to_host_def Let_def)
qed

text \<open>The host's state once the texts have arrived.\<close>

definition served_state :: "host_env \<Rightarrow> key_listener \<Rightarrow> node_id \<Rightarrow> (ustring \<times> u64) list \<Rightarrow> server_state \<Rightarrow> server_state \<Rightarrow> bool" where
  "served_state H kl nd sends st0 st \<longleftrightarrow> sv_phase st = Serving nd
     \<and> sv_events st = sv_events st0 @ [Status Authenticating, PeerPaired nd (Some (kl_peer kl)), Status Connected]
         @ map (\<lambda>s. ItemReceived (fst s) False) sends"

lemma pumped_on:
  assumes "srv_reachable C kl own s0 s" "sv_phase s = Serving n" "list_all pump_event es"
  shows "srv_reachable C kl own s0 (s\<lparr>sv_events := sv_events s @ es\<rparr>)"
  using assms
proof (induction es arbitrary: s)
  case (Cons e es)
  have "srv_reachable C kl own s0 (s\<lparr>sv_events := sv_events s @ [e]\<rparr>)"
    using Cons.prems by (intro srv_reachable.step [OF Cons.prems(1)] srv_step.Pumped) auto
  from Cons.IH [OF this] Cons.prems show ?case by simp
qed simp

lemma host_end:
  assumes laws: "journey_laws H L C S (ki_identity (kl_identity kl)) di nh nd sends"
    and kl: "kl_peer kl = identity_public C di" "live_at (kl_identity kl) (identity_public C di) (he_now H)"
    and ch: "roomy (he_codecs L) sends ch" and claim: "pc_peer (sv_claim st0) = None"
  shows "\<exists>st p. host_connection H C kl nd nh (replicate (1 + length sends) ReadNext) []
       (ch\<lparr>rx := to_host H L C (ki_identity (kl_identity kl)) di nh nd sends\<rparr>) st0 = (st, Some p)
     \<and> tx (p_chan p) = to_dialer H L C (ki_identity (kl_identity kl)) di nh nd
     \<and> served_state H kl nd sends st0 st
     \<and> (sv_phase st0 = Accepting \<longrightarrow> srv_reachable C kl nh st0 st)"
proof -
  let ?hi = "ki_identity (kl_identity kl)"
  let ?ch = "ch\<lparr>rx := to_host H L C ?hi di nh nd sends\<rparr>"
  let ?s = "?ch\<lparr>world := sv_claim st0\<rparr>"
  let ?q = "clip_frames (he_codecs L) (clip_pull_latest # map item_of sends)"
  from laws have J: "he_codecs H = he_codecs L" "he_show H = he_show L"
    and s: "session_laws (he_codecs H) C di ?hi (he_nonce L) (he_nonce H) (he_show H nd) (he_show H nh)"
    and c: "clip_laws (he_codecs L) sends" by (simp_all add: journey_laws_def)
  obtain t where t: "auth_as_listener H C (Done ()) (Some kl) None nd nh ?s = (Inr (Some (identity_public C di)), None, t)"
    "tx t = welcome_frames (he_codecs L) C ?hi (identity_public C di) (he_nonce L) (he_nonce H) (he_show L nd) (he_show L nh)"
    "rx t = ?q" "\<not> fin t" "wcap ?s - 40000 \<le> wcap t"
    using key_listener_accepts [OF s refl kl, where s = ?s and q = ?q] ch claim
    by (auto simp: roomy_def to_host_def J)
  define st where "st = serve_connection H C (Done ()) kl nd nh ?ch st0"
  have st: "sv_phase st = Serving nd"
    "sv_events st = sv_events st0 @ [Status Authenticating, PeerPaired nd (Some (kl_peer kl)), Status Connected]"
    using t(1) kl(1) by (simp_all add: st_def serve_connection_def)
  let ?c = "chan.truncate t"
  have c': "\<not> fin ?c" "length (clip_frame (he_codecs L) clip_pull_latest) \<le> wcap ?c" "rx ?c = ?q" "tx ?c = tx t"
    using t(3-5) ch by (auto simp: chan.truncate_def roomy_def)
  from receiver_pump [OF c c'(1,2) order_refl c'(3)] obtain p where
    p: "pump_clipboard (he_codecs L) (replicate (1 + length sends) ReadNext) (fresh_pump ?c []) = (Done (), p)"
      "tx (p_chan p) = tx ?c @ clip_frame (he_codecs L) clip_pull_latest"
      "p_events p = map (\<lambda>s. ItemReceived (fst s) False) sends" by auto
  define fin_st where "fin_st = st\<lparr>sv_events := sv_events st @ p_events p\<rparr>"
  have "host_connection H C kl nd nh (replicate (1 + length sends) ReadNext) [] ?ch st0 = (fin_st, Some p)"
    using t(1) p(1) by (simp add: host_connection_def Let_def J fin_st_def st_def del: replicate_Suc)
  moreover have "served_state H kl nd sends st0 fin_st"
    using st p(3) by (simp add: served_state_def fin_st_def)
  moreover have "srv_reachable C kl nh st0 fin_st" if "sv_phase st0 = Accepting"
  proof -
    have "srv_reachable C kl nh st0 st"
      unfolding st_def by (rule srv_reachable.step [OF srv_reachable.start], rule srv_step.Accepted)
        (use that claim in \<open>simp_all add: serveable_def\<close>)
    then show ?thesis
      unfolding fin_st_def by (rule pumped_on) (use st p(3) in \<open>auto simp: pump_event_def list_all_iff\<close>)
  qed
  ultimately show ?thesis using p(2) c'(4) t(2) by (auto simp: to_dialer_def)
qed

lemma host_session:
  fixes npub :: ustring
  assumes "journey_laws H L C S (ki_identity i) di nh nd sends" and "live_at i (identity_public C di) (he_now H)"
    and "roomy (he_codecs L) sends ch"
  defines "kl \<equiv> \<lparr>kl_identity = i, kl_peer = identity_public C di\<rparr>" and "s \<equiv> server_start True nh npub claim_default"
  shows "\<exists>st p. host_connection H C kl nd nh (replicate (1 + length sends) ReadNext) []
       (ch\<lparr>rx := to_host H L C (ki_identity i) di nh nd sends\<rparr>) s = (st, Some p)
     \<and> tx (p_chan p) = to_dialer H L C (ki_identity i) di nh nd \<and> served_state H kl nd sends s st \<and> srv_reachable C kl nh s st"
proof -
  have "pc_peer (sv_claim s) = None" "sv_phase s = Accepting" by (simp_all add: s_def server_start_def claim_default_def)
  with host_end [where kl = kl and di = di and C = C and H = H and S = S and nh = nh and nd = nd, OF _ _ _ assms(3) this(1)] assms(1,2) show ?thesis
    by (simp add: kl_def del: replicate_Suc)
qed

section \<open>The two apps\<close>

lemma fresh_texts_shown:
  assumes "length (ap_inbox a) \<le> MAX_INBOX_ITEMS"
  shows "map it_text (ap_inbox (fold (apply_event D w) (map (\<lambda>s. ItemReceived (fst s) False) sends) a))
    = take MAX_INBOX_ITEMS (rev (map fst sends) @ map it_text (ap_inbox a))"
proof -
  let ?items = "map (\<lambda>s. item_new (dp_crc D) (at_unix w) (fst s)) sends"
  from inbox.fold_push [OF assms, of ?items] show ?thesis
    using fresh_items_shown [of D w sends a]
    by (simp add: Let_def rev_map take_map [symmetric] comp_def item_new_def)
qed

lemma host_shows:
  assumes "app_wf D a" and "st0 = server_start True nh npub claim" and "served_state H kl nd sends st0 st"
  shows "let a' = fold (apply_event D w) (sv_events st) a in
     ap_status a' = Connected \<and> ap_peer_node a' = Some nd
     \<and> map it_text (ap_inbox a') = take MAX_INBOX_ITEMS (rev (map fst sends) @ map it_text (ap_inbox a))"
proof -
  let ?start = "[Status Starting, ServerReady nh (Some npub), Status Waiting, Status Authenticating,
     PeerPaired nd (Some (kl_peer kl)), Status Connected]"
  let ?b = "fold (apply_event D w) ?start a"
  have b: "ap_inbox ?b = ap_inbox a" "ap_status ?b = Connected" "ap_peer_node ?b = Some nd"
    by (simp_all add: apply_event_def)
  have "length (ap_inbox ?b) \<le> MAX_INBOX_ITEMS" using assms(1) b(1) by (simp add: app_wf_def)
  moreover have "sv_events st = ?start @ map (\<lambda>s. ItemReceived (fst s) False) sends"
    using assms(2,3) by (simp add: served_state_def server_start_def)
  then have f: "fold (apply_event D w) (sv_events st) a
      = fold (apply_event D w) (map (\<lambda>s. ItemReceived (fst s) False) sends) ?b" by (simp only: fold_append comp_def)
  ultimately show ?thesis
    using fresh_items_shown [of D w sends ?b] fresh_texts_shown [of ?b D w sends] b by (simp add: f Let_def del: fold.simps)
qed

lemma dialer_shows:
  assumes "r = \<lparr>rd_lookup = LookupFound nh (ConnectServed nh (replicate n ItemSent) True), rd_sleep_cancelled = False\<rparr>"
    and "live_at ident peer now" and "nh \<noteq> nd"
  shows "let b' = fold (apply_event E v) (cl_events (run_client_session C now True nd ident peer [r])) b in
     ap_status b' = Connected \<and> ap_peer_node b' = Some nh"
proof -
  let ?start = "[Status Starting, ClientReady nd (Some (to_npub C (ki_identity ident))), Status Waiting, Status Connecting,
     Status Authenticating, PeerPaired nh (Some peer), Status Connected]"
  have "cl_events (run_client_session C now True nd ident peer [r]) = ?start @ replicate n ItemSent"
    using assms by (auto simp: run_client_session_def live_at_def client_round_def client_defs split: option.splits)
  then have f: "fold (apply_event E v) (cl_events (run_client_session C now True nd ident peer [r])) b
      = fold (apply_event E v) (replicate n ItemSent) (fold (apply_event E v) ?start b)"
    by (simp only: fold_append comp_def)
  have "ap_status (fold (apply_event E v) ?start b) = Connected" "ap_peer_node (fold (apply_event E v) ?start b) = Some nh"
    by (simp_all add: apply_event_def)
  then show ?thesis
    using sent_items_flash [of E v n "fold (apply_event E v) ?start b"] by (simp add: f Let_def del: fold.simps)
qed

lemma queued_texts:
  "rt_session s = Some x \<Longrightarrow> \<not> s_ended x \<Longrightarrow>
   rt_session (fold (net_command C) (map SendClipboard texts) s) = Some (x\<lparr>s_queue := s_queue x @ texts\<rparr>)"
  by (induction texts arbitrary: s x) (simp_all add: net_command_def)

lemma started_queue:
  "\<exists>x. rt_session (fold (net_command C) (Connect spec # map SendClipboard texts) rt) = Some x
     \<and> s_kind x = Client spec \<and> s_queue x = texts"
  using queued_texts [of "net_command C (Connect spec) rt" "start_session (Client spec)" C texts]
  by (simp add: net_command_def begin_session_def Let_def start_session_def)

lemma host_command:
  assumes "selected_peer_card D a = Some cb" "\<not> card_is_expired (at_unix w) cb" "app_key_identity a = Some ia"
    and "to_bytes (own_key D a) \<le> to_bytes (card_public_key cb)"
  shows "ap_net (connect_selected_peer D w a) = ap_net a @ [StartServer (ServeKey ia (card_public_key cb) (ap_channel a))]"
  using connect_selected [OF assms(1) _ assms(2)] assms(3,4)
  by (auto simp: app_key_identity_def session_role_def Let_def)

lemma dialer_command:
  assumes "selected_peer_card E b = Some ca" "\<not> card_is_expired (at_unix v) ca" "app_key_identity b = Some ib"
    and "\<not> to_bytes (own_key E b) \<le> to_bytes (card_public_key ca)"
  shows "ap_net (connect_selected_peer E v b) = ap_net b @ [Connect (DialKey ib (card_public_key ca) (ap_channel b))]"
  using connect_selected [OF assms(1) _ assms(2)] assms(3,4)
  by (auto simp: app_key_identity_def session_role_def Let_def)

lemma identity_of_app: "app_key_identity a = Some i \<Longrightarrow> ki_identity i = ap_identity a"
  by (auto simp: app_key_identity_def)

text \<open>
  Property C1. Two devices on one network that select each other meet, and what one copies appears at the
  other. From connecting in both apps, with cards that are in their window, a host whose publisher holds
  an advertisement the dialer's browse hears, and a connection with room: each app sends its runtime
  exactly one command, the two halves of one session; the dialer's runtime keeps the texts the user sends
  meanwhile; the lookup returns the host's node and addresses; on streams where each side reads exactly
  what the other has written, both halves of the handshake accept and the pumps run; the host is then
  serving that dialer in a reachable state; and when the events have been applied both apps show
  the connection, and the texts are in the host's inbox, newest first, before what was there.
\<close>

theorem first_session:
  assumes apps: "app_wf D a" "dp_crypto E = dp_crypto D" "to_bytes (own_key D a) < to_bytes (own_key E b)"
    and "selected_peer_card D a = Some cb" "card_public_key cb = own_key E b" "\<not> card_is_expired (at_unix w) cb"
    and "selected_peer_card E b = Some ca" "card_public_key ca = own_key D a" "\<not> card_is_expired (at_unix v) ca"
    and ids: "app_key_identity a = Some ia" "app_key_identity b = Some ib"
    and lan: "ch_lan (ap_channel a)" "ch_lan (ap_channel b)"
    and valid: "live_at ia (own_key E b) (he_now H)" "live_at ib (own_key D a) now"
    and laws: "journey_laws H L (dp_crypto D) S (ap_identity a) (ap_identity b) nh nd sends"
    and advert: "pb_advert (run_hosting_publisher (dp_crypto D) S ia (own_key E b) (ap_channel a) nh (rounds @ [r])) = Some ad"
      "one_port_each p4 p6 (pr_addrs r)" "hears W ad"
    and ends: "roomy (he_codecs L) sends cd" "roomy (he_codecs L) sends ch"
  shows "let C = dp_crypto D; ka = own_key D a; kb = own_key E b;
       a1 = connect_selected_peer D w a; b1 = connect_selected_peer E v b;
       serve = ServeKey ia kb (ap_channel a); dial = DialKey ib ka (ap_channel b);
       kl = \<lparr>kl_identity = ia, kl_peer = kb\<rparr>; st0 = server_start True nh npub claim_default in
     ap_net a1 = ap_net a @ [StartServer serve] \<and> ap_net b1 = ap_net b @ [Connect dial]
     \<and> (\<exists>x target pd ph rnd st.
          rt_session (fold (net_command C) (Connect dial # map SendClipboard (map fst sends)) rt) = Some x \<and> s_queue x = map fst sends
          \<and> resolve_hosting C S W ib ka (ap_channel b) = Inr target \<and> ea_id target = nh \<and> set (ea_addrs target) = set (pr_addrs r)
          \<and> dialed_round L C S wording W ib ka (ap_channel b) nd (map (SendNext \<circ> snd) sends @ [ReadNext]) (s_queue x)
              (cd\<lparr>rx := tx (p_chan ph)\<rparr>) = (rnd, Some pd)
          \<and> host_connection H C kl nd nh (replicate (1 + length sends) ReadNext) [] (ch\<lparr>rx := tx (p_chan pd)\<rparr>) st0 = (st, Some ph)
          \<and> srv_reachable C kl nh st0 st \<and> sv_phase st = Serving nd
          \<and> (let a2 = fold (apply_event D w) (sv_events st) a1 in
              ap_status a2 = Connected \<and> ap_peer_node a2 = Some nd
              \<and> map it_text (ap_inbox a2) = take MAX_INBOX_ITEMS (rev (map fst sends) @ map it_text (ap_inbox a1)))
          \<and> (let b2 = fold (apply_event E v) (cl_events (run_client_session C now True nd ib ka [rnd])) b1 in
              ap_status b2 = Connected \<and> ap_peer_node b2 = Some nh))"
proof -
  let ?C = "dp_crypto D" and ?ka = "own_key D a" and ?kb = "own_key E b"
  let ?a1 = "connect_selected_peer D w a" and ?st0 = "server_start True nh npub claim_default"
  let ?kl = "\<lparr>kl_identity = ia, kl_peer = ?kb\<rparr>"
  have i: "ki_identity ia = ap_identity a" "ki_identity ib = ap_identity b" using ids by (simp_all add: identity_of_app)
  have k: "identity_public ?C (ap_identity a) = ?ka" "identity_public ?C (ap_identity b) = ?kb"
    using apps(2) by (simp_all add: own_key_def)
  have cmd: "ap_net ?a1 = ap_net a @ [StartServer (ServeKey ia ?kb (ap_channel a))]"
    "ap_net (connect_selected_peer E v b) = ap_net b @ [Connect (DialKey ib ?ka (ap_channel b))]"
    using host_command [OF assms(4,6) ids(1)] dialer_command [OF assms(7,9) ids(2)] apps(3) assms(5,8) by simp_all
  obtain x where x: "rt_session (fold (net_command ?C) (Connect (DialKey ib ?ka (ap_channel b)) # map SendClipboard (map fst sends)) rt) = Some x"
    "s_queue x = map fst sends" using started_queue by blast
  obtain target where t: "resolve_hosting ?C S W ib ?ka (ap_channel b) = Inr target" "ea_id target = nh"
    "set (ea_addrs target) = set (pr_addrs r)"
    using host_findable [where ident = ib and host = ia and C = ?C, unfolded i k, OF advert(1) lan(1) advert(2,3) laws lan(2)]
    by blast
  obtain pd where pd: "dialed_round L ?C S wording W ib ?ka (ap_channel b) nd (map (SendNext \<circ> snd) sends @ [ReadNext])
      (map fst sends) (cd\<lparr>rx := to_dialer H L ?C (ap_identity a) (ap_identity b) nh nd\<rparr>)
     = (\<lparr>rd_lookup = LookupFound nh (ConnectServed nh (replicate (length sends) ItemSent) True), rd_sleep_cancelled = False\<rparr>, Some pd)"
    "tx (p_chan pd) = to_host H L ?C (ap_identity a) (ap_identity b) nh nd sends"
    using dialer_end [where ident = ib and hi = "ap_identity a" and C = ?C and wording = wording, unfolded i k, OF laws t(1,2) ends(1)]
    by blast
  obtain st ph where ph: "host_connection H ?C ?kl nd nh (replicate (1 + length sends) ReadNext) []
       (ch\<lparr>rx := to_host H L ?C (ap_identity a) (ap_identity b) nh nd sends\<rparr>) ?st0 = (st, Some ph)"
    "tx (p_chan ph) = to_dialer H L ?C (ap_identity a) (ap_identity b) nh nd"
    "served_state H ?kl nd sends ?st0 st" "srv_reachable ?C ?kl nh ?st0 st"
    using host_session [where i = ia and di = "ap_identity b" and C = ?C, unfolded i k, OF laws valid(1) ends(2)] by blast
  have nodes: "nh \<noteq> nd" using laws by (auto simp: journey_laws_def)
  have phase: "sv_phase st = Serving nd" using ph(3) by (simp add: served_state_def)
  note shown = host_shows [OF connect_wf [OF apps(1), of w] refl ph(3), of w, unfolded Let_def]
    dialer_shows [OF refl valid(2) nodes, where E = E and v = v and C = ?C and n = "length sends" and b = "connect_selected_peer E v b", unfolded Let_def]
  show ?thesis
    unfolding Let_def
    by (intro conjI exI [of _ x] exI [of _ target] exI [of _ pd] exI [of _ ph] exI [of _ st]
        exI [of _ "\<lparr>rd_lookup = LookupFound nh (ConnectServed nh (replicate (length sends) ItemSent) True), rd_sleep_cancelled = False\<rparr>"])
      (simp_all only: cmd x t pd ph phase shown)
qed

section \<open>An interruption\<close>




















text \<open>
  Only a text that was written whole is remembered. The one whose write the interruption breaks has left
  the channel, is not what a pull will be answered with, and is reported neither as sent nor as lost.
\<close>

lemma text_lost_at_break:
  assumes "clip_ok J (clip_item x t)" "p_queue p = x # queue"
    and "fin (p_chan p) \<or> wcap (p_chan p) < length (clip_frame J (clip_item x t))"
  shows "\<exists>e q. writer_item J t p = (Fail (PumpWrite e), q) \<and> p_queue q = queue \<and> p_last q = p_last p \<and> p_events q = p_events p"
  using assms by (auto simp: writer_item_def Let_def clip_codec_ok bindp_def on_chan_def write_all_def)

section \<open>A concrete journey\<close>

definition journey_codecs :: codecs where
  "journey_codecs = (demo_codecs sample_crypto)
     \<lparr>areq_codec := table_codec [request_msg sample_crypto (demo_identity 9) [1]],
      kchal_codec := table_codec [challenge_msg sample_crypto (demo_identity 7) (PublicKey [9]) [1] [2] [3] [4]],
      kproof_codec := table_codec [proof_msg sample_crypto (demo_identity 9) (PublicKey [7]) [1] [2] [3] [4]],
      clip_codec := table_codec [clip_pull_latest, clip_item [65] 1, clip_item [66] 2]\<rparr>"

definition journey_env :: "ustring \<Rightarrow> host_env" where
  "journey_env nonce = (demo_host 2000)\<lparr>he_codecs := journey_codecs, he_nonce := nonce\<rparr>"

definition journey_app :: "byte \<Rightarrow> nat \<Rightarrow> nat \<Rightarrow> byte \<Rightarrow> (ipv4 \<times> nat) app" where
  "journey_app k own peer chosen = (sample_app k own peer)\<lparr>ap_selected := Some [unat chosen]\<rparr>"

definition journey_end :: chan where
  "journey_end = \<lparr>rx = [], rx_end = Silent, tx = [], fin = False, wcap = 100000\<rparr>"

lemma journey_laws_hold:
  "journey_laws (journey_env [2]) (journey_env [1]) sample_crypto demo_sealing (demo_identity 7) (demo_identity 9)
     (NodeId [4]) (NodeId [3]) [([65], 1), ([66], 2)]"
proof -
  have k: "identity_public sample_crypto (demo_identity k) = PublicKey [k]" for k
    using sample_keys(2) by (simp add: demo_identity_def)
  have v: "verify_auth_signature sample_crypto (PublicKey [k]) T (sign_auth sample_crypto (demo_identity k) T) = Inr ()" for k T
    by (simp add: verify_auth_signature_def sign_auth_def sample_crypto_def toy_crypto_def demo_identity_def comp_def)
  have p: "key_parse sample_crypto (key_hex sample_crypto k) = Some k" for k
    by (cases k) (simp add: sample_crypto_def toy_crypto_def comp_def)
  have s: "session_laws journey_codecs sample_crypto (demo_identity 9) (demo_identity 7) [1] [2] [3] [4]"
    by (simp add: session_laws_def Let_def k v p journey_codecs_def demo_codecs_def table_codec_at const_simps)
  have c: "clip_laws journey_codecs [([65], 1), ([66], 2)]"
    by (simp add: clip_laws_def clip_ok_def item_of_def journey_codecs_def table_codec_at const_simps)
  show ?thesis
    using s c by (simp add: journey_laws_def journey_env_def demo_host_def demo_node_text demo_hosting_codec k)
      (simp add: demo_identity_def demo_sealed)
qed

lemma first_advertisement:
  assumes "live_at ident peer (pr_now r)" "ch_lan channel"
    and "dnssd_advertise_hosting C S (pr_nonce r) (pr_accepts r) (ki_identity ident) peer (rendezvous_addr S own)
      (sort_key sa_ord (pr_addrs r)) = Inr ad"
  shows "pb_advert (run_hosting_publisher C S ident peer channel own ([] @ [r])) = Some ad"
  using assms
  by (auto simp: run_hosting_publisher_def publisher_round_def Let_def live_at_def refresh_advert_def
      publisher_init_def warn_not_yet_valid_def split: option.splits)

lemma journey_advert:
  assumes "live_at ident (PublicKey [9]) 2000"
  shows "\<exists>ad. pb_advert (run_hosting_publisher sample_crypto demo_sealing ident (PublicKey [9]) LanThenNostr (NodeId [4])
      ([] @ [demo_round demo_addrs])) = Some ad \<and> delivers ad (echo ad)"
proof -
  let ?addr = "rendezvous_addr demo_sealing (NodeId [4])" and ?i = "ki_identity ident"
  obtain content where c: "hosting_encrypt demo_sealing 0 ?i (PublicKey [9]) ?addr = Some content"
    by (simp add: hosting_encrypt_def demo_sealing_def)
  let ?l = "lan_instance sample_crypto (identity_public sample_crypto ?i) (PublicKey [9])"
  have "make_ascii_lowercase ?l = ?l" by (simp add: lan_instance_def)
  from demo_advertise [OF this service_types_lower(1), of content] obtain ad where
    ad: "dnssd_advertise (\<lambda>_. True) HOSTING_SERVICE_TYPE ?l content demo_addrs = Inr ad" and d: "delivers ad (echo ad)" by blast
  then have "dnssd_advertise_hosting sample_crypto demo_sealing 0 (\<lambda>_. True) ?i (PublicKey [9]) ?addr demo_addrs = Inr ad"
    using c by (simp add: dnssd_advertise_hosting_def)
  with first_advertisement [of ident _ "demo_round demo_addrs" LanThenNostr sample_crypto demo_sealing "NodeId [4]" ad] assms d
  show ?thesis by (auto simp: demo_round_def demo_sorted ch_lan_def)
qed

lemma journey_app_facts:
  "own_key sample_deps (journey_app k own peer c) = PublicKey [k]" "ap_identity (journey_app k own peer c) = demo_identity k"
  "ap_net (journey_app k own peer c) = []" "ap_channel (journey_app k own peer c) = LanThenNostr"
  "selected_peer_card sample_deps (journey_app 7 1000 1001 9) = Some (sample_card 9)"
  "selected_peer_card sample_deps (journey_app 9 1001 1000 7) = Some (sample_card 7)"
  "app_wf sample_deps (journey_app 7 1000 1001 c)"
proof -
  show "own_key sample_deps (journey_app k own peer c) = PublicKey [k]" "ap_identity (journey_app k own peer c) = demo_identity k"
    "ap_net (journey_app k own peer c) = []" "ap_channel (journey_app k own peer c) = LanThenNostr"
    using sample_keys(3) by (simp_all add: journey_app_def own_key_def sample_fields demo_identity_def)
  show "selected_peer_card sample_deps (journey_app 7 1000 1001 9) = Some (sample_card 9)"
    "selected_peer_card sample_deps (journey_app 9 1001 1000 7) = Some (sample_card 7)"
    by (simp_all add: journey_app_def selected_peer_card_def sample_standing peer_key_def sample_keys(1) sample_deps_def
        sample_crypto_def toy_crypto_def)
  show "app_wf sample_deps (journey_app 7 1000 1001 c)"
    using sample_app_wf by (simp add: journey_app_def app_wf_def own_key_def)
qed

lemma in_window: "is_valid_at (sample_card k) 2000"
  by (simp add: is_valid_at_def is_not_yet_valid_at_def sample_card_def const_simps saturating_add_def)

lemma journey_room:
  "length (clip_frames journey_codecs (clip_pull_latest # map item_of [([65], 1), ([66], 2)])) \<le> 15"
proof -
  have "length (clip_frame journey_codecs m) \<le> 5" if "m \<in> {clip_pull_latest, clip_item [65] 1, clip_item [66] 2}" for m
  proof -
    have "codec_at (clip_codec journey_codecs) 1 m" using that by (auto simp: journey_codecs_def intro!: table_codec_at)
    from frame_of_length [OF this] show ?thesis by (simp add: clip_frame_def)
  qed
  from this [of clip_pull_latest] this [of "clip_item [65] 1"] this [of "clip_item [66] 2"] show ?thesis
    by (simp add: item_of_def)
qed

lemma journey_connects: "ap_inbox (connect_selected_peer sample_deps sample_moment (journey_app 7 1000 1001 9)) = []"
proof -
  have "ap_self_card (journey_app 7 1000 1001 9) = Some (sample_card 7)" "ap_box_peer (journey_app 7 1000 1001 9) = None"
    by (simp_all add: journey_app_def sample_standing sample_fields)
  moreover have "\<not> card_is_expired (at_unix sample_moment) (sample_card 9)" by (simp add: sample_moment_def sample_valid(1))
  ultimately show ?thesis
    using connect_selected [OF journey_app_facts(5)] by (simp add: Let_def clear_peer_boxes_def)
qed

lemma first_session_witness:
  "\<exists>pd ph rnd st ia ib ad. host_connection (journey_env [2]) sample_crypto \<lparr>kl_identity = ia, kl_peer = PublicKey [9]\<rparr>
       (NodeId [3]) (NodeId [4]) [ReadNext, ReadNext, ReadNext] [] (demo_claim_end\<lparr>rx := tx (p_chan pd)\<rparr>)
       (server_start True (NodeId [4]) [] claim_default) = (st, Some ph)
     \<and> dialed_round (journey_env [1]) sample_crypto demo_sealing (\<lambda>_. [])
         \<lparr>su_arrivals = Some [ServiceResolved (echo ad)], su_net = demo_net, su_fetched = None\<rparr> ib (PublicKey [7])
         LanThenNostr (NodeId [3]) [SendNext 1, SendNext 2, ReadNext] [[65], [66]] (journey_end\<lparr>rx := tx (p_chan ph)\<rparr>) = (rnd, Some pd)
     \<and> map it_text (ap_inbox (fold (apply_event sample_deps sample_moment) (sv_events st)
          (connect_selected_peer sample_deps sample_moment (journey_app 7 1000 1001 9)))) = [[66], [65]]"
proof -
  let ?a = "journey_app 7 1000 1001 9" and ?b = "journey_app 9 1001 1000 7"
  let ?sends = "[([65], 1), ([66], 2)] :: (ustring \<times> u64) list"
  obtain ia ib where i: "app_key_identity ?a = Some ia" "app_key_identity ?b = Some ib"
    by (simp add: app_key_identity_def journey_app_def sample_standing)
  have live: "live_at ia (PublicKey [9]) 2000" "live_at ib (PublicKey [7]) 2000"
    using i by (auto simp: app_key_identity_def journey_app_def sample_standing live_at_def ki_peer_def sample_keys(1) in_window)
  obtain ad where ad: "pb_advert (run_hosting_publisher sample_crypto demo_sealing ia (PublicKey [9]) LanThenNostr (NodeId [4])
      ([] @ [demo_round demo_addrs])) = Some ad" "delivers ad (echo ad)"
    using journey_advert [OF live(1)] by blast
  let ?W = "\<lparr>su_arrivals = Some [ServiceResolved (echo ad)], su_net = demo_net, su_fetched = None\<rparr>"
  have hears: "hears ?W ad" unfolding hears_def using ad(2) by (intro exI [of _ "[]"] exI [of _ "echo ad"]) simp
  have now: "\<not> card_is_expired (at_unix sample_moment) (sample_card k)" for k by (simp add: sample_moment_def sample_valid(1))
  have room: "roomy (he_codecs (journey_env [1])) ?sends journey_end" "roomy (he_codecs (journey_env [1])) ?sends demo_claim_end"
    using journey_room by (simp_all add: roomy_def journey_env_def journey_end_def demo_claim_end_def)
  have ports: "one_port_each 4433 4444 (pr_addrs (demo_round demo_addrs))" using demo_ports by (simp add: demo_round_def)
  note F = journey_app_facts
  have "ch_lan (ap_channel ?a)" "ch_lan (ap_channel ?b)" by (simp_all add: F ch_lan_def)
  note lan = this
  have keys: "own_key sample_deps ?a = PublicKey [7]" "own_key sample_deps ?b = PublicKey [9]" by (simp_all add: F)
  have lt: "to_bytes (own_key sample_deps ?a) < to_bytes (own_key sample_deps ?b)" by (simp add: F)
  have pk: "card_public_key (sample_card 9) = own_key sample_deps ?b" "card_public_key (sample_card 7) = own_key sample_deps ?a"
    by (simp_all add: F sample_keys(1))
  have valid: "live_at ia (own_key sample_deps ?b) (he_now (journey_env [2]))" "live_at ib (own_key sample_deps ?a) 2000"
    using live by (simp_all add: F journey_env_def demo_host_def)
  have laws: "journey_laws (journey_env [2]) (journey_env [1]) (dp_crypto sample_deps) demo_sealing (ap_identity ?a) (ap_identity ?b)
      (NodeId [4]) (NodeId [3]) ?sends"
    using journey_laws_hold by (simp add: F sample_deps_simps)
  have advert: "pb_advert (run_hosting_publisher (dp_crypto sample_deps) demo_sealing ia (own_key sample_deps ?b) (ap_channel ?a)
      (NodeId [4]) ([] @ [demo_round demo_addrs])) = Some ad" using ad(1) by (simp add: F sample_deps_simps)
  obtain x :: session and pd ph :: pump and rnd :: round and st :: server_state where q: "s_queue x = map fst ?sends"
    and d: "dialed_round (journey_env [1]) (dp_crypto sample_deps) demo_sealing (\<lambda>_. []) ?W ib (own_key sample_deps ?a) (ap_channel ?b)
       (NodeId [3]) (map (SendNext \<circ> snd) ?sends @ [ReadNext]) (s_queue x) (journey_end\<lparr>rx := tx (p_chan ph)\<rparr>) = (rnd, Some pd)"
    and h: "host_connection (journey_env [2]) (dp_crypto sample_deps) \<lparr>kl_identity = ia, kl_peer = own_key sample_deps ?b\<rparr> (NodeId [3])
       (NodeId [4]) (replicate (1 + length ?sends) ReadNext) [] (demo_claim_end\<lparr>rx := tx (p_chan pd)\<rparr>)
       (server_start True (NodeId [4]) [] claim_default) = (st, Some ph)"
    and m: "map it_text (ap_inbox (fold (apply_event sample_deps sample_moment) (sv_events st)
         (connect_selected_peer sample_deps sample_moment ?a)))
       = take MAX_INBOX_ITEMS (rev (map fst ?sends) @ map it_text (ap_inbox (connect_selected_peer sample_deps sample_moment ?a)))"
    using first_session [where E = sample_deps and D = sample_deps and npub = "[]" and wording = "\<lambda>_. []" and rt = runtime_init,
        OF F(7) refl lt F(5) pk(1) now F(6) pk(2) now i lan valid laws advert ports hears room]
    unfolding Let_def by (elim conjE exE) (rule that; assumption)
  have "map it_text (ap_inbox (fold (apply_event sample_deps sample_moment) (sv_events st)
         (connect_selected_peer sample_deps sample_moment ?a))) = [[66], [65]]"
    using m by (simp add: journey_connects const_simps)
  moreover have "dialed_round (journey_env [1]) sample_crypto demo_sealing (\<lambda>_. []) ?W ib (PublicKey [7]) LanThenNostr (NodeId [3])
       [SendNext 1, SendNext 2, ReadNext] [[65], [66]] (journey_end\<lparr>rx := tx (p_chan ph)\<rparr>) = (rnd, Some pd)"
    using d q by (simp add: F sample_deps_simps)
  moreover have "host_connection (journey_env [2]) sample_crypto \<lparr>kl_identity = ia, kl_peer = PublicKey [9]\<rparr> (NodeId [3]) (NodeId [4])
       [ReadNext, ReadNext, ReadNext] [] (demo_claim_end\<lparr>rx := tx (p_chan pd)\<rparr>) (server_start True (NodeId [4]) [] claim_default)
     = (st, Some ph)"
    using h by (simp add: F sample_deps_simps)
  ultimately show ?thesis by (intro exI conjI)
qed


end
