(* ===== verification/Examples.thy ===== *)
theory Examples
  imports Dummy Lan Relays
begin

text \<open>
  The example programs of the core crate (\<open>duocb-core/examples\<close>): \<open>dummy_transport.rs\<close>, a session
  over plain TCP in one or two processes, and \<open>key_peer.rs\<close>, a peer without a window. What the
  processes meet (environment, sockets, browse, generated keys and nonces) is an argument.
\<close>

section \<open>One side of a session\<close>

datatype example_error =
  ListenerHandshake transport_error
| DialerHandshake transport_error
| SendingItem dummy_error
| ReceivingItem dummy_error
| Tcp dummy_error
| NotBound ustring
| NoListenAddress ustring
| Advertising lan_error
| LookingUp lan_error
| NobodyHosting
| BadNsecVariable auth_error
| NoPeerVariable
| BadPeerVariable
| BadAddress ustring
| Usage

definition NOT_LOCALLY_TRUSTED :: nat where [const_simps]: "NOT_LOCALLY_TRUSTED = 0"

definition admit_only :: "pubkey \<Rightarrow> pubkey \<Rightarrow> nat + unit" where
  "admit_only peer_key offered = (if offered = peer_key then Inr () else Inl NOT_LOCALLY_TRUSTED)"

text \<open>\<open>session\<close>: what it returns, and the stream as it leaves it.\<close>

definition example_session ::
    "codecs \<Rightarrow> 'y crypto_scheme \<Rightarrow> identity \<Rightarrow> 'w hchan session_end \<Rightarrow> pubkey \<Rightarrow> ustring \<Rightarrow> ustring
       \<Rightarrow> (example_error, ustring) outcome \<times> 'w hchan option" where
  "example_session J C i t peer_key nonce item =
     (case (case session_role (identity_public C i) peer_key of
              Host \<Rightarrow>
                (case authenticate_listener J C t i (admit_only peer_key) nonce of
                   Done (stream, proven) \<Rightarrow> Done stream
                 | Fail e \<Rightarrow> Fail (ListenerHandshake e)
                 | Stall \<Rightarrow> Stall)
            | Dial \<Rightarrow>
                (case authenticate_dialer J C t i peer_key nonce of
                   Done stream \<Rightarrow> Done stream
                 | Fail e \<Rightarrow> Fail (DialerHandshake e)
                 | Stall \<Rightarrow> Stall)) of
        Fail e \<Rightarrow> (Fail e, None)
      | Stall \<Rightarrow> (Stall, None)
      | Done stream \<Rightarrow>
          (case bindp (map_err SendingItem (send_item J item)) (\<lambda>_. map_err ReceivingItem (recv_item J)) stream of
             (received, left) \<Rightarrow> (received, Some left)))"

section \<open>Both sides of a session\<close>

definition item_frame :: "codecs \<Rightarrow> ustring \<Rightarrow> bytes" where
  "item_frame J item = frame_of (clip_codec J) (clip_item item 0)"

definition item_fits :: "codecs \<Rightarrow> ustring \<Rightarrow> bool" where
  "item_fits J item \<longleftrightarrow> codec_at (clip_codec J) MAX_CLIP_MESSAGE_SIZE (clip_item item 0)"

lemma item_sent:
  assumes "item_fits J item" "\<not> fin s" "length (item_frame J item) \<le> wcap s"
  shows "send_item J item s = (Done (), s\<lparr>tx := tx s @ item_frame J item, wcap := wcap s - length (item_frame J item)\<rparr>)"
  using assms codec_at_encode [of "clip_codec J" MAX_CLIP_MESSAGE_SIZE "clip_item item 0"]
  by (simp add: send_item_def encode_clip_msg_def bindp_def map_err_def lift_sum_def ret_def write_all_def
      item_frame_def item_fits_def)

lemma item_received:
  assumes "item_fits J item" "rx s = item_frame J item"
  shows "\<exists>t. recv_item J s = (Done item, t) \<and> tx t = tx s"
proof -
  let ?f = "item_frame J item"
  have v: "cm_version (clip_item item 0) = DUOCB_PROTO_VERSION" "cm_body (clip_item item 0) = Item item 0"
    by (simp_all add: clip_item_def clip_of_def)
  have d: "decode_clip_msg J ?f = Inr (clip_item item 0)"
    unfolding decode_clip_msg_def item_frame_def
    by (rule codec_at_decode [where get_version = cm_version, OF assms(1) [unfolded item_fits_def] _ v(1)]) (simp add: const_simps)
  have "read_length_prefixed MAX_CLIP_MESSAGE_SIZE s = (Done ?f, s\<lparr>rx := []\<rparr>)"
    unfolding item_frame_def
    by (rule read_frame [OF assms(1) [unfolded item_fits_def]]) (use assms(2) in \<open>simp_all add: const_simps item_frame_def\<close>)
  then show ?thesis by (simp add: recv_item_def bindp_def map_err_def d lift_sum_def ret_def v(2))
qed

lemma items_exchanged:
  assumes "item_fits J mine" "item_fits J theirs" "\<not> fin s" "length (item_frame J mine) \<le> wcap s" "rx s = item_frame J theirs"
  shows "\<exists>t. bindp (map_err SendingItem (send_item J mine)) (\<lambda>_. map_err ReceivingItem (recv_item J)) s = (Done theirs, t)
     \<and> tx t = tx s @ item_frame J mine"
  using item_received [OF assms(2), of "s\<lparr>tx := tx s @ item_frame J mine, wcap := wcap s - length (item_frame J mine)\<rparr>"]
    item_sent [OF assms(1,3,4)] assms(5)
  by (auto simp: bindp_def map_err_def)

text \<open>
  Over any transport that carries bytes, the two sides of a session authenticate and each receives the
  item of the other, on streams where each reads exactly what the other has written.
\<close>

context byte_transport
begin

lemma sessions_exchange:
  assumes c: "connected a b" and ends: "fresh_end (to_end a) sa" "fresh_end (to_end b) sb"
    and laws: "session_laws J C di li cn sn (se_local_id (to_end a)) (se_local_id (to_end b))"
    and roles: "session_role (identity_public C di) (identity_public C li) = Dial"
      "session_role (identity_public C li) (identity_public C di) = Host"
    and items: "item_fits J da" "item_fits J lb" "40000 + length (item_frame J da) \<le> wcap sa" "40000 + length (item_frame J lb) \<le> wcap sb"
  shows "\<exists>ta tb. example_session J C di (carrying (to_end a) sa (tx tb)) (identity_public C li) cn da = (Done lb, Some ta)
     \<and> example_session J C li (carrying (to_end b) sb (tx ta)) (identity_public C di) sn lb = (Done da, Some tb)"
proof -
  let ?d = "se_local_id (to_end a)" and ?l = "se_local_id (to_end b)" and ?dk = "identity_public C di" and ?lk = "identity_public C li"
  let ?hello = "hello_frames J C di ?lk cn sn ?d ?l" and ?reply = "welcome_frames J C li ?dk cn sn ?d ?l"
  have ids: "se_peer_id (to_end a) = ?l" "se_peer_id (to_end b) = ?d" using mirrored [OF c] by simp_all
  have fa: "\<not> fin sa" "tx sa = []" and fb: "\<not> fin sb" "tx sb = []" using ends by (simp_all add: fresh_end_def)
  let ?sa = "sa\<lparr>rx := ?reply @ item_frame J lb\<rparr>" and ?sb = "sb\<lparr>rx := ?hello @ item_frame J da\<rparr>"
  obtain u where u: "dialer_handshake J C di ?lk ?d ?l cn ?sa = (Done (), u)" "tx u = ?hello" "rx u = item_frame J lb"
    "\<not> fin u" "wcap sa - 40000 \<le> wcap u"
    using dialer_completes [OF laws, of ?sa "item_frame J lb"] fa items(3) by auto
  have "length (item_frame J da) \<le> wcap u" using u(5) items(3) by simp
  from items_exchanged [OF items(1,2) u(4) this u(3)] u(2) obtain ta where
    ta: "bindp (map_err SendingItem (send_item J da)) (\<lambda>_. map_err ReceivingItem (recv_item J)) u = (Done lb, ta)"
      "tx ta = ?hello @ item_frame J da" by auto
  obtain v where v: "bindp (read_key_request J) (\<lambda>(pk, n). listener_handshake J C li pk n ?d ?l sn (\<lambda>k _. admit_only ?dk k)
      (\<lambda>_ w. (True, w))) ?sb = (Done ?dk, v)" "tx v = ?reply" "rx v = item_frame J da" "\<not> fin v" "wcap sb - 40000 \<le> wcap v"
    using listener_accepts_hello [OF laws, of ?sb "item_frame J da" "\<lambda>k _. admit_only ?dk k" "\<lambda>_ w. (True, w)"] fb items(4)
    by (auto simp: admit_only_def)
  have "length (item_frame J lb) \<le> wcap v" using v(5) items(4) by simp
  from items_exchanged [OF items(2,1) v(4) this v(3)] v(2) obtain tb where
    tb: "bindp (map_err SendingItem (send_item J lb)) (\<lambda>_. map_err ReceivingItem (recv_item J)) v = (Done da, tb)"
      "tx tb = ?reply @ item_frame J lb" by auto
  have "example_session J C di (carrying (to_end a) sa (tx tb)) ?lk cn da = (Done lb, Some ta)"
    using u(1) ta(1) tb(2) by (simp add: example_session_def roles carrying_def authenticate_dialer_def ids)
  moreover have "example_session J C li (carrying (to_end b) sb (tx ta)) ?dk sn lb = (Done da, Some tb)"
    using v(1) tb(1) ta(2) by (simp add: example_session_def roles carrying_def authenticate_listener_def ids)
  ultimately show ?thesis by (intro exI [of _ ta] exI [of _ tb]) simp
qed

end

section \<open>What the processes meet\<close>

text \<open>
  A listener that is bound knows its address or fails to tell it; \<open>None\<close> is an accept that waits
  without end. Keys, nonces and bound listeners are numbered in the order the process asks for them.
\<close>

record 'w demo_world =
  dw_v6 :: v6_text
  dw_codecs :: codecs
  dw_key :: "nat \<Rightarrow> seckey"
  dw_nonce :: "nat \<Rightarrow> ustring"
  dw_bind :: "nat \<Rightarrow> socket_addr \<Rightarrow> ustring + (ustring + socket_addr)"
  dw_accept :: "socket_addr \<Rightarrow> (ustring + 'w hchan tcp_stream) option"
  dw_dial :: "socket_addr \<Rightarrow> nat \<Rightarrow> 'w hchan tcp_stream attempt"
  dw_inbound :: "socket_addr \<Rightarrow> 'w hchan attempt"
  dw_outbound :: "socket_addr \<Rightarrow> nat \<Rightarrow> 'w hchan attempt"
  dw_registers :: "advert \<Rightarrow> bool"
  dw_seal_nonce :: nat
  dw_arrivals :: "service_event list option"
  dw_nsec :: "ustring option"
  dw_peer_npub :: "ustring option"
  dw_now :: nat

definition socket_v4 :: "byte \<Rightarrow> byte \<Rightarrow> byte \<Rightarrow> byte \<Rightarrow> u16 \<Rightarrow> socket_addr" where
  "socket_v4 x y z v port = \<lparr>sa_ip = V4 (IPv4 x y z v), sa_port = port\<rparr>"

definition bound_listener :: "'w demo_world \<Rightarrow> nat \<Rightarrow> socket_addr \<Rightarrow> example_error + (ustring + socket_addr)" where
  "bound_listener D n at = (case dw_bind D n at of Inl e \<Rightarrow> Inl (NotBound e) | Inr l \<Rightarrow> Inr l)"

definition listener_addr :: "ustring + socket_addr \<Rightarrow> example_error + socket_addr" where
  "listener_addr l = (case l of Inl e \<Rightarrow> Inl (NoListenAddress e) | Inr a \<Rightarrow> Inr a)"

text \<open>\<open>f\<close> after a fallible step, and after a task whose failure is passed on.\<close>

definition or_fail :: "example_error + 'a \<Rightarrow> ('a \<Rightarrow> (example_error, 'b) outcome) \<Rightarrow> (example_error, 'b) outcome" where
  "or_fail r f = (case r of Inl e \<Rightarrow> Fail e | Inr a \<Rightarrow> f a)"

definition after :: "(example_error, 'a) outcome \<Rightarrow> (example_error, 'b) outcome \<Rightarrow> (example_error, 'b) outcome" where
  "after r next = (case r of Done _ \<Rightarrow> next | Fail e \<Rightarrow> Fail e | Stall \<Rightarrow> Stall)"

definition over_tcp ::
    "'w demo_world \<Rightarrow> 'y crypto_scheme \<Rightarrow> identity \<Rightarrow> pubkey \<Rightarrow> nat \<Rightarrow> ustring \<Rightarrow> dummy_error + 'w hchan tcp_session
       \<Rightarrow> (example_error, unit) outcome" where
  "over_tcp D C i peer_key n item transport =
     or_fail (map_sum Tcp id transport) (\<lambda>t.
       after (fst (example_session (dw_codecs D) C i (tcp_end t) peer_key (dw_nonce D n) item)) (Done ()))"

definition accepting ::
    "'w demo_world \<Rightarrow> 'y crypto_scheme \<Rightarrow> identity \<Rightarrow> pubkey \<Rightarrow> nat \<Rightarrow> ustring \<Rightarrow> socket_addr
       \<Rightarrow> (example_error, unit) outcome" where
  "accepting D C i peer_key n item at =
     (case dw_accept D at of
        None \<Rightarrow> Stall
      | Some accepted \<Rightarrow> over_tcp D C i peer_key n item (tcp_accept (dw_v6 D) accepted))"

definition over_two_sockets ::
    "'w demo_world \<Rightarrow> 'y crypto_scheme \<Rightarrow> identity \<Rightarrow> pubkey \<Rightarrow> nat \<Rightarrow> ustring \<Rightarrow> ustring + socket_addr \<Rightarrow> socket_addr
       \<Rightarrow> (example_error, unit) outcome" where
  "over_two_sockets D C i peer_key n item listen peer_listen =
     (let inbound = (case listen of Inl e \<Rightarrow> None | Inr a \<Rightarrow> dw_inbound D a)
      in or_fail (map_sum Tcp id (fst (uni_connect (dw_v6 D) listen peer_listen inbound (dw_outbound D peer_listen) (dw_now D)))) (\<lambda>u.
           after (fst (example_session (dw_codecs D) C i (uni_end u) peer_key (dw_nonce D n) item)) (Done ())))"

section \<open>Both peers in one process\<close>

definition in_process_bidirectional :: "'w demo_world \<Rightarrow> 'y crypto_scheme \<Rightarrow> (example_error, unit) outcome" where
  "in_process_bidirectional D C =
     (let a = identity_generate (dw_key D 0); b = identity_generate (dw_key D 1);
          a_key = identity_public C a; b_key = identity_public C b;
          (host, joiner, host_key, joiner_key) =
            (case session_role a_key b_key of Host \<Rightarrow> (a, b, a_key, b_key) | Dial \<Rightarrow> (b, a, b_key, a_key))
      in or_fail (bound_listener D 0 (socket_v4 127 0 0 1 0)) (\<lambda>listener.
         or_fail (listener_addr listener) (\<lambda>addr.
         after (over_tcp D C joiner host_key 0 (ascii ''sent by the joiner'') (tcp_dial (dw_v6 D) addr (dw_dial D addr) (dw_now D)))
           (accepting D C host joiner_key 1 (ascii ''sent by the host'') addr))))"

definition in_process_unidirectional :: "'w demo_world \<Rightarrow> 'y crypto_scheme \<Rightarrow> (example_error, unit) outcome" where
  "in_process_unidirectional D C =
     (let a = identity_generate (dw_key D 2); b = identity_generate (dw_key D 3);
          a_key = identity_public C a; b_key = identity_public C b
      in or_fail (bound_listener D 1 (socket_v4 127 0 0 1 0)) (\<lambda>a_listener.
         or_fail (bound_listener D 2 (socket_v4 127 0 0 1 0)) (\<lambda>b_listener.
         or_fail (listener_addr a_listener) (\<lambda>a_addr.
         or_fail (listener_addr b_listener) (\<lambda>b_addr.
         after (over_two_sockets D C a b_key 2 (ascii ''sent by A'') a_listener b_addr)
           (over_two_sockets D C b a_key 3 (ascii ''sent by B'') b_listener a_addr))))))"

section \<open>One of two processes\<close>

definition greeting :: "'y crypto_scheme \<Rightarrow> identity \<Rightarrow> ustring" where
  "greeting C i = ascii ''hello from '' @ to_npub C i"

definition lan_peer ::
    "'w demo_world \<Rightarrow> 'y crypto_scheme \<Rightarrow> 's sealing_scheme \<Rightarrow> identity \<Rightarrow> pubkey \<Rightarrow> (example_error, unit) outcome" where
  "lan_peer D C S i peer_key =
     (case session_role (identity_public C i) peer_key of
        Host \<Rightarrow>
          or_fail (bound_listener D 0 (socket_v4 0 0 0 0 0)) (\<lambda>listener.
          or_fail (listener_addr listener) (\<lambda>bound.
          (let reachable = socket_v4 127 0 0 1 (sa_port bound); addr = tcp_rendezvous_addr (dw_v6 D) reachable
           in or_fail (map_sum Advertising id
                  (dnssd_advertise_hosting C S (dw_seal_nonce D) (dw_registers D) i peer_key addr [reachable])) (\<lambda>advert.
                accepting D C i peer_key 0 (greeting C i) bound))))
      | Dial \<Rightarrow>
          or_fail (map_sum LookingUp id (dnssd_lookup_hosting C S (dw_arrivals D) i peer_key)) (\<lambda>hit.
          case hit of
            None \<Rightarrow> Fail NobodyHosting
          | Some found \<Rightarrow>
              over_tcp D C i peer_key 0 (greeting C i) (dial_record (dw_v6 D) (lf_payload found) (dw_dial D) (dw_now D))))"

definition peer_identity :: "'w demo_world \<Rightarrow> 'y crypto_scheme \<Rightarrow> example_error + identity \<times> pubkey" where
  "peer_identity D C =
     (case (case dw_nsec D of
              Some nsec \<Rightarrow> map_sum BadNsecVariable id (parse_nsec C nsec)
            | None \<Rightarrow> Inr (identity_generate (dw_key D 0))) of
        Inl e \<Rightarrow> Inl e
      | Inr i \<Rightarrow>
          (case dw_peer_npub D of
             None \<Rightarrow> Inl NoPeerVariable
           | Some text \<Rightarrow>
               (case key_parse C text of None \<Rightarrow> Inl BadPeerVariable | Some peer_key \<Rightarrow> Inr (i, peer_key))))"

definition one_peer ::
    "'w demo_world \<Rightarrow> 'y crypto_scheme \<Rightarrow> socket_addr \<Rightarrow> socket_addr \<Rightarrow> bool \<Rightarrow> (example_error, unit) outcome" where
  "one_peer D C bind peer_addr uni =
     or_fail (peer_identity D C) (\<lambda>(i, peer_key).
       if uni
       then or_fail (bound_listener D 0 bind) (\<lambda>listener.
              over_two_sockets D C i peer_key 0 (greeting C i) listener peer_addr)
       else case session_role (identity_public C i) peer_key of
              Host \<Rightarrow>
                or_fail (bound_listener D 0 bind) (\<lambda>listener.
                  accepting D C i peer_key 0 (greeting C i) (case listener of Inl _ \<Rightarrow> bind | Inr at \<Rightarrow> at))
            | Dial \<Rightarrow>
                over_tcp D C i peer_key 0 (greeting C i) (tcp_dial (dw_v6 D) peer_addr (dw_dial D peer_addr) (dw_now D)))"

definition parsed_addr :: "'w demo_world \<Rightarrow> ustring \<Rightarrow> example_error + socket_addr" where
  "parsed_addr D text = (case parse_socket (dw_v6 D) text of None \<Rightarrow> Inl (BadAddress text) | Some a \<Rightarrow> Inr a)"

definition dummy_main ::
    "'w demo_world \<Rightarrow> 'y crypto_scheme \<Rightarrow> 's sealing_scheme \<Rightarrow> ustring list \<Rightarrow> (example_error, unit) outcome" where
  "dummy_main D C S args =
     (let uni = (ascii ''--uni'' \<in> set args); positional = filter (\<lambda>a. take 2 a \<noteq> ascii ''--'') args
      in case positional of
           [] \<Rightarrow>
             (if uni then in_process_unidirectional D C
              else after (in_process_bidirectional D C) (in_process_unidirectional D C))
         | [mode] \<Rightarrow>
             (if mode = ascii ''lan'' then or_fail (peer_identity D C) (\<lambda>(i, peer_key). lan_peer D C S i peer_key)
              else Fail Usage)
         | [mode, bind, peer_addr] \<Rightarrow>
             (if mode = ascii ''peer''
              then or_fail (parsed_addr D bind) (\<lambda>b. or_fail (parsed_addr D peer_addr) (\<lambda>p. one_peer D C b p uni))
              else Fail Usage)
         | _ \<Rightarrow> Fail Usage)"

text \<open>
  Two processes in \<open>lan\<close> mode meet: the host accepts on the listener whose port it advertised, and
  the dialer that hears the advertisement dials exactly that port of the loopback address. What they then
  exchange over the connection is \<open>sessions_exchange\<close> for TCP.
\<close>

lemma lan_host_accepts:
  assumes "session_role (identity_public C i) peer_key = Host" "dw_bind D 0 (socket_v4 0 0 0 0 0) = Inr (Inr bound)"
    and "dnssd_advertise_hosting C S (dw_seal_nonce D) (dw_registers D) i peer_key
      (tcp_rendezvous_addr (dw_v6 D) (socket_v4 127 0 0 1 (sa_port bound))) [socket_v4 127 0 0 1 (sa_port bound)] = Inr ad"
  shows "lan_peer D C S i peer_key = accepting D C i peer_key 0 (greeting C i) bound"
  using assms by (simp add: lan_peer_def bound_listener_def listener_addr_def or_fail_def Let_def)

lemma lan_dialer_reaches:
  assumes "session_role (identity_public C me) (identity_public C host) = Dial" and "v6_ok (dw_v6 D)"
    and "dnssd_advertise_hosting C S nonce registers host (identity_public C me)
      (tcp_rendezvous_addr (dw_v6 D) (socket_v4 127 0 0 1 port)) [socket_v4 127 0 0 1 port] = Inr ad"
    and "delivers ad r" "\<forall>e \<in> set pre. \<not> carries_label HOSTING_SERVICE_TYPE (ad_instance ad) e"
    and "dw_arrivals D = Some (pre @ ServiceResolved r # post)"
    and "\<forall>t. hosting_text S (tcp_rendezvous_addr (dw_v6 D) (socket_v4 127 0 0 1 port)) = Some t \<longrightarrow>
      sealed_at S (secret host) (identity_public C me) (secret me) (identity_public C host) nonce t"
    and "hosting_codec_at S \<lparr>hp_version = HOSTING_VERSION, hp_transport = TCP_KIND,
      hp_address = show_socket (dw_v6 D) (socket_v4 127 0 0 1 port)\<rparr>"
  shows "lan_peer D C S me (identity_public C host) =
    over_tcp D C me (identity_public C host) 0 (greeting C me)
      (tcp_dial (dw_v6 D) (socket_v4 127 0 0 1 port) (dw_dial D (socket_v4 127 0 0 1 port)) (dw_now D))"
proof -
  have ports: "one_port_each port 0 [socket_v4 127 0 0 1 port]" by (simp add: one_port_each_def socket_v4_def)
  obtain f where "dnssd_lookup_hosting C S (dw_arrivals D) me (identity_public C host) = Inr (Some f)"
    "lf_payload f = tcp_rendezvous_addr (dw_v6 D) (socket_v4 127 0 0 1 port)"
    using hosting_found [OF assms(3) ports assms(4,5,7), of post] assms(6,8) by (auto simp: tcp_rendezvous_addr_def)
  moreover have "proper_addr (socket_v4 127 0 0 1 port)" by (simp add: proper_addr_def socket_v4_def)
  ultimately show ?thesis
    using assms(1) by (simp add: lan_peer_def or_fail_def dial_record_def tcp_addr_roundtrip [OF assms(2)])
qed

section \<open>A peer without a window\<close>

datatype key_peer_panic = PanicNsec | PanicSuffix | PanicName | PanicNoPeer | PanicPeer | PanicChannel ustring | PanicTimeout

text \<open>The environment variables that are set, to text.\<close>

record key_peer_env =
  kp_nsec_var :: "ustring option"
  kp_name_var :: "ustring option"
  kp_suffix_var :: "ustring option"
  kp_peer_var :: "ustring option"
  kp_send_var :: "ustring option"
  kp_channel_var :: "ustring option"

definition key_peer_channel :: "ustring option \<Rightarrow> key_peer_panic + signal_channel" where
  "key_peer_channel var =
     (case var of
        None \<Rightarrow> Inr LanThenNostr
      | Some text \<Rightarrow>
          (if text = ascii ''lan'' then Inr LanOnly
           else if text = ascii ''nostr'' then Inr NostrOnly
           else Inl (PanicChannel text)))"

text \<open>Up to the command that starts the session; \<open>fresh\<close> is a generated key and \<open>now\<close> the clock.\<close>

definition key_peer_start :: "'y crypto_scheme \<Rightarrow> u64 \<Rightarrow> seckey \<Rightarrow> key_peer_env \<Rightarrow> key_peer_panic + ui_command" where
  "key_peer_start C now fresh V =
     (case (case kp_nsec_var V of Some text \<Rightarrow> parse_nsec C text | None \<Rightarrow> Inr (identity_generate fresh)) of
        Inl e \<Rightarrow> Inl PanicNsec
      | Inr i \<Rightarrow>
          (let name = (case kp_name_var V of Some n \<Rightarrow> n | None \<Rightarrow> ascii ''headless'') in
           case kp_suffix_var V of
             None \<Rightarrow> Inl PanicSuffix
           | Some suffix \<Rightarrow>
               (case card_mint C now i name suffix of
                  Inl e \<Rightarrow> Inl PanicName
                | Inr self_card \<Rightarrow>
                    (case kp_peer_var V of
                       None \<Rightarrow> Inl PanicNoPeer
                     | Some text \<Rightarrow>
                         (case card_parse C text of
                            Inl e \<Rightarrow> Inl PanicPeer
                          | Inr peer \<Rightarrow>
                              (case key_peer_channel (kp_channel_var V) of
                                 Inl p \<Rightarrow> Inl p
                               | Inr channel \<Rightarrow>
                                   (let configured = \<lparr>ki_identity = i, ki_self_card = self_card, ki_peers = [peer],
                                          ki_relays = DEFAULT_NOSTR_RELAYS\<rparr>;
                                        peer_key = card_public_key peer
                                    in case session_role (identity_public C i) peer_key of
                                         Host \<Rightarrow> Inr (StartServer (ServeKey configured peer_key channel))
                                       | Dial \<Rightarrow> Inr (Connect (DialKey configured peer_key channel)))))))))"

text \<open>The loop over the runtime's events: the commands sent, and the panic that ends it. \<open>None\<close> is a timeout.\<close>

fun key_peer_loop :: "ustring option \<Rightarrow> net_event option list \<Rightarrow> ui_command list \<times> key_peer_panic option" where
  "key_peer_loop pending_send [] = ([], None)"
| "key_peer_loop pending_send (None # events) = ([], Some PanicTimeout)"
| "key_peer_loop pending_send (Some event # events) =
     (case pending_send of
        Some item \<Rightarrow>
          (if event = Status Connected
           then (case key_peer_loop None events of (sent, panic) \<Rightarrow> (SendClipboard item # sent, panic))
           else key_peer_loop pending_send events)
      | None \<Rightarrow> key_peer_loop None events)"

lemma key_peer_sends_nothing_more: "fst (key_peer_loop None events) = []"
  by (induction "None :: ustring option" events rule: key_peer_loop.induct) auto

text \<open>The text is sent once, when the session first connects, and not at all before.\<close>

lemma key_peer_sends_once:
  "fst (key_peer_loop (Some item) events) =
     (if Some (Status Connected) \<in> set (takeWhile (\<lambda>e. e \<noteq> None) events) then [SendClipboard item] else [])"
proof (induction events)
  case (Cons e events)
  then show ?case using key_peer_sends_nothing_more [of events]
    by (cases e) (auto split: prod.splits)
qed simp

end
