(* ===== verification/Spec2Isabelle.thy ===== *)
theory Spec2Isabelle
  imports Identity Pin CardExchange PinAuth Runtime Subnet Txt Relays Listener Dialer Pump Resolve CardSetup Config
    Desktop Ffi Discovery Responder Android Dummy Endpoint Instances Wakeup Window
    Unicast Clipboard Journey Examples
begin

text \<open>
  A verification development of duocb, a clipboard shared by two devices. The program is a Rust
  workspace: \<open>duocb-core\<close> (identities, authentication, discovery, the session runtime), \<open>duocb\<close> (the
  desktop app) and \<open>duocb-ffi\<close> (the C and JNI surface of the mobile apps). Paths below are relative to
  \<open>src/crates\<close>; definitions carry the names of the Rust functions they translate.

  The program. Each installation has a persistent key, a short name with a permanent suffix, and a
  signed identity card. Two devices first trade cards over a connection authenticated by a PIN that one
  of them shows (card setup), and the user compares a pairing code before trusting the card. Later they
  share the clipboard: each selects the other, the two keys decide which one hosts, the host publishes a
  record under a label only the pair can compute, on the local network or on relays, and the dialer
  finds it, connects and both prove their keys. A pump then carries texts both ways, and the newest text
  is pulled again after a reconnect.

  Theories, in the order of the code's layers.
  \<^item> \<open>Prelude\<close>: UTF-8 and string functions, big-endian bytes, hexadecimal, saturating arithmetic, byte
    channels and the programs that run on them (a result, an error or waiting for ever), with weakest
    preconditions \<open>runs\<close> and the collections \<open>wp\<close>, \<open>io_simps\<close>, \<open>reads\<close>, \<open>const_simps\<close>.
    \<open>Text\<close>: decoding UTF-8, numbers, IPv4. \<open>Simulation\<close>: the locales \<open>step_invariant\<close> and \<open>simulation\<close>.
  \<^item> \<open>Identity\<close>, \<open>Pin\<close>, \<open>Protocol\<close>, \<open>Auth\<close> (\<open>duocb-core/src/identity.rs, pin.rs, protocol.rs, auth.rs\<close>):
    names, PINs, framed messages, keys, cards, signatures and the pairing code. \<open>Sample\<close>: concrete
    instances of the parameters, for the witnesses.
  \<^item> \<open>KeyAuth\<close>, \<open>PinAuth\<close>, \<open>CardExchange\<close> (\<open>key_auth.rs, pin_auth.rs, card_exchange.rs\<close>): both halves of
    the two handshakes and of the exchange, as programs on a byte channel.
  \<^item> \<open>Net\<close>, \<open>Runtime\<close> (\<open>net/mod.rs\<close>, \<open>net/runtime.rs\<close>): the vocabulary of sessions, the command loop, the
    pairing claim and the cache of PIN passwords, with their invariants.
  \<^item> \<open>Records\<close>, \<open>Subnet\<close>, \<open>Lan\<close>, \<open>Txt\<close>, \<open>Relays\<close>, \<open>Resolve\<close> (\<open>hosting_record.rs, pin_record.rs, subnet.rs,
    lan/, nostr.rs, net/endpoint.rs\<close>): rendezvous records, the host-address entry, the local carriers,
    the relay carrier, the publisher and the lookup order. \<open>Unicast\<close>: the serving half of the side
    channel. \<open>Responder\<close>: the desktop's process-wide
    responder and its guards, registrations and withdrawals that are refused included. \<open>Bonjour\<close>, \<open>BonjourLookup\<close>: the iOS half of \<open>lan/dnssd.rs\<close> over the system
    daemon, its state between polls and the lookup from browse to addresses. \<open>Discovery\<close>: the locale
    \<open>dnssd_backend\<close>, interpreted on both halves, and what a lookup returns on either.
  \<^item> \<open>Endpoint\<close> (\<open>net/endpoint.rs\<close>): the configuration of an endpoint, readiness, the bounded connect, path
    views and the path watcher.
  \<^item> \<open>Listener\<close>, \<open>Dialer\<close>, \<open>Pump\<close>, \<open>CardSetup\<close> (\<open>net/runtime.rs\<close>): the four kinds of session task.
    \<open>Transport\<close> (\<open>transport/mod.rs, iroh_quic.rs\<close>): the interface of a session end, the locales
    \<open>session_transport\<close> and \<open>byte_transport\<close>, and authentication over them. \<open>Dummy\<close> (\<open>transport/dummy.rs\<close>):
    the TCP transport in its two shapes, an instance of both.
  \<^item> \<open>Config\<close> (\<open>duocb/src/config.rs, keychain.rs, recovery.rs, main.rs\<close>): the configuration store as a
    sequence of system calls on files with content, permissions and flushing, crashes included, and the
    command line. \<open>Instances\<close>: paths, directories, names and inodes, the lock file and the lock on its
    inode, several processes on one machine as a step relation that refines the single store, and the
    startup sequence.
  \<^item> \<open>Items\<close>, \<open>App\<close>, \<open>Keys\<close>, \<open>View\<close>, \<open>Standing\<close>, \<open>Desktop\<close> (\<open>duocb/src/app/\<close>): the desktop app's state with
    every operation, callback and shortcut, the projection into the window, and the invariants and
    compositions over them. \<open>Wakeup\<close> (\<open>net/mod.rs\<close>, \<open>main.rs\<close>, \<open>app/callbacks.rs\<close>): event senders, the wake-up
    permit and the window's loop, interleaved. \<open>Window\<close> (\<open>app/sync.rs\<close>): the whole projection, and what it
    keeps to itself. \<open>Clipboard\<close> (\<open>clipboard.rs\<close>): the lazily opened handle.
  \<^item> \<open>Journey\<close>: the first session of two devices end to end, composed of the operations above: both apps, the
    publisher, the lookup, the handshake, the pumps and the events the apps apply; and what an app shows
    after an interruption anywhere in the stream.
  \<^item> \<open>Ffi\<close> (\<open>duocb-ffi/src/lib.rs\<close>): C strings, the exported helpers, start plans, the process-wide slot
    and key, and the draining of events. \<open>Android\<close> (\<open>duocb-ffi/src/android.rs\<close>): every JNI entry point, over
    a virtual machine that converts strings or does not.
  \<^item> \<open>Examples\<close> (\<open>duocb-core/examples/\<close>): the two example programs, over the TCP transport and the runtime's
    commands and events.

  Correspondence. A struct is a record, an enum a datatype, a fixed-width integer a word, an instant or
  a count a nat. An \<open>async fn\<close> over a stream is a program on a \<open>chan\<close>; its deadline is imposed where the
  caller imposes it. A task that loops is a step function or an inductive step relation, and what the
  scheduler or the network decides is the schedule, the list of rounds or the \<open>moment\<close> it is given. A
  handle for commands is the list of commands sent, a store the record of its files. Errors are sums with
  one constructor per failure; sentences shown to the user are symbolic unless the text itself matters. A
  panic is \<open>None\<close>.

  Parameters. The signature scheme and hash, PAKE, Argon2id, AEAD, serde_json, nostr events and relays,
  DNS-SD, sockets, interface enumeration, the IP network type, CRC-32, the system clipboard, the
  credential store, clocks and random draws are arguments. What a theorem needs of one of them is a named
  hypothesis (for instance \<open>mint_ok\<close>: signing keeps an event's fields; \<open>json_at\<close>: a configuration that
  serialises reads back), and its witness instantiates it.

  Bounds and fuel. Loops are structural recursion on the schedule, on the rounds that happen or on the
  list of candidates; the retry loop of the dialer is bounded by its attempt counter, the recovery loop
  by the user's answers, the TCP dial by its deadline, the in-place list update and the buffer back-off by
  their lengths; a poll loop runs on the list of polls it makes and is \<open>None\<close> when that list is too short,
  and \<open>bonjour_lookup_ends\<close> says which list is long enough. No theorem
  rests on a choice of fuel: where a loop must end, the theorem names the round at which it does.

  What the groups of theorems show. Handshakes: who is authenticated to whom, in which order proofs and
  commitments happen, that honest ends complete, that transcripts bind the channel, that only a recent
  PIN is accepted. Sessions: a claim is never reassigned, a host serves only its peer, a card-setup host
  pairs once and refines a one-shot contract, texts arrive in order
  in every schedule and up to any break, the last one reported as sent is shown once
  after a reconnect, the dialer waits for its first connection and gives up after its attempts. Discovery: what
  one side publishes the other finds, on each carrier and either DNS-SD backend, and nothing else; lookups
  end and follow the fallback order; the responder carries what the publisher holds, and more only
  where a withdrawal was refused. Transport: any
  transport whose ends name each other alike authenticates, TCP included; the internet is used only when
  the channel says so; two sides of an example session exchange their items over any of them. Persistence: a save is atomic for the file, also among several instances whose
  file names do not collide, and a restart restores the state; starting the app changes nothing by itself
  but its lock file and the directories above it. Desktop: the standing state
  stays well formed, trust is granted only by the user, two devices that select each other meet
  and the text one copies is shown by the other (\<open>first_session\<close>, from the click to the inbox), no event is
  missed, and the window shows neither the key nor the text of an item that is not peeked at. Mobile:
  plans are sound, events are delivered once, strings survive the boundary, and the two surfaces answer
  alike.

  Limits proved. A non-ASCII text can pass as a PIN and makes \<open>format_pin\<close> panic
  (\<open>non_ascii_pin_accepted\<close>); a second card setup on the same channel shows no PIN
  (\<open>second_setup_shows_no_pin\<close>); a crash between the two halves of a save under a new identity leaves a
  configuration that does not load (\<open>crash_between_key_and_file\<close>); the outbox can name a text that was
  not the one confirmed (\<open>outbox_names_unconfirmed_text\<close>); generating an identity keeps the content of
  the old peers (\<open>generate_keeps_boxes\<close>); concurrent draining with short buffers loses an event
  (\<open>concurrent_drain_loses\<close>); a configuration opened under another spelling of its path has no key
  (\<open>respelled_path_loses_key\<close>); an instance whose configuration is named like another's temporary or
  lock file loses it or shares the lock (\<open>sibling_config_lost\<close>, \<open>lock_file_as_config\<close>,
  \<open>saved_lock_file_locked_twice\<close>); a record whose withdrawal is refused outlives its guard
  (\<open>refused_record_stands\<close>); the grace for a second address family is not always waited
  (\<open>second_family_not_awaited\<close>); a text whose write an interruption breaks is neither sent later nor
  reported (\<open>text_lost_at_break\<close>); an answer delivered in the same poll as a dead descriptor is dropped
  (\<open>answer_lost_with_dead_socket\<close>); two concurrent first calls of the Android \<open>init\<close> both register
  (\<open>concurrent_init_aborts\<close>).

  Not modelled. The iroh library itself: how an endpoint binds, connects, opens streams and reports
  paths is an input of \<open>Endpoint\<close> and \<open>Transport\<close>; likewise sockets, the mdns-sd crate, the system DNS-SD
  daemon and the Java virtual machine. Paths of Windows; symbolic and hard links among the files of a configuration. The text form of IPv6 addresses. Window plumbing:
  fonts, focus, the layout of the recovery window. Logging and printing. Integration tests, and the
  Swift and Kotlin apps.
\<close>

end
